(* ===== verification/C_Prelude.thy ===== *)
theory C_Prelude
  imports Main "HOL-Library.While_Combinator" "HOL-Library.Word"
begin

text \<open>
  The prelude of the development: how a C computation is modelled.

  A C function that reads or writes state is a function from the state to either an
  error or a result and the new state.  An error is what ends the C program: a failed
  \<^verbatim>\<open>assert\<close>, a null dereference, an access to memory that is not live (or not
  initialised, or out of bounds), a \<^verbatim>\<open>free\<close> of something that is not a live
  block, an overflow of a signed integer, or a loop that never ends.  A loop is \<open>cloop\<close>, whose step either goes
  round again or leaves the loop with a value (the loop condition, \<^verbatim>\<open>break\<close>
  and \<^verbatim>\<open>return\<close>).

  The theory also holds the facts about lists that several components use.
\<close>

section \<open>Errors and computations\<close>

datatype c_error =
    Assertion_Failed string
  | Null_Dereference
  | Invalid_Access
  | Invalid_Free
  | Signed_Overflow
  | Nontermination

type_synonym ('s, 'a) cm = "'s \<Rightarrow> c_error + 'a \<times> 's"

named_theorems cm_defs \<open>unfolding of the operations of computations\<close>
named_theorems cm_intros \<open>results of the components' operations\<close>

definition creturn :: "'a \<Rightarrow> ('s, 'a) cm" where
  "creturn a = (\<lambda>s. Inr (a, s))"

definition cfail :: "c_error \<Rightarrow> ('s, 'a) cm" where
  "cfail e = (\<lambda>s. Inl e)"

definition cbind :: "('s, 'a) cm \<Rightarrow> ('a \<Rightarrow> ('s, 'b) cm) \<Rightarrow> ('s, 'b) cm" where
  "cbind f g = (\<lambda>s. case f s of Inl e \<Rightarrow> Inl e | Inr (a, t) \<Rightarrow> g a t)"

abbreviation cseq :: "('s, 'a) cm \<Rightarrow> ('s, 'b) cm \<Rightarrow> ('s, 'b) cm" where
  "cseq f g \<equiv> cbind f (\<lambda>_. g)"

definition cassert :: "bool \<Rightarrow> string \<Rightarrow> ('s, unit) cm" where
  "cassert b msg = (if b then creturn () else cfail (Assertion_Failed msg))"

definition cgets :: "('s \<Rightarrow> 'a) \<Rightarrow> ('s, 'a) cm" where
  "cgets f = (\<lambda>s. Inr (f s, s))"

definition cmodify :: "('s \<Rightarrow> 's) \<Rightarrow> ('s, unit) cm" where
  "cmodify f = (\<lambda>s. Inr ((), f s))"

text \<open>A computation on a part of the state, as a computation on the whole state.\<close>

definition clift :: "('t \<Rightarrow> 's) \<Rightarrow> ('s \<Rightarrow> 't \<Rightarrow> 't) \<Rightarrow> ('s, 'a) cm \<Rightarrow> ('t, 'a) cm" where
  "clift sel upd f = (\<lambda>t. case f (sel t) of Inl e \<Rightarrow> Inl e | Inr (a, s) \<Rightarrow> Inr (a, upd s t))"

lemma creturn_apply [simp]: "creturn a s = Inr (a, s)"
  by (simp add: creturn_def)

lemma cfail_apply [simp]: "cfail e s = Inl e"
  by (simp add: cfail_def)

lemma cbind_apply: "cbind f g s = (case f s of Inl e \<Rightarrow> Inl e | Inr (a, t) \<Rightarrow> g a t)"
  by (simp add: cbind_def)

lemma cbind_Inr [simp]: "f s = Inr (a, t) \<Longrightarrow> cbind f g s = g a t"
  by (simp add: cbind_def)

lemma cbind_Inl [simp]: "f s = Inl e \<Longrightarrow> cbind f g s = Inl e"
  by (simp add: cbind_def)

lemma cassert_apply [simp]:
  "cassert b msg s = (if b then Inr ((), s) else Inl (Assertion_Failed msg))"
  by (simp add: cassert_def)

lemma cgets_apply [simp]: "cgets f s = Inr (f s, s)"
  by (simp add: cgets_def)

lemma cmodify_apply [simp]: "cmodify f s = Inr ((), f s)"
  by (simp add: cmodify_def)

lemma clift_apply:
  "clift sel upd f t = (case f (sel t) of Inl e \<Rightarrow> Inl e | Inr (a, s) \<Rightarrow> Inr (a, upd s t))"
  by (simp add: clift_def)

lemma clift_Inr [simp]: "f (sel t) = Inr (a, s) \<Longrightarrow> clift sel upd f t = Inr (a, upd s t)"
  by (simp add: clift_def)

lemma clift_Inl [simp]: "f (sel t) = Inl e \<Longrightarrow> clift sel upd f t = Inl e"
  by (simp add: clift_def)

lemmas cm_apply = creturn_apply cfail_apply cbind_apply cassert_apply cgets_apply
  cmodify_apply clift_apply

lemma cbind_eq_Inr:
  "cbind f g s = Inr r \<longleftrightarrow> (\<exists>a t. f s = Inr (a, t) \<and> g a t = Inr r)"
  by (auto simp: cbind_def split: sum.splits)

lemma cbind_InrE [elim]:
  assumes "cbind f g s = Inr r"
  obtains a t where "f s = Inr (a, t)" and "g a t = Inr r"
  using assms by (auto simp: cbind_eq_Inr)

lemma cbind_assoc: "cbind (cbind f g) h = cbind f (\<lambda>a. cbind (g a) h)"
  by (rule ext) (auto simp: cbind_def split: sum.splits)

lemma cbind_creturn [simp]: "cbind (creturn a) g = g a"
  by (rule ext) (simp add: cbind_def)

section \<open>Loops\<close>

text \<open>
  One round of a loop at loop variable \<open>a\<close> is \<open>step a\<close>: its value \<open>Inl a'\<close> goes
  round again with \<open>a'\<close>, its value \<open>Inr b\<close> leaves the loop with \<open>b\<close>.  A loop that
  runs forever is the error \<open>Nontermination\<close>.
\<close>

definition cloop_running :: "c_error + ('a + 'b) \<times> 's \<Rightarrow> bool" where
  "cloop_running r = (case r of Inr (Inl a, s) \<Rightarrow> True | _ \<Rightarrow> False)"

definition cloop_round ::
  "('a \<Rightarrow> ('s, 'a + 'b) cm) \<Rightarrow> c_error + ('a + 'b) \<times> 's \<Rightarrow> c_error + ('a + 'b) \<times> 's" where
  "cloop_round step r = (case r of Inr (Inl a, s) \<Rightarrow> step a s | _ \<Rightarrow> r)"

definition cloop :: "('a \<Rightarrow> ('s, 'a + 'b) cm) \<Rightarrow> 'a \<Rightarrow> ('s, 'b) cm" where
  "cloop step a = (\<lambda>s.
     case while_option cloop_running (cloop_round step) (Inr (Inl a, s)) of
       None \<Rightarrow> Inl Nontermination
     | Some (Inl e) \<Rightarrow> Inl e
     | Some (Inr (Inl a', t)) \<Rightarrow> Inl Nontermination
     | Some (Inr (Inr b, t)) \<Rightarrow> Inr (b, t))"

lemma while_option_cloop_done:
  "\<not> cloop_running r \<Longrightarrow> while_option cloop_running (cloop_round step) r = Some r"
  by (subst while_option_unfold) simp

lemma cloop_unfold:
  "cloop step a s =
     (case step a s of
        Inl e \<Rightarrow> Inl e
      | Inr (Inl a', t) \<Rightarrow> cloop step a' t
      | Inr (Inr b, t) \<Rightarrow> Inr (b, t))"
proof -
  have "while_option cloop_running (cloop_round step) (Inr (Inl a, s)) =
          while_option cloop_running (cloop_round step) (step a s)"
    by (subst while_option_unfold) (simp add: cloop_running_def cloop_round_def)
  then show ?thesis
    by (auto simp: cloop_def while_option_cloop_done cloop_running_def split: sum.splits)
qed

declare cloop_unfold [code]

text \<open>
  The rule for total correctness: with an invariant that every round keeps and a measure
  that every further round decreases, the loop ends, without an error, in a state that
  satisfies the postcondition.
\<close>

lemma cloop_rule:
  fixes m :: "'a \<Rightarrow> 's \<Rightarrow> nat"
  assumes "I a s"
    and "\<And>a s. I a s \<Longrightarrow>
           (\<exists>a' t. step a s = Inr (Inl a', t) \<and> I a' t \<and> m a' t < m a s) \<or>
           (\<exists>b t. step a s = Inr (Inr b, t) \<and> Q b t)"
  shows "\<exists>b t. cloop step a s = Inr (b, t) \<and> Q b t"
  using assms(1)
proof (induction "m a s" arbitrary: a s rule: less_induct)
  case less
  from assms(2) [OF less.prems] show ?case
  proof (elim disjE exE conjE)
    fix a' t
    assume step: "step a s = Inr (Inl a', t)" and inv: "I a' t" and dec: "m a' t < m a s"
    from less.hyps [OF dec inv] show ?thesis
      by (simp add: cloop_unfold [of step a s] step)
  next
    fix b t
    assume "step a s = Inr (Inr b, t)" and "Q b t"
    then show ?thesis by (simp add: cloop_unfold)
  qed
qed

text \<open>A loop whose rounds decrease a measure, and end themselves, ends.\<close>

lemma cloop_ends:
  fixes m :: "'a \<Rightarrow> 's \<Rightarrow> nat"
  assumes dec: "\<And>a s a' t. step a s = Inr (Inl a', t) \<Longrightarrow> m a' t < m a s"
    and body: "\<And>a s. step a s \<noteq> Inl Nontermination"
  shows "cloop step a s \<noteq> Inl Nontermination"
proof (induction "m a s" arbitrary: a s rule: less_induct)
  case less
  show ?case
    using body [of a s] less dec [of a s]
    by (subst cloop_unfold) (auto split: sum.splits)
qed

text \<open>Whatever every round keeps, errors aside, the loop keeps.\<close>

lemma cloop_keeps:
  fixes step :: "'a \<Rightarrow> ('s, 'a + 'b) cm"
  assumes "cloop step a s = Inr (b, t)" and "I a s"
    and "\<And>a s a' t. I a s \<Longrightarrow> step a s = Inr (Inl a', t) \<Longrightarrow> I a' t"
    and "\<And>a s b t. I a s \<Longrightarrow> step a s = Inr (Inr b, t) \<Longrightarrow> Q b t"
  shows "Q b t"
proof -
  let ?J = "\<lambda>r :: c_error + ('a + 'b) \<times> 's.
    case r of Inl e \<Rightarrow> True | Inr (Inl a, s) \<Rightarrow> I a s | Inr (Inr b, s) \<Rightarrow> Q b s"
  from assms(1) have w: "while_option cloop_running (cloop_round step) (Inr (Inl a, s)) = Some (Inr (Inr b, t))"
    by (auto simp: cloop_def split: option.splits sum.splits)
  have "?J (Inr (Inr b, t))"
  proof (rule while_option_rule [where P = ?J, OF _ w])
    fix r
    assume "?J r" and "cloop_running r"
    then obtain a s where r: "r = Inr (Inl a, s)" and "I a s"
      by (auto simp: cloop_running_def split: sum.splits)
    then show "?J (cloop_round step r)"
      using assms(3) [OF \<open>I a s\<close>] assms(4) [OF \<open>I a s\<close>]
      by (cases "step a s") (auto simp: cloop_round_def split: sum.splits)
  qed (simp add: assms(2))
  then show ?thesis by simp
qed

section \<open>C integers and C strings\<close>

text \<open>
  A signed 32-bit \<^verbatim>\<open>int\<close> is an \<open>int\<close> in range; arithmetic that leaves the range
  is the error \<open>Signed_Overflow\<close>, and a conversion from a wider type wraps.
\<close>

definition in_i32 :: "int \<Rightarrow> bool" where
  "in_i32 i \<longleftrightarrow> - (2 ^ 31) \<le> i \<and> i < 2 ^ 31"

definition i32_add :: "int \<Rightarrow> int \<Rightarrow> ('s, int) cm" where
  "i32_add a b = (if in_i32 (a + b) then creturn (a + b) else cfail Signed_Overflow)"

definition to_i32 :: "int \<Rightarrow> int" where
  "to_i32 i = (i + 2 ^ 31) mod 2 ^ 32 - 2 ^ 31"

text \<open>The conversion to a signed 8-bit \<^verbatim>\<open>char\<close>, as the byte it keeps.\<close>

definition to_char :: "int \<Rightarrow> char" where
  "to_char i = char_of (i mod 256)"

text \<open>The value of that \<^verbatim>\<open>char\<close> when it is converted back to \<^verbatim>\<open>int\<close>.\<close>

definition to_schar :: "int \<Rightarrow> int" where
  "to_schar i = (i + 128) mod 256 - 128"

text \<open>
  A floating point constant is kept symbolically, as the rounding of the decimal number that
  was written: \<open>Nearest_Double m e\<close> is the double nearest to \<open>m * 10 ^ e\<close>, and
  \<open>Float_Cast\<close> its conversion to \<^verbatim>\<open>float\<close>.
\<close>

datatype c_double = Nearest_Double int int

datatype c_float = Float_Cast c_double

text \<open>The conversion \<^verbatim>\<open>%d\<close>.\<close>

fun show_nat :: "nat \<Rightarrow> string" where
  "show_nat n = (if n < 10 then [char_of (48 + n)] else show_nat (n div 10) @ [char_of (48 + n mod 10)])"

declare show_nat.simps [simp del]

definition show_int :: "int \<Rightarrow> string" where
  "show_int i = (if i < 0 then CHR ''-'' # show_nat (nat (- i)) else show_nat (nat i))"

lemma to_i32_range: "in_i32 (to_i32 i)"
  by (simp add: in_i32_def to_i32_def)

lemma to_i32_id: "in_i32 i \<Longrightarrow> to_i32 i = i"
  by (simp add: in_i32_def to_i32_def)

text \<open>
  A pointer to bytes is the list of the bytes that may be read from it on, \<open>None\<close> for
  \<^verbatim>\<open>NULL\<close>.  \<open>strlen\<close> and the string it delimits need a zero byte in that range.
\<close>

abbreviation NUL :: char where
  "NUL \<equiv> CHR 0x00"

definition c_strlen :: "char list option \<Rightarrow> ('s, nat) cm" where
  "c_strlen p = (\<lambda>s. case p of
     None \<Rightarrow> Inl Null_Dereference
   | Some bs \<Rightarrow> if NUL \<in> set bs then Inr (length (takeWhile (\<lambda>c. c \<noteq> NUL) bs), s)
               else Inl Invalid_Access)"

definition c_str :: "char list option \<Rightarrow> ('s, char list) cm" where
  "c_str p = (\<lambda>s. case p of
     None \<Rightarrow> Inl Null_Dereference
   | Some bs \<Rightarrow> if NUL \<in> set bs then Inr (takeWhile (\<lambda>c. c \<noteq> NUL) bs, s)
               else Inl Invalid_Access)"

lemma takeWhile_NUL [simp]: "NUL \<notin> set cs \<Longrightarrow> takeWhile (\<lambda>c. c \<noteq> NUL) (cs @ NUL # r) = cs"
  by (subst takeWhile_append2) auto

lemma c_strlen_ok [simp]:
  "NUL \<notin> set cs \<Longrightarrow> c_strlen (Some (cs @ NUL # r)) s = Inr (length cs, s)"
  by (simp add: c_strlen_def)

lemma c_str_ok [simp]:
  "NUL \<notin> set cs \<Longrightarrow> c_str (Some (cs @ NUL # r)) s = Inr (cs, s)"
  by (simp add: c_str_def)

section \<open>Running a computation over a list\<close>

text \<open>
  \<open>cforeach f xs\<close> runs \<open>f\<close> on each element in order: a counted C loop is
  \<open>cforeach body [0..<n]\<close>, and the traversals of a linked list are shown equal to it.
  \<open>cforeach_until\<close> stops after the first element for which the computation answers zero.
\<close>

primrec cforeach :: "('a \<Rightarrow> ('s, 'b) cm) \<Rightarrow> 'a list \<Rightarrow> ('s, unit) cm" where
  "cforeach f [] = creturn ()"
| "cforeach f (x # xs) = cbind (f x) (\<lambda>_. cforeach f xs)"

primrec cforeach_until :: "('a \<Rightarrow> ('s, 8 word) cm) \<Rightarrow> 'a list \<Rightarrow> ('s, unit) cm" where
  "cforeach_until f [] = creturn ()"
| "cforeach_until f (x # xs) =
     cbind (f x) (\<lambda>r. if r = 0 then creturn () else cforeach_until f xs)"

lemma cforeach_append:
  "cforeach f (xs @ ys) = cbind (cforeach f xs) (\<lambda>_. cforeach f ys)"
  by (induction xs) (auto simp: cbind_assoc)

lemma cforeach_keeps:
  assumes "cforeach f xs s = Inr (u, t)" and "I s"
    and "\<And>x s r t. x \<in> set xs \<Longrightarrow> I s \<Longrightarrow> f x s = Inr (r, t) \<Longrightarrow> I t"
  shows "I t"
  using assms
proof (induction xs arbitrary: s)
  case (Cons x xs)
  from Cons.prems(1) obtain r s' where "f x s = Inr (r, s')" and "cforeach f xs s' = Inr (u, t)"
    by auto
  with Cons show ?case by (metis list.set_intros)
qed simp

end
