(* ===== verification/Moe_List.thy ===== *)
theory Moe_List
  imports C_Prelude
begin

text \<open>
  The intrusive circular doubly linked list of \<^verbatim>\<open>moe/common/moe_list.c\<close>.

  A node is the pair of its links; a heap of nodes maps the addresses of the live nodes to
  their links, and a link is \<open>None\<close> for \<^verbatim>\<open>NULL\<close>.  The addresses are a type
  parameter: the memory of the program instantiates it with its pointers.  The traversals
  run a callback on the whole state of the program, so they take the function \<open>nds\<close> that
  reads the node heap out of that state.

  The abstraction is \<open>dlist h l xs\<close>: in \<open>h\<close>, the links of head \<open>l\<close> run forwards through
  \<open>xs\<close> back to \<open>l\<close> and backwards the same way.  Every operation is shown to be the
  corresponding operation on the sequence \<open>xs\<close>.
\<close>

section \<open>Nodes and their links\<close>

record 'p moe_list_node =
  nd_next :: "'p option"
  nd_prev :: "'p option"

type_synonym 'p nodes = "'p \<rightharpoonup> 'p moe_list_node"

type_synonym moe_bool = "8 word"

definition MOE_TRUE :: moe_bool where
  "MOE_TRUE = 1"

definition MOE_FALSE :: moe_bool where
  "MOE_FALSE = 0"

text \<open>Reading and writing one link through a pointer, \<^verbatim>\<open>p->next\<close> and \<^verbatim>\<open>p->prev\<close>.\<close>

definition load_node :: "('s \<Rightarrow> 'p nodes) \<Rightarrow> 'p option \<Rightarrow> ('s, 'p moe_list_node) cm" where
  "load_node nds p = (\<lambda>s. case p of
     None \<Rightarrow> Inl Null_Dereference
   | Some a \<Rightarrow> (case nds s a of None \<Rightarrow> Inl Invalid_Access | Some n \<Rightarrow> Inr (n, s)))"

definition rd_next :: "('s \<Rightarrow> 'p nodes) \<Rightarrow> 'p option \<Rightarrow> ('s, 'p option) cm" where
  "rd_next nds p = cbind (load_node nds p) (\<lambda>n. creturn (nd_next n))"

definition rd_prev :: "('s \<Rightarrow> 'p nodes) \<Rightarrow> 'p option \<Rightarrow> ('s, 'p option) cm" where
  "rd_prev nds p = cbind (load_node nds p) (\<lambda>n. creturn (nd_prev n))"

definition store_node :: "'p option \<Rightarrow> ('p moe_list_node \<Rightarrow> 'p moe_list_node) \<Rightarrow> ('p nodes, unit) cm" where
  "store_node p f = (\<lambda>h. case p of
     None \<Rightarrow> Inl Null_Dereference
   | Some a \<Rightarrow> (case h a of None \<Rightarrow> Inl Invalid_Access | Some n \<Rightarrow> Inr ((), h(a \<mapsto> f n))))"

definition wr_next :: "'p option \<Rightarrow> 'p option \<Rightarrow> ('p nodes, unit) cm" where
  "wr_next p q = store_node p (\<lambda>n. n\<lparr>nd_next := q\<rparr>)"

definition wr_prev :: "'p option \<Rightarrow> 'p option \<Rightarrow> ('p nodes, unit) cm" where
  "wr_prev p q = store_node p (\<lambda>n. n\<lparr>nd_prev := q\<rparr>)"

section \<open>The operations\<close>

definition moe_list_node_init :: "'p option \<Rightarrow> ('p nodes, unit) cm" where
  "moe_list_node_init node = cseq (wr_next node node) (wr_prev node node)"

definition moe_list_add_head :: "'p option \<Rightarrow> 'p option \<Rightarrow> ('p nodes, unit) cm" where
  "moe_list_add_head list node =
     cseq (cassert (list \<noteq> None \<and> node \<noteq> None) ''list or node is null'')
    (cbind (rd_next id list) (\<lambda>orig_next.
     cseq (wr_next list node)
    (cseq (wr_prev node list)
    (cseq (wr_next node orig_next)
          (wr_prev orig_next node)))))"

definition moe_list_add_tail :: "'p option \<Rightarrow> 'p option \<Rightarrow> ('p nodes, unit) cm" where
  "moe_list_add_tail list node =
     cseq (cassert (list \<noteq> None \<and> node \<noteq> None) ''list or node is null'')
    (cbind (rd_prev id list) (\<lambda>orig_prev.
     cseq (wr_prev list node)
    (cseq (wr_prev node orig_prev)
    (cseq (wr_next node list)
          (wr_next orig_prev node)))))"

definition moe_list_empty :: "('s \<Rightarrow> 'p nodes) \<Rightarrow> 'p option \<Rightarrow> ('s, moe_bool) cm" where
  "moe_list_empty nds list =
     cbind (rd_next nds list) (\<lambda>nx.
       if nx = list
       then cbind (rd_prev nds list) (\<lambda>pv. creturn (if pv = list then 1 else 0))
       else creturn 0)"

definition moe_list_head :: "('s \<Rightarrow> 'p nodes) \<Rightarrow> 'p option \<Rightarrow> ('s, 'p option) cm" where
  "moe_list_head nds list = rd_next nds list"

definition moe_list_tail :: "('s \<Rightarrow> 'p nodes) \<Rightarrow> 'p option \<Rightarrow> ('s, 'p option) cm" where
  "moe_list_tail nds list = rd_prev nds list"

definition moe_list_replace :: "'p option \<Rightarrow> 'p option \<Rightarrow> ('p nodes, 'p option) cm" where
  "moe_list_replace list node =
     cseq (cassert (list \<noteq> None \<and> node \<noteq> None) ''list or node is null'')
    (cbind (rd_prev id list) (\<lambda>pv. cseq (wr_next pv node)
    (cbind (rd_prev id list) (\<lambda>pv'. cseq (wr_prev node pv')
    (cbind (rd_next id list) (\<lambda>nx. cseq (wr_prev nx node)
    (cbind (rd_next id list) (\<lambda>nx'. cseq (wr_next node nx')
    (cseq (wr_next list None)
    (cseq (wr_prev list None)
          (creturn list)))))))))))"

definition moe_list_remove :: "'p option \<Rightarrow> ('p nodes, unit) cm" where
  "moe_list_remove node =
     cseq (cassert (node \<noteq> None) ''node is null'')
    (cbind (rd_prev id node) (\<lambda>pv. cbind (rd_next id node) (\<lambda>nx. cseq (wr_next pv nx)
    (cbind (rd_next id node) (\<lambda>nx'. cbind (rd_prev id node) (\<lambda>pv'. cseq (wr_prev nx' pv')
    (cseq (wr_next node None)
          (wr_prev node None))))))))"

subsection \<open>Traversals\<close>

definition moe_list_iterate ::
  "('s \<Rightarrow> 'p nodes) \<Rightarrow> 'p option \<Rightarrow> ('p option \<Rightarrow> ('s, unit) cm) \<Rightarrow> ('s, unit) cm" where
  "moe_list_iterate nds head iterator =
     cbind (rd_next nds head) (cloop (\<lambda>node.
       if node = head then creturn (Inr ())
       else cseq (iterator node) (cbind (rd_next nds node) (\<lambda>nx. creturn (Inl nx)))))"

definition moe_list_iterate_predicated ::
  "('s \<Rightarrow> 'p nodes) \<Rightarrow> 'p option \<Rightarrow> ('p option \<Rightarrow> ('s, moe_bool) cm) \<Rightarrow> ('s, unit) cm" where
  "moe_list_iterate_predicated nds head iterator =
     cbind (rd_next nds head) (cloop (\<lambda>node.
       if node = head then creturn (Inr ())
       else cbind (iterator node) (\<lambda>result.
              if result = 0 then creturn (Inr ())
              else cbind (rd_next nds node) (\<lambda>nx. creturn (Inl nx)))))"

definition moe_list_iterate_safe ::
  "('s \<Rightarrow> 'p nodes) \<Rightarrow> 'p option \<Rightarrow> ('p option \<Rightarrow> ('s, unit) cm) \<Rightarrow> ('s, unit) cm" where
  "moe_list_iterate_safe nds head iterator =
     cbind (rd_next nds head) (cloop (\<lambda>node.
       if node = head then creturn (Inr ())
       else cbind (rd_next nds node) (\<lambda>nx. cseq (iterator node) (creturn (Inl nx)))))"

definition moe_list_reverse_iterate ::
  "('s \<Rightarrow> 'p nodes) \<Rightarrow> 'p option \<Rightarrow> ('p option \<Rightarrow> ('s, unit) cm) \<Rightarrow> ('s, unit) cm" where
  "moe_list_reverse_iterate nds head iterator =
     cbind (rd_prev nds head) (cloop (\<lambda>node.
       if node = head then creturn (Inr ())
       else cseq (iterator node) (cbind (rd_prev nds node) (\<lambda>pv. creturn (Inl pv)))))"

definition moe_list_reverse_iterate_predicated ::
  "('s \<Rightarrow> 'p nodes) \<Rightarrow> 'p option \<Rightarrow> ('p option \<Rightarrow> ('s, moe_bool) cm) \<Rightarrow> ('s, unit) cm" where
  "moe_list_reverse_iterate_predicated nds head iterator =
     cbind (rd_prev nds head) (cloop (\<lambda>node.
       if node = head then creturn (Inr ())
       else cbind (iterator node) (\<lambda>result.
              if result = 0 then creturn (Inr ())
              else cbind (rd_prev nds node) (\<lambda>pv. creturn (Inl pv)))))"

subsection \<open>The external iterator\<close>

record 'p moe_list_iterator =
  it_current :: "'p option"
  it_head :: "'p option"

definition moe_list_iterator_init :: "'p option \<Rightarrow> 'p moe_list_iterator" where
  "moe_list_iterator_init head = \<lparr>it_current = head, it_head = head\<rparr>"

definition moe_list_iterator_next ::
  "('s \<Rightarrow> 'p nodes) \<Rightarrow> 'p moe_list_iterator \<Rightarrow> ('s, moe_bool \<times> 'p moe_list_iterator) cm" where
  "moe_list_iterator_next nds iterator =
     cbind (rd_next nds (it_current iterator)) (\<lambda>nx.
       let iterator' = iterator\<lparr>it_current := nx\<rparr> in
       if it_current iterator' = it_head iterator'
       then creturn (MOE_FALSE, iterator')
       else creturn (MOE_TRUE, iterator'))"

definition moe_list_iterator_get :: "'p moe_list_iterator \<Rightarrow> 'p option" where
  "moe_list_iterator_get iterator = it_current iterator"

text \<open>
  The loop in which the program uses the iterator,
  \<^verbatim>\<open>while (moe_list_iterator_next(&it)) body(moe_list_iterator_get(&it))\<close>.
\<close>

definition iterator_loop ::
  "('s \<Rightarrow> 'p nodes) \<Rightarrow> 'p option \<Rightarrow> ('p option \<Rightarrow> ('s, unit) cm) \<Rightarrow> ('s, unit) cm" where
  "iterator_loop nds head body =
     cloop (\<lambda>it. cbind (moe_list_iterator_next nds it) (\<lambda>(more, it').
       if more = 0 then creturn (Inr ())
       else cseq (body (moe_list_iterator_get it')) (creturn (Inl it'))))
     (moe_list_iterator_init head)"

section \<open>The sequence a head represents\<close>

definition nxt :: "'p nodes \<Rightarrow> 'p \<Rightarrow> 'p option" where
  "nxt h a = Option.bind (h a) nd_next"

definition prv :: "'p nodes \<Rightarrow> 'p \<Rightarrow> 'p option" where
  "prv h a = Option.bind (h a) nd_prev"

definition linked :: "'p nodes \<Rightarrow> 'p \<Rightarrow> 'p \<Rightarrow> bool" where
  "linked h a b \<longleftrightarrow> nxt h a = Some b \<and> prv h b = Some a"

primrec chain :: "'p nodes \<Rightarrow> 'p \<Rightarrow> 'p list \<Rightarrow> 'p \<Rightarrow> bool" where
  "chain h a [] b \<longleftrightarrow> linked h a b"
| "chain h a (x # xs) b \<longleftrightarrow> linked h a x \<and> chain h x xs b"

definition dlist :: "'p nodes \<Rightarrow> 'p \<Rightarrow> 'p list \<Rightarrow> bool" where
  "dlist h l xs \<longleftrightarrow> distinct (l # xs) \<and> chain h l xs l"

lemma chain_append [simp]:
  "chain h a (xs @ x # ys) b \<longleftrightarrow> chain h a xs x \<and> chain h x ys b"
  by (induction xs arbitrary: a) auto

lemma chain_cong:
  assumes "\<And>x. x \<in> set (a # xs) \<Longrightarrow> nxt h' x = nxt h x"
    and "\<And>x. x \<in> set (b # xs) \<Longrightarrow> prv h' x = prv h x"
  shows "chain h' a xs b = chain h a xs b"
  using assms by (induction xs arbitrary: a) (auto simp: linked_def)

lemma dlist_cong:
  assumes "\<And>x. x \<in> set (l # xs) \<Longrightarrow> nxt h' x = nxt h x"
    and "\<And>x. x \<in> set (l # xs) \<Longrightarrow> prv h' x = prv h x"
  shows "dlist h' l xs = dlist h l xs"
  unfolding dlist_def using chain_cong [of l xs h' h l] assms by simp

lemma linked_dom: "linked h a b \<Longrightarrow> a \<in> dom h \<and> b \<in> dom h"
  by (auto simp: linked_def nxt_def prv_def bind_eq_Some_conv)

lemma chain_dom: "chain h a xs b \<Longrightarrow> set (a # b # xs) \<subseteq> dom h"
  by (induction xs arbitrary: a) (auto dest: linked_dom)

lemma dlist_dom: "dlist h l xs \<Longrightarrow> set (l # xs) \<subseteq> dom h"
  using chain_dom [of h l xs l] by (auto simp: dlist_def)

lemma chain_nxt: "chain h a xs b \<Longrightarrow> nxt h a = Some (hd (xs @ [b]))"
  by (cases xs) (auto simp: linked_def)

lemma chain_prv: "chain h a xs b \<Longrightarrow> prv h b = Some (last (a # xs))"
  by (induction xs arbitrary: a) (auto simp: linked_def)

lemma dlist_Nil [simp]: "dlist h l [] \<longleftrightarrow> nxt h l = Some l \<and> prv h l = Some l"
  by (auto simp: dlist_def linked_def)

lemma dlist_first: "dlist h l (x # xs) \<Longrightarrow> nxt h l = Some x"
  by (simp add: dlist_def linked_def)

lemma dlist_nxt_in:
  "dlist h l (xs @ x # ys) \<Longrightarrow> nxt h x = Some (hd (ys @ [l]))"
  by (auto simp: dlist_def dest: chain_nxt)

lemma dlist_prv_in:
  "dlist h l (xs @ x # ys) \<Longrightarrow> prv h x = Some (last (l # xs))"
  by (auto simp: dlist_def dest: chain_prv)

text \<open>A heap represents at most one sequence at a head.\<close>

lemma chain_unique:
  "chain h a xs l \<Longrightarrow> chain h a ys l \<Longrightarrow> l \<notin> set xs \<Longrightarrow> l \<notin> set ys \<Longrightarrow> xs = ys"
proof (induction xs arbitrary: a ys)
  case Nil
  then show ?case by (cases ys) (auto simp: linked_def)
next
  case (Cons x xs)
  then show ?case by (cases ys) (auto simp: linked_def)
qed

lemma dlist_unique: "dlist h l xs \<Longrightarrow> dlist h l ys \<Longrightarrow> xs = ys"
  by (auto simp: dlist_def intro: chain_unique)

section \<open>What the primitive accesses do\<close>

lemma rd_next_Some [simp]:
  "a \<in> dom (nds s) \<Longrightarrow> rd_next nds (Some a) s = Inr (nxt (nds s) a, s)"
  by (auto simp: rd_next_def load_node_def nxt_def cbind_apply)

lemma rd_prev_Some [simp]:
  "a \<in> dom (nds s) \<Longrightarrow> rd_prev nds (Some a) s = Inr (prv (nds s) a, s)"
  by (auto simp: rd_prev_def load_node_def prv_def cbind_apply)

lemma rd_next_dead [simp]: "nds s a = None \<Longrightarrow> rd_next nds (Some a) s = Inl Invalid_Access"
  by (simp add: rd_next_def load_node_def)

lemma rd_prev_dead [simp]: "nds s a = None \<Longrightarrow> rd_prev nds (Some a) s = Inl Invalid_Access"
  by (simp add: rd_prev_def load_node_def)

lemma rd_NULL [simp]:
  "rd_next nds None s = Inl Null_Dereference" "rd_prev nds None s = Inl Null_Dereference"
  by (simp_all add: rd_next_def rd_prev_def load_node_def)

definition set_nxt :: "'p \<Rightarrow> 'p option \<Rightarrow> 'p nodes \<Rightarrow> 'p nodes" where
  "set_nxt a q h = h(a := map_option (\<lambda>n. n\<lparr>nd_next := q\<rparr>) (h a))"

definition set_prv :: "'p \<Rightarrow> 'p option \<Rightarrow> 'p nodes \<Rightarrow> 'p nodes" where
  "set_prv a q h = h(a := map_option (\<lambda>n. n\<lparr>nd_prev := q\<rparr>) (h a))"

lemma wr_next_Some [simp]: "a \<in> dom h \<Longrightarrow> wr_next (Some a) q h = Inr ((), set_nxt a q h)"
  by (auto simp: wr_next_def store_node_def set_nxt_def)

lemma wr_prev_Some [simp]: "a \<in> dom h \<Longrightarrow> wr_prev (Some a) q h = Inr ((), set_prv a q h)"
  by (auto simp: wr_prev_def store_node_def set_prv_def)

lemma dom_set [simp]: "dom (set_nxt a q h) = dom h" "dom (set_prv a q h) = dom h"
  by (auto simp: set_nxt_def set_prv_def dom_def)

lemma nxt_set_nxt [simp]:
  "a \<in> dom h \<Longrightarrow> nxt (set_nxt a q h) b = (if b = a then q else nxt h b)"
  by (auto simp: nxt_def set_nxt_def)

lemma prv_set_prv [simp]:
  "a \<in> dom h \<Longrightarrow> prv (set_prv a q h) b = (if b = a then q else prv h b)"
  by (auto simp: prv_def set_prv_def)

lemma nxt_set_prv [simp]: "nxt (set_prv a q h) b = nxt h b"
  by (cases "h a") (auto simp: nxt_def set_prv_def)

lemma prv_set_nxt [simp]: "prv (set_nxt a q h) b = prv h b"
  by (cases "h a") (auto simp: prv_def set_nxt_def)

lemma set_other [simp]:
  "b \<noteq> a \<Longrightarrow> set_nxt a q h b = h b" "b \<noteq> a \<Longrightarrow> set_prv a q h b = h b"
  by (auto simp: set_nxt_def set_prv_def)

section \<open>The operations on the sequence\<close>

definition same_elsewhere :: "'p set \<Rightarrow> 'p nodes \<Rightarrow> 'p nodes \<Rightarrow> bool" where
  "same_elsewhere A h h' \<longleftrightarrow> dom h' = dom h \<and> (\<forall>a. a \<notin> A \<longrightarrow> h' a = h a)"

lemma same_elsewhere_refl [simp]: "same_elsewhere A h h"
  by (simp add: same_elsewhere_def)

lemma same_elsewhere_set [simp]:
  "x \<in> A \<Longrightarrow> same_elsewhere A h (set_nxt x q h') = same_elsewhere A h h'"
  "x \<in> A \<Longrightarrow> same_elsewhere A h (set_prv x q h') = same_elsewhere A h h'"
  by (auto simp: same_elsewhere_def) (metis set_other)+

lemma chain_replace_end:
  assumes "chain h a xs b" and "linked h' (last (a # xs)) c"
    and "\<And>x. x \<in> set (butlast (a # xs)) \<Longrightarrow> nxt h' x = nxt h x"
    and "\<And>x. x \<in> set xs \<Longrightarrow> prv h' x = prv h x"
  shows "chain h' a xs c"
  using assms
proof (induction xs arbitrary: a)
  case (Cons x xs)
  have "linked h' a x" using Cons.prems by (auto simp: linked_def)
  moreover have "chain h' x xs c"
    using Cons.prems by (intro Cons.IH) auto
  ultimately show ?case by simp
qed simp

lemma chain_replace_start:
  assumes "chain h a xs b" and "linked h' c (hd (xs @ [b]))"
    and "\<And>x. x \<in> set xs \<Longrightarrow> nxt h' x = nxt h x"
    and "\<And>x. x \<in> set (tl (xs @ [b])) \<Longrightarrow> prv h' x = prv h x"
  shows "chain h' c xs b"
proof (cases xs)
  case (Cons x ys)
  with assms have "chain h' x ys b"
    by (subst chain_cong [of x ys h' h b]) auto
  with Cons assms(2) show ?thesis by simp
qed (use assms in simp)

lemma last_Cons_in_set: "last (a # xs) \<in> set (a # xs)"
  by (rule last_in_set) simp

lemma last_notin_butlast: "distinct (a # xs) \<Longrightarrow> x \<in> set (butlast (a # xs)) \<Longrightarrow> x \<noteq> last (a # xs)"
  by (metis append_butlast_last_id distinct_butlast list.distinct(1) not_distinct_conv_prefix)

lemma butlast_in_set: "x \<in> set (butlast (a # xs)) \<Longrightarrow> x \<in> set (a # xs)"
  by (rule in_set_butlastD)

lemma add_tail_dlist:
  assumes d: "dlist h l xs" and n: "n \<in> dom h" "n \<notin> set (l # xs)"
  defines "z \<equiv> last (l # xs)"
  defines "h' \<equiv> set_nxt z (Some n) (set_nxt n (Some l) (set_prv n (Some z) (set_prv l (Some n) h)))"
  shows "dlist h' l (xs @ [n])"
proof -
  from d have dist: "distinct (l # xs)" and ch: "chain h l xs l"
    by (simp_all add: dlist_def)
  have z: "z \<in> set (l # xs)" unfolding z_def by (rule last_Cons_in_set)
  with n have zn: "z \<noteq> n" by auto
  from d have dm: "l \<in> dom h" "z \<in> dom h" using dlist_dom [of h l xs] z by auto
  have "chain h' l xs n"
  proof (rule chain_replace_end [OF ch])
    show "linked h' (last (l # xs)) n"
      using zn n dm unfolding h'_def z_def [symmetric] linked_def by auto
    fix x
    show "x \<in> set (butlast (l # xs)) \<Longrightarrow> nxt h' x = nxt h x"
      using last_notin_butlast [OF dist, of x] butlast_in_set [of x l xs] n dm
      by (auto simp: h'_def z_def)
    show "x \<in> set xs \<Longrightarrow> prv h' x = prv h x"
      using n dist dm by (auto simp: h'_def)
  qed
  moreover have "linked h' n l"
    using n zn dm by (auto simp: linked_def h'_def)
  ultimately show ?thesis using n dist by (auto simp: dlist_def)
qed

lemma add_head_dlist:
  assumes d: "dlist h l xs" and n: "n \<in> dom h" "n \<notin> set (l # xs)"
  defines "y \<equiv> hd (xs @ [l])"
  defines "h' \<equiv> set_prv y (Some n) (set_nxt n (Some y) (set_prv n (Some l) (set_nxt l (Some n) h)))"
  shows "dlist h' l (n # xs)"
proof -
  from d have dist: "distinct (l # xs)" and ch: "chain h l xs l"
    by (simp_all add: dlist_def)
  have y: "y \<in> set (l # xs)" unfolding y_def by (cases xs) auto
  with n have yn: "y \<noteq> n" by auto
  from d have dm: "l \<in> dom h" "y \<in> dom h" using dlist_dom [of h l xs] y by auto
  have "chain h' n xs l"
  proof (rule chain_replace_start [OF ch])
    show "linked h' n (hd (xs @ [l]))"
      using yn n dm unfolding h'_def y_def [symmetric] linked_def by auto
    fix x
    show "x \<in> set xs \<Longrightarrow> nxt h' x = nxt h x"
      using n dist dm by (auto simp: h'_def)
    show "x \<in> set (tl (xs @ [l])) \<Longrightarrow> prv h' x = prv h x"
      using n dist dm by (cases xs) (auto simp: h'_def y_def)
  qed
  moreover have "linked h' l n"
    using n yn dm by (auto simp: linked_def h'_def)
  ultimately show ?thesis using n dist by (auto simp: dlist_def)
qed

lemma dlist_inside:
  assumes "dlist h l (xs @ n # ys)"
  shows "chain h l xs n" and "chain h n ys l" and "distinct (l # xs @ n # ys)"
    and "prv h n = Some (last (l # xs))" and "nxt h n = Some (hd (ys @ [l]))"
    and "last (l # xs) \<in> dom h" and "hd (ys @ [l]) \<in> dom h" and "n \<in> dom h"
    and "last (l # xs) \<noteq> n" and "hd (ys @ [l]) \<noteq> n"
    and "last (l # xs) \<in> set (l # xs)" and "hd (ys @ [l]) \<in> set (l # ys)"
proof -
  show 1: "chain h l xs n" "chain h n ys l" "distinct (l # xs @ n # ys)"
    using assms by (simp_all add: dlist_def)
  show "prv h n = Some (last (l # xs))" "nxt h n = Some (hd (ys @ [l]))"
    using 1 by (blast dest: chain_prv chain_nxt)+
  show 2: "last (l # xs) \<in> set (l # xs)" by (rule last_Cons_in_set)
  show 3: "hd (ys @ [l]) \<in> set (l # ys)" by (cases ys) auto
  show "last (l # xs) \<in> dom h" "hd (ys @ [l]) \<in> dom h" "n \<in> dom h"
    using dlist_dom [OF assms] 2 3 by auto
  show "last (l # xs) \<noteq> n" "hd (ys @ [l]) \<noteq> n"
    using 1(3) 2 3 by auto
qed

lemma remove_dlist:
  assumes d: "dlist h l (xs @ n # ys)"
  defines "a \<equiv> last (l # xs)" and "b \<equiv> hd (ys @ [l])"
  defines "h' \<equiv> set_prv n None (set_nxt n None (set_prv b (Some a) (set_nxt a (Some b) h)))"
  shows "dlist h' l (xs @ ys)"
proof -
  note i = dlist_inside [OF d, folded a_def b_def]
  have link: "linked h' a b" using i by (auto simp: linked_def h'_def)
  have before: "nxt h' x = nxt h x" if "x \<in> set (butlast (l # xs))" for x
    using that last_notin_butlast [of l xs x] butlast_in_set [of x l xs] i
    by (auto simp: h'_def a_def)
  have before': "prv h' x = prv h x" if "x \<in> set xs" for x
    using that i by (auto simp: h'_def)
  show ?thesis
  proof (cases ys)
    case Nil
    with link have "linked h' (last (l # xs)) l" by (simp add: a_def b_def)
    with Nil i show ?thesis
      using chain_replace_end [OF i(1), of h' l] before before' by (auto simp: dlist_def)
  next
    case (Cons y zs)
    with link have "linked h' (last (l # xs)) y" by (simp add: a_def b_def)
    then have "chain h' l xs y"
      using chain_replace_end [OF i(1), of h' y] before before' by auto
    moreover have "chain h y zs l" using i(2) Cons by simp
    then have "chain h' y zs l"
      using i Cons by (subst chain_cong [of y zs h' h l]) (auto simp: h'_def b_def)
    ultimately show ?thesis using Cons i(3) by (auto simp: dlist_def)
  qed
qed

lemma replace_dlist:
  assumes d: "dlist h l (xs @ n # ys)" and m: "m \<in> dom h" "m \<notin> set (l # xs @ n # ys)"
  defines "a \<equiv> last (l # xs)" and "b \<equiv> hd (ys @ [l])"
  defines "h' \<equiv> set_prv n None (set_nxt n None (set_nxt m (Some b)
             (set_prv b (Some m) (set_prv m (Some a) (set_nxt a (Some m) h)))))"
  shows "dlist h' l (xs @ m # ys)"
proof -
  note i = dlist_inside [OF d, folded a_def b_def]
  have ne: "m \<noteq> a" "m \<noteq> b" using m i(11,12) by auto
  have "chain h' l xs m"
  proof (rule chain_replace_end [OF i(1)])
    show "linked h' (last (l # xs)) m"
      using i m ne unfolding a_def [symmetric] by (auto simp: linked_def h'_def)
    fix x
    show "x \<in> set (butlast (l # xs)) \<Longrightarrow> nxt h' x = nxt h x"
      using last_notin_butlast [of l xs x] butlast_in_set [of x l xs] i m
      by (auto simp: h'_def a_def)
    show "x \<in> set xs \<Longrightarrow> prv h' x = prv h x"
      using i m by (auto simp: h'_def)
  qed
  moreover have "chain h' m ys l"
  proof (rule chain_replace_start [OF i(2)])
    show "linked h' m (hd (ys @ [l]))"
      using i m ne unfolding b_def [symmetric] by (auto simp: linked_def h'_def)
    fix x
    show "x \<in> set ys \<Longrightarrow> nxt h' x = nxt h x"
      using i m by (auto simp: h'_def)
    show "x \<in> set (tl (ys @ [l])) \<Longrightarrow> prv h' x = prv h x"
      using i m by (cases ys) (auto simp: h'_def b_def)
  qed
  ultimately show ?thesis using i(3) m by (auto simp: dlist_def)
qed

text \<open>The effect of each operation, in one statement per operation.\<close>

lemma moe_list_node_init_ok [cm_intros]:
  "a \<in> dom h \<Longrightarrow>
     \<exists>h'. moe_list_node_init (Some a) h = Inr ((), h') \<and> dlist h' a [] \<and> same_elsewhere {a} h h'"
  by (simp add: moe_list_node_init_def)

lemma moe_list_add_tail_ok [cm_intros]:
  assumes "dlist h l xs" and "n \<in> dom h" and "n \<notin> set (l # xs)"
  shows "\<exists>h'. moe_list_add_tail (Some l) (Some n) h = Inr ((), h') \<and> dlist h' l (xs @ [n]) \<and>
              same_elsewhere (set (l # n # xs)) h h'"
proof -
  have "chain h l xs l" "l \<in> dom h" "last (l # xs) \<in> dom h" "last (l # xs) \<in> set (l # xs)"
    using assms dlist_dom [of h l xs] last_Cons_in_set [of l xs] by (auto simp: dlist_def)
  then show ?thesis
    using assms add_tail_dlist [OF assms] chain_prv [of h l xs l]
    by (simp add: moe_list_add_tail_def)
qed

lemma moe_list_add_head_ok [cm_intros]:
  assumes "dlist h l xs" and "n \<in> dom h" and "n \<notin> set (l # xs)"
  shows "\<exists>h'. moe_list_add_head (Some l) (Some n) h = Inr ((), h') \<and> dlist h' l (n # xs) \<and>
              same_elsewhere (set (l # n # xs)) h h'"
proof -
  have "hd (xs @ [l]) \<in> set (l # xs)" by (cases xs) auto
  then have "chain h l xs l" "l \<in> dom h" "hd (xs @ [l]) \<in> dom h" "hd (xs @ [l]) \<in> set (l # xs)"
    using assms dlist_dom [of h l xs] by (auto simp: dlist_def)
  then show ?thesis
    using assms add_head_dlist [OF assms] chain_nxt [of h l xs l]
    by (auto simp add: moe_list_add_head_def)
qed

lemma moe_list_remove_ok [cm_intros]:
  assumes "dlist h l (xs @ n # ys)"
  shows "\<exists>h'. moe_list_remove (Some n) h = Inr ((), h') \<and> dlist h' l (xs @ ys) \<and>
              nxt h' n = None \<and> prv h' n = None \<and>
              same_elsewhere (set (l # xs @ n # ys)) h h'"
  using dlist_inside [OF assms] remove_dlist [OF assms]
  by (auto simp: moe_list_remove_def)

lemma moe_list_replace_ok [cm_intros]:
  assumes "dlist h l (xs @ n # ys)" and "m \<in> dom h" and "m \<notin> set (l # xs @ n # ys)"
  shows "\<exists>h'. moe_list_replace (Some n) (Some m) h = Inr (Some n, h') \<and> dlist h' l (xs @ m # ys) \<and>
              nxt h' n = None \<and> prv h' n = None \<and>
              same_elsewhere (set (l # m # xs @ n # ys)) h h'"
proof -
  have "m \<noteq> last (l # xs)" "m \<noteq> hd (ys @ [l])" "m \<noteq> n"
    using assms(3) dlist_inside(11,12) [OF assms(1)] by auto
  then show ?thesis
    using dlist_inside [OF assms(1)] replace_dlist [OF assms] assms(2)
    by (auto simp: moe_list_replace_def)
qed

lemma moe_list_empty_ok:
  assumes "dlist (nds s) l xs"
  shows "moe_list_empty nds (Some l) s = Inr (if xs = [] then 1 else 0, s)"
proof -
  have "nxt (nds s) l = Some (hd (xs @ [l]))" and "prv (nds s) l = Some (last (l # xs))"
    using assms by (auto simp: dlist_def dest: chain_nxt chain_prv)
  then show ?thesis
    using assms dlist_dom [OF assms]
    by (cases xs) (auto simp: moe_list_empty_def dlist_def)
qed

lemma moe_list_ends_ok:
  assumes "dlist (nds s) l xs"
  shows "moe_list_head nds (Some l) s = Inr (Some (hd (xs @ [l])), s)"
    and "moe_list_tail nds (Some l) s = Inr (Some (last (l # xs)), s)"
  using assms dlist_dom [OF assms]
  by (auto simp: moe_list_head_def moe_list_tail_def dlist_def dest: chain_nxt chain_prv)

section \<open>Traversals visit the sequence in order\<close>

text \<open>
  The traversal lemmas are stated over an invariant \<open>I zs s\<close> for the nodes \<open>zs\<close> that
  remain to be visited in state \<open>s\<close>.
\<close>

lemma moe_list_iterate_safe_inv:
  assumes "I xs s" and "nxt (nds s) l = Some (hd (xs @ [l]))" and "l \<notin> set xs"
    and nx: "\<And>x zs s. I (x # zs) s \<Longrightarrow> nxt (nds s) x = Some (hd (zs @ [l]))"
    and keep: "\<And>x zs s r t. I (x # zs) s \<Longrightarrow> f (Some x) s = Inr (r, t) \<Longrightarrow> I zs t"
  shows "moe_list_iterate_safe nds (Some l) f s = cforeach (\<lambda>x. f (Some x)) xs s"
proof -
  let ?step = "\<lambda>node. if node = Some l then creturn (Inr ())
       else cbind (rd_next nds node) (\<lambda>nx. cseq (f node) (creturn (Inl nx)))"
  have "cloop ?step (Some (hd (zs @ [l]))) s = cforeach (\<lambda>x. f (Some x)) zs s"
    if "I zs s" and "l \<notin> set zs" for zs s
    using that
  proof (induction zs arbitrary: s)
    case Nil
    then show ?case by (simp add: cloop_unfold)
  next
    case (Cons z zs)
    from nx [OF Cons.prems(1)] have "rd_next nds (Some z) s = Inr (Some (hd (zs @ [l])), s)"
      by (subst rd_next_Some) (auto simp: nxt_def bind_eq_Some_conv)
    then show ?case
      using Cons.prems Cons.IH keep [OF Cons.prems(1)]
      by (subst cloop_unfold) (auto simp: cbind_apply split: sum.splits)
  qed
  moreover have "rd_next nds (Some l) s = Inr (Some (hd (xs @ [l])), s)"
    using assms(2) by (subst rd_next_Some) (auto simp: nxt_def bind_eq_Some_conv)
  ultimately show ?thesis using assms(1,3) by (simp add: moe_list_iterate_safe_def)
qed

lemma rd_next_known: "nxt (nds s) a = Some b \<Longrightarrow> rd_next nds (Some a) s = Inr (Some b, s)"
  by (subst rd_next_Some) (auto simp: nxt_def bind_eq_Some_conv)

lemma rd_prev_known: "prv (nds s) a = Some b \<Longrightarrow> rd_prev nds (Some a) s = Inr (Some b, s)"
  by (subst rd_prev_Some) (auto simp: prv_def bind_eq_Some_conv)

text \<open>
  Traversals that read the link after the callback agree with \<open>cforeach\<close> when the callback
  leaves the node heap as it is: forwards and backwards, with and without a predicate, and
  through the external iterator.  \<open>follows rd nds l zs\<close> says that reading links with
  \<open>rd\<close> from each node of \<open>zs\<close> leads to the next one, and from the last one to \<open>l\<close>.
\<close>

definition links_untouched :: "('s \<Rightarrow> 'p nodes) \<Rightarrow> ('p option \<Rightarrow> ('s, 'b) cm) \<Rightarrow> bool" where
  "links_untouched nds f \<longleftrightarrow> (\<forall>x s r t. f x s = Inr (r, t) \<longrightarrow> nds t = nds s)"

primrec follows :: "('p \<rightharpoonup> 'p) \<Rightarrow> 'p list \<Rightarrow> 'p \<Rightarrow> bool" where
  "follows g [] l \<longleftrightarrow> True"
| "follows g (z # zs) l \<longleftrightarrow> z \<noteq> l \<and> g z = Some (hd (zs @ [l])) \<and> follows g zs l"

lemma chain_follows: "chain h a zs l \<Longrightarrow> l \<notin> set zs \<Longrightarrow> follows (nxt h) zs l"
  by (induction zs arbitrary: a) (auto dest: chain_nxt)

lemma chain_snoc_iff: "chain h a (xs @ [x]) b \<longleftrightarrow> chain h a xs x \<and> linked h x b"
  by simp

lemma chain_follows_rev: "chain h l zs b \<Longrightarrow> l \<notin> set zs \<Longrightarrow> follows (prv h) (rev zs) l"
proof (induction zs arbitrary: b rule: rev_induct)
  case (snoc z zs)
  then have "chain h l zs z" and "l \<notin> set zs" and "z \<noteq> l" by auto
  then show ?case using snoc.IH chain_prv [of h l zs z] by (cases zs rule: rev_cases) auto
qed simp

lemma dlist_follows:
  assumes "dlist h l xs"
  shows "follows (nxt h) xs l" and "follows (prv h) (rev xs) l"
  using assms chain_follows [of h l xs l] chain_follows_rev [of h l xs l]
  by (auto simp: dlist_def)

lemma loop_follows_until:
  assumes rd: "\<And>s a b. g (nds s) a = Some b \<Longrightarrow> rd (Some a) s = Inr (Some b, s)"
    and un: "links_untouched nds f" and "follows (g (nds s)) zs l"
  shows "cloop (\<lambda>node. if node = Some l then creturn (Inr ())
       else cbind (f node) (\<lambda>r. if r = 0 then creturn (Inr ())
              else cbind (rd node) (\<lambda>nx. creturn (Inl nx)))) (Some (hd (zs @ [l]))) s =
    cforeach_until (\<lambda>x. f (Some x)) zs s"
  using assms(3)
proof (induction zs arbitrary: s)
  case (Cons z zs)
  have "nds t = nds s" if "f (Some z) s = Inr (r, t)" for r t
    using un that by (auto simp: links_untouched_def)
  then show ?case
    using Cons rd by (subst cloop_unfold) (auto simp: cbind_apply split: sum.splits)
qed (simp add: cloop_unfold)

lemma loop_follows:
  assumes rd: "\<And>s a b. g (nds s) a = Some b \<Longrightarrow> rd (Some a) s = Inr (Some b, s)"
    and un: "links_untouched nds f" and "follows (g (nds s)) zs l"
  shows "cloop (\<lambda>node. if node = Some l then creturn (Inr ())
       else cseq (f node) (cbind (rd node) (\<lambda>nx. creturn (Inl nx)))) (Some (hd (zs @ [l]))) s =
    cforeach (\<lambda>x. f (Some x)) zs s"
  using assms(3)
proof (induction zs arbitrary: s)
  case (Cons z zs)
  have "nds t = nds s" if "f (Some z) s = Inr (r, t)" for r t
    using un that by (auto simp: links_untouched_def)
  then show ?case
    using Cons rd by (subst cloop_unfold) (auto simp: cbind_apply split: sum.splits)
qed (simp add: cloop_unfold)

lemma dlist_rd_ends:
  assumes "dlist (nds s) l xs"
  shows "rd_next nds (Some l) s = Inr (Some (hd (xs @ [l])), s)"
    and "rd_prev nds (Some l) s = Inr (Some (hd (rev xs @ [l])), s)"
proof -
  have "chain (nds s) l xs l" using assms by (simp add: dlist_def)
  moreover have "last (l # xs) = hd (rev xs @ [l])" by (cases xs rule: rev_cases) auto
  ultimately have "nxt (nds s) l = Some (hd (xs @ [l]))" "prv (nds s) l = Some (hd (rev xs @ [l]))"
    using chain_nxt [of "nds s" l xs l] chain_prv [of "nds s" l xs l] by auto
  then show "rd_next nds (Some l) s = Inr (Some (hd (xs @ [l])), s)"
    "rd_prev nds (Some l) s = Inr (Some (hd (rev xs @ [l])), s)"
    by (simp_all add: rd_next_known rd_prev_known)
qed

lemma moe_list_iterate_eq:
  assumes "dlist (nds s) l xs" and "links_untouched nds f"
  shows "moe_list_iterate nds (Some l) f s = cforeach (\<lambda>x. f (Some x)) xs s"
    and "moe_list_reverse_iterate nds (Some l) f s = cforeach (\<lambda>x. f (Some x)) (rev xs) s"
  using assms dlist_rd_ends [of nds s l xs] dlist_follows [OF assms(1)]
    loop_follows [of nxt nds "rd_next nds" f s xs l, OF rd_next_known]
    loop_follows [of prv nds "rd_prev nds" f s "rev xs" l, OF rd_prev_known]
  by (simp_all add: moe_list_iterate_def moe_list_reverse_iterate_def)

lemma moe_list_iterate_predicated_eq:
  assumes "dlist (nds s) l xs" and "links_untouched nds f"
  shows "moe_list_iterate_predicated nds (Some l) f s = cforeach_until (\<lambda>x. f (Some x)) xs s"
    and "moe_list_reverse_iterate_predicated nds (Some l) f s =
           cforeach_until (\<lambda>x. f (Some x)) (rev xs) s"
  using assms dlist_rd_ends [of nds s l xs] dlist_follows [OF assms(1)]
    loop_follows_until [of nxt nds "rd_next nds" f s xs l, OF rd_next_known]
    loop_follows_until [of prv nds "rd_prev nds" f s "rev xs" l, OF rd_prev_known]
  by (simp_all add: moe_list_iterate_predicated_def moe_list_reverse_iterate_predicated_def)

lemma moe_list_iterator_next_known:
  assumes "nxt (nds s) a = Some b"
  shows "moe_list_iterator_next nds \<lparr>it_current = Some a, it_head = Some l\<rparr> s =
           Inr ((if b = l then 0 else 1, \<lparr>it_current = Some b, it_head = Some l\<rparr>), s)"
  using rd_next_known [of nds s a b] assms
  by (simp add: moe_list_iterator_next_def MOE_TRUE_def MOE_FALSE_def)

lemma iterator_loop_eq:
  assumes d: "dlist (nds s) l xs" and un: "links_untouched nds f"
  shows "iterator_loop nds (Some l) f s = cforeach (\<lambda>x. f (Some x)) xs s"
proof -
  define step where "step = (\<lambda>it. cbind (moe_list_iterator_next nds it) (\<lambda>(more, it').
       if more = 0 then creturn (Inr ())
       else cseq (f (moe_list_iterator_get it')) (creturn (Inl it'))))"
  have step: "step \<lparr>it_current = Some a, it_head = Some l\<rparr> s =
      (if b = l then Inr (Inr (), s)
       else cseq (f (Some b)) (creturn (Inl \<lparr>it_current = Some b, it_head = Some l\<rparr>)) s)"
    if "nxt (nds s) a = Some b" for s a b
    using moe_list_iterator_next_known [of nds s a b l, OF that]
    by (simp add: step_def moe_list_iterator_get_def)
  have "cloop step \<lparr>it_current = Some a, it_head = Some l\<rparr> s = cforeach (\<lambda>x. f (Some x)) zs s"
    if "nxt (nds s) a = Some (hd (zs @ [l]))" and "follows (nxt (nds s)) zs l" for a zs s
    using that
  proof (induction zs arbitrary: a s)
    case (Cons z zs)
    have "nds t = nds s" if "f (Some z) s = Inr (r, t)" for r t
      using un that by (auto simp: links_untouched_def)
    then show ?case using Cons
      by (subst cloop_unfold) (auto simp: step cbind_apply split: sum.splits)
  qed (simp add: cloop_unfold step)
  then show ?thesis
    using dlist_follows(1) [OF d] d chain_nxt [of "nds s" l xs l]
    by (simp add: iterator_loop_def moe_list_iterator_init_def dlist_def step_def)
qed

section \<open>The interface of the list and its clients\<close>

text \<open>
  What the rest of the program relies on: appending, prepending and removing act on the
  represented sequence, and no operation changes which nodes are live.
\<close>

locale node_sequence =
  fixes rep :: "'h \<Rightarrow> 'p \<Rightarrow> 'p list \<Rightarrow> bool"
    and live_nodes :: "'h \<Rightarrow> 'p set"
    and init :: "'p option \<Rightarrow> ('h, unit) cm"
    and add_first :: "'p option \<Rightarrow> 'p option \<Rightarrow> ('h, unit) cm"
    and add_last :: "'p option \<Rightarrow> 'p option \<Rightarrow> ('h, unit) cm"
    and unlink :: "'p option \<Rightarrow> ('h, unit) cm"
  assumes init_law: "l \<in> live_nodes h \<Longrightarrow>
      \<exists>h'. init (Some l) h = Inr ((), h') \<and> rep h' l [] \<and> live_nodes h' = live_nodes h"
    and add_first_law: "rep h l xs \<Longrightarrow> n \<in> live_nodes h \<Longrightarrow> n \<notin> set (l # xs) \<Longrightarrow>
      \<exists>h'. add_first (Some l) (Some n) h = Inr ((), h') \<and> rep h' l (n # xs) \<and>
           live_nodes h' = live_nodes h"
    and add_last_law: "rep h l xs \<Longrightarrow> n \<in> live_nodes h \<Longrightarrow> n \<notin> set (l # xs) \<Longrightarrow>
      \<exists>h'. add_last (Some l) (Some n) h = Inr ((), h') \<and> rep h' l (xs @ [n]) \<and>
           live_nodes h' = live_nodes h"
    and unlink_law: "rep h l (xs @ n # ys) \<Longrightarrow>
      \<exists>h'. unlink (Some n) h = Inr ((), h') \<and> rep h' l (xs @ ys) \<and>
           live_nodes h' = live_nodes h"
begin

lemma add_last_all:
  assumes "rep h l xs" and "set ns \<subseteq> live_nodes h" and "distinct ns" and "set ns \<inter> set (l # xs) = {}"
  shows "\<exists>h'. cforeach (\<lambda>n. add_last (Some l) (Some n)) ns h = Inr ((), h') \<and> rep h' l (xs @ ns) \<and>
              live_nodes h' = live_nodes h"
  using assms
proof (induction ns arbitrary: h xs)
  case (Cons n ns)
  then obtain h' where h': "add_last (Some l) (Some n) h = Inr ((), h')" "rep h' l (xs @ [n])"
      "live_nodes h' = live_nodes h"
    using add_last_law [of h l xs n] by auto
  with Cons show ?case using Cons.IH [of h' "xs @ [n]"] by auto
qed simp

lemma add_first_all:
  assumes "rep h l xs" and "set ns \<subseteq> live_nodes h" and "distinct ns" and "set ns \<inter> set (l # xs) = {}"
  shows "\<exists>h'. cforeach (\<lambda>n. add_first (Some l) (Some n)) ns h = Inr ((), h') \<and> rep h' l (rev ns @ xs) \<and>
              live_nodes h' = live_nodes h"
  using assms
proof (induction ns arbitrary: h xs)
  case (Cons n ns)
  then obtain h' where h': "add_first (Some l) (Some n) h = Inr ((), h')" "rep h' l (n # xs)"
      "live_nodes h' = live_nodes h"
    using add_first_law [of h l xs n] by auto
  with Cons show ?case using Cons.IH [of h' "n # xs"] by auto
qed simp

lemma unlink_all:
  assumes "rep h l xs"
  shows "\<exists>h'. cforeach (\<lambda>n. unlink (Some n)) xs h = Inr ((), h') \<and> rep h' l [] \<and>
              live_nodes h' = live_nodes h"
  using assms
proof (induction xs arbitrary: h)
  case (Cons n ns)
  then obtain h' where h': "unlink (Some n) h = Inr ((), h')" "rep h' l ns"
      "live_nodes h' = live_nodes h"
    using unlink_law [of h l "[]" n ns] by auto
  with Cons.IH [of h'] show ?case by auto
qed simp

text \<open>A queue built on a fresh head and drained from the front ends as the empty list.\<close>

lemma fill_and_drain:
  assumes "set (l # ns) \<subseteq> live_nodes h" and "distinct (l # ns)"
  shows "\<exists>h1 h2. cseq (init (Some l)) (cforeach (\<lambda>n. add_last (Some l) (Some n)) ns) h = Inr ((), h1) \<and>
              rep h1 l ns \<and> cforeach (\<lambda>n. unlink (Some n)) ns h1 = Inr ((), h2) \<and> rep h2 l []"
proof -
  obtain h0 where h0: "init (Some l) h = Inr ((), h0)" "rep h0 l []" "live_nodes h0 = live_nodes h"
    using init_law [of l h] assms by auto
  obtain h1 where h1: "cforeach (\<lambda>n. add_last (Some l) (Some n)) ns h0 = Inr ((), h1)" "rep h1 l ns"
    using add_last_all [OF h0(2), of ns] assms h0(3) by auto
  then show ?thesis using unlink_all [OF h1(2)] h0(1) by auto
qed

end

interpretation moe_list: node_sequence dlist dom moe_list_node_init moe_list_add_head
  moe_list_add_tail moe_list_remove
proof
  fix h :: "'a nodes" and l n xs ys
  show "l \<in> dom h \<Longrightarrow>
      \<exists>h'. moe_list_node_init (Some l) h = Inr ((), h') \<and> dlist h' l [] \<and> dom h' = dom h"
    using moe_list_node_init_ok [of l h] by (auto simp: same_elsewhere_def)
  show "dlist h l xs \<Longrightarrow> n \<in> dom h \<Longrightarrow> n \<notin> set (l # xs) \<Longrightarrow>
      \<exists>h'. moe_list_add_head (Some l) (Some n) h = Inr ((), h') \<and> dlist h' l (n # xs) \<and> dom h' = dom h"
    using moe_list_add_head_ok [of h l xs n] by (auto simp: same_elsewhere_def)
  show "dlist h l xs \<Longrightarrow> n \<in> dom h \<Longrightarrow> n \<notin> set (l # xs) \<Longrightarrow>
      \<exists>h'. moe_list_add_tail (Some l) (Some n) h = Inr ((), h') \<and> dlist h' l (xs @ [n]) \<and> dom h' = dom h"
    using moe_list_add_tail_ok [of h l xs n] by (auto simp: same_elsewhere_def)
  show "dlist h l (xs @ n # ys) \<Longrightarrow>
      \<exists>h'. moe_list_remove (Some n) h = Inr ((), h') \<and> dlist h' l (xs @ ys) \<and> dom h' = dom h"
    using moe_list_remove_ok [of h l xs n ys] by (auto simp: same_elsewhere_def)
qed

end
