(* ===== verification/Moe_Alloc.thy ===== *)
theory Moe_Alloc
  imports Moe_List
begin

text \<open>
  The memory of the program and the counting allocator of \<^verbatim>\<open>moe/common/moe_alloc.c\<close>.

  Memory is a set of live blocks, numbered in the order in which they are allocated and
  never reused; a pointer returned by the allocator is \<open>Some b\<close>, and \<open>None\<close> is
  \<^verbatim>\<open>NULL\<close>.  What a block holds is an object of a type parameter \<open>'o\<close>
  (the C structs, defined with the components that own them); the list nodes embedded in
  structs live in a node heap of their own, at a block and an offset, so that an interior
  pointer such as \<^verbatim>\<open>&derived_struct->metadata.token_stream_node\<close> is a value.
  Freeing a block removes its object and its embedded nodes, and every later access to them
  is an error.

  The C library's \<^verbatim>\<open>malloc\<close> and \<^verbatim>\<open>calloc\<close> succeed, except that a request
  for a negative number of elements (a huge \<^verbatim>\<open>size_t\<close>) yields \<^verbatim>\<open>NULL\<close>.
  The messages of the verbose macros are kept as events of the standard output.
\<close>

section \<open>Memory\<close>

type_synonym block = nat

type_synonym node_ptr = "block \<times> nat"

datatype out_event =
    Out_Alloc string nat block
  | Out_Calloc string nat int "block option"
  | Out_Free "block option"
  | Out_Text string
  | Out_Float c_float

record moe_alloc_stats =
  total_allocated :: "64 word"
  total_freed :: "64 word"

record 'o mem =
  stats :: moe_alloc_stats
  fresh_block :: block
  blocks :: "block \<rightharpoonup> nat"
  objs :: "block \<rightharpoonup> 'o"
  lnodes :: "node_ptr nodes"
  stdout :: "out_event list"

definition mem_init :: "'o mem" where
  "mem_init = \<lparr>stats = \<lparr>total_allocated = 0, total_freed = 0\<rparr>, fresh_block = 0,
     blocks = Map.empty, objs = Map.empty, lnodes = Map.empty, stdout = []\<rparr>"

definition emit :: "out_event \<Rightarrow> ('o mem, unit) cm" where
  "emit e = cmodify (\<lambda>m. m\<lparr>stdout := stdout m @ [e]\<rparr>)"

definition c_malloc :: "nat \<Rightarrow> ('o mem, block) cm" where
  "c_malloc sz = (\<lambda>m. Inr (fresh_block m,
     m\<lparr>fresh_block := Suc (fresh_block m), blocks := (blocks m)(fresh_block m \<mapsto> sz)\<rparr>))"

definition c_free :: "block option \<Rightarrow> ('o mem, unit) cm" where
  "c_free p = (\<lambda>m. case p of
     None \<Rightarrow> Inr ((), m)
   | Some b \<Rightarrow>
       if blocks m b = None then Inl Invalid_Free
       else Inr ((), m\<lparr>blocks := (blocks m)(b := None), objs := (objs m)(b := None),
                       lnodes := (\<lambda>p. if fst p = b then None else lnodes m p)\<rparr>))"

text \<open>Reading and writing the object of a block, and giving a struct its embedded list node.\<close>

definition load_obj :: "block option \<Rightarrow> ('o mem, 'o) cm" where
  "load_obj p = (\<lambda>m. case p of
     None \<Rightarrow> Inl Null_Dereference
   | Some b \<Rightarrow> (case objs m b of None \<Rightarrow> Inl Invalid_Access | Some x \<Rightarrow> Inr (x, m)))"

definition store_obj :: "block option \<Rightarrow> 'o \<Rightarrow> ('o mem, unit) cm" where
  "store_obj p x = (\<lambda>m. case p of
     None \<Rightarrow> Inl Null_Dereference
   | Some b \<Rightarrow> if blocks m b = None then Inl Invalid_Access
              else Inr ((), m\<lparr>objs := (objs m)(b \<mapsto> x)\<rparr>))"

definition place_node :: "block \<Rightarrow> nat \<Rightarrow> ('o mem, unit) cm" where
  "place_node b offset =
     cmodify (\<lambda>m. m\<lparr>lnodes := (lnodes m)((b, offset) \<mapsto> \<lparr>nd_next = None, nd_prev = None\<rparr>)\<rparr>)"

definition on_lnodes :: "(node_ptr nodes, 'a) cm \<Rightarrow> ('o mem, 'a) cm" where
  "on_lnodes = clift lnodes (\<lambda>h m. m\<lparr>lnodes := h\<rparr>)"

section \<open>The counting allocator\<close>

definition moe_malloc :: "nat \<Rightarrow> ('o mem, block) cm" where
  "moe_malloc sz =
     cseq (cmodify (\<lambda>m. m\<lparr>stats := (stats m)\<lparr>total_allocated := total_allocated (stats m) + 1\<rparr>\<rparr>))
          (c_malloc sz)"

definition moe_calloc :: "int \<Rightarrow> nat \<Rightarrow> ('o mem, block option) cm" where
  "moe_calloc count sz =
     cseq (cmodify (\<lambda>m. m\<lparr>stats := (stats m)\<lparr>total_allocated := total_allocated (stats m) + 1\<rparr>\<rparr>))
          (if count < 0 then creturn None
           else cbind (c_malloc (nat count * sz)) (\<lambda>b. creturn (Some b)))"

definition moe_free :: "block option \<Rightarrow> ('o mem, unit) cm" where
  "moe_free p =
     cseq (cmodify (\<lambda>m. m\<lparr>stats := (stats m)\<lparr>total_freed := total_freed (stats m) + 1\<rparr>\<rparr>))
          (c_free p)"

definition moe_check_memory_leak :: "('o mem, unit) cm" where
  "moe_check_memory_leak =
     cbind (cgets stats) (\<lambda>st. cassert (total_allocated st = total_freed st) ''memory leak detected'')"

text \<open>The macros, in the configuration of the header (\<^verbatim>\<open>MOE_DEBUG\<close>, verbose).\<close>

definition MOE_ALLOC :: "string \<Rightarrow> nat \<Rightarrow> ('o mem, block) cm" where
  "MOE_ALLOC ty sz =
     cbind (moe_malloc sz) (\<lambda>b. cseq (emit (Out_Alloc ty sz b)) (creturn b))"

definition MOE_ALLOC_RANGE :: "string \<Rightarrow> nat \<Rightarrow> int \<Rightarrow> ('o mem, block option) cm" where
  "MOE_ALLOC_RANGE ty sz count =
     cbind (moe_calloc count sz) (\<lambda>p. cseq (emit (Out_Calloc ty sz count p)) (creturn p))"

definition MOE_FREE :: "block option \<Rightarrow> ('o mem, unit) cm" where
  "MOE_FREE p = cseq (emit (Out_Free p)) (moe_free p)"

text \<open>The heap-allocated list nodes of \<^verbatim>\<open>moe_list.c\<close>.\<close>

definition moe_list_node_alloc :: "('o mem, node_ptr option) cm" where
  "moe_list_node_alloc =
     cbind (MOE_ALLOC ''moe_list_node_t'' 16) (\<lambda>b.
     cseq (place_node b 0)
    (cseq (on_lnodes (moe_list_node_init (Some (b, 0))))
          (creturn (Some (b, 0)))))"

definition moe_list_node_free :: "node_ptr option \<Rightarrow> ('o mem, unit) cm" where
  "moe_list_node_free node = MOE_FREE (map_option fst node)"

section \<open>The allocator's invariant\<close>

text \<open>
  Live blocks are older than the next fresh one, every object and every node lies in a live
  block, and the two counters differ by the number of live blocks.
\<close>

definition mem_wf :: "'o mem \<Rightarrow> bool" where
  "mem_wf m \<longleftrightarrow>
     dom (blocks m) \<subseteq> {..<fresh_block m} \<and>
     dom (objs m) \<subseteq> dom (blocks m) \<and>
     (\<forall>b k. lnodes m (b, k) \<noteq> None \<longrightarrow> b \<in> dom (blocks m)) \<and>
     total_allocated (stats m) = total_freed (stats m) + of_nat (card (dom (blocks m)))"

lemma mem_wf_finite: "mem_wf m \<Longrightarrow> finite (dom (blocks m))"
  by (auto simp: mem_wf_def intro: finite_subset)

lemma mem_wf_init: "mem_wf mem_init"
  by (simp add: mem_wf_def mem_init_def)

lemma mem_wf_fresh: "mem_wf m \<Longrightarrow> fresh_block m \<le> b \<Longrightarrow> blocks m b = None"
  by (auto simp: mem_wf_def dom_def)

lemma mem_wf_objs: "mem_wf m \<Longrightarrow> blocks m b = None \<Longrightarrow> objs m b = None"
  by (auto simp: mem_wf_def)

lemma mem_wf_lnodes: "mem_wf m \<Longrightarrow> blocks m b = None \<Longrightarrow> lnodes m (b, k) = None"
  by (force simp: mem_wf_def)

section \<open>What allocating and freeing do to memory\<close>

text \<open>
  \<open>mem_freed F m m'\<close>: exactly the blocks \<open>F\<close> went, and the counter of frees moved by
  their number.  \<open>mem_grew A m m'\<close>: blocks were only added, all numbers from the old fresh
  one on are live, the counter of allocations moved by their number, and of the old state only
  the links of the nodes in \<open>A\<close> may have changed.
\<close>

definition mem_freed :: "block set \<Rightarrow> 'o mem \<Rightarrow> 'o mem \<Rightarrow> bool" where
  "mem_freed F m m' \<longleftrightarrow> finite F \<and>
     fresh_block m' = fresh_block m \<and>
     (\<forall>b. blocks m' b = (if b \<in> F then None else blocks m b)) \<and>
     (\<forall>b. objs m' b = (if b \<in> F then None else objs m b)) \<and>
     (\<forall>b k. lnodes m' (b, k) = (if b \<in> F then None else lnodes m (b, k))) \<and>
     total_allocated (stats m') = total_allocated (stats m) \<and>
     total_freed (stats m') = total_freed (stats m) + of_nat (card F)"

definition mem_grew :: "node_ptr set \<Rightarrow> 'o mem \<Rightarrow> 'o mem \<Rightarrow> bool" where
  "mem_grew A m m' \<longleftrightarrow> fresh_block m \<le> fresh_block m' \<and>
     (\<forall>b < fresh_block m. blocks m' b = blocks m b \<and> objs m' b = objs m b) \<and>
     (\<forall>b < fresh_block m. \<forall>k. (b, k) \<notin> A \<longrightarrow> lnodes m' (b, k) = lnodes m (b, k)) \<and>
     dom (blocks m') = dom (blocks m) \<union> {fresh_block m..<fresh_block m'} \<and>
     total_allocated (stats m') =
       total_allocated (stats m) + of_nat (fresh_block m' - fresh_block m) \<and>
     total_freed (stats m') = total_freed (stats m)"

lemma mem_freed_none [simp]: "mem_freed {} m m"
  by (simp add: mem_freed_def)

lemma mem_freed_trans:
  assumes "mem_freed F m m'" and "mem_freed G m' m''" and "F \<inter> G = {}"
  shows "mem_freed (F \<union> G) m m''"
  using assms by (auto simp: mem_freed_def card_Un_disjoint)

lemma mem_freed_stdout [simp]:
  "mem_freed F (m\<lparr>stdout := x\<rparr>) m' = mem_freed F m m'"
  "mem_freed F m (m'\<lparr>stdout := x\<rparr>) = mem_freed F m m'"
  by (simp_all add: mem_freed_def)

lemma mem_freed_outside:
  assumes "mem_freed F m m'" and "b \<notin> F"
  shows "objs m' b = objs m b" and "blocks m' b = blocks m b" and "lnodes m' (b, k) = lnodes m (b, k)"
  using assms by (auto simp: mem_freed_def)

lemma mem_freedD:
  assumes "mem_freed F m m'"
  shows "blocks m' b = (if b \<in> F then None else blocks m b)"
    and "objs m' b = (if b \<in> F then None else objs m b)"
    and "lnodes m' (b, k) = (if b \<in> F then None else lnodes m (b, k))"
  using assms by (simp_all add: mem_freed_def)

lemma mem_freed_wf:
  assumes "mem_wf m" and "mem_freed F m m'" and "F \<subseteq> dom (blocks m)"
  shows "mem_wf m'"
proof -
  note freed = mem_freedD [OF assms(2)]
  have dom: "dom (blocks m') = dom (blocks m) - F"
    by (auto simp: dom_def freed)
  have "card F \<le> card (dom (blocks m))" and "finite F"
    using assms mem_wf_finite [OF assms(1)] by (auto intro: card_mono finite_subset)
  then have "(of_nat (card (dom (blocks m))) :: 64 word) =
      of_nat (card F) + of_nat (card (dom (blocks m) - F))"
    using assms(3) by (simp add: card_Diff_subset flip: of_nat_add)
  moreover have "dom (objs m') \<subseteq> dom (blocks m) - F"
  proof
    fix b
    assume "b \<in> dom (objs m')"
    then have "b \<notin> F" and "b \<in> dom (objs m)"
      by (auto simp: freed split: if_split_asm)
    then show "b \<in> dom (blocks m) - F"
      using assms(1) by (auto simp: mem_wf_def)
  qed
  moreover have "\<forall>b k. lnodes m' (b, k) \<noteq> None \<longrightarrow> b \<in> dom (blocks m) - F"
    using assms(1) by (auto simp: freed mem_wf_def split: if_split_asm)
  moreover have "dom (blocks m) - F \<subseteq> {..<fresh_block m'}"
    and "total_allocated (stats m') = total_allocated (stats m)"
    and "total_freed (stats m') = total_freed (stats m) + of_nat (card F)"
    using assms(1,2) by (auto simp: mem_freed_def mem_wf_def)
  moreover have "total_allocated (stats m) = total_freed (stats m) + of_nat (card (dom (blocks m)))"
    using assms(1) by (simp add: mem_wf_def)
  ultimately show ?thesis
    unfolding mem_wf_def dom by simp
qed

lemma mem_grew_refl [simp]: "mem_grew A m m"
  by (simp add: mem_grew_def)

lemma mem_grew_mono: "mem_grew A m m' \<Longrightarrow> A \<subseteq> B \<Longrightarrow> mem_grew B m m'"
  by (auto simp: mem_grew_def)

lemma mem_grew_trans:
  assumes "mem_grew A m m'" and "mem_grew B m' m''"
    and "\<And>b k. (b, k) \<in> B \<Longrightarrow> b < fresh_block m \<Longrightarrow> (b, k) \<in> A"
  shows "mem_grew A m m''"
proof -
  have "(of_nat (fresh_block m'' - fresh_block m) :: 64 word) =
      of_nat (fresh_block m' - fresh_block m) + of_nat (fresh_block m'' - fresh_block m')"
    using assms by (simp add: mem_grew_def flip: of_nat_add)
  moreover have "lnodes m'' (b, k) = lnodes m (b, k)" if "b < fresh_block m" and "(b, k) \<notin> A" for b k
  proof -
    from that assms(3) have "(b, k) \<notin> B" by blast
    with that assms(1,2) show ?thesis by (simp add: mem_grew_def)
  qed
  moreover have "{fresh_block m..<fresh_block m'} \<union> {fresh_block m'..<fresh_block m''} =
      {fresh_block m..<fresh_block m''}"
    using assms by (intro ivl_disj_un) (simp_all add: mem_grew_def)
  ultimately show ?thesis
    using assms(1,2) unfolding mem_grew_def by (simp add: Un_assoc)
qed

lemma mem_grew_stdout [simp]:
  "mem_grew A (m\<lparr>stdout := x\<rparr>) m' = mem_grew A m m'"
  "mem_grew A m (m'\<lparr>stdout := x\<rparr>) = mem_grew A m m'"
  by (simp_all add: mem_grew_def)

lemma mem_wf_stdout [simp]: "mem_wf (m\<lparr>stdout := x\<rparr>) = mem_wf m"
  by (simp add: mem_wf_def)

text \<open>A region that is allocated and then freed as a whole leaves the blocks as they were.\<close>

lemma mem_grew_freed:
  assumes "mem_wf m" and "mem_grew A m m'" and "mem_freed {fresh_block m..<fresh_block m'} m' m''"
  shows "blocks m'' = blocks m" and "objs m'' b = (if b < fresh_block m then objs m b else objs m'' b)"
    and "total_allocated (stats m'') - total_freed (stats m'') =
         total_allocated (stats m) - total_freed (stats m)"
proof -
  have "blocks m'' b = blocks m b" for b
  proof (cases "b < fresh_block m'")
    case True
    then show ?thesis using assms mem_wf_fresh [OF assms(1), of b]
      by (cases "b < fresh_block m") (auto simp: mem_grew_def mem_freed_def)
  next
    case False
    then have "b \<notin> dom (blocks m')"
      using assms(1,2) by (auto simp: mem_grew_def mem_wf_def)
    with False show ?thesis
      using assms mem_wf_fresh [OF assms(1), of b] by (auto simp: mem_grew_def mem_freed_def)
  qed
  then show "blocks m'' = blocks m" by blast
  show "objs m'' b = (if b < fresh_block m then objs m b else objs m'' b)"
    using assms by (auto simp: mem_grew_def mem_freed_def)
  show "total_allocated (stats m'') - total_freed (stats m'') =
         total_allocated (stats m) - total_freed (stats m)"
    using assms by (simp add: mem_grew_def mem_freed_def)
qed

text \<open>Two memories agree on a set of blocks; the representation predicates depend on no more.\<close>

definition agree_on :: "block set \<Rightarrow> 'o mem \<Rightarrow> 'o mem \<Rightarrow> bool" where
  "agree_on F m m' \<longleftrightarrow> (\<forall>b \<in> F. objs m' b = objs m b \<and> blocks m' b = blocks m b)"

lemma agree_onD: "agree_on F m m' \<Longrightarrow> b \<in> F \<Longrightarrow> objs m' b = objs m b \<and> blocks m' b = blocks m b"
  by (simp add: agree_on_def)

lemma agree_on_refl [simp]: "agree_on F m m"
  by (simp add: agree_on_def)

lemma agree_on_subset: "agree_on F m m' \<Longrightarrow> G \<subseteq> F \<Longrightarrow> agree_on G m m'"
  by (auto simp: agree_on_def)

lemma agree_on_trans: "agree_on F m m' \<Longrightarrow> agree_on F m' m'' \<Longrightarrow> agree_on F m m''"
  by (simp add: agree_on_def)

lemma agree_on_live: "agree_on F m m' \<Longrightarrow> F \<subseteq> dom (blocks m) \<Longrightarrow> F \<subseteq> dom (blocks m')"
  unfolding agree_on_def by (metis domIff subset_iff)

lemma agree_on_freed: "mem_freed G m m' \<Longrightarrow> F \<inter> G = {} \<Longrightarrow> agree_on F m m'"
  by (auto simp: agree_on_def mem_freedD)

lemma agree_on_grew: "mem_grew A m m' \<Longrightarrow> F \<subseteq> dom (blocks m) \<Longrightarrow> mem_wf m \<Longrightarrow> agree_on F m m'"
  unfolding agree_on_def mem_grew_def mem_wf_def by (meson lessThan_iff subset_iff)

lemma agree_on_update [simp]:
  "agree_on F (m\<lparr>stdout := x\<rparr>) m' = agree_on F m m'"
  "agree_on F m (m'\<lparr>stdout := x\<rparr>) = agree_on F m m'"
  "agree_on F (m\<lparr>lnodes := y\<rparr>) m' = agree_on F m m'"
  "agree_on F m (m'\<lparr>lnodes := y\<rparr>) = agree_on F m m'"
  "b \<notin> F \<Longrightarrow> agree_on F m (m'\<lparr>objs := (objs m')(b := z)\<rparr>) = agree_on F m m'"
  by (auto simp: agree_on_def)

section \<open>The operations\<close>

lemma emit_apply [simp]: "emit e m = Inr ((), m\<lparr>stdout := stdout m @ [e]\<rparr>)"
  by (simp add: emit_def)

lemma c_malloc_ok:
  assumes "mem_wf m"
  shows "\<exists>m'. moe_malloc sz m = Inr (fresh_block m, m') \<and> mem_wf m' \<and> mem_grew {} m m' \<and>
     fresh_block m' = Suc (fresh_block m) \<and> blocks m' (fresh_block m) = Some sz \<and>
     objs m' = objs m \<and> lnodes m' = lnodes m"
proof -
  have "blocks m (fresh_block m) = None" using assms by (rule mem_wf_fresh) simp
  then have "card (insert (fresh_block m) (dom (blocks m))) = Suc (card (dom (blocks m)))"
    using mem_wf_finite [OF assms] by (subst card_insert_disjoint) auto
  then show ?thesis
    using assms by (auto simp: moe_malloc_def c_malloc_def cbind_apply mem_wf_def mem_grew_def
        atLeastLessThanSuc)
qed

lemma MOE_ALLOC_ok [cm_intros]:
  assumes "mem_wf m"
  shows "\<exists>m'. MOE_ALLOC ty sz m = Inr (fresh_block m, m') \<and> mem_wf m' \<and> mem_grew {} m m' \<and>
     fresh_block m' = Suc (fresh_block m) \<and> blocks m' (fresh_block m) = Some sz \<and>
     objs m' = objs m \<and> lnodes m' = lnodes m"
proof -
  obtain m' where "moe_malloc sz m = Inr (fresh_block m, m')" "mem_wf m'" "mem_grew {} m m'"
     "fresh_block m' = Suc (fresh_block m)" "blocks m' (fresh_block m) = Some sz"
     "objs m' = objs m" "lnodes m' = lnodes m"
    using c_malloc_ok [OF assms] by blast
  then show ?thesis by (simp add: MOE_ALLOC_def)
qed

lemma moe_calloc_malloc:
  "0 \<le> count \<Longrightarrow> moe_calloc count sz m =
     (case moe_malloc (nat count * sz) m of Inl e \<Rightarrow> Inl e | Inr (b, m') \<Rightarrow> Inr (Some b, m'))"
  by (simp add: moe_calloc_def moe_malloc_def c_malloc_def cbind_apply)

lemma MOE_ALLOC_RANGE_ok [cm_intros]:
  assumes "mem_wf m" and "0 \<le> count"
  shows "\<exists>m'. MOE_ALLOC_RANGE ty sz count m = Inr (Some (fresh_block m), m') \<and> mem_wf m' \<and>
     mem_grew {} m m' \<and>
     fresh_block m' = Suc (fresh_block m) \<and> blocks m' (fresh_block m) = Some (nat count * sz) \<and>
     objs m' = objs m \<and> lnodes m' = lnodes m"
proof -
  obtain m' where "moe_malloc (nat count * sz) m = Inr (fresh_block m, m')" "mem_wf m'"
     "mem_grew {} m m'" "fresh_block m' = Suc (fresh_block m)"
     "blocks m' (fresh_block m) = Some (nat count * sz)"
     "objs m' = objs m" "lnodes m' = lnodes m"
    using c_malloc_ok [OF assms(1)] by blast
  then show ?thesis by (simp add: MOE_ALLOC_RANGE_def moe_calloc_malloc [OF assms(2)])
qed

lemma MOE_FREE_ok [cm_intros]:
  assumes "blocks m b \<noteq> None"
  shows "\<exists>m'. MOE_FREE (Some b) m = Inr ((), m') \<and> mem_freed {b} m m'"
  using assms by (auto simp: MOE_FREE_def moe_free_def c_free_def mem_freed_def)

lemma MOE_FREE_dead: "blocks m b = None \<Longrightarrow> MOE_FREE (Some b) m = Inl Invalid_Free"
  by (simp add: MOE_FREE_def moe_free_def c_free_def)

lemma load_obj_Some [simp]: "objs m b = Some x \<Longrightarrow> load_obj (Some b) m = Inr (x, m)"
  by (simp add: load_obj_def)

lemma load_obj_dead [simp]: "objs m b = None \<Longrightarrow> load_obj (Some b) m = Inl Invalid_Access"
  by (simp add: load_obj_def)

lemma load_obj_NULL [simp]: "load_obj None m = Inl Null_Dereference"
  by (simp add: load_obj_def)

lemma store_obj_Some [simp]:
  "blocks m b \<noteq> None \<Longrightarrow> store_obj (Some b) x m = Inr ((), m\<lparr>objs := (objs m)(b \<mapsto> x)\<rparr>)"
  by (simp add: store_obj_def)

lemma mem_wf_store: "mem_wf m \<Longrightarrow> blocks m b \<noteq> None \<Longrightarrow> mem_wf (m\<lparr>objs := (objs m)(b \<mapsto> x)\<rparr>)"
  by (auto simp: mem_wf_def)

lemma mem_grew_store_new:
  "mem_grew A m m' \<Longrightarrow> fresh_block m \<le> b \<Longrightarrow> mem_grew A m (m'\<lparr>objs := (objs m')(b \<mapsto> x)\<rparr>)"
  by (auto simp: mem_grew_def)

section \<open>Lists of allocated nodes\<close>

abbreviation own_nodes :: "block list \<Rightarrow> node_ptr list" where
  "own_nodes bs \<equiv> map (\<lambda>b. (b, 0)) bs"

lemma free_all_ok:
  assumes "distinct bs" and "set bs \<subseteq> dom (blocks m)"
  shows "\<exists>m'. cforeach (\<lambda>b. MOE_FREE (Some b)) bs m = Inr ((), m') \<and> mem_freed (set bs) m m'"
  using assms
proof (induction bs arbitrary: m)
  case (Cons b bs)
  then obtain m1 where m1: "MOE_FREE (Some b) m = Inr ((), m1)" "mem_freed {b} m m1"
    using MOE_FREE_ok [of m b] by auto
  then have "set bs \<subseteq> dom (blocks m1)"
    using Cons.prems by (auto simp: mem_freedD(1))
  then obtain m2 where m2: "cforeach (\<lambda>b. MOE_FREE (Some b)) bs m1 = Inr ((), m2)" "mem_freed (set bs) m1 m2"
    using Cons.IH [of m1] Cons.prems(1) by auto
  have "mem_freed (set (b # bs)) m m2" using mem_freed_trans [OF m1(2) m2(2)] Cons.prems(1) by simp
  then show ?case using m1(1) m2(1) by auto
qed simp

text \<open>The safe traversal has read the link of a node when its callback frees the node.\<close>

lemma iterate_safe_frees:
  fixes m :: "'o mem"
  assumes d: "dlist (lnodes m) l (own_nodes bs)" and live: "set bs \<subseteq> dom (blocks m)" and l: "fst l \<notin> set bs"
  shows "\<exists>m'. moe_list_iterate_safe lnodes (Some l) moe_list_node_free m = Inr ((), m') \<and> mem_freed (set bs) m m'"
proof -
  define I where "I = (\<lambda>zs (m :: 'o mem). \<exists>bs. zs = own_nodes bs \<and> distinct bs \<and> follows (nxt (lnodes m)) zs l)"
  have dist: "distinct bs" using d by (auto simp: dlist_def distinct_map)
  have keep: "I zs t" if i: "I (x # zs) s" and run: "moe_list_node_free (Some x) s = Inr (u, t)" for x zs s u t
  proof -
    from i obtain b bs where b: "x = (b, 0)" "zs = own_nodes bs" "distinct (b # bs)" "follows (nxt (lnodes s)) zs l"
      unfolding I_def by auto
    from run have "blocks s b \<noteq> None" using MOE_FREE_dead [of s b] b(1) by (auto simp: moe_list_node_free_def)
    then have "mem_freed {b} s t" using run MOE_FREE_ok [of s b] b(1) by (auto simp: moe_list_node_free_def)
    then have "nxt (lnodes t) z = nxt (lnodes s) z" if "z \<in> set zs" for z
      using that b(2,3) by (auto simp: nxt_def mem_freedD)
    then have "follows (nxt (lnodes t)) zs l"
      using b(4) by (induction zs) auto
    then show ?thesis using b(2,3) unfolding I_def by auto
  qed
  have "moe_list_iterate_safe lnodes (Some l) moe_list_node_free m =
      cforeach (\<lambda>x. moe_list_node_free (Some x)) (own_nodes bs) m"
  proof (rule moe_list_iterate_safe_inv [where I = I])
    show "I (own_nodes bs) m" using dlist_follows(1) [OF d] dist unfolding I_def by blast
    show "nxt (lnodes m) l = Some (hd (own_nodes bs @ [l]))" using d by (auto simp: dlist_def dest: chain_nxt)
    show "l \<notin> set (own_nodes bs)" using l by auto
    show "\<And>x zs s. I (x # zs) s \<Longrightarrow> nxt (lnodes s) x = Some (hd (zs @ [l]))" by (auto simp: I_def)
  qed (use keep in blast)
  also have "\<dots> = cforeach (\<lambda>b. MOE_FREE (Some b)) bs m"
    by (rule fun_cong [where x = m], induction bs) (auto simp: moe_list_node_free_def)
  finally show ?thesis using free_all_ok [OF dist live] by simp
qed

text \<open>The other traversal reads the link after that, from the freed node.\<close>

lemma iterate_uses_freed:
  assumes d: "dlist (lnodes m) l (own_nodes (b # bs))" and live: "b \<in> dom (blocks m)"
  shows "moe_list_iterate lnodes (Some l) moe_list_node_free m = Inl Invalid_Access"
proof -
  have "nxt (lnodes m) l = Some (b, 0)" and ne: "(b, 0) \<noteq> l" using d by (auto simp: dlist_def linked_def)
  then have first: "rd_next lnodes (Some l) m = Inr (Some (b, 0), m)" by (intro rd_next_known) simp
  obtain t where t: "moe_list_node_free (Some (b, 0)) m = Inr ((), t)" "mem_freed {b} m t"
    using MOE_FREE_ok [of m b] live by (auto simp: moe_list_node_free_def)
  then have "lnodes t (b, 0) = None" by (simp add: mem_freedD)
  then have "rd_next lnodes (Some (b, 0)) t = Inl Invalid_Access" by (simp add: rd_next_def load_node_def)
  then show ?thesis
    using first t(1) ne by (simp add: moe_list_iterate_def cloop_unfold)
qed

end
