(* ===== verification/Ownership.thy ===== *)
theory Ownership
  imports Moe_Alloc
begin

text \<open>
  The interface between the components that own memory and the code that uses them.

  A component describes what it keeps in memory by a predicate \<open>R m x y F\<close>: in memory \<open>m\<close>,
  handle \<open>x\<close> represents the abstract value \<open>y\<close> and owns exactly the blocks \<open>F\<close>.  The
  locale \<open>owned\<close> asks that the predicate depends on those blocks only and that they are live; the
  locale \<open>destructible\<close> adds a destructor that removes exactly them.  What follows for
  sequences of such handles (arrays, lists) is proved here once.
\<close>

primrec rep_list ::
  "('o mem \<Rightarrow> 'x \<Rightarrow> 'y \<Rightarrow> block set \<Rightarrow> bool) \<Rightarrow> 'o mem \<Rightarrow> 'x list \<Rightarrow> 'y list \<Rightarrow> block set \<Rightarrow> bool" where
  "rep_list R m [] ys F \<longleftrightarrow> ys = [] \<and> F = {}"
| "rep_list R m (x # xs) ys F \<longleftrightarrow>
     (\<exists>y ys' F1 F2. ys = y # ys' \<and> R m x y F1 \<and> rep_list R m xs ys' F2 \<and> F1 \<inter> F2 = {} \<and> F = F1 \<union> F2)"

locale owned =
  fixes R :: "'o mem \<Rightarrow> 'x \<Rightarrow> 'y \<Rightarrow> block set \<Rightarrow> bool"
  assumes agree_law: "R m x y F \<Longrightarrow> agree_on F m m' \<Longrightarrow> R m' x y F"
    and live_law: "R m x y F \<Longrightarrow> F \<subseteq> dom (blocks m)"
    and finite_law: "R m x y F \<Longrightarrow> finite F"
begin

lemma after_free: "R m x y F \<Longrightarrow> mem_freed G m m' \<Longrightarrow> F \<inter> G = {} \<Longrightarrow> R m' x y F"
  by (blast intro: agree_law agree_on_freed)

lemma after_growth: "R m x y F \<Longrightarrow> mem_wf m \<Longrightarrow> mem_grew A m m' \<Longrightarrow> R m' x y F"
  by (rule agree_law) (auto intro: agree_on_grew dest: live_law)

lemma list_agree: "rep_list R m xs ys F \<Longrightarrow> agree_on F m m' \<Longrightarrow> rep_list R m' xs ys F"
proof (induction xs arbitrary: ys F)
  case (Cons x xs)
  then obtain y ys' F1 F2 where *: "ys = y # ys'" "R m x y F1" "rep_list R m xs ys' F2"
      "F1 \<inter> F2 = {}" "F = F1 \<union> F2"
    by auto
  moreover have "R m' x y F1"
    using * Cons.prems(2) by (auto intro: agree_law agree_on_subset)
  moreover have "rep_list R m' xs ys' F2"
    using * Cons.prems(2) by (auto intro: Cons.IH agree_on_subset)
  ultimately show ?case by auto
qed simp

lemma list_live: "rep_list R m xs ys F \<Longrightarrow> F \<subseteq> dom (blocks m) \<and> finite F"
  by (induction xs arbitrary: ys F) (auto dest: live_law finite_law)

lemma list_length: "rep_list R m xs ys F \<Longrightarrow> length xs = length ys"
  by (induction xs arbitrary: ys F) auto

lemma list_after_free:
  "rep_list R m xs ys F \<Longrightarrow> mem_freed G m m' \<Longrightarrow> F \<inter> G = {} \<Longrightarrow> rep_list R m' xs ys F"
  by (blast intro: list_agree agree_on_freed)

lemma list_after_growth:
  "rep_list R m xs ys F \<Longrightarrow> mem_wf m \<Longrightarrow> mem_grew A m m' \<Longrightarrow> rep_list R m' xs ys F"
  by (rule list_agree) (auto intro: agree_on_grew dest: list_live)

lemma list_snoc:
  assumes "rep_list R m xs ys F" and "R m x y G" and "F \<inter> G = {}"
  shows "rep_list R m (xs @ [x]) (ys @ [y]) (F \<union> G)"
  using assms
proof (induction xs arbitrary: ys F)
  case (Cons a xs)
  then obtain b ys' F1 F2 where *: "ys = b # ys'" "R m a b F1" "rep_list R m xs ys' F2"
      "F1 \<inter> F2 = {}" "F = F1 \<union> F2"
    by auto
  then have "rep_list R m (xs @ [x]) (ys' @ [y]) (F2 \<union> G)"
    using Cons.prems by (intro Cons.IH) auto
  moreover have "F1 \<inter> (F2 \<union> G) = {}" and "F \<union> G = F1 \<union> (F2 \<union> G)"
    using * Cons.prems by auto
  ultimately show ?case using *(1,2) by auto
qed auto

lemma list_in: "rep_list R m xs ys F \<Longrightarrow> x \<in> set xs \<Longrightarrow> \<exists>y G. R m x y G \<and> G \<subseteq> F"
  by (induction xs arbitrary: ys F) (auto, blast+)

end

locale destructible = owned R for R :: "'o mem \<Rightarrow> 'x \<Rightarrow> 'y \<Rightarrow> block set \<Rightarrow> bool" +
  fixes destroy :: "'x \<Rightarrow> ('o mem, unit) cm"
  assumes destroy_law: "R m x y F \<Longrightarrow> \<exists>m'. destroy x m = Inr ((), m') \<and> mem_freed F m m'"
begin

lemma destroy_all:
  "rep_list R m xs ys F \<Longrightarrow> \<exists>m'. cforeach destroy xs m = Inr ((), m') \<and> mem_freed F m m'"
proof (induction xs arbitrary: m ys F)
  case (Cons x xs)
  then obtain y ys' F1 F2 where *: "R m x y F1" "rep_list R m xs ys' F2" "F1 \<inter> F2 = {}"
      "F = F1 \<union> F2"
    by auto
  obtain m1 where m1: "destroy x m = Inr ((), m1)" "mem_freed F1 m m1"
    using destroy_law [OF *(1)] by blast
  then have "rep_list R m1 xs ys' F2"
    using * by (auto intro: list_after_free)
  from Cons.IH [OF this] obtain m2 where "cforeach destroy xs m1 = Inr ((), m2)" "mem_freed F2 m1 m2"
    by blast
  with m1 * show ?case by (auto intro: mem_freed_trans)
qed simp

text \<open>Creating something out of fresh blocks and destroying it leaves no block behind.\<close>

lemma create_destroy:
  assumes "mem_wf m" and "mem_grew A m m'" and "R m' x y {fresh_block m..<fresh_block m'}"
  shows "\<exists>m''. destroy x m' = Inr ((), m'') \<and> blocks m'' = blocks m \<and>
     total_allocated (stats m'') - total_freed (stats m'') =
     total_allocated (stats m) - total_freed (stats m)"
  using destroy_law [OF assms(3)] mem_grew_freed [OF assms(1,2)] by blast

end

end
