(* ===== verification/Moe_Types.thy ===== *)
theory Moe_Types
  imports Ownership
begin

text \<open>
  The C structs of the program as records, and the objects that a memory block can hold.
  A pointer to a struct is the block it was allocated in.  The list node that heads the token
  stream of a \<^verbatim>\<open>moe_derived_struct_t\<close> lies at offset 24 of its block (after the
  name, the count with its padding, and the array pointer), the one that starts a token stream
  node lies at offset 0.
\<close>

section \<open>Structs\<close>

record moe_string_internal =
  si_data :: "block option"
  si_ref_count :: int

record moe_string =
  str_internal :: "block option"
  str_length :: int
  str_capacity :: int

datatype moe_token_type =
    MOE_TOKEN_UNKNOWN
  | MOE_TOKEN_IDENTIFIER
  | MOE_TOKEN_PUNCTUATION
  | MOE_TOKEN_STRING_LITERAL
  | MOE_TOKEN_INT_LITERAL
  | MOE_TOKEN_FLOAT_LITERAL

primrec moe_token_type_to_string :: "moe_token_type \<Rightarrow> string" where
  "moe_token_type_to_string MOE_TOKEN_UNKNOWN = ''moe_token_type_unknown''"
| "moe_token_type_to_string MOE_TOKEN_IDENTIFIER = ''moe_token_type_identifier''"
| "moe_token_type_to_string MOE_TOKEN_PUNCTUATION = ''moe_token_type_punctuation''"
| "moe_token_type_to_string MOE_TOKEN_STRING_LITERAL = ''moe_token_type_string_literal''"
| "moe_token_type_to_string MOE_TOKEN_INT_LITERAL = ''moe_token_type_int_literal''"
| "moe_token_type_to_string MOE_TOKEN_FLOAT_LITERAL = ''moe_token_type_float_literal''"

text \<open>The anonymous union of \<^verbatim>\<open>moe_token_t\<close>: the member that was written last.\<close>

datatype moe_token_value =
    Int_Value int
  | Float_Value c_float
  | Str_Value "block option"

record moe_token =
  tok_value :: moe_token_value
  tok_type :: moe_token_type

record moe_derive_arg =
  arg_type :: "block option"
  arg_name :: "block option"

record moe_derive_item =
  derive_handler_name :: "block option"
  arg_num :: int
  item_args :: "block option"

record moe_derived_struct =
  struct_name :: "block option"
  derive_item_num :: int
  derive_items :: "block option"

datatype obj =
    Obj_Chars "char list"
  | Obj_String_Internal moe_string_internal
  | Obj_String moe_string
  | Obj_Token moe_token
  | Obj_Stream_Node "block option"
  | Obj_Derive_Args "moe_derive_arg list"
  | Obj_Derive_Items "moe_derive_item list"
  | Obj_Derived_Struct moe_derived_struct
  | Obj_Js_Runtime

type_synonym heap = "obj mem"

section \<open>Typed accesses\<close>

definition load_chars :: "block option \<Rightarrow> (heap, char list) cm" where
  "load_chars p = cbind (load_obj p) (\<lambda>x. case x of Obj_Chars cs \<Rightarrow> creturn cs | _ \<Rightarrow> cfail Invalid_Access)"

definition load_string_internal :: "block option \<Rightarrow> (heap, moe_string_internal) cm" where
  "load_string_internal p =
     cbind (load_obj p) (\<lambda>x. case x of Obj_String_Internal r \<Rightarrow> creturn r | _ \<Rightarrow> cfail Invalid_Access)"

definition load_string :: "block option \<Rightarrow> (heap, moe_string) cm" where
  "load_string p = cbind (load_obj p) (\<lambda>x. case x of Obj_String r \<Rightarrow> creturn r | _ \<Rightarrow> cfail Invalid_Access)"

definition load_token :: "block option \<Rightarrow> (heap, moe_token) cm" where
  "load_token p = cbind (load_obj p) (\<lambda>x. case x of Obj_Token r \<Rightarrow> creturn r | _ \<Rightarrow> cfail Invalid_Access)"

definition load_stream_node :: "block option \<Rightarrow> (heap, block option) cm" where
  "load_stream_node p =
     cbind (load_obj p) (\<lambda>x. case x of Obj_Stream_Node r \<Rightarrow> creturn r | _ \<Rightarrow> cfail Invalid_Access)"

definition load_derive_args :: "block option \<Rightarrow> (heap, moe_derive_arg list) cm" where
  "load_derive_args p =
     cbind (load_obj p) (\<lambda>x. case x of Obj_Derive_Args r \<Rightarrow> creturn r | _ \<Rightarrow> cfail Invalid_Access)"

definition load_derive_items :: "block option \<Rightarrow> (heap, moe_derive_item list) cm" where
  "load_derive_items p =
     cbind (load_obj p) (\<lambda>x. case x of Obj_Derive_Items r \<Rightarrow> creturn r | _ \<Rightarrow> cfail Invalid_Access)"

definition load_derived_struct :: "block option \<Rightarrow> (heap, moe_derived_struct) cm" where
  "load_derived_struct p =
     cbind (load_obj p) (\<lambda>x. case x of Obj_Derived_Struct r \<Rightarrow> creturn r | _ \<Rightarrow> cfail Invalid_Access)"

lemmas typed_load_defs = load_chars_def load_string_internal_def load_string_def load_token_def
  load_stream_node_def load_derive_args_def load_derive_items_def load_derived_struct_def

lemma typed_load_Some [simp]:
  "objs m b = Some (Obj_Chars cs) \<Longrightarrow> load_chars (Some b) m = Inr (cs, m)"
  "objs m b = Some (Obj_String_Internal si) \<Longrightarrow> load_string_internal (Some b) m = Inr (si, m)"
  "objs m b = Some (Obj_String st) \<Longrightarrow> load_string (Some b) m = Inr (st, m)"
  "objs m b = Some (Obj_Token tk) \<Longrightarrow> load_token (Some b) m = Inr (tk, m)"
  "objs m b = Some (Obj_Stream_Node p) \<Longrightarrow> load_stream_node (Some b) m = Inr (p, m)"
  "objs m b = Some (Obj_Derive_Args ar) \<Longrightarrow> load_derive_args (Some b) m = Inr (ar, m)"
  "objs m b = Some (Obj_Derive_Items it) \<Longrightarrow> load_derive_items (Some b) m = Inr (it, m)"
  "objs m b = Some (Obj_Derived_Struct ds) \<Longrightarrow> load_derived_struct (Some b) m = Inr (ds, m)"
  by (simp_all add: typed_load_defs)

lemma typed_load_dead [simp]:
  "objs m b = None \<Longrightarrow> load_chars (Some b) m = Inl Invalid_Access"
  "objs m b = None \<Longrightarrow> load_string_internal (Some b) m = Inl Invalid_Access"
  "objs m b = None \<Longrightarrow> load_string (Some b) m = Inl Invalid_Access"
  "objs m b = None \<Longrightarrow> load_token (Some b) m = Inl Invalid_Access"
  by (simp_all add: typed_load_defs)

end
