(* ===== verification/Moe_String.thy ===== *)
theory Moe_String
  imports Moe_Types
begin

text \<open>
  The reference-counted strings of \<^verbatim>\<open>moe/common/moe_string.c\<close>.

  \<open>string_at m s cs F\<close> says that block \<open>s\<close> holds a string with content \<open>cs\<close> and
  reference count one, and that its three blocks are \<open>F\<close>.  The lemmas give the effect of
  every operation on that abstraction: allocation copies the bytes and terminates them, freeing
  removes exactly the three blocks, comparison decides equality of zero-free contents, and a
  clone shares the buffer without counting the new reference.
\<close>

section \<open>The operations\<close>

definition effective_length :: "char list option \<Rightarrow> int \<Rightarrow> (heap, int) cm" where
  "effective_length data len =
     (if len = 0 then cbind (c_strlen data) (\<lambda>n. creturn (to_i32 (int n))) else creturn len)"

text \<open>The zeroed buffer of \<^verbatim>\<open>calloc\<close>, then \<^verbatim>\<open>memcpy\<close> and the terminator.\<close>

definition fill_buffer :: "char list option \<Rightarrow> int \<Rightarrow> block option \<Rightarrow> (heap, unit) cm" where
  "fill_buffer data capacity buf =
     cseq (case buf of None \<Rightarrow> creturn ()
           | Some b \<Rightarrow> store_obj buf (Obj_Chars (replicate (nat capacity) NUL)))
          (case data of
             None \<Rightarrow> creturn ()
           | Some bs \<Rightarrow>
               if 0 < capacity \<and> nat capacity \<le> length bs
               then store_obj buf (Obj_Chars ((take (nat capacity) bs)[nat capacity - 1 := NUL]))
               else cfail Invalid_Access)"

definition moe_string_alloc :: "char list option \<Rightarrow> int \<Rightarrow> (heap, block option) cm" where
  "moe_string_alloc data length0 =
     cbind (MOE_ALLOC ''moe_string_t'' 16) (\<lambda>str.
     cbind (effective_length data length0) (\<lambda>len.
     cbind (i32_add len 1) (\<lambda>capacity.
     cbind (MOE_ALLOC ''struct _moe_string_internal_s'' 16) (\<lambda>internal.
     cbind (MOE_ALLOC_RANGE ''char'' 1 capacity) (\<lambda>buf.
     cseq (fill_buffer data capacity buf)
    (cseq (store_obj (Some str)
             (Obj_String \<lparr>str_internal = Some internal, str_length = len, str_capacity = capacity\<rparr>))
    (cseq (store_obj (Some internal) (Obj_String_Internal \<lparr>si_data = buf, si_ref_count = 1\<rparr>))
          (creturn (Some str)))))))))"

definition moe_string_clone :: "block option \<Rightarrow> (heap, block option) cm" where
  "moe_string_clone str =
     cseq (cassert (str \<noteq> None) ''str != NULL'')
    (cbind (MOE_ALLOC ''moe_string_t'' 16) (\<lambda>dup.
     cbind (load_string str) (\<lambda>r.
     cseq (store_obj (Some dup)
             (Obj_String \<lparr>str_internal = str_internal r, str_length = str_length r,
                str_capacity = str_capacity r\<rparr>))
          (creturn (Some dup)))))"

definition moe_string_get :: "block option \<Rightarrow> (heap, block option) cm" where
  "moe_string_get str =
     cseq (cassert (str \<noteq> None) ''str != NULL'')
    (cbind (load_string str) (\<lambda>r.
     cbind (load_string_internal (str_internal r)) (\<lambda>i. creturn (si_data i))))"

definition moe_string_get_const :: "block option \<Rightarrow> (heap, block option) cm" where
  "moe_string_get_const str =
     cseq (cassert (str \<noteq> None) ''str != NULL'')
    (cbind (load_string str) (\<lambda>r.
     cbind (load_string_internal (str_internal r)) (\<lambda>i. creturn (si_data i))))"

definition moe_string_free :: "block option \<Rightarrow> (heap, unit) cm" where
  "moe_string_free str =
     (if str = None then creturn () else
      cbind (load_string str) (\<lambda>r.
      cbind (load_string_internal (str_internal r)) (\<lambda>i.
      cbind (i32_add (si_ref_count i) (-1)) (\<lambda>n.
      cseq (store_obj (str_internal r) (Obj_String_Internal (i\<lparr>si_ref_count := n\<rparr>)))
     (cseq (if n \<le> 0 then cseq (MOE_FREE (si_data i)) (MOE_FREE (str_internal r)) else creturn ())
           (MOE_FREE str))))))"

text \<open>The zero-terminated string in a buffer.\<close>

definition c_str_at :: "block option \<Rightarrow> (heap, char list) cm" where
  "c_str_at p = cbind (load_chars p) (\<lambda>cs. c_str (Some cs))"

definition moe_string_equal :: "block option \<Rightarrow> block option \<Rightarrow> (heap, moe_bool) cm" where
  "moe_string_equal a b =
     (if a = None \<or> b = None then creturn MOE_FALSE else
      cbind (load_string a) (\<lambda>ra.
      cbind (load_string b) (\<lambda>rb.
      if str_length ra \<noteq> str_length rb then creturn MOE_FALSE else
      cbind (load_string_internal (str_internal ra)) (\<lambda>ia.
      cbind (load_string_internal (str_internal rb)) (\<lambda>ib.
      cbind (c_str_at (si_data ia)) (\<lambda>sa.
      cbind (c_str_at (si_data ib)) (\<lambda>sb.
      creturn (if sa = sb then MOE_TRUE else MOE_FALSE))))))))"

text \<open>The string a \<^verbatim>\<open>printf("%s", moe_string_get(s))\<close> or a \<^verbatim>\<open>strcmp\<close> sees.\<close>

definition moe_string_text :: "block option \<Rightarrow> (heap, char list) cm" where
  "moe_string_text str = cbind (moe_string_get str) c_str_at"

section \<open>The abstraction\<close>

definition string_at :: "heap \<Rightarrow> block \<Rightarrow> char list \<Rightarrow> block set \<Rightarrow> bool" where
  "string_at m s cs F \<longleftrightarrow> (\<exists>i d. distinct [s, i, d] \<and> F = {s, i, d} \<and>
     F \<subseteq> dom (blocks m) \<and>
     objs m s = Some (Obj_String \<lparr>str_internal = Some i, str_length = int (length cs),
                        str_capacity = int (length cs) + 1\<rparr>) \<and>
     objs m i = Some (Obj_String_Internal \<lparr>si_data = Some d, si_ref_count = 1\<rparr>) \<and>
     objs m d = Some (Obj_Chars (cs @ [NUL])))"

lemma string_at_agree:
  assumes "string_at m s cs F" and "agree_on F m m'"
  shows "string_at m' s cs F"
proof -
  have "\<And>b. b \<in> F \<Longrightarrow> objs m' b = objs m b" "F \<subseteq> dom (blocks m) \<Longrightarrow> F \<subseteq> dom (blocks m')"
    using agree_onD [OF assms(2)] by (auto simp: subset_iff domIff)
  with assms(1) show ?thesis unfolding string_at_def by (elim exE conjE) (intro exI conjI; force)
qed

lemma string_at_live: "string_at m s cs F \<Longrightarrow> F \<subseteq> dom (blocks m) \<and> finite F \<and> s \<in> F \<and> card F = 3"
  by (auto simp: string_at_def)

lemma moe_string_text_ok [simp]:
  "string_at m s cs F \<Longrightarrow> NUL \<notin> set cs \<Longrightarrow> moe_string_text (Some s) m = Inr (cs, m)"
  using c_str_ok [of cs "[]"]
  by (auto simp: string_at_def moe_string_text_def moe_string_get_def c_str_at_def)

lemma moe_string_free_ok [cm_intros]:
  assumes "string_at m s cs F"
  shows "\<exists>m'. moe_string_free (Some s) m = Inr ((), m') \<and> mem_freed F m m'"
proof -
  from assms obtain i d where F: "F = {s, i, d}" and dist: "distinct [s, i, d]"
    and live: "blocks m s \<noteq> None" "blocks m i \<noteq> None" "blocks m d \<noteq> None"
    and o: "objs m s = Some (Obj_String \<lparr>str_internal = Some i, str_length = int (length cs),
              str_capacity = int (length cs) + 1\<rparr>)"
      "objs m i = Some (Obj_String_Internal \<lparr>si_data = Some d, si_ref_count = 1\<rparr>)"
      "objs m d = Some (Obj_Chars (cs @ [NUL]))"
    by (auto simp: string_at_def)
  let ?m = "m\<lparr>objs := (objs m)(i \<mapsto> Obj_String_Internal \<lparr>si_data = Some d, si_ref_count = 0\<rparr>)\<rparr>"
  obtain m1 where m1: "MOE_FREE (Some d) ?m = Inr ((), m1)" "mem_freed {d} ?m m1"
    using MOE_FREE_ok [of ?m d] live by auto
  obtain m2 where m2: "MOE_FREE (Some i) m1 = Inr ((), m2)" "mem_freed {i} m1 m2"
    using MOE_FREE_ok [of m1 i] live dist mem_freed_outside(2) [OF m1(2), of i] by auto
  then have m12: "mem_freed {d, i} ?m m2"
    using mem_freed_trans [OF m1(2) m2(2)] dist by (simp add: insert_commute)
  obtain m3 where m3: "MOE_FREE (Some s) m2 = Inr ((), m3)" "mem_freed {s} m2 m3"
    using MOE_FREE_ok [of m2 s] live dist mem_freed_outside(2) [OF m12, of s] by auto
  have "mem_freed F ?m m3"
    using mem_freed_trans [OF m12 m3(2)] dist F by (simp add: insert_commute)
  then have "mem_freed F m m3" using F by (auto simp: mem_freed_def)
  moreover have "moe_string_free (Some s) m = Inr ((), m3)"
    using o live m1(1) m2(1) m3(1) by (simp add: moe_string_free_def i32_add_def in_i32_def)
  ultimately show ?thesis by blast
qed

interpretation moe_str: destructible string_at "\<lambda>s. moe_string_free (Some s)"
proof
  show "\<And>m x y F m'. string_at m x y F \<Longrightarrow> agree_on F m m' \<Longrightarrow> string_at m' x y F"
    by (rule string_at_agree)
  show "\<And>m x y F. string_at m x y F \<Longrightarrow> F \<subseteq> dom (blocks m)"
    and "\<And>m x y F. string_at m x y F \<Longrightarrow> finite F"
    by (blast dest: string_at_live)+
  show "\<And>m x y F. string_at m x y F \<Longrightarrow> \<exists>m'. moe_string_free (Some x) m = Inr ((), m') \<and> mem_freed F m m'"
    by (rule moe_string_free_ok)
qed

text \<open>
  The three allocations of a string, with the writes that follow them: a computation that
  stores the string header, its internal part and its buffer yields \<open>string_at\<close>.
\<close>

lemma string_blocks_ok:
  assumes "mem_wf m" and "length cs + 1 < 2 ^ 31"
  shows "\<exists>m1 m2 m3.
     MOE_ALLOC ty sz m = Inr (fresh_block m, m1) \<and>
     MOE_ALLOC ty' sz' m1 = Inr (Suc (fresh_block m), m2) \<and>
     MOE_ALLOC_RANGE ty'' sz'' (int (length cs) + 1) m2 = Inr (Some (Suc (Suc (fresh_block m))), m3) \<and>
     (let b = fresh_block m;
          m4 = m3\<lparr>objs := (objs m3)(Suc (Suc b) \<mapsto> Obj_Chars (cs @ [NUL]),
                 b \<mapsto> Obj_String \<lparr>str_internal = Some (Suc b), str_length = int (length cs),
                        str_capacity = int (length cs) + 1\<rparr>,
                 Suc b \<mapsto> Obj_String_Internal \<lparr>si_data = Some (Suc (Suc b)), si_ref_count = 1\<rparr>)\<rparr>
      in mem_wf m4 \<and> mem_grew {} m m4 \<and> fresh_block m4 = Suc (Suc (Suc b)) \<and> lnodes m4 = lnodes m \<and>
         string_at m4 b cs {b..<fresh_block m4} \<and>
         blocks m3 b \<noteq> None \<and> blocks m3 (Suc b) \<noteq> None \<and> blocks m3 (Suc (Suc b)) \<noteq> None)"
proof -
  let ?b = "fresh_block m"
  obtain m1 where m1: "MOE_ALLOC ty sz m = Inr (?b, m1)" "mem_wf m1" "mem_grew {} m m1"
      "fresh_block m1 = Suc ?b" "lnodes m1 = lnodes m"
    using MOE_ALLOC_ok [OF assms(1)] by blast
  obtain m2 where m2: "MOE_ALLOC ty' sz' m1 = Inr (Suc ?b, m2)" "mem_wf m2" "mem_grew {} m1 m2"
      "fresh_block m2 = Suc (Suc ?b)" "lnodes m2 = lnodes m"
    using MOE_ALLOC_ok [OF m1(2)] m1(4,5) by metis
  have "0 \<le> int (length cs) + 1" by simp
  then obtain m3 where m3: "MOE_ALLOC_RANGE ty'' sz'' (int (length cs) + 1) m2 = Inr (Some (Suc (Suc ?b)), m3)"
      "mem_wf m3" "mem_grew {} m2 m3" "fresh_block m3 = Suc (Suc (Suc ?b))" "lnodes m3 = lnodes m"
    using MOE_ALLOC_RANGE_ok [OF m2(2)] m2(4,5) by metis
  have g: "mem_grew {} m m3"
    using m1(3) m2(3) m3(3) by (meson empty_iff mem_grew_trans)
  then have live: "blocks m3 ?b \<noteq> None" "blocks m3 (Suc ?b) \<noteq> None" "blocks m3 (Suc (Suc ?b)) \<noteq> None"
    using m3(4) by (auto simp: mem_grew_def dom_def set_eq_iff)
  have F: "{?b..<Suc (Suc (Suc ?b))} = {?b, Suc ?b, Suc (Suc ?b)}" by auto
  show ?thesis
    by (rule exI [of _ m1], rule exI [of _ m2], rule exI [of _ m3])
       (use m1(1) m2(1) m3 g live in
         \<open>auto simp: Let_def F string_at_def mem_wf_def mem_grew_def\<close>)
qed

text \<open>
  The bytes that the arguments of \<^verbatim>\<open>moe_string_alloc\<close> denote: zeroes for a null pointer
  with a positive length, the bytes up to the first zero for length zero, and otherwise as many
  bytes as asked for, with one more readable byte behind them.
\<close>

definition c_bytes :: "char list option \<Rightarrow> int \<Rightarrow> char list \<Rightarrow> bool" where
  "c_bytes data len cs \<longleftrightarrow> length cs + 1 < 2 ^ 31 \<and>
     (case data of
        None \<Rightarrow> 0 < len \<and> cs = replicate (nat len) NUL
      | Some bs \<Rightarrow> if len = 0 then NUL \<notin> set cs \<and> (\<exists>r. bs = cs @ NUL # r)
                   else len = int (length cs) \<and> (\<exists>x r. bs = cs @ x # r))"

lemma moe_string_alloc_ok [cm_intros]:
  assumes wf: "mem_wf m" and cb: "c_bytes data len cs"
  shows "\<exists>m'. moe_string_alloc data len m = Inr (Some (fresh_block m), m') \<and> mem_wf m' \<and>
     mem_grew {} m m' \<and> fresh_block m' = fresh_block m + 3 \<and> lnodes m' = lnodes m \<and>
     string_at m' (fresh_block m) cs {fresh_block m..<fresh_block m'}"
proof -
  let ?b = "fresh_block m" and ?n = "int (length cs)"
  have small: "length cs + 1 < 2 ^ 31" using cb by (simp add: c_bytes_def)
  then have i32: "in_i32 ?n" "in_i32 (?n + 1)" by (simp_all add: in_i32_def)
  have len: "effective_length data len s = Inr (?n, s)" for s
    using cb i32 by (auto simp: effective_length_def c_bytes_def to_i32_id split: option.splits)
  obtain m1 m2 m3 where m123: "MOE_ALLOC ''moe_string_t'' 16 m = Inr (?b, m1)"
      "MOE_ALLOC ''struct _moe_string_internal_s'' 16 m1 = Inr (Suc ?b, m2)"
      "MOE_ALLOC_RANGE ''char'' 1 (?n + 1) m2 = Inr (Some (Suc (Suc ?b)), m3)"
    and m4: "let b = ?b;
          m4 = m3\<lparr>objs := (objs m3)(Suc (Suc b) \<mapsto> Obj_Chars (cs @ [NUL]),
                 b \<mapsto> Obj_String \<lparr>str_internal = Some (Suc b), str_length = ?n, str_capacity = ?n + 1\<rparr>,
                 Suc b \<mapsto> Obj_String_Internal \<lparr>si_data = Some (Suc (Suc b)), si_ref_count = 1\<rparr>)\<rparr>
      in mem_wf m4 \<and> mem_grew {} m m4 \<and> fresh_block m4 = Suc (Suc (Suc b)) \<and> lnodes m4 = lnodes m \<and>
         string_at m4 b cs {b..<fresh_block m4} \<and>
         blocks m3 b \<noteq> None \<and> blocks m3 (Suc b) \<noteq> None \<and> blocks m3 (Suc (Suc b)) \<noteq> None"
    using string_blocks_ok [OF wf small] by blast
  have fill: "fill_buffer data (?n + 1) (Some d) m' =
      Inr ((), m'\<lparr>objs := (objs m')(d \<mapsto> Obj_Chars (cs @ [NUL]))\<rparr>)" if "blocks m' d \<noteq> None" for m' d
    using cb that by (auto simp: fill_buffer_def c_bytes_def nat_add_distrib replicate_append_same
        list_update_append split: option.splits if_splits)
  have "i32_add ?n 1 s = Inr (?n + 1, s)" for s :: heap
    using i32 by (simp add: i32_add_def)
  then show ?thesis
    using m123 m4 by (auto simp: moe_string_alloc_def len fill Let_def)
qed

lemma moe_string_alloc_NULL_zero:
  "moe_string_alloc None 0 m = Inl Null_Dereference"
  by (simp add: moe_string_alloc_def effective_length_def cbind_apply c_strlen_def MOE_ALLOC_def moe_malloc_def c_malloc_def)

lemma moe_string_equal_ok:
  assumes "string_at m a cs F" and "string_at m b ds G" and "NUL \<notin> set cs" and "NUL \<notin> set ds"
  shows "moe_string_equal (Some a) (Some b) m = Inr (if cs = ds then MOE_TRUE else MOE_FALSE, m)"
  using assms c_str_ok [of cs "[]"] c_str_ok [of ds "[]"]
  by (auto simp: string_at_def moe_string_equal_def c_str_at_def)

section \<open>Clones\<close>

text \<open>A clone and its original are two strings over the same internal part and buffer.\<close>

lemma moe_string_clone_shares:
  assumes "mem_wf m" and "string_at m s cs F"
  shows "\<exists>c m1 i d. moe_string_clone (Some s) m = Inr (Some c, m1) \<and> c \<noteq> s \<and>
     string_at m1 s cs {s, i, d} \<and> string_at m1 c cs {c, i, d}"
proof -
  from assms(2) obtain i d where F: "F = {s, i, d}" "distinct [s, i, d]" "F \<subseteq> dom (blocks m)"
    and o: "objs m s = Some (Obj_String \<lparr>str_internal = Some i, str_length = int (length cs),
              str_capacity = int (length cs) + 1\<rparr>)"
      "objs m i = Some (Obj_String_Internal \<lparr>si_data = Some d, si_ref_count = 1\<rparr>)"
      "objs m d = Some (Obj_Chars (cs @ [NUL]))"
    by (auto simp: string_at_def)
  let ?c = "fresh_block m"
  obtain m0 where m0: "MOE_ALLOC ''moe_string_t'' 16 m = Inr (?c, m0)" "mem_grew {} m m0"
      "blocks m0 ?c = Some 16" "objs m0 = objs m"
    using MOE_ALLOC_ok [OF assms(1)] by blast
  have fresh: "?c \<notin> {s, i, d}" using mem_wf_fresh [OF assms(1), of ?c] F by auto
  define m1 where "m1 = m0\<lparr>objs := (objs m0)(?c \<mapsto> Obj_String \<lparr>str_internal = Some i,
      str_length = int (length cs), str_capacity = int (length cs) + 1\<rparr>)\<rparr>"
  have clone: "moe_string_clone (Some s) m = Inr (Some ?c, m1)"
    using m0 o(1) by (simp add: moe_string_clone_def m1_def)
  have live: "dom (blocks m) \<subseteq> dom (blocks m0)" using m0(2) by (auto simp: mem_grew_def)
  then have "string_at m1 ?c cs {?c, i, d}" and "string_at m1 s cs {s, i, d}"
    using F o fresh m0(3,4) unfolding string_at_def m1_def by - (intro exI [of _ i] exI [of _ d]; auto)+
  then show ?thesis using clone fresh by blast
qed

lemma shared_string_free:
  assumes a: "string_at m a cs {a, i, d}" and b: "string_at m b cs {b, i, d}" and ne: "a \<noteq> b"
  shows "\<exists>m'. moe_string_free (Some a) m = Inr ((), m') \<and>
     moe_string_text (Some b) m' = Inl Invalid_Access \<and> moe_string_free (Some b) m' = Inl Invalid_Access"
proof -
  obtain m' where free: "moe_string_free (Some a) m = Inr ((), m')" and freed: "mem_freed {a, i, d} m m'"
    using moe_string_free_ok [OF a] by blast
  from b obtain j e where j: "distinct [b, j, e]" "{b, i, d} = {b, j, e}"
    "objs m b = Some (Obj_String \<lparr>str_internal = Some j, str_length = int (length cs), str_capacity = int (length cs) + 1\<rparr>)"
    by (auto simp: string_at_def)
  have "j \<in> {i, d}" using j(1,2) by auto
  then have "objs m' j = None" using mem_freedD(2) [OF freed] by auto
  moreover have "card {b, i, d} = 3" using string_at_live [OF b] by blast
  then have "b \<noteq> i" and "b \<noteq> d" by (auto simp: card_insert_if split: if_splits)
  then have "b \<notin> {a, i, d}" using ne by simp
  then have "objs m' b = objs m b" by (rule mem_freed_outside(1) [OF freed])
  ultimately have "moe_string_text (Some b) m' = Inl Invalid_Access" "moe_string_free (Some b) m' = Inl Invalid_Access"
    using j(3) by (simp_all add: moe_string_text_def moe_string_get_def moe_string_free_def)
  then show ?thesis using free by blast
qed

end
