(* ===== verification/Token_Stream.thy ===== *)
theory Token_Stream
  imports Moe_String
begin

text \<open>
  The data of the macro processor (\<^verbatim>\<open>moe/proc_macro/proc_macro.c\<close>, lines 17 to 274): derive
  arguments and items, tokens, the token stream of a struct, and the derived struct that owns them
  all.  A derive item is an element of an array, so a pointer to it is the block of the array and
  an index; the metadata of a derived struct is the list head inside it, at offset 24.
\<close>

section \<open>Derive arguments and items\<close>

definition moe_derive_arg_create ::
  "char list option \<Rightarrow> int \<Rightarrow> char list option \<Rightarrow> int \<Rightarrow> (heap, moe_derive_arg) cm" where
  "moe_derive_arg_create ty type_capacity name name_capacity =
     cbind (moe_string_alloc ty type_capacity) (\<lambda>t.
     cbind (moe_string_alloc name name_capacity) (\<lambda>n.
     creturn \<lparr>arg_type = t, arg_name = n\<rparr>))"

definition moe_derive_arg_destroy :: "block option \<Rightarrow> nat \<Rightarrow> (heap, unit) cm" where
  "moe_derive_arg_destroy args i =
     (if args = None then creturn () else
      cbind (load_derive_args args) (\<lambda>ar.
      if i < length ar then
        cseq (moe_string_free (arg_type (ar ! i))) (moe_string_free (arg_name (ar ! i)))
      else cfail Invalid_Access))"

definition moe_derive_item_create ::
  "block option \<Rightarrow> nat \<Rightarrow> char list option \<Rightarrow> int \<Rightarrow> (heap, unit) cm" where
  "moe_derive_item_create items i handler_name n =
     (if items = None then creturn () else
      cbind (moe_string_alloc handler_name 0) (\<lambda>h.
      cbind (MOE_ALLOC_RANGE ''moe_derive_arg_t'' 16 n) (\<lambda>args.
      cseq (case args of None \<Rightarrow> creturn ()
            | Some b \<Rightarrow> store_obj args
                (Obj_Derive_Args (replicate (nat n) \<lparr>arg_type = None, arg_name = None\<rparr>)))
     (cbind (load_derive_items items) (\<lambda>its.
      if i < length its then
        store_obj items (Obj_Derive_Items
          (its[i := \<lparr>derive_handler_name = h, arg_num = n, item_args = args\<rparr>]))
      else cfail Invalid_Access)))))"

definition moe_derive_item_destroy :: "block option \<Rightarrow> nat \<Rightarrow> (heap, unit) cm" where
  "moe_derive_item_destroy items i =
     (if items = None then creturn () else
      cbind (load_derive_items items) (\<lambda>its.
      if i < length its then
        cseq (moe_string_free (derive_handler_name (its ! i)))
       (cseq (cforeach (moe_derive_arg_destroy (item_args (its ! i))) [0..<nat (arg_num (its ! i))])
             (MOE_FREE (item_args (its ! i))))
      else cfail Invalid_Access))"

section \<open>Tokens\<close>

definition new_token :: "moe_token_type \<Rightarrow> (heap, moe_token_value) cm \<Rightarrow> (heap, block option) cm" where
  "new_token ty val =
     cbind (MOE_ALLOC ''moe_token_t'' 16) (\<lambda>b.
     cbind val (\<lambda>v.
     cseq (store_obj (Some b) (Obj_Token \<lparr>tok_value = v, tok_type = ty\<rparr>))
          (creturn (Some b))))"

definition moe_token_create_identifier :: "char list option \<Rightarrow> int \<Rightarrow> (heap, block option) cm" where
  "moe_token_create_identifier identifier len =
     new_token MOE_TOKEN_IDENTIFIER
       (cbind (moe_string_alloc identifier len) (\<lambda>s. creturn (Str_Value s)))"

definition moe_token_create_string_literal :: "char list option \<Rightarrow> int \<Rightarrow> (heap, block option) cm" where
  "moe_token_create_string_literal str len =
     new_token MOE_TOKEN_STRING_LITERAL
       (cbind (moe_string_alloc str len) (\<lambda>s. creturn (Str_Value s)))"

definition moe_token_create_punctuation :: "int \<Rightarrow> (heap, block option) cm" where
  "moe_token_create_punctuation punctuation =
     new_token MOE_TOKEN_PUNCTUATION (creturn (Int_Value punctuation))"

definition moe_token_create_int_literal :: "int \<Rightarrow> (heap, block option) cm" where
  "moe_token_create_int_literal val = new_token MOE_TOKEN_INT_LITERAL (creturn (Int_Value val))"

definition moe_token_create_float_literal :: "c_float \<Rightarrow> (heap, block option) cm" where
  "moe_token_create_float_literal val = new_token MOE_TOKEN_FLOAT_LITERAL (creturn (Float_Value val))"

text \<open>Reading a member of the union that is not the one written last is an error.\<close>

definition str_member :: "moe_token \<Rightarrow> (heap, block option) cm" where
  "str_member tk = (case tok_value tk of Str_Value s \<Rightarrow> creturn s | _ \<Rightarrow> cfail Invalid_Access)"

definition int_member :: "moe_token \<Rightarrow> (heap, int) cm" where
  "int_member tk = (case tok_value tk of Int_Value i \<Rightarrow> creturn i | _ \<Rightarrow> cfail Invalid_Access)"

definition float_member :: "moe_token \<Rightarrow> (heap, c_float) cm" where
  "float_member tk = (case tok_value tk of Float_Value f \<Rightarrow> creturn f | _ \<Rightarrow> cfail Invalid_Access)"

definition newline :: string where
  "newline = [CHR 0x0A]"

definition moe_token_print :: "block option \<Rightarrow> (heap, unit) cm" where
  "moe_token_print tok =
     (if tok = None then emit (Out_Text (''NULL token'' @ newline)) else
      cbind (load_token tok) (\<lambda>tk.
      let type_str = moe_token_type_to_string (tok_type tk) in
      case tok_type tk of
        MOE_TOKEN_IDENTIFIER \<Rightarrow>
          cbind (str_member tk) (\<lambda>s. cbind (moe_string_text s) (\<lambda>cs.
          emit (Out_Text (''Token(type='' @ type_str @ '', value='' @ [CHR 0x22] @ cs @ [CHR 0x22] @ '')'' @ newline))))
      | MOE_TOKEN_STRING_LITERAL \<Rightarrow>
          cbind (str_member tk) (\<lambda>s. cbind (moe_string_text s) (\<lambda>cs.
          emit (Out_Text (''Token(type='' @ type_str @ '', value='' @ [CHR 0x22] @ cs @ [CHR 0x22] @ '')'' @ newline))))
      | MOE_TOKEN_PUNCTUATION \<Rightarrow>
          cbind (int_member tk) (\<lambda>i.
          emit (Out_Text (''Token(type='' @ type_str @ '', value='' @ [CHR 0x27, to_char i, CHR 0x27] @ '')'' @ newline)))
      | MOE_TOKEN_INT_LITERAL \<Rightarrow>
          cbind (int_member tk) (\<lambda>i.
          emit (Out_Text (''Token(type='' @ type_str @ '', value='' @ show_int i @ '')'' @ newline)))
      | MOE_TOKEN_FLOAT_LITERAL \<Rightarrow>
          cbind (float_member tk) (\<lambda>f.
          cseq (emit (Out_Text (''Token(type='' @ type_str @ '', value='')))
         (cseq (emit (Out_Float f)) (emit (Out_Text ('')'' @ newline)))))
      | MOE_TOKEN_UNKNOWN \<Rightarrow> cfail (Assertion_Failed ''unreachable code reached'')))"

definition moe_token_free :: "block option \<Rightarrow> (heap, unit) cm" where
  "moe_token_free tok =
     (if tok = None then creturn () else
      cbind (load_token tok) (\<lambda>tk.
      cseq (if tok_type tk = MOE_TOKEN_IDENTIFIER \<or> tok_type tk = MOE_TOKEN_STRING_LITERAL
            then cbind (str_member tk) moe_string_free else creturn ())
           (MOE_FREE tok)))"

section \<open>The token stream\<close>

definition moe_struct_metadata_token_stream_node_alloc :: "block option \<Rightarrow> (heap, block) cm" where
  "moe_struct_metadata_token_stream_node_alloc tok =
     cbind (MOE_ALLOC ''moe__struct_metadata_token_stream_node_t'' 24) (\<lambda>b.
     cseq (store_obj (Some b) (Obj_Stream_Node tok))
    (cseq (place_node b 0)
    (cseq (on_lnodes (moe_list_node_init (Some (b, 0))))
          (creturn b))))"

definition moe_struct_metadata_token_stream_node_free :: "block option \<Rightarrow> (heap, unit) cm" where
  "moe_struct_metadata_token_stream_node_free node =
     (if node = None then creturn () else
      cbind (load_stream_node node) (\<lambda>tok.
      cseq (moe_token_free tok) (MOE_FREE node)))"

definition moe_struct_metadata_init :: "node_ptr option \<Rightarrow> (heap, unit) cm" where
  "moe_struct_metadata_init metadata = on_lnodes (moe_list_node_init metadata)"

definition moe_derive_struct_metadata_add_token ::
  "node_ptr option \<Rightarrow> block option \<Rightarrow> (heap, unit) cm" where
  "moe_derive_struct_metadata_add_token metadata tok =
     (if metadata = None then creturn () else
      cbind (moe_struct_metadata_token_stream_node_alloc tok) (\<lambda>node.
      on_lnodes (moe_list_add_tail metadata (Some (node, 0)))))"

text \<open>\<^verbatim>\<open>moe_list_entry\<close>: the list node is the first member of the stream node.\<close>

definition stream_node_entry :: "node_ptr option \<Rightarrow> block option" where
  "stream_node_entry node = map_option fst node"

definition moe_derive_struct_metadata_clear_iterator :: "node_ptr option \<Rightarrow> (heap, unit) cm" where
  "moe_derive_struct_metadata_clear_iterator node =
     moe_struct_metadata_token_stream_node_free (stream_node_entry node)"

definition moe_derive_struct_metadata_print :: "node_ptr option \<Rightarrow> (heap, unit) cm" where
  "moe_derive_struct_metadata_print metadata =
     (if metadata = None then creturn () else
      iterator_loop lnodes metadata (\<lambda>node.
        cbind (load_stream_node (stream_node_entry node)) moe_token_print))"

definition moe_struct_metadata_destroy :: "node_ptr option \<Rightarrow> (heap, unit) cm" where
  "moe_struct_metadata_destroy metadata =
     (if metadata = None then creturn () else
      moe_list_iterate_safe lnodes metadata moe_derive_struct_metadata_clear_iterator)"

section \<open>The derived struct\<close>

definition metadata_of :: "block \<Rightarrow> node_ptr" where
  "metadata_of b = (b, 24)"

definition moe_derived_struct_alloc :: "char list option \<Rightarrow> int \<Rightarrow> (heap, block) cm" where
  "moe_derived_struct_alloc name item_num =
     cbind (MOE_ALLOC ''moe_derived_struct_t'' 40) (\<lambda>b.
     cseq (place_node b 24)
    (cbind (moe_string_alloc name 0) (\<lambda>s.
     cbind (MOE_ALLOC_RANGE ''moe_derive_item_t'' 24 item_num) (\<lambda>items.
     cseq (case items of None \<Rightarrow> creturn ()
           | Some q \<Rightarrow> store_obj items (Obj_Derive_Items
               (replicate (nat item_num) \<lparr>derive_handler_name = None, arg_num = 0, item_args = None\<rparr>)))
    (cseq (store_obj (Some b) (Obj_Derived_Struct
             \<lparr>struct_name = s, derive_item_num = item_num, derive_items = items\<rparr>))
    (cseq (moe_struct_metadata_init (Some (metadata_of b)))
          (creturn b)))))))"

definition moe_derived_struct_free :: "block option \<Rightarrow> (heap, unit) cm" where
  "moe_derived_struct_free p =
     (case p of None \<Rightarrow> creturn () | Some b \<Rightarrow>
      cbind (load_derived_struct p) (\<lambda>ds.
      cseq (moe_string_free (struct_name ds))
     (cseq (cforeach (moe_derive_item_destroy (derive_items ds)) [0..<nat (derive_item_num ds)])
     (cseq (MOE_FREE (derive_items ds))
     (cseq (moe_struct_metadata_destroy (Some (metadata_of b)))
           (MOE_FREE p))))))"

end
