(* ===== verification/Token_Rep.thy ===== *)
theory Token_Rep
  imports Token_Stream
begin

text \<open>
  What the structs of the macro processor represent, which blocks they own, and that their
  destructors free exactly those blocks.  \<open>derived\<close> is the abstract value of a
  \<^verbatim>\<open>moe_derived_struct_t\<close>: its name, the names of its derive handlers and the tokens of its
  body.
\<close>

section \<open>Tokens\<close>

datatype atoken = A_Ident string | A_Str string | A_Punct int | A_Int int | A_Float c_float

primrec atoken_type :: "atoken \<Rightarrow> moe_token_type" where
  "atoken_type (A_Ident s) = MOE_TOKEN_IDENTIFIER"
| "atoken_type (A_Str s) = MOE_TOKEN_STRING_LITERAL"
| "atoken_type (A_Punct i) = MOE_TOKEN_PUNCTUATION"
| "atoken_type (A_Int i) = MOE_TOKEN_INT_LITERAL"
| "atoken_type (A_Float f) = MOE_TOKEN_FLOAT_LITERAL"

primrec value_at :: "heap \<Rightarrow> moe_token_value \<Rightarrow> atoken \<Rightarrow> block set \<Rightarrow> bool" where
  "value_at m v (A_Ident cs) F \<longleftrightarrow> (\<exists>s. v = Str_Value (Some s) \<and> string_at m s cs F)"
| "value_at m v (A_Str cs) F \<longleftrightarrow> (\<exists>s. v = Str_Value (Some s) \<and> string_at m s cs F)"
| "value_at m v (A_Punct i) F \<longleftrightarrow> v = Int_Value i \<and> F = {}"
| "value_at m v (A_Int i) F \<longleftrightarrow> v = Int_Value i \<and> F = {}"
| "value_at m v (A_Float f) F \<longleftrightarrow> v = Float_Value f \<and> F = {}"

definition token_at :: "heap \<Rightarrow> block \<Rightarrow> atoken \<Rightarrow> block set \<Rightarrow> bool" where
  "token_at m t tk F \<longleftrightarrow> (\<exists>v G. F = insert t G \<and> t \<notin> G \<and> t \<in> dom (blocks m) \<and>
     objs m t = Some (Obj_Token \<lparr>tok_value = v, tok_type = atoken_type tk\<rparr>) \<and> value_at m v tk G)"

definition node_at :: "heap \<Rightarrow> block \<Rightarrow> atoken \<Rightarrow> block set \<Rightarrow> bool" where
  "node_at m n tk F \<longleftrightarrow> (\<exists>t G. F = insert n G \<and> n \<notin> G \<and> n \<in> dom (blocks m) \<and>
     objs m n = Some (Obj_Stream_Node (Some t)) \<and> token_at m t tk G)"

lemma value_at_agree: "value_at m v tk F \<Longrightarrow> agree_on F m m' \<Longrightarrow> value_at m' v tk F"
  by (cases tk) (auto intro: string_at_agree)

lemma value_at_live: "value_at m v tk F \<Longrightarrow> F \<subseteq> dom (blocks m) \<and> finite F"
  by (cases tk) (auto dest: string_at_live)

lemma token_at_agree:
  assumes "token_at m t tk F" and "agree_on F m m'"
  shows "token_at m' t tk F"
proof -
  from assms(1) obtain v G where *: "F = insert t G" "t \<notin> G" "t \<in> dom (blocks m)"
     "objs m t = Some (Obj_Token \<lparr>tok_value = v, tok_type = atoken_type tk\<rparr>)" "value_at m v tk G"
    unfolding token_at_def by blast
  then have "value_at m' v tk G"
    using assms(2) by (auto intro: value_at_agree agree_on_subset)
  with * agree_onD [OF assms(2), of t] show ?thesis
    unfolding token_at_def by (auto simp: domIff)
qed

lemma moe_token_free_ok:
  assumes "token_at m t tk F"
  shows "\<exists>m'. moe_token_free (Some t) m = Inr ((), m') \<and> mem_freed F m m'"
proof -
  from assms obtain v G where F: "F = insert t G" "t \<notin> G" and live: "blocks m t \<noteq> None"
    and obj: "objs m t = Some (Obj_Token \<lparr>tok_value = v, tok_type = atoken_type tk\<rparr>)"
    and val: "value_at m v tk G"
    by (auto simp: token_at_def)
  let ?inner = "if atoken_type tk = MOE_TOKEN_IDENTIFIER \<or> atoken_type tk = MOE_TOKEN_STRING_LITERAL
            then cbind (str_member \<lparr>tok_value = v, tok_type = atoken_type tk\<rparr>) moe_string_free
            else creturn ()"
  have "\<exists>m1. ?inner m = Inr ((), m1) \<and> mem_freed G m m1"
    using val by (cases tk) (auto simp: str_member_def dest: moe_string_free_ok)
  then obtain m1 where m1: "?inner m = Inr ((), m1)" "mem_freed G m m1" by blast
  then have "blocks m1 t \<noteq> None" using live F by (simp add: mem_freedD)
  then obtain m2 where m2: "MOE_FREE (Some t) m1 = Inr ((), m2)" "mem_freed {t} m1 m2"
    using MOE_FREE_ok by blast
  have "moe_token_free (Some t) m = Inr ((), m2)"
    using obj m1(1) m2(1) unfolding moe_token_free_def by simp
  then show ?thesis
    using mem_freed_trans [OF m1(2) m2(2)] F by auto
qed

interpretation moe_tok: destructible token_at "\<lambda>t. moe_token_free (Some t)"
proof
  show "token_at m' x y F" if "token_at m x y F" "agree_on F m m'" for m m' x y F
    by (rule token_at_agree [OF that])
  show "token_at m x y F \<Longrightarrow> F \<subseteq> dom (blocks m)" "token_at m x y F \<Longrightarrow> finite F" for m x y F
    by (auto simp: token_at_def dest: value_at_live)
  show "token_at m x y F \<Longrightarrow> \<exists>m'. moe_token_free (Some x) m = Inr ((), m') \<and> mem_freed F m m'" for m x y F
    by (rule moe_token_free_ok)
qed

section \<open>Stream nodes\<close>

lemma node_at_agree:
  assumes "node_at m n tk F" and "agree_on F m m'"
  shows "node_at m' n tk F"
proof -
  from assms(1) obtain t G where *: "F = insert n G" "n \<notin> G" "n \<in> dom (blocks m)"
     "objs m n = Some (Obj_Stream_Node (Some t))" "token_at m t tk G"
    unfolding node_at_def by blast
  then have "token_at m' t tk G"
    using assms(2) by (auto intro: token_at_agree agree_on_subset)
  with * agree_onD [OF assms(2), of n] show ?thesis
    unfolding node_at_def by (auto simp: domIff)
qed

lemma stream_node_free_ok:
  assumes "node_at m n tk F"
  shows "\<exists>m'. moe_struct_metadata_token_stream_node_free (Some n) m = Inr ((), m') \<and> mem_freed F m m'"
proof -
  from assms obtain t G where F: "F = insert n G" "n \<notin> G" and live: "blocks m n \<noteq> None"
    and obj: "objs m n = Some (Obj_Stream_Node (Some t))" and tok: "token_at m t tk G"
    by (auto simp: node_at_def)
  obtain m1 where m1: "moe_token_free (Some t) m = Inr ((), m1)" "mem_freed G m m1"
    using moe_token_free_ok [OF tok] by blast
  then have "blocks m1 n \<noteq> None" using live F by (simp add: mem_freedD)
  then obtain m2 where m2: "MOE_FREE (Some n) m1 = Inr ((), m2)" "mem_freed {n} m1 m2"
    using MOE_FREE_ok by blast
  have "moe_struct_metadata_token_stream_node_free (Some n) m = Inr ((), m2)"
    using obj m1(1) m2(1) by (simp add: moe_struct_metadata_token_stream_node_free_def)
  then show ?thesis
    using mem_freed_trans [OF m1(2) m2(2)] F by auto
qed

interpretation moe_node: destructible node_at
  "\<lambda>n. moe_struct_metadata_token_stream_node_free (Some n)"
proof
  show "node_at m' x y F" if "node_at m x y F" "agree_on F m m'" for m m' x y F
    by (rule node_at_agree [OF that])
  show "node_at m x y F \<Longrightarrow> F \<subseteq> dom (blocks m)" "node_at m x y F \<Longrightarrow> finite F" for m x y F
    by (auto simp: node_at_def dest: moe_tok.live_law moe_tok.finite_law)
  show "node_at m x y F \<Longrightarrow>
    \<exists>m'. moe_struct_metadata_token_stream_node_free (Some x) m = Inr ((), m') \<and> mem_freed F m m'" for m x y F
    by (rule stream_node_free_ok)
qed

section \<open>Derive items\<close>

text \<open>The parser creates items without arguments.\<close>

definition item_at :: "heap \<Rightarrow> moe_derive_item \<Rightarrow> string \<Rightarrow> block set \<Rightarrow> bool" where
  "item_at m it h F \<longleftrightarrow> (\<exists>s q G. F = insert q G \<and> q \<notin> G \<and> q \<in> dom (blocks m) \<and>
     it = \<lparr>derive_handler_name = Some s, arg_num = 0, item_args = Some q\<rparr> \<and>
     objs m q = Some (Obj_Derive_Args []) \<and> string_at m s h G)"

definition destroy_item_value :: "moe_derive_item \<Rightarrow> (heap, unit) cm" where
  "destroy_item_value it =
     cseq (moe_string_free (derive_handler_name it))
    (cseq (cforeach (moe_derive_arg_destroy (item_args it)) [0..<nat (arg_num it)])
          (MOE_FREE (item_args it)))"

lemma item_at_agree:
  assumes "item_at m it h F" and "agree_on F m m'"
  shows "item_at m' it h F"
proof -
  from assms(1) obtain s q G where *: "F = insert q G" "q \<notin> G" "q \<in> dom (blocks m)"
     "it = \<lparr>derive_handler_name = Some s, arg_num = 0, item_args = Some q\<rparr>"
     "objs m q = Some (Obj_Derive_Args [])" "string_at m s h G"
    unfolding item_at_def by blast
  then have "string_at m' s h G"
    using assms(2) by (auto intro: string_at_agree agree_on_subset)
  with * agree_onD [OF assms(2), of q] show ?thesis
    unfolding item_at_def by (auto simp: domIff)
qed

lemma destroy_item_value_ok:
  assumes "item_at m it h F"
  shows "\<exists>m'. destroy_item_value it m = Inr ((), m') \<and> mem_freed F m m'"
proof -
  from assms obtain s q G where F: "F = insert q G" "q \<notin> G" and live: "blocks m q \<noteq> None"
    and it: "it = \<lparr>derive_handler_name = Some s, arg_num = 0, item_args = Some q\<rparr>"
    and str: "string_at m s h G"
    by (auto simp: item_at_def)
  obtain m1 where m1: "moe_string_free (Some s) m = Inr ((), m1)" "mem_freed G m m1"
    using moe_string_free_ok [OF str] by blast
  then have "blocks m1 q \<noteq> None" using live F by (simp add: mem_freedD)
  then obtain m2 where m2: "MOE_FREE (Some q) m1 = Inr ((), m2)" "mem_freed {q} m1 m2"
    using MOE_FREE_ok by blast
  have "destroy_item_value it m = Inr ((), m2)"
    using it m1(1) m2(1) by (simp add: destroy_item_value_def)
  then show ?thesis
    using mem_freed_trans [OF m1(2) m2(2)] F by auto
qed

interpretation moe_item: destructible item_at destroy_item_value
proof
  show "item_at m' x y F" if "item_at m x y F" "agree_on F m m'" for m m' x y F
    by (rule item_at_agree [OF that])
  show "item_at m x y F \<Longrightarrow> F \<subseteq> dom (blocks m)" "item_at m x y F \<Longrightarrow> finite F" for m x y F
    by (auto simp: item_at_def dest: moe_str.live_law moe_str.finite_law)
  show "item_at m x y F \<Longrightarrow> \<exists>m'. destroy_item_value x m = Inr ((), m') \<and> mem_freed F m m'" for m x y F
    by (rule destroy_item_value_ok)
qed

lemma item_destroy_load:
  "objs m q = Some (Obj_Derive_Items its) \<Longrightarrow> i < length its \<Longrightarrow>
     moe_derive_item_destroy (Some q) i m = destroy_item_value (its ! i) m"
  by (simp add: moe_derive_item_destroy_def destroy_item_value_def)

text \<open>The loop over the array destroys the items one by one; the array itself is not among their blocks.\<close>

lemma destroy_items_ok:
  assumes "rep_list item_at m (drop k (take n its)) hs F" and "objs m q = Some (Obj_Derive_Items its)"
    and "n \<le> length its" and "k \<le> n" and "q \<notin> F"
  shows "\<exists>m'. cforeach (moe_derive_item_destroy (Some q)) [k..<n] m = Inr ((), m') \<and> mem_freed F m m'"
  using assms
proof (induction "n - k" arbitrary: k m hs F)
  case 0
  then show ?case by simp
next
  case (Suc d)
  then have k: "k < n" "[k..<n] = k # [Suc k..<n]" and d: "d = n - Suc k"
    by (auto simp: upt_conv_Cons)
  then have "drop k (take n its) = its ! k # drop (Suc k) (take n its)"
    using Suc.prems(3) by (simp flip: Cons_nth_drop_Suc)
  with Suc.prems(1) obtain h hs' F1 F2 where *: "item_at m (its ! k) h F1"
      "rep_list item_at m (drop (Suc k) (take n its)) hs' F2" "F1 \<inter> F2 = {}" "F = F1 \<union> F2"
    by auto
  obtain m1 where m1: "destroy_item_value (its ! k) m = Inr ((), m1)" "mem_freed F1 m m1"
    using moe_item.destroy_law [OF *(1)] by blast
  have "rep_list item_at m1 (drop (Suc k) (take n its)) hs' F2"
    using * m1(2) by (auto intro: moe_item.list_after_free)
  moreover have "objs m1 q = Some (Obj_Derive_Items its)"
    using Suc.prems(2,5) * m1(2) by (simp add: mem_freedD)
  ultimately obtain m2 where m2: "cforeach (moe_derive_item_destroy (Some q)) [Suc k..<n] m1 = Inr ((), m2)"
      "mem_freed F2 m1 m2"
    using Suc.hyps(1) [of "Suc k" m1 hs' F2, OF d] Suc.prems(3,5) k *(4) by auto
  have "cforeach (moe_derive_item_destroy (Some q)) [k..<n] m = Inr ((), m2)"
    using k Suc.prems(2,3) m1(1) m2(1) by (simp add: item_destroy_load)
  then show ?case using mem_freed_trans [OF m1(2) m2(2)] * by auto
qed

section \<open>The token stream\<close>

abbreviation node_ptrs :: "block list \<Rightarrow> node_ptr list" where
  "node_ptrs ns \<equiv> map (\<lambda>n. (n, 0)) ns"

lemma rep_nodes_blocks: "rep_list node_at m ns tks F \<Longrightarrow> set ns \<subseteq> F \<and> distinct ns"
  by (induction ns arbitrary: tks F) (auto simp: node_at_def)

lemma follows_cong:
  "(\<And>z. z \<in> set zs \<Longrightarrow> g z = g' z) \<Longrightarrow> follows g zs l = follows g' zs l"
  by (induction zs) auto

lemma moe_struct_metadata_destroy_ok:
  assumes d: "dlist (lnodes m) (a, 24) (node_ptrs ns)" and r: "rep_list node_at m ns tks F"
  shows "\<exists>m'. moe_struct_metadata_destroy (Some (a, 24)) m = Inr ((), m') \<and> mem_freed F m m'"
proof -
  define I where "I = (\<lambda>zs m. \<exists>ns tks F. zs = node_ptrs ns \<and> rep_list node_at m ns tks F \<and>
      follows (nxt (lnodes m)) zs (a, 24))"
  let ?f = moe_derive_struct_metadata_clear_iterator
  have keep: "I zs t" if "I (x # zs) s" "?f (Some x) s = Inr (u, t)" for x zs s u t
  proof -
    from that(1) obtain nn tks' F where i: "x # zs = node_ptrs nn" "rep_list node_at s nn tks' F"
        "follows (nxt (lnodes s)) (x # zs) (a, 24)"
      unfolding I_def by iprover
    then obtain n ns where "nn = n # ns" "x = (n, 0)" "zs = node_ptrs ns" by auto
    with i obtain tk tks F1 F2 where *: "x = (n, 0)" "zs = node_ptrs ns"
        "node_at s n tk F1" "rep_list node_at s ns tks F2" "F1 \<inter> F2 = {}"
        "follows (nxt (lnodes s)) zs (a, 24)"
      by auto
    from moe_node.destroy_law [OF *(3)] that(2) *(1) have fr: "mem_freed F1 s t"
      by (auto simp: moe_derive_struct_metadata_clear_iterator_def stream_node_entry_def)
    have "set ns \<inter> F1 = {}" using rep_nodes_blocks [OF *(4)] *(5) by auto
    then have "nxt (lnodes s) z = nxt (lnodes t) z" if "z \<in> set zs" for z
      using that *(2) fr by (auto simp: nxt_def mem_freedD)
    then have "follows (nxt (lnodes t)) zs (a, 24)"
      using *(6) follows_cong [of zs "nxt (lnodes s)" "nxt (lnodes t)"] by auto
    moreover have "rep_list node_at t ns tks F2"
      using moe_node.list_after_free [OF *(4) fr] *(5) by (simp add: Int_commute)
    ultimately show ?thesis
      using *(2) unfolding I_def by iprover
  qed
  have "moe_list_iterate_safe lnodes (Some (a, 24)) ?f m = cforeach (\<lambda>x. ?f (Some x)) (node_ptrs ns) m"
  proof (rule moe_list_iterate_safe_inv [where I = I])
    show "I (node_ptrs ns) m" using d r dlist_follows(1) [OF d] by (auto simp: I_def)
    show "nxt (lnodes m) (a, 24) = Some (hd (node_ptrs ns @ [(a, 24)]))"
      using d by (auto simp: dlist_def dest: chain_nxt)
    show "(a, 24) \<notin> set (node_ptrs ns)" by auto
    show "\<And>x zs s. I (x # zs) s \<Longrightarrow> nxt (lnodes s) x = Some (hd (zs @ [(a, 24)]))"
      by (auto simp: I_def)
  qed (use keep in blast)
  also have "\<dots> = cforeach (\<lambda>n. moe_struct_metadata_token_stream_node_free (Some n)) ns m"
    by (rule fun_cong [where x = m], induction ns)
       (auto simp: moe_derive_struct_metadata_clear_iterator_def stream_node_entry_def)
  finally show ?thesis
    using moe_node.destroy_all [OF r] by (simp add: moe_struct_metadata_destroy_def)
qed

section \<open>The derived struct\<close>

record derived =
  d_name :: string
  d_handlers :: "string list"
  d_tokens :: "atoken list"

text \<open>
  \<open>n\<close> is the value of \<^verbatim>\<open>derive_item_num\<close>: the size of the array while the parser
  fills it, the number of items afterwards.
\<close>

definition ds_parts ::
  "heap \<Rightarrow> block \<Rightarrow> int \<Rightarrow> derived \<Rightarrow> block \<Rightarrow> block \<Rightarrow> moe_derive_item list \<Rightarrow> block list \<Rightarrow>
   block set \<Rightarrow> block set \<Rightarrow> block set \<Rightarrow> bool" where
  "ds_parts m a n d s q its ns Fs Fi Ft \<longleftrightarrow>
     a \<in> dom (blocks m) \<and> q \<in> dom (blocks m) \<and> a \<noteq> q \<and>
     objs m a = Some (Obj_Derived_Struct
       \<lparr>struct_name = Some s, derive_item_num = n, derive_items = Some q\<rparr>) \<and>
     string_at m s (d_name d) Fs \<and>
     objs m q = Some (Obj_Derive_Items its) \<and> length its = 8 \<and> length (d_handlers d) \<le> 8 \<and>
     rep_list item_at m (take (length (d_handlers d)) its) (d_handlers d) Fi \<and>
     dlist (lnodes m) (a, 24) (node_ptrs ns) \<and> rep_list node_at m ns (d_tokens d) Ft \<and>
     {a, q} \<inter> (Fs \<union> Fi \<union> Ft) = {} \<and> Fs \<inter> Fi = {} \<and> Fs \<inter> Ft = {} \<and> Fi \<inter> Ft = {}"

definition ds_at :: "heap \<Rightarrow> block \<Rightarrow> int \<Rightarrow> derived \<Rightarrow> block set \<Rightarrow> bool" where
  "ds_at m a n d F \<longleftrightarrow> (\<exists>s q its ns Fs Fi Ft.
     ds_parts m a n d s q its ns Fs Fi Ft \<and> F = {a, q} \<union> Fs \<union> Fi \<union> Ft)"

lemma ds_at_live: "ds_at m a n d F \<Longrightarrow> F \<subseteq> dom (blocks m) \<and> finite F \<and> a \<in> F"
proof -
  assume "ds_at m a n d F"
  then obtain s q its ns Fs Fi Ft
    where p: "ds_parts m a n d s q its ns Fs Fi Ft" and F: "F = {a, q} \<union> Fs \<union> Fi \<union> Ft"
    unfolding ds_at_def by blast
  note p = p [unfolded ds_parts_def]
  have "Fs \<subseteq> dom (blocks m)" "finite Fs"
    using p moe_str.live_law [of m s "d_name d" Fs] moe_str.finite_law [of m s "d_name d" Fs] by blast+
  moreover have "Fi \<subseteq> dom (blocks m) \<and> finite Fi"
    using p moe_item.list_live [of m "take (length (d_handlers d)) its" "d_handlers d" Fi] by blast
  moreover have "Ft \<subseteq> dom (blocks m) \<and> finite Ft"
    using p moe_node.list_live [of m ns "d_tokens d" Ft] by blast
  ultimately show ?thesis using p F by auto
qed

lemma ds_partsD:
  assumes "ds_parts m a n d s q its ns Fs Fi Ft"
  shows "blocks m a \<noteq> None" and "blocks m q \<noteq> None" and "a \<noteq> q"
    and "objs m a = Some (Obj_Derived_Struct
       \<lparr>struct_name = Some s, derive_item_num = n, derive_items = Some q\<rparr>)"
    and "string_at m s (d_name d) Fs"
    and "objs m q = Some (Obj_Derive_Items its)" and "length (d_handlers d) \<le> length its"
    and "rep_list item_at m (take (length (d_handlers d)) its) (d_handlers d) Fi"
    and "dlist (lnodes m) (a, 24) (node_ptrs ns)" and "rep_list node_at m ns (d_tokens d) Ft"
    and "a \<notin> Fs" "a \<notin> Fi" "a \<notin> Ft" "q \<notin> Fs" "q \<notin> Fi" "q \<notin> Ft"
    and "Fs \<inter> Fi = {}" and "Fs \<inter> Ft = {}" and "Fi \<inter> Ft = {}" and "length its = 8"
  using assms unfolding ds_parts_def by auto

lemma ds_partsI:
  assumes "blocks m a \<noteq> None" and "blocks m q \<noteq> None" and "a \<noteq> q"
    and "objs m a = Some (Obj_Derived_Struct
       \<lparr>struct_name = Some s, derive_item_num = n, derive_items = Some q\<rparr>)"
    and "string_at m s (d_name d) Fs"
    and "objs m q = Some (Obj_Derive_Items its)" and "length its = 8" and "length (d_handlers d) \<le> 8"
    and "rep_list item_at m (take (length (d_handlers d)) its) (d_handlers d) Fi"
    and "dlist (lnodes m) (a, 24) (node_ptrs ns)" and "rep_list node_at m ns (d_tokens d) Ft"
    and "{a, q} \<inter> Fs = {}" and "{a, q} \<inter> Fi = {}" and "{a, q} \<inter> Ft = {}"
    and "Fs \<inter> Fi = {}" and "Fs \<inter> Ft = {}" and "Fi \<inter> Ft = {}"
  shows "ds_parts m a n d s q its ns Fs Fi Ft"
  using assms unfolding ds_parts_def by (simp add: domIff Int_Un_distrib)

lemma dlist_lnodes_cong:
  "(\<And>p. p \<in> set (l # xs) \<Longrightarrow> h' p = h p) \<Longrightarrow> dlist h' l xs = dlist h l xs"
  by (intro dlist_cong) (simp_all add: nxt_def prv_def)

lemma moe_derived_struct_free_ok:
  assumes "ds_at m a (int (length (d_handlers d))) d F"
  shows "\<exists>m'. moe_derived_struct_free (Some a) m = Inr ((), m') \<and> mem_freed F m m'"
proof -
  let ?n = "length (d_handlers d)"
  from assms obtain s q its ns Fs Fi Ft
    where parts: "ds_parts m a (int ?n) d s q its ns Fs Fi Ft" and F: "F = {a, q} \<union> Fs \<union> Fi \<union> Ft"
    unfolding ds_at_def by blast
  note p = ds_partsD [OF parts]
  obtain m1 where m1: "moe_string_free (Some s) m = Inr ((), m1)" "mem_freed Fs m m1"
    using moe_str.destroy_law [OF p(5)] by blast
  have "rep_list item_at m1 (take ?n its) (d_handlers d) Fi"
    using moe_item.list_after_free [OF p(8) m1(2)] p(17) by (simp add: Int_commute)
  moreover have "objs m1 q = Some (Obj_Derive_Items its)" using p(6,14) m1(2) by (simp add: mem_freedD)
  ultimately obtain m2 where m2: "cforeach (moe_derive_item_destroy (Some q)) [0..<?n] m1 = Inr ((), m2)"
      "mem_freed Fi m1 m2"
    using destroy_items_ok [of m1 0 ?n its "d_handlers d" Fi q] p(7,15) by auto
  have f2: "mem_freed (Fs \<union> Fi) m m2" by (rule mem_freed_trans [OF m1(2) m2(2) p(17)])
  have "blocks m2 q \<noteq> None" using p(2,14,15) f2 by (simp add: mem_freedD)
  then obtain m3 where m3: "MOE_FREE (Some q) m2 = Inr ((), m3)" "mem_freed {q} m2 m3"
    using MOE_FREE_ok by blast
  have f3: "mem_freed (Fs \<union> Fi \<union> {q}) m m3"
    using p(14,15) by (intro mem_freed_trans [OF f2 m3(2)]) simp
  have "rep_list node_at m3 ns (d_tokens d) Ft"
    by (rule moe_node.list_after_free [OF p(10) f3]) (use p(16,18,19) in blast)
  moreover have "dlist (lnodes m3) (a, 24) (node_ptrs ns)"
  proof (subst dlist_lnodes_cong)
    show "dlist (lnodes m) (a, 24) (node_ptrs ns)" by (rule p(9))
    show "lnodes m3 x = lnodes m x" if "x \<in> set ((a, 24) # node_ptrs ns)" for x
    proof -
      from that have "fst x \<in> insert a Ft" using rep_nodes_blocks [OF p(10)] by auto
      then have "fst x \<notin> Fs \<union> Fi \<union> {q}" using p(3,11,12,16,18,19) by blast
      then show ?thesis by (cases x) (simp add: mem_freedD [OF f3])
    qed
  qed
  ultimately obtain m4 where m4: "moe_struct_metadata_destroy (Some (a, 24)) m3 = Inr ((), m4)"
      "mem_freed Ft m3 m4"
    using moe_struct_metadata_destroy_ok by blast
  have f4: "mem_freed (Fs \<union> Fi \<union> {q} \<union> Ft) m m4"
    by (rule mem_freed_trans [OF f3 m4(2)]) (use p(16,18,19) in blast)
  have "blocks m4 a \<noteq> None" using p(1,3,11,12,13) f4 by (simp add: mem_freedD)
  then obtain m5 where m5: "MOE_FREE (Some a) m4 = Inr ((), m5)" "mem_freed {a} m4 m5"
    using MOE_FREE_ok by blast
  have "moe_derived_struct_free (Some a) m = Inr ((), m5)"
    using p(4) m1(1) m2(1) m3(1) m4(1) m5(1) by (simp add: moe_derived_struct_free_def metadata_of_def)
  moreover have "mem_freed (Fs \<union> Fi \<union> {q} \<union> Ft \<union> {a}) m m5"
    using p(3,11,12,13) by (intro mem_freed_trans [OF f4 m5(2)]) simp
  moreover have "Fs \<union> Fi \<union> {q} \<union> Ft \<union> {a} = F" using F by auto
  ultimately show ?thesis by auto
qed

section \<open>Creation\<close>

text \<open>\<open>mem_ext m m'\<close>: memory grew, and no node that existed before was touched.\<close>

definition mem_ext :: "'o mem \<Rightarrow> 'o mem \<Rightarrow> bool" where
  "mem_ext m m' \<longleftrightarrow> mem_wf m' \<and> mem_grew {} m m' \<and> lnodes m' = lnodes m"

lemma mem_ext_trans: "mem_ext m m' \<Longrightarrow> mem_ext m' m'' \<Longrightarrow> mem_ext m m''"
  unfolding mem_ext_def by (metis empty_iff mem_grew_trans)

lemma mem_ext_fresh: "mem_ext m m' \<Longrightarrow> fresh_block m \<le> fresh_block m'"
  by (simp add: mem_ext_def mem_grew_def)

lemma mem_ext_store:
  "mem_ext m m' \<Longrightarrow> fresh_block m \<le> b \<Longrightarrow> blocks m' b \<noteq> None \<Longrightarrow>
     mem_ext m (m'\<lparr>objs := (objs m')(b \<mapsto> x)\<rparr>)"
  by (auto simp: mem_ext_def intro: mem_wf_store mem_grew_store_new)

lemma mem_ext_live: "mem_ext m m' \<Longrightarrow> fresh_block m \<le> b \<Longrightarrow> b < fresh_block m' \<Longrightarrow> blocks m' b \<noteq> None"
  by (auto simp: mem_ext_def mem_grew_def dom_def set_eq_iff)

lemma mem_ext_alloc:
  assumes "mem_wf m"
  shows "\<exists>m'. MOE_ALLOC ty sz m = Inr (fresh_block m, m') \<and> mem_ext m m' \<and>
     fresh_block m' = Suc (fresh_block m)"
  using MOE_ALLOC_ok [OF assms] unfolding mem_ext_def by blast

lemma mem_ext_alloc_range:
  assumes "mem_wf m" and "0 \<le> n"
  shows "\<exists>m'. MOE_ALLOC_RANGE ty sz n m = Inr (Some (fresh_block m), m') \<and> mem_ext m m' \<and>
     fresh_block m' = Suc (fresh_block m)"
  using MOE_ALLOC_RANGE_ok [OF assms] unfolding mem_ext_def by blast

lemma mem_ext_string:
  assumes "mem_wf m" and "c_bytes data len cs"
  shows "\<exists>m'. moe_string_alloc data len m = Inr (Some (fresh_block m), m') \<and> mem_ext m m' \<and>
     fresh_block m' = fresh_block m + 3 \<and>
     string_at m' (fresh_block m) cs {fresh_block m..<fresh_block m'}"
  using moe_string_alloc_ok [OF assms] unfolding mem_ext_def by blast

lemma new_token_ok:
  assumes wf: "mem_wf m"
    and val: "\<And>m1. mem_wf m1 \<Longrightarrow> \<exists>v m2. val m1 = Inr (v, m2) \<and> mem_ext m1 m2 \<and>
               value_at m2 v tk {fresh_block m1..<fresh_block m2}"
  shows "\<exists>m'. new_token (atoken_type tk) val m = Inr (Some (fresh_block m), m') \<and> mem_ext m m' \<and>
     token_at m' (fresh_block m) tk {fresh_block m..<fresh_block m'}"
proof -
  let ?b = "fresh_block m"
  obtain m1 where m1: "MOE_ALLOC ''moe_token_t'' 16 m = Inr (?b, m1)" "mem_ext m m1"
      "fresh_block m1 = Suc ?b"
    using mem_ext_alloc [OF wf] by blast
  then obtain v m2 where m2: "val m1 = Inr (v, m2)" "mem_ext m1 m2"
      "value_at m2 v tk {Suc ?b..<fresh_block m2}"
    using val [of m1] by (auto simp: mem_ext_def)
  let ?m = "m2\<lparr>objs := (objs m2)(?b \<mapsto> Obj_Token \<lparr>tok_value = v, tok_type = atoken_type tk\<rparr>)\<rparr>"
  have e: "mem_ext m m2" using m1(2) m2(2) by (rule mem_ext_trans)
  have le: "?b < fresh_block m2" using mem_ext_fresh [OF m2(2)] m1(3) by simp
  then have live: "blocks m2 ?b \<noteq> None" using mem_ext_live [OF e] by simp
  have "value_at ?m v tk {Suc ?b..<fresh_block m2}"
    using m2(3) by (rule value_at_agree) simp
  then have "token_at ?m ?b tk {?b..<fresh_block ?m}"
    unfolding token_at_def using live le
    by (intro exI [of _ v] exI [of _ "{Suc ?b..<fresh_block m2}"]) auto
  moreover have "mem_ext m ?m" using e live by (intro mem_ext_store) auto
  moreover have "new_token (atoken_type tk) val m = Inr (Some ?b, ?m)"
    using m1(1) m2(1) live by (simp add: new_token_def)
  ultimately show ?thesis by blast
qed

lemma string_value_ok:
  assumes "mem_wf m" and "c_bytes data len cs"
  shows "\<exists>v m2. cbind (moe_string_alloc data len) (\<lambda>s. creturn (Str_Value s)) m = Inr (v, m2) \<and>
     mem_ext m m2 \<and> value_at m2 v (A_Ident cs) {fresh_block m..<fresh_block m2} \<and>
     value_at m2 v (A_Str cs) {fresh_block m..<fresh_block m2}"
proof -
  obtain m' where "moe_string_alloc data len m = Inr (Some (fresh_block m), m')" "mem_ext m m'"
     "string_at m' (fresh_block m) cs {fresh_block m..<fresh_block m'}"
    using mem_ext_string [OF assms] by blast
  then show ?thesis by auto
qed

lemma mem_ext_refl: "mem_wf m \<Longrightarrow> mem_ext m m"
  by (simp add: mem_ext_def)

lemma token_create_ok:
  assumes wf: "mem_wf m"
  shows "c_bytes data len cs \<Longrightarrow>
      \<exists>m'. moe_token_create_identifier data len m = Inr (Some (fresh_block m), m') \<and> mem_ext m m' \<and>
        token_at m' (fresh_block m) (A_Ident cs) {fresh_block m..<fresh_block m'}"
    and "c_bytes data len cs \<Longrightarrow>
      \<exists>m'. moe_token_create_string_literal data len m = Inr (Some (fresh_block m), m') \<and> mem_ext m m' \<and>
        token_at m' (fresh_block m) (A_Str cs) {fresh_block m..<fresh_block m'}"
    and "\<exists>m'. moe_token_create_punctuation i m = Inr (Some (fresh_block m), m') \<and> mem_ext m m' \<and>
        token_at m' (fresh_block m) (A_Punct i) {fresh_block m..<fresh_block m'}"
    and "\<exists>m'. moe_token_create_int_literal i m = Inr (Some (fresh_block m), m') \<and> mem_ext m m' \<and>
        token_at m' (fresh_block m) (A_Int i) {fresh_block m..<fresh_block m'}"
    and "\<exists>m'. moe_token_create_float_literal f m = Inr (Some (fresh_block m), m') \<and> mem_ext m m' \<and>
        token_at m' (fresh_block m) (A_Float f) {fresh_block m..<fresh_block m'}"
proof -
  show "\<exists>m'. moe_token_create_identifier data len m = Inr (Some (fresh_block m), m') \<and> mem_ext m m' \<and>
        token_at m' (fresh_block m) (A_Ident cs) {fresh_block m..<fresh_block m'}"
    if "c_bytes data len cs"
    using new_token_ok [OF wf, of "cbind (moe_string_alloc data len) (\<lambda>s. creturn (Str_Value s))" "A_Ident cs"]
      string_value_ok [OF _ that]
    unfolding moe_token_create_identifier_def atoken_type.simps by blast
  show "\<exists>m'. moe_token_create_string_literal data len m = Inr (Some (fresh_block m), m') \<and> mem_ext m m' \<and>
        token_at m' (fresh_block m) (A_Str cs) {fresh_block m..<fresh_block m'}"
    if "c_bytes data len cs"
    using new_token_ok [OF wf, of "cbind (moe_string_alloc data len) (\<lambda>s. creturn (Str_Value s))" "A_Str cs"]
      string_value_ok [OF _ that]
    unfolding moe_token_create_string_literal_def atoken_type.simps by blast
  show "\<exists>m'. moe_token_create_punctuation i m = Inr (Some (fresh_block m), m') \<and> mem_ext m m' \<and>
        token_at m' (fresh_block m) (A_Punct i) {fresh_block m..<fresh_block m'}"
    using new_token_ok [OF wf, of "creturn (Int_Value i)" "A_Punct i"]
    by (simp add: moe_token_create_punctuation_def mem_ext_refl)
  show "\<exists>m'. moe_token_create_int_literal i m = Inr (Some (fresh_block m), m') \<and> mem_ext m m' \<and>
        token_at m' (fresh_block m) (A_Int i) {fresh_block m..<fresh_block m'}"
    using new_token_ok [OF wf, of "creturn (Int_Value i)" "A_Int i"]
    by (simp add: moe_token_create_int_literal_def mem_ext_refl)
  show "\<exists>m'. moe_token_create_float_literal f m = Inr (Some (fresh_block m), m') \<and> mem_ext m m' \<and>
        token_at m' (fresh_block m) (A_Float f) {fresh_block m..<fresh_block m'}"
    using new_token_ok [OF wf, of "creturn (Float_Value f)" "A_Float f"]
    by (simp add: moe_token_create_float_literal_def mem_ext_refl)
qed

lemma on_lnodes_Inr [simp]:
  "f (lnodes m) = Inr (a, h) \<Longrightarrow> on_lnodes f m = Inr (a, m\<lparr>lnodes := h\<rparr>)"
  by (simp add: on_lnodes_def)

lemma place_node_apply [simp]:
  "place_node b k m = Inr ((), m\<lparr>lnodes := (lnodes m)((b, k) \<mapsto> \<lparr>nd_next = None, nd_prev = None\<rparr>)\<rparr>)"
  by (simp add: place_node_def)

lemma mem_wf_lnodes_upd:
  assumes "mem_wf m" and "\<And>b k. h (b, k) \<noteq> None \<Longrightarrow> blocks m b \<noteq> None"
  shows "mem_wf (m\<lparr>lnodes := h\<rparr>)"
  using assms by (auto simp: mem_wf_def)

lemma metadata_add_token_ok:
  assumes wf: "mem_wf m" and d: "dlist (lnodes m) (a, 24) (node_ptrs ns)"
  shows "\<exists>m'. moe_derive_struct_metadata_add_token (Some (a, 24)) (Some t) m = Inr ((), m') \<and>
     mem_wf m' \<and> mem_grew (set ((a, 24) # node_ptrs ns)) m m' \<and> fresh_block m' = Suc (fresh_block m) \<and>
     dlist (lnodes m') (a, 24) (node_ptrs (ns @ [fresh_block m])) \<and>
     objs m' (fresh_block m) = Some (Obj_Stream_Node (Some t)) \<and> blocks m' (fresh_block m) \<noteq> None"
proof -
  let ?b = "fresh_block m"
  obtain m1 where m1: "MOE_ALLOC ''moe__struct_metadata_token_stream_node_t'' 24 m = Inr (?b, m1)"
      "mem_ext m m1" "fresh_block m1 = Suc ?b"
    using mem_ext_alloc [OF wf] by blast
  have live: "blocks m1 ?b \<noteq> None" using mem_ext_live [OF m1(2)] m1(3) by simp
  let ?m2 = "m1\<lparr>objs := (objs m1)(?b \<mapsto> Obj_Stream_Node (Some t))\<rparr>"
  let ?h = "(lnodes m1)((?b, 0) \<mapsto> \<lparr>nd_next = None, nd_prev = None\<rparr>)"
  obtain h1 where h1: "moe_list_node_init (Some (?b, 0)) ?h = Inr ((), h1)" "same_elsewhere {(?b, 0)} ?h h1"
    using moe_list_node_init_ok [of "(?b, 0)" ?h] by auto
  have old: "(?b, 0) \<notin> set ((a, 24) # node_ptrs ns)"
    using dlist_dom [OF d] mem_wf_lnodes [OF wf mem_wf_fresh [OF wf order_refl], of 0] by auto
  have ln: "lnodes m1 = lnodes m" using m1(2) by (simp add: mem_ext_def)
  have h1_old: "h1 x = lnodes m x" if "x \<noteq> (?b, 0)" for x
    using h1(2) ln that by (cases x) (auto simp: same_elsewhere_def)
  have "h1 x = lnodes m x" if "x \<in> set ((a, 24) # node_ptrs ns)" for x
    using that old by (intro h1_old) metis
  then have "dlist h1 (a, 24) (node_ptrs ns)"
    using d dlist_lnodes_cong [of "(a, 24)" "node_ptrs ns" h1 "lnodes m"] by simp
  then obtain h2 where h2: "moe_list_add_tail (Some (a, 24)) (Some (?b, 0)) h1 = Inr ((), h2)"
      "dlist h2 (a, 24) (node_ptrs ns @ [(?b, 0)])"
      "same_elsewhere (set ((a, 24) # (?b, 0) # node_ptrs ns)) h1 h2"
    using moe_list_add_tail_ok [of h1 "(a, 24)" "node_ptrs ns" "(?b, 0)"] old h1(2)
    by (auto simp: same_elsewhere_def)
  let ?m' = "?m2\<lparr>lnodes := h2\<rparr>"
  have dom: "dom h2 = insert (?b, 0) (dom (lnodes m))"
    using h1(2) h2(3) ln by (auto simp: same_elsewhere_def)
  have "mem_wf ?m2" using m1(2) live by (intro mem_wf_store) (simp_all add: mem_ext_def)
  then have "mem_wf ?m'"
  proof (rule mem_wf_lnodes_upd)
    fix b k
    assume "h2 (b, k) \<noteq> None"
    then have "(b, k) = (?b, 0) \<or> (b, k) \<in> dom (lnodes m1)" using dom ln by auto
    then show "blocks ?m2 b \<noteq> None"
      using live m1(2) mem_wf_lnodes [of m1 b k] by (cases "blocks m1 b") (auto simp: mem_ext_def)
  qed
  moreover have "h2 (b, k) = lnodes m (b, k)"
    if "b < ?b" "(b, k) \<notin> set ((a, 24) # node_ptrs ns)" for b k
    using that h1_old [of "(b, k)"] h2(3) by (simp add: same_elsewhere_def)
  then have "mem_grew (set ((a, 24) # node_ptrs ns)) m ?m'"
    using m1(2) by (auto simp: mem_ext_def mem_grew_def)
  ultimately show ?thesis
    using m1(1,3) live h1(1) h2(1,2)
    by (auto simp: moe_derive_struct_metadata_add_token_def
        moe_struct_metadata_token_stream_node_alloc_def)
qed

text \<open>
  The parser keeps the derived struct under construction in all the blocks allocated since it
  started: \<open>building m0 m a n d\<close> for the struct \<open>a\<close> with contents \<open>d\<close>, started in
  memory \<open>m0\<close>.
\<close>

definition building :: "heap \<Rightarrow> heap \<Rightarrow> block \<Rightarrow> int \<Rightarrow> derived \<Rightarrow> bool" where
  "building m0 m a n d \<longleftrightarrow> mem_wf m0 \<and> mem_wf m \<and> mem_grew {} m0 m \<and>
     ds_at m a n d {fresh_block m0..<fresh_block m}"

lemma building_parts:
  assumes "building m0 m a n d"
  obtains s q its ns Fs Fi Ft
  where "ds_parts m a n d s q its ns Fs Fi Ft"
    and "{fresh_block m0..<fresh_block m} = {a, q} \<union> Fs \<union> Fi \<union> Ft"
    and "{a, q} \<union> Fs \<union> Fi \<union> Ft \<subseteq> dom (blocks m)"
    and "mem_wf m0" and "mem_wf m" and "mem_grew {} m0 m" and "fresh_block m0 \<le> fresh_block m"
proof -
  from assms obtain s q its ns Fs Fi Ft
    where 1: "ds_parts m a n d s q its ns Fs Fi Ft"
      and 2: "{fresh_block m0..<fresh_block m} = {a, q} \<union> Fs \<union> Fi \<union> Ft"
    unfolding building_def ds_at_def by (elim conjE exE) (rule that)
  have 3: "{a, q} \<union> Fs \<union> Fi \<union> Ft \<subseteq> dom (blocks m)"
    using assms ds_at_live [of m a n d "{fresh_block m0..<fresh_block m}"] 2 by (simp add: building_def)
  have "mem_wf m0" "mem_wf m" "mem_grew {} m0 m" "fresh_block m0 \<le> fresh_block m"
    using assms by (simp_all add: building_def mem_grew_def)
  with 1 2 3 show ?thesis by (rule that)
qed

lemma agree_parts:
  assumes "agree_on ({a, q} \<union> Fs \<union> Fi \<union> Ft) m m'"
  shows "objs m' a = objs m a" and "objs m' q = objs m q" and "blocks m' a = blocks m a"
    and "blocks m' q = blocks m q" and "agree_on Fs m m'" and "agree_on Fi m m'" and "agree_on Ft m m'"
  using assms by (auto simp: agree_on_def)

lemma building_add_token:
  assumes b: "building m0 m a n d" and e: "mem_ext m m1"
    and t: "token_at m1 t tk {fresh_block m..<fresh_block m1}"
  shows "\<exists>m2. moe_derive_struct_metadata_add_token (Some (a, 24)) (Some t) m1 = Inr ((), m2) \<and>
     building m0 m2 a n (d\<lparr>d_tokens := d_tokens d @ [tk]\<rparr>) \<and> objs m2 a = objs m a"
proof -
  obtain s q its ns Fs Fi Ft
    where parts: "ds_parts m a n d s q its ns Fs Fi Ft"
      and F: "{fresh_block m0..<fresh_block m} = {a, q} \<union> Fs \<union> Fi \<union> Ft"
      and F_live: "{a, q} \<union> Fs \<union> Fi \<union> Ft \<subseteq> dom (blocks m)"
      and wf: "mem_wf m0" "mem_wf m" and g: "mem_grew {} m0 m" and le: "fresh_block m0 \<le> fresh_block m"
    by (rule building_parts [OF b])
  note p = ds_partsD [OF parts]
  have wf1: "mem_wf m1" and g1: "mem_grew {} m m1" and ln: "lnodes m1 = lnodes m"
    using e by (simp_all add: mem_ext_def)
  let ?n = "fresh_block m1" and ?new = "{fresh_block m..<Suc (fresh_block m1)}"
  have le1: "fresh_block m \<le> ?n" using mem_ext_fresh [OF e] .
  obtain m2 where m2: "moe_derive_struct_metadata_add_token (Some (a, 24)) (Some t) m1 = Inr ((), m2)"
      "mem_wf m2" "mem_grew (set ((a, 24) # node_ptrs ns)) m1 m2" "fresh_block m2 = Suc ?n"
      "dlist (lnodes m2) (a, 24) (node_ptrs (ns @ [?n]))"
      "objs m2 ?n = Some (Obj_Stream_Node (Some t))" "blocks m2 ?n \<noteq> None"
    using metadata_add_token_ok [OF wf1, of a ns t] p(9) ln by auto
  have ag1: "agree_on ({a, q} \<union> Fs \<union> Fi \<union> Ft) m m1" by (rule agree_on_grew [OF g1 F_live wf(2)])
  then have ag: "agree_on ({a, q} \<union> Fs \<union> Fi \<union> Ft) m m2"
    using agree_on_grew [OF m2(3) agree_on_live [OF ag1 F_live] wf1] by (rule agree_on_trans)
  note ag = agree_parts [OF ag]
  have t2: "token_at m2 t tk {fresh_block m..<?n}" by (rule moe_tok.after_growth [OF t wf1 m2(3)])
  have node: "node_at m2 ?n tk ?new"
    unfolding node_at_def using m2(6,7) t2 le1
    by (intro exI [of _ t] exI [of _ "{fresh_block m..<?n}"]) auto
  have new: "({a, q} \<union> Fs \<union> Fi \<union> Ft) \<inter> ?new = {}" unfolding F [symmetric] by auto
  have nodes: "rep_list node_at m2 (ns @ [?n]) (d_tokens d @ [tk]) (Ft \<union> ?new)"
    using new by (intro moe_node.list_snoc [OF moe_node.list_agree [OF p(10) ag(7)] node]) blast
  have "ds_parts m2 a n (d\<lparr>d_tokens := d_tokens d @ [tk]\<rparr>) s q its (ns @ [?n]) Fs Fi (Ft \<union> ?new)"
  proof (rule ds_partsI)
    show "string_at m2 s (d_name (d\<lparr>d_tokens := d_tokens d @ [tk]\<rparr>)) Fs"
      using moe_str.agree_law [OF p(5) ag(5)] by simp
    show "rep_list item_at m2 (take (length (d_handlers (d\<lparr>d_tokens := d_tokens d @ [tk]\<rparr>))) its)
        (d_handlers (d\<lparr>d_tokens := d_tokens d @ [tk]\<rparr>)) Fi"
      using moe_item.list_agree [OF p(8) ag(6)] by simp
    show "{a, q} \<inter> (Ft \<union> ?new) = {}" "Fs \<inter> (Ft \<union> ?new) = {}" "Fi \<inter> (Ft \<union> ?new) = {}"
      using new p(13,16,18,19) by blast+
  qed (use p ag(1-4) m2(5) nodes in simp_all)
  moreover have "{fresh_block m0..<fresh_block m2} = {a, q} \<union> Fs \<union> Fi \<union> (Ft \<union> ?new)"
    using ivl_disj_un(17) [OF le, of "Suc ?n"] le1 F m2(4) by (auto simp: Un_assoc)
  ultimately have "ds_at m2 a n (d\<lparr>d_tokens := d_tokens d @ [tk]\<rparr>) {fresh_block m0..<fresh_block m2}"
    unfolding ds_at_def by blast
  moreover have "mem_grew {} m0 m2"
  proof (rule mem_grew_trans [OF g])
    show "mem_grew (set ((a, 24) # node_ptrs ns)) m m2"
      by (rule mem_grew_trans [OF mem_grew_mono [OF g1] m2(3)]) auto
    show "(b, k) \<in> {}" if "(b, k) \<in> set ((a, 24) # node_ptrs ns)" "b < fresh_block m0" for b k
    proof -
      have "b \<in> insert a Ft" using that(1) rep_nodes_blocks [OF p(10)] by auto
      then have "b \<in> {fresh_block m0..<fresh_block m}" unfolding F by blast
      with that(2) show ?thesis by simp
    qed
  qed
  ultimately show ?thesis using m2(1,2) wf(1) ag(1) by (auto simp: building_def)
qed

end
