(* ===== verification/Derived_Build.thy ===== *)
theory Derived_Build
  imports Token_Rep
begin

text \<open>
  How a derived struct grows: allocation gives an empty one, a derive item extends its handlers, a
  token extends its stream (\<open>building_add_token\<close> of \<open>Token_Rep\<close>), and recording the number
  of items completes it.  A complete one is destroyed without a trace.
\<close>

section \<open>Allocation\<close>

lemma mem_grew_lnodes_new:
  "mem_grew {} m m' \<Longrightarrow> (\<And>b k. b < fresh_block m \<Longrightarrow> h (b, k) = lnodes m' (b, k)) \<Longrightarrow>
     mem_grew {} m (m'\<lparr>lnodes := h\<rparr>)"
  by (simp add: mem_grew_def)

lemma building_alloc:
  assumes wf: "mem_wf m" and name: "c_bytes name 0 cs"
  shows "\<exists>m'. moe_derived_struct_alloc name 8 m = Inr (fresh_block m, m') \<and>
     building m m' (fresh_block m) 8 \<lparr>d_name = cs, d_handlers = [], d_tokens = []\<rparr>"
proof -
  let ?b = "fresh_block m"
  obtain m1 where m1: "MOE_ALLOC ''moe_derived_struct_t'' 40 m = Inr (?b, m1)" "mem_ext m m1"
      "fresh_block m1 = Suc ?b"
    using mem_ext_alloc [OF wf] by blast
  have live1: "blocks m1 ?b \<noteq> None" using mem_ext_live [OF m1(2)] m1(3) by simp
  let ?n = "(lnodes m1)((?b, 24) \<mapsto> \<lparr>nd_next = None, nd_prev = None\<rparr>)"
  let ?m1 = "m1\<lparr>lnodes := ?n\<rparr>"
  have wf1: "mem_wf ?m1"
  proof (rule mem_wf_lnodes_upd)
    show "mem_wf m1" using m1(2) by (simp add: mem_ext_def)
    then show "blocks m1 b \<noteq> None" if "?n (b, k) \<noteq> None" for b k
      using that live1 mem_wf_lnodes [of m1 b k] by (cases "b = ?b"; cases "blocks m1 b") auto
  qed
  have g1: "mem_grew {} m ?m1" using m1(2) by (auto simp: mem_ext_def intro!: mem_grew_lnodes_new)
  obtain m2 where m2: "moe_string_alloc name 0 ?m1 = Inr (Some (Suc ?b), m2)" "mem_ext ?m1 m2"
      "fresh_block m2 = ?b + 4" "string_at m2 (Suc ?b) cs {Suc ?b..<?b + 4}"
    using mem_ext_string [OF wf1 name] m1(3) by (auto simp: add.commute)
  have wf2: "mem_wf m2" using m2(2) by (simp add: mem_ext_def)
  obtain m3 where m3: "MOE_ALLOC_RANGE ''moe_derive_item_t'' 24 8 m2 = Inr (Some (?b + 4), m3)"
      "mem_ext m2 m3" "fresh_block m3 = ?b + 5"
    using mem_ext_alloc_range [OF wf2, of 8 "''moe_derive_item_t''" 24] m2(3) by (auto simp: add.commute)
  have e: "mem_ext ?m1 m3" by (rule mem_ext_trans [OF m2(2) m3(2)])
  have g3: "mem_grew {} m m3"
    using g1 e by (auto simp: mem_ext_def intro: mem_grew_trans)
  then have live3: "blocks m3 ?b \<noteq> None" "blocks m3 (?b + 4) \<noteq> None"
    using m3(3) by (auto simp: mem_grew_def dom_def set_eq_iff)
  let ?its = "replicate 8 \<lparr>derive_handler_name = None, arg_num = 0, item_args = None\<rparr>"
  let ?ds = "\<lparr>struct_name = Some (Suc ?b), derive_item_num = 8, derive_items = Some (?b + 4)\<rparr>"
  let ?m4 = "m3\<lparr>objs := (objs m3)(?b + 4 \<mapsto> Obj_Derive_Items ?its, ?b \<mapsto> Obj_Derived_Struct ?ds)\<rparr>"
  have wf3: "mem_wf m3" using e by (simp add: mem_ext_def)
  have wf4: "mem_wf ?m4" using wf3 live3 by (simp add: mem_wf_def domIff)
  have g4: "mem_grew {} m ?m4" using g3 by (auto simp: mem_grew_def)
  have ln: "lnodes m3 = ?n" using e by (simp add: mem_ext_def)
  obtain h where h: "moe_list_node_init (Some (?b, 24)) (lnodes m3) = Inr ((), h)" "dlist h (?b, 24) []"
      "same_elsewhere {(?b, 24)} (lnodes m3) h"
    using moe_list_node_init_ok [of "(?b, 24)" "lnodes m3"] ln by auto
  let ?m = "?m4\<lparr>lnodes := h\<rparr>"
  have "dom h = dom (lnodes m3)" using h(3) by (simp add: same_elsewhere_def)
  then have "blocks ?m4 c \<noteq> None" if "h (c, k) \<noteq> None" for c k
    using that mem_wf_lnodes [OF wf3, of c k] by (cases "blocks m3 c") auto
  with wf4 have wf': "mem_wf ?m" by (rule mem_wf_lnodes_upd)
  have g': "mem_grew {} m ?m"
    using g4 h(3) by (intro mem_grew_lnodes_new) (auto simp: same_elsewhere_def)
  have str: "string_at ?m (Suc ?b) cs {Suc ?b..<?b + 4}"
  proof (rule moe_str.agree_law)
    have "mem_grew {} m2 m3" using m3(2) by (simp add: mem_ext_def)
    with m2(4) wf2 show "string_at m3 (Suc ?b) cs {Suc ?b..<?b + 4}" by (rule moe_str.after_growth)
    show "agree_on {Suc ?b..<?b + 4} m3 ?m" by (simp add: agree_on_def)
  qed
  have "ds_parts ?m ?b 8 \<lparr>d_name = cs, d_handlers = [], d_tokens = []\<rparr> (Suc ?b) (?b + 4) ?its []
      {Suc ?b..<?b + 4} {} {}"
  proof (rule ds_partsI)
    show "string_at ?m (Suc ?b) (d_name \<lparr>d_name = cs, d_handlers = [], d_tokens = []\<rparr>) {Suc ?b..<?b + 4}"
      using str by simp
    show "dlist (lnodes ?m) (?b, 24) (node_ptrs [])" using h(2) by simp
  qed (use live3 in simp_all)
  moreover have "{?b..<?b + 5} = {?b, ?b + 4} \<union> {Suc ?b..<?b + 4} \<union> {} \<union> {}" by auto
  ultimately have "ds_at ?m ?b 8 \<lparr>d_name = cs, d_handlers = [], d_tokens = []\<rparr> {?b..<?b + 5}"
    unfolding ds_at_def by (intro exI conjI)
  moreover have "fresh_block ?m = ?b + 5" using m3(3) by simp
  moreover have "moe_derived_struct_alloc name 8 m = Inr (?b, ?m)"
    using m1(1) m2(1) m3(1) live3 h(1)
    by (simp add: moe_derived_struct_alloc_def moe_struct_metadata_init_def metadata_of_def)
  ultimately show ?thesis using wf wf' g' unfolding building_def by metis
qed

section \<open>Derive items\<close>

lemma take_Suc_update: "n < length xs \<Longrightarrow> take (Suc n) (xs[n := x]) = take n xs @ [x]"
  by (simp add: take_Suc_conv_app_nth)

lemma new_item_ok:
  assumes wf: "mem_wf m" and name: "c_bytes name 0 cs"
    and q: "objs m q = Some (Obj_Derive_Items its)" "blocks m q \<noteq> None" and i: "i < length its"
  shows "\<exists>m' m'' it. moe_derive_item_create (Some q) i name 0 m = Inr ((), m'') \<and> mem_ext m m' \<and>
     m'' = m'\<lparr>objs := (objs m')(q \<mapsto> Obj_Derive_Items (its[i := it]))\<rparr> \<and>
     item_at m' it cs {fresh_block m..<fresh_block m'}"
proof -
  let ?b = "fresh_block m"
  obtain m1 where m1: "moe_string_alloc name 0 m = Inr (Some ?b, m1)" "mem_ext m m1"
      "fresh_block m1 = ?b + 3" "string_at m1 ?b cs {?b..<?b + 3}"
    using mem_ext_string [OF wf name] by auto
  have wf1: "mem_wf m1" using m1(2) by (simp add: mem_ext_def)
  obtain m2 where m2: "MOE_ALLOC_RANGE ''moe_derive_arg_t'' 16 0 m1 = Inr (Some (?b + 3), m2)"
      "mem_ext m1 m2" "fresh_block m2 = ?b + 4"
    using mem_ext_alloc_range [OF wf1, of 0 "''moe_derive_arg_t''" 16] m1(3) by (auto simp: add.commute)
  have e: "mem_ext m m2" by (rule mem_ext_trans [OF m1(2) m2(2)])
  have live: "blocks m2 (?b + 3) \<noteq> None" using mem_ext_live [OF e] m2(3) by simp
  let ?m3 = "m2\<lparr>objs := (objs m2)(?b + 3 \<mapsto> Obj_Derive_Args [])\<rparr>"
  let ?it = "\<lparr>derive_handler_name = Some ?b, arg_num = 0, item_args = Some (?b + 3)\<rparr>"
  have e3: "mem_ext m ?m3" using e live by (intro mem_ext_store) simp_all
  have "q < ?b" using wf q(2) mem_wf_fresh [OF wf, of q] by (cases "q < ?b") auto
  then have q3: "objs ?m3 q = Some (Obj_Derive_Items its)" "blocks ?m3 q \<noteq> None"
    using q e3 by (auto simp: mem_ext_def mem_grew_def)
  have "string_at m2 ?b cs {?b..<?b + 3}"
    using moe_str.after_growth [OF m1(4) wf1] m2(2) by (auto simp: mem_ext_def)
  then have "string_at ?m3 ?b cs {?b..<?b + 3}"
    by (rule moe_str.agree_law) simp
  moreover have "{?b..<?b + 4} = insert (?b + 3) {?b..<?b + 3}" by auto
  ultimately have "item_at ?m3 ?it cs {?b..<fresh_block ?m3}"
    unfolding item_at_def using live m2(3)
    by (intro exI [of _ ?b] exI [of _ "?b + 3"] exI [of _ "{?b..<?b + 3}"]) auto
  moreover have "moe_derive_item_create (Some q) i name 0 m =
      Inr ((), ?m3\<lparr>objs := (objs ?m3)(q \<mapsto> Obj_Derive_Items (its[i := ?it]))\<rparr>)"
    using m1(1) m2(1) live q3 i by (simp add: moe_derive_item_create_def)
  ultimately show ?thesis using e3 by blast
qed

text \<open>
  \<^verbatim>\<open>moe_derive_item_create(&derived_struct->derive_items[i], name, 0)\<close> where \<open>i\<close> is the number
  of handlers so far.
\<close>

lemma building_add_item:
  assumes b: "building m0 m a n d" and name: "c_bytes name 0 cs" and room: "length (d_handlers d) < 8"
  shows "\<exists>m' ds. objs m a = Some (Obj_Derived_Struct ds) \<and>
     moe_derive_item_create (derive_items ds) (length (d_handlers d)) name 0 m = Inr ((), m') \<and>
     building m0 m' a n (d\<lparr>d_handlers := d_handlers d @ [cs]\<rparr>) \<and> objs m' a = objs m a"
proof -
  obtain s q its ns Fs Fi Ft
    where parts: "ds_parts m a n d s q its ns Fs Fi Ft"
      and F: "{fresh_block m0..<fresh_block m} = {a, q} \<union> Fs \<union> Fi \<union> Ft"
      and F_live: "{a, q} \<union> Fs \<union> Fi \<union> Ft \<subseteq> dom (blocks m)"
      and wf: "mem_wf m0" "mem_wf m" and g: "mem_grew {} m0 m" and le: "fresh_block m0 \<le> fresh_block m"
    by (rule building_parts [OF b])
  note p = ds_partsD [OF parts]
  let ?i = "length (d_handlers d)" and ?d = "d\<lparr>d_handlers := d_handlers d @ [cs]\<rparr>"
  obtain m1 m2 it where c: "moe_derive_item_create (Some q) ?i name 0 m = Inr ((), m2)" and e: "mem_ext m m1"
    and m2: "m2 = m1\<lparr>objs := (objs m1)(q \<mapsto> Obj_Derive_Items (its[?i := it]))\<rparr>"
    and it: "item_at m1 it cs {fresh_block m..<fresh_block m1}"
    using new_item_ok [OF wf(2) name p(6,2), of ?i] p(20) room by auto
  let ?new = "{fresh_block m..<fresh_block m1}"
  have le1: "fresh_block m \<le> fresh_block m1" using mem_ext_fresh [OF e] .
  have wf1: "mem_wf m1" and g1: "mem_grew {} m m1" and ln: "lnodes m1 = lnodes m"
    using e by (simp_all add: mem_ext_def)
  note ag = agree_parts [OF agree_on_grew [OF g1 F_live wf(2)]]
  have new: "({a, q} \<union> Fs \<union> Fi \<union> Ft) \<inter> ?new = {}" unfolding F [symmetric] by auto
  have q2: "agree_on G m1 m2" if "q \<notin> G" for G using that m2 by simp
  have qn: "q \<notin> ?new" using new by blast
  have it2: "item_at m2 it cs ?new" by (rule moe_item.agree_law [OF it q2 [OF qn]])
  have items: "rep_list item_at m2 (take ?i its) (d_handlers d) Fi"
    by (rule moe_item.list_agree [OF moe_item.list_agree [OF p(8) ag(6)] q2 [OF p(15)]])
  have "rep_list item_at m2 (take ?i its @ [it]) (d_handlers d @ [cs]) (Fi \<union> ?new)"
    using new by (intro moe_item.list_snoc [OF items it2]) blast
  then have items': "rep_list item_at m2 (take (length (d_handlers ?d)) (its[?i := it])) (d_handlers ?d) (Fi \<union> ?new)"
    using room p(20) by (simp add: take_Suc_update)
  have "ds_parts m2 a n ?d s q (its[?i := it]) ns Fs (Fi \<union> ?new) Ft"
  proof (rule ds_partsI)
    show "string_at m2 s (d_name ?d) Fs"
      using moe_str.agree_law [OF moe_str.agree_law [OF p(5) ag(5)] q2 [OF p(14)]] by simp
    show "rep_list node_at m2 ns (d_tokens ?d) Ft"
      using moe_node.list_agree [OF moe_node.list_agree [OF p(10) ag(7)] q2 [OF p(16)]] by simp
    show "{a, q} \<inter> (Fi \<union> ?new) = {}" "Fs \<inter> (Fi \<union> ?new) = {}" "(Fi \<union> ?new) \<inter> Ft = {}"
      using new p(12,15,17,19) by blast+
    show "dlist (lnodes m2) (a, 24) (node_ptrs ns)" using p(9) ln m2 by simp
  qed (use p ag(1-4) m2 items' room in simp_all)
  moreover have "{fresh_block m0..<fresh_block m2} = {a, q} \<union> Fs \<union> (Fi \<union> ?new) \<union> Ft"
    using ivl_disj_un(17) [OF le le1] F m2 by (auto simp: Un_assoc)
  ultimately have "ds_at m2 a n ?d {fresh_block m0..<fresh_block m2}"
    unfolding ds_at_def by blast
  moreover have "mem_wf m2" using wf1 m2 p(2) ag(4) by (auto intro: mem_wf_store)
  moreover have "mem_grew {} m0 m2"
  proof -
    have "q \<in> {fresh_block m0..<fresh_block m}" unfolding F by blast
    then show ?thesis using mem_grew_trans [OF g g1] m2 by (auto intro: mem_grew_store_new)
  qed
  moreover have "objs m2 a = objs m a" using m2 ag(1) p(3) by simp
  ultimately show ?thesis using c p(4) wf(1) by (auto simp: building_def)
qed

section \<open>Completion\<close>

text \<open>\<^verbatim>\<open>derived_struct->derive_item_num = n\<close>.\<close>

lemma building_set_count:
  assumes b: "building m0 m a n d"
  shows "\<exists>ds. objs m a = Some (Obj_Derived_Struct ds) \<and> blocks m a \<noteq> None \<and>
     building m0 (m\<lparr>objs := (objs m)(a \<mapsto> Obj_Derived_Struct (ds\<lparr>derive_item_num := k\<rparr>))\<rparr>) a k d"
proof -
  obtain s q its ns Fs Fi Ft
    where parts: "ds_parts m a n d s q its ns Fs Fi Ft"
      and F: "{fresh_block m0..<fresh_block m} = {a, q} \<union> Fs \<union> Fi \<union> Ft"
      and F_live: "{a, q} \<union> Fs \<union> Fi \<union> Ft \<subseteq> dom (blocks m)"
      and wf: "mem_wf m0" "mem_wf m" and g: "mem_grew {} m0 m" and le: "fresh_block m0 \<le> fresh_block m"
    by (rule building_parts [OF b])
  note p = ds_partsD [OF parts]
  let ?ds = "\<lparr>struct_name = Some s, derive_item_num = n, derive_items = Some q\<rparr>"
  let ?m = "m\<lparr>objs := (objs m)(a \<mapsto> Obj_Derived_Struct (?ds\<lparr>derive_item_num := k\<rparr>))\<rparr>"
  have ag: "agree_on G m ?m" if "a \<notin> G" for G using that by simp
  have "ds_parts ?m a k d s q its ns Fs Fi Ft"
  proof (rule ds_partsI)
    show "string_at ?m s (d_name d) Fs" by (rule moe_str.agree_law [OF p(5) ag [OF p(11)]])
    show "rep_list item_at ?m (take (length (d_handlers d)) its) (d_handlers d) Fi"
      by (rule moe_item.list_agree [OF p(8) ag [OF p(12)]])
    show "rep_list node_at ?m ns (d_tokens d) Ft" by (rule moe_node.list_agree [OF p(10) ag [OF p(13)]])
  qed (use p in simp_all)
  moreover have "{fresh_block m0..<fresh_block ?m} = {a, q} \<union> Fs \<union> Fi \<union> Ft" using F by simp
  ultimately have "ds_at ?m a k d {fresh_block m0..<fresh_block ?m}" unfolding ds_at_def by blast
  moreover have "mem_wf ?m" using wf(2) p(1) by (rule mem_wf_store)
  moreover have "mem_grew {} m0 ?m"
  proof (rule mem_grew_store_new [OF g])
    have "a \<in> {fresh_block m0..<fresh_block m}" unfolding F by blast
    then show "fresh_block m0 \<le> a" by simp
  qed
  ultimately show ?thesis using p(1,4) wf(1) by (auto simp: building_def)
qed

section \<open>Reading and destroying\<close>

lemma building_name:
  assumes "building m0 m a n d" and "objs m a = Some (Obj_Derived_Struct ds)"
  shows "\<exists>s Fs. struct_name ds = Some s \<and> string_at m s (d_name d) Fs"
proof -
  obtain s q its ns Fs Fi Ft where parts: "ds_parts m a n d s q its ns Fs Fi Ft"
    by (rule building_parts [OF assms(1)])
  then show ?thesis using ds_partsD(4,5) [OF parts] assms(2) by auto
qed

lemma building_struct:
  assumes "building m0 m a n d"
  shows "\<exists>s q. objs m a = Some (Obj_Derived_Struct
     \<lparr>struct_name = Some s, derive_item_num = n, derive_items = Some q\<rparr>)"
proof -
  obtain s q its ns Fs Fi Ft where parts: "ds_parts m a n d s q its ns Fs Fi Ft"
    by (rule building_parts [OF assms])
  then show ?thesis using ds_partsD(4) [OF parts] by blast
qed

lemma building_destroy:
  assumes "building m0 m a (int (length (d_handlers d))) d"
  shows "\<exists>m'. moe_derived_struct_free (Some a) m = Inr ((), m') \<and> blocks m' = blocks m0 \<and> mem_wf m' \<and>
     fresh_block m0 \<le> fresh_block m' \<and>
     (\<forall>b < fresh_block m0. objs m' b = objs m0 b \<and> (\<forall>k. lnodes m' (b, k) = lnodes m0 (b, k))) \<and>
     total_allocated (stats m') - total_freed (stats m') = total_allocated (stats m0) - total_freed (stats m0)"
proof -
  have d: "ds_at m a (int (length (d_handlers d))) d {fresh_block m0..<fresh_block m}"
    and wf: "mem_wf m0" "mem_wf m" and g: "mem_grew {} m0 m"
    using assms by (simp_all add: building_def)
  obtain m' where m': "moe_derived_struct_free (Some a) m = Inr ((), m')"
      "mem_freed {fresh_block m0..<fresh_block m} m m'"
    using moe_derived_struct_free_ok [OF d] by blast
  moreover have "mem_wf m'"
    using mem_freed_wf [OF wf(2) m'(2)] ds_at_live [OF d] by blast
  moreover have "fresh_block m0 \<le> fresh_block m'" and
    "\<forall>b < fresh_block m0. objs m' b = objs m0 b \<and> (\<forall>k. lnodes m' (b, k) = lnodes m0 (b, k))"
    using g m'(2) by (simp_all add: mem_grew_def mem_freed_def)
  ultimately show ?thesis using mem_grew_freed [OF wf(1) g m'(2)] by blast
qed

end
