(* ===== verification/Stb_Lexer.thy ===== *)
theory Stb_Lexer
  imports Moe_Types
begin

text \<open>
  The lexer \<^verbatim>\<open>vendors/stb/stb_c_lexer.h\<close> in the configuration the program compiles:
  the default one, with the C library's number parsing, characters (not single-quoted strings)
  behind single quotes, and preprocessor lines discarded.

  The input is a buffer of bytes followed by a zero byte (\<^verbatim>\<open>read_file\<close> returns one).  A
  position is an index into it; a pointer \<^verbatim>\<open>p\<close> that only moves forward is the list of
  the bytes from \<^verbatim>\<open>p\<close> to the end of the input, so \<^verbatim>\<open>p != lexer->eof\<close> is
  that the list is not empty, a read at the end yields the zero byte, and a read behind it is
  \<open>Invalid_Access\<close>.  \<^verbatim>\<open>lexer->string\<close> always points to the string storage, so the
  model keeps only whether it has been set.
\<close>

section \<open>Tokens and the lexer's state\<close>

datatype clex =
    CLEX_eof | CLEX_parse_error | CLEX_intlit | CLEX_floatlit | CLEX_id | CLEX_dqstring
  | CLEX_sqstring | CLEX_charlit | CLEX_eq | CLEX_noteq | CLEX_lesseq | CLEX_greatereq
  | CLEX_andand | CLEX_oror | CLEX_shl | CLEX_shr | CLEX_plusplus | CLEX_minusminus
  | CLEX_pluseq | CLEX_minuseq | CLEX_muleq | CLEX_diveq | CLEX_modeq | CLEX_andeq
  | CLEX_oreq | CLEX_xoreq | CLEX_arrow | CLEX_eqarrow | CLEX_shleq | CLEX_shreq

primrec clex_code :: "clex \<Rightarrow> int" where
  "clex_code CLEX_eof = 256"
| "clex_code CLEX_parse_error = 257"
| "clex_code CLEX_intlit = 258"
| "clex_code CLEX_floatlit = 259"
| "clex_code CLEX_id = 260"
| "clex_code CLEX_dqstring = 261"
| "clex_code CLEX_sqstring = 262"
| "clex_code CLEX_charlit = 263"
| "clex_code CLEX_eq = 264"
| "clex_code CLEX_noteq = 265"
| "clex_code CLEX_lesseq = 266"
| "clex_code CLEX_greatereq = 267"
| "clex_code CLEX_andand = 268"
| "clex_code CLEX_oror = 269"
| "clex_code CLEX_shl = 270"
| "clex_code CLEX_shr = 271"
| "clex_code CLEX_plusplus = 272"
| "clex_code CLEX_minusminus = 273"
| "clex_code CLEX_pluseq = 274"
| "clex_code CLEX_minuseq = 275"
| "clex_code CLEX_muleq = 276"
| "clex_code CLEX_diveq = 277"
| "clex_code CLEX_modeq = 278"
| "clex_code CLEX_andeq = 279"
| "clex_code CLEX_oreq = 280"
| "clex_code CLEX_xoreq = 281"
| "clex_code CLEX_arrow = 282"
| "clex_code CLEX_eqarrow = 283"
| "clex_code CLEX_shleq = 284"
| "clex_code CLEX_shreq = 285"

record stb_lexer =
  input_stream :: "char list"
  parse_point :: nat
  string_storage :: "char list"
  string_storage_len :: nat
  where_firstchar :: nat
  where_lastchar :: nat
  token :: int
  real_number :: c_double
  int_number :: int
  string_set :: bool
  string_len :: int

record stb_lex_location =
  line_number :: int
  line_offset :: int

definition eof :: "stb_lexer \<Rightarrow> nat" where
  "eof l = length (input_stream l)"

text \<open>The bytes readable through \<^verbatim>\<open>lexer->string\<close>.\<close>

definition lex_string :: "stb_lexer \<Rightarrow> char list option" where
  "lex_string l = (if string_set l then Some (string_storage l) else None)"

section \<open>The interface functions\<close>

definition stb_c_lexer_init :: "char list \<Rightarrow> char list \<Rightarrow> nat \<Rightarrow> stb_lexer" where
  "stb_c_lexer_init input store store_length =
     \<lparr>input_stream = input, parse_point = 0, string_storage = store,
      string_storage_len = store_length, where_firstchar = 0, where_lastchar = 0, token = 0,
      real_number = Nearest_Double 0 0, int_number = 0, string_set = False, string_len = 0\<rparr>"

text \<open>
  \<^verbatim>\<open>stb_c_lexer_get_location\<close>: the loop runs while the byte is not zero and the position
  is before \<^verbatim>\<open>where\<close>; a line break of two characters is skipped as one.
\<close>

definition peek :: "char list \<Rightarrow> nat \<Rightarrow> char" where
  "peek s i = (if i < length s then s ! i else NUL)"

function location_loop :: "char list \<Rightarrow> int \<Rightarrow> int \<Rightarrow> int \<Rightarrow> stb_lex_location" where
  "location_loop s dist line offset =
     (if s = [] \<or> peek s 0 = NUL \<or> dist \<le> 0
      then \<lparr>line_number = line, line_offset = offset\<rparr>
      else if peek s 0 = CHR 0x0A \<or> peek s 0 = CHR 0x0D
      then (let n = (if of_char (peek s 0) + of_char (peek s 1) = (23 :: int) then 2 else 1)
            in location_loop (drop n s) (dist - int n) (line + 1) 0)
      else location_loop (drop 1 s) (dist - 1) line (offset + 1))"
  by pat_completeness auto
termination
  by (relation "measure (\<lambda>(s, _). length s)") auto

definition stb_c_lexer_get_location :: "stb_lexer \<Rightarrow> nat \<Rightarrow> stb_lex_location" where
  "stb_c_lexer_get_location l whr = location_loop (input_stream l) (int whr) 1 0"

section \<open>Helpers\<close>

definition stb__clex_token :: "int \<Rightarrow> nat \<Rightarrow> nat \<Rightarrow> (stb_lexer, int) cm" where
  "stb__clex_token tok start fin = (\<lambda>l. Inr (1,
     l\<lparr>token := tok, where_firstchar := start, where_lastchar := fin, parse_point := fin + 1\<rparr>))"

definition stb__clex_eof :: "(stb_lexer, int) cm" where
  "stb__clex_eof = (\<lambda>l. Inr (0, l\<lparr>token := clex_code CLEX_eof\<rparr>))"

definition stb__clex_iswhite :: "char \<Rightarrow> bool" where
  "stb__clex_iswhite c \<longleftrightarrow> c = CHR '' '' \<or> c = CHR 0x09 \<or> c = CHR 0x0D \<or> c = CHR 0x0A \<or> c = CHR 0x0C"

definition stb__clex_parse_suffixes :: "int \<Rightarrow> nat \<Rightarrow> nat \<Rightarrow> (stb_lexer, int) cm" where
  "stb__clex_parse_suffixes tokenid start cur = stb__clex_token tokenid start (cur - 1)"

text \<open>
  \<^verbatim>\<open>stb__clex_parse_char(p, &q)\<close>: the value and the distance from \<^verbatim>\<open>p\<close> to
  \<^verbatim>\<open>q\<close>; minus one stands for the escapes that are not supported.
\<close>

definition stb__clex_parse_char :: "char list \<Rightarrow> int \<times> nat" where
  "stb__clex_parse_char p =
     (if peek p 0 = CHR 0x5C then
        (let c = peek p 1 in
         if c = CHR 0x5C then (92, 2)
         else if c = CHR 0x27 then (39, 2)
         else if c = CHR 0x22 then (34, 2)
         else if c = CHR ''t'' then (9, 2)
         else if c = CHR ''f'' then (12, 2)
         else if c = CHR ''n'' then (10, 2)
         else if c = CHR ''r'' then (13, 2)
         else if c = CHR ''0'' then (0, 2)
         else if c = CHR ''x'' \<or> c = CHR ''X'' then (-1, 2)
         else if c = CHR ''u'' then (-1, 2)
         else (92, 1))
      else (of_char (peek p 0), 1))"

lemma parse_char_length: "snd (stb__clex_parse_char p) \<in> {1, 2}"
  by (simp add: stb__clex_parse_char_def Let_def)

text \<open>
  The loop of \<^verbatim>\<open>stb__clex_parse_string\<close> from position \<open>p\<close> (where the bytes \<open>s\<close>
  start), with the bytes written so far: it ends at the closing delimiter, in a parse error at
  some position, or in a read behind the end of the buffer.
\<close>

datatype string_end =
    String_Closed "char list" nat
  | String_Error "char list" nat
  | String_Overrun

function parse_string_loop :: "nat \<Rightarrow> char \<Rightarrow> char list \<Rightarrow> nat \<Rightarrow> char list \<Rightarrow> string_end" where
  "parse_string_loop store_len delim s p out =
     (if s = [] then
        (if length out + 1 > store_len then String_Error out (p + 1) else String_Overrun)
      else if peek s 0 = delim then String_Closed out p
      else
        (let (n, k) = (if peek s 0 = CHR 0x5C then stb__clex_parse_char s
                       else (of_char (peek s 0), 1))
         in if n < 0 then String_Error out (p + k)
            else if length out + 1 > store_len then String_Error out (p + k)
            else parse_string_loop store_len delim (drop k s) (p + k) (out @ [to_char n])))"
  by pat_completeness auto
termination
proof (relation "measure (\<lambda>(_, _, s, _, _). length s)", goal_cases)
  case (2 store_len delim s p out x n k)
  then have "0 < k"
    using parse_char_length [of s]
    by (cases "stb__clex_parse_char s") (auto split: if_splits)
  with 2 show ?case by simp
qed simp

text \<open>Writing the first bytes of the string storage.\<close>

definition put_storage :: "char list \<Rightarrow> (stb_lexer, unit) cm" where
  "put_storage cs = (\<lambda>l.
     if length cs \<le> length (string_storage l)
     then Inr ((), l\<lparr>string_storage := cs @ drop (length cs) (string_storage l)\<rparr>)
     else Inl Invalid_Access)"

definition stb__clex_parse_string :: "char list \<Rightarrow> nat \<Rightarrow> int \<Rightarrow> (stb_lexer, int) cm" where
  "stb__clex_parse_string s p ty =
     cbind (cgets string_storage_len) (\<lambda>store_len.
     case parse_string_loop store_len (peek s 0) (drop 1 s) (p + 1) [] of
       String_Closed out q \<Rightarrow>
         cseq (put_storage (out @ [NUL]))
        (cseq (cmodify (\<lambda>l. l\<lparr>string_set := True, string_len := int (length out)\<rparr>))
              (stb__clex_token ty p q))
     | String_Error out q \<Rightarrow>
         cseq (put_storage out) (stb__clex_token (clex_code CLEX_parse_error) p q)
     | String_Overrun \<Rightarrow> cfail Invalid_Access)"

subsection \<open>White space and comments\<close>

definition skip_line :: "char list \<Rightarrow> char list" where
  "skip_line s = dropWhile (\<lambda>c. c \<noteq> CHR 0x0D \<and> c \<noteq> CHR 0x0A) s"

fun skip_c_comment :: "char list \<Rightarrow> char list option" where
  "skip_c_comment [] = None"
| "skip_c_comment (c # cs) =
     (if c = CHR ''*'' \<and> peek cs 0 = CHR ''/'' then Some (drop 1 cs) else skip_c_comment cs)"

lemma skip_line_length: "length (skip_line s) \<le> length s"
  by (simp add: skip_line_def length_dropWhile_le)

lemma skip_line_less:
  "s \<noteq> [] \<Longrightarrow> peek s 0 \<noteq> CHR 0x0D \<Longrightarrow> peek s 0 \<noteq> CHR 0x0A \<Longrightarrow> length (skip_line s) < length s"
  using length_dropWhile_le [of "\<lambda>c. c \<noteq> CHR 0x0D \<and> c \<noteq> CHR 0x0A" "tl s"]
  by (cases s) (auto simp: skip_line_def peek_def)

lemma skip_c_comment_length: "skip_c_comment s = Some r \<Longrightarrow> length r < length s"
  by (induction s arbitrary: r rule: skip_c_comment.induct) (fastforce split: if_splits)+

text \<open>
  The loop at the start of \<^verbatim>\<open>stb_c_lexer_get_token\<close>: \<open>Inr s\<close> when the next token, or
  the end of the input, is at \<open>s\<close>; \<open>Inl s\<close> when a comment that starts at \<open>s\<close> is not
  closed.
\<close>

function skip_blanks :: "char list \<Rightarrow> char list + char list" where
  "skip_blanks s0 =
     (let s = dropWhile stb__clex_iswhite s0 in
      if s \<noteq> [] \<and> peek s 0 = CHR ''/'' \<and> peek s 1 = CHR ''/'' then skip_blanks (skip_line s)
      else if s \<noteq> [] \<and> peek s 0 = CHR ''/'' \<and> peek s 1 = CHR ''*'' then
        (case skip_c_comment (drop 2 s) of None \<Rightarrow> Inl s | Some r \<Rightarrow> skip_blanks r)
      else if s \<noteq> [] \<and> peek s 0 = CHR ''#'' then skip_blanks (skip_line s)
      else Inr s)"
  by pat_completeness auto
termination
proof (relation "measure length", goal_cases)
  case (2 s0 s)
  then have "length (skip_line s) < length s" by (intro skip_line_less) auto
  also have "length s \<le> length s0" using 2 by (simp add: length_dropWhile_le)
  finally show ?case by simp
next
  case (3 s0 s r)
  then have "length r < length (drop 2 s)" by (intro skip_c_comment_length) simp
  also have "length (drop 2 s) \<le> length s" by simp
  also have "length s \<le> length s0" using 3 by (simp add: length_dropWhile_le)
  finally show ?case by simp
next
  case (4 s0 s)
  then have "length (skip_line s) < length s" by (intro skip_line_less) auto
  also have "length s \<le> length s0" using 4 by (simp add: length_dropWhile_le)
  finally show ?case by simp
qed simp

declare parse_string_loop.simps [simp del] skip_blanks.simps [simp del] location_loop.simps [simp del]

subsection \<open>Identifiers\<close>

definition is_id_start :: "char \<Rightarrow> bool" where
  "is_id_start c \<longleftrightarrow>
     (let n = (of_char c :: nat) in
      (97 \<le> n \<and> n \<le> 122) \<or> (65 \<le> n \<and> n \<le> 90) \<or> c = CHR ''_'' \<or> 128 \<le> n \<or> c = CHR ''$'')"

definition is_digit :: "char \<Rightarrow> bool" where
  "is_digit c \<longleftrightarrow> (let n = (of_char c :: nat) in 48 \<le> n \<and> n \<le> 57)"

definition is_id_char :: "char \<Rightarrow> bool" where
  "is_id_char c \<longleftrightarrow> is_id_start c \<or> is_digit c"

text \<open>
  The bytes copied by the \<^verbatim>\<open>do ... while\<close> loop are the first one and then all identifier
  characters; the loop gives up when only the terminator would still fit.
\<close>

definition lex_identifier :: "char list \<Rightarrow> nat \<Rightarrow> (stb_lexer, int) cm" where
  "lex_identifier s p =
     cseq (cmodify (\<lambda>l. l\<lparr>string_set := True\<rparr>))
    (cbind (cgets string_storage_len) (\<lambda>store_len.
     let cs = take 1 s @ takeWhile is_id_char (drop 1 s); n = length cs in
     if n + 1 > store_len then
       cseq (put_storage (take (store_len - 1) cs))
            (stb__clex_token (clex_code CLEX_parse_error) p (p + (store_len - 1)))
     else
       cseq (put_storage (cs @ [NUL]))
      (cseq (cmodify (\<lambda>l. l\<lparr>string_len := int n\<rparr>))
            (stb__clex_token (clex_code CLEX_id) p (p + n - 1)))))"

subsection \<open>Operators\<close>

text \<open>
  The token of an operator or a single character and its length.  The second character is
  only looked at when it is not at the end of the input, where the byte read is zero anyway.
\<close>

definition lex_punct :: "char list \<Rightarrow> int \<times> nat" where
  "lex_punct s =
     (let c = peek s 0; d = peek s 1; e = peek s 2; single = (of_char c, 1) in
      if c = CHR ''+'' then
        (if d = CHR ''+'' then (clex_code CLEX_plusplus, 2)
         else if d = CHR ''='' then (clex_code CLEX_pluseq, 2) else single)
      else if c = CHR ''-'' then
        (if d = CHR ''-'' then (clex_code CLEX_minusminus, 2)
         else if d = CHR ''='' then (clex_code CLEX_minuseq, 2)
         else if d = CHR ''>'' then (clex_code CLEX_arrow, 2) else single)
      else if c = CHR ''&'' then
        (if d = CHR ''&'' then (clex_code CLEX_andand, 2)
         else if d = CHR ''='' then (clex_code CLEX_andeq, 2) else single)
      else if c = CHR ''|'' then
        (if d = CHR ''|'' then (clex_code CLEX_oror, 2)
         else if d = CHR ''='' then (clex_code CLEX_oreq, 2) else single)
      else if c = CHR ''='' then
        (if d = CHR ''='' then (clex_code CLEX_eq, 2) else single)
      else if c = CHR ''!'' then
        (if d = CHR ''='' then (clex_code CLEX_noteq, 2) else single)
      else if c = CHR ''^'' then
        (if d = CHR ''='' then (clex_code CLEX_xoreq, 2) else single)
      else if c = CHR ''%'' then
        (if d = CHR ''='' then (clex_code CLEX_modeq, 2) else single)
      else if c = CHR ''*'' then
        (if d = CHR ''='' then (clex_code CLEX_muleq, 2) else single)
      else if c = CHR ''/'' then
        (if d = CHR ''='' then (clex_code CLEX_diveq, 2) else single)
      else if c = CHR ''<'' then
        (if d = CHR ''='' then (clex_code CLEX_lesseq, 2)
         else if d = CHR ''<'' then
           (if e = CHR ''='' then (clex_code CLEX_shleq, 3) else (clex_code CLEX_shl, 2))
         else single)
      else if c = CHR ''>'' then
        (if d = CHR ''='' then (clex_code CLEX_greatereq, 2)
         else if d = CHR ''>'' then
           (if e = CHR ''='' then (clex_code CLEX_shreq, 3) else (clex_code CLEX_shr, 2))
         else single)
      else single)"

subsection \<open>Character constants\<close>

definition lex_char :: "char list \<Rightarrow> nat \<Rightarrow> (stb_lexer, int) cm" where
  "lex_char s p =
     (let (n, k) = stb__clex_parse_char (drop 1 s); q = p + 1 + k in
      cseq (cmodify (\<lambda>l. l\<lparr>int_number := n\<rparr>))
     (if n < 0 then stb__clex_token (clex_code CLEX_parse_error) p p
      else if k + 1 > length s then cfail Invalid_Access
      else if k + 1 = length s \<or> peek s (k + 1) \<noteq> CHR 0x27
      then stb__clex_token (clex_code CLEX_parse_error) p q
      else stb__clex_token (clex_code CLEX_charlit) p (q + 1)))"

subsection \<open>Numbers\<close>

text \<open>
  The C library's \<^verbatim>\<open>strtol\<close> on text that starts with a digit: the value, saturated at
  \<^verbatim>\<open>LONG_MAX\<close>, and the number of characters consumed.
\<close>

definition digit_value :: "char \<Rightarrow> int" where
  "digit_value c =
     (let n = of_char c in
      if 48 \<le> n \<and> n \<le> 57 then n - 48
      else if 97 \<le> n \<and> n \<le> 122 then n - 87
      else if 65 \<le> n \<and> n \<le> 90 then n - 55
      else 36)"

definition digits_of :: "int \<Rightarrow> char list \<Rightarrow> char list" where
  "digits_of base s = takeWhile (\<lambda>c. digit_value c < base) s"

definition number_of :: "int \<Rightarrow> char list \<Rightarrow> int" where
  "number_of base ds = foldl (\<lambda>n c. n * base + digit_value c) 0 ds"

definition c_strtol :: "int \<Rightarrow> char list \<Rightarrow> int \<times> nat" where
  "c_strtol base s =
     (let skip = (if base = 16 \<and> peek s 0 = CHR ''0'' \<and> (peek s 1 = CHR ''x'' \<or> peek s 1 = CHR ''X'')
                     \<and> digits_of 16 (drop 2 s) \<noteq> [] then 2 else 0);
          ds = digits_of base (drop skip s)
      in (min (number_of base ds) (2 ^ 63 - 1), skip + length ds))"

text \<open>
  The C library's \<^verbatim>\<open>strtod\<close> on decimal text that starts with a digit: digits, an optional
  fraction and an optional exponent, which needs at least one digit.
\<close>

definition c_strtod :: "char list \<Rightarrow> c_double \<times> nat" where
  "c_strtod s =
     (let ip = takeWhile is_digit s;
          s1 = drop (length ip) s;
          fp = (if peek s1 0 = CHR ''.'' then takeWhile is_digit (drop 1 s1) else []);
          n1 = length ip + (if peek s1 0 = CHR ''.'' then 1 + length fp else 0);
          s2 = drop n1 s;
          has_sign = (peek s2 1 = CHR ''+'' \<or> peek s2 1 = CHR ''-'');
          ed = takeWhile is_digit (drop (if has_sign then 2 else 1) s2);
          has_exp = ((peek s2 0 = CHR ''e'' \<or> peek s2 0 = CHR ''E'') \<and> ed \<noteq> []);
          ex = (if has_exp
                then (if peek s2 1 = CHR ''-'' then - number_of 10 ed else number_of 10 ed) else 0);
          n2 = (if has_exp then n1 + (if has_sign then 2 else 1) + length ed else n1)
      in (Nearest_Double (number_of 10 (ip @ fp)) (ex - int (length fp)), n2))"

definition lex_number :: "char list \<Rightarrow> nat \<Rightarrow> (stb_lexer, int) cm" where
  "lex_number s p =
     (let q = drop (length (takeWhile is_digit s)) s in
      if peek s 0 = CHR ''0'' \<and> length s \<noteq> 1 \<and> (peek s 1 = CHR ''x'' \<or> peek s 1 = CHR ''X'') then
        (let (v, n) = c_strtol 16 s in
         cseq (cmodify (\<lambda>l. l\<lparr>int_number := v\<rparr>))
        (if n = 2 then stb__clex_token (clex_code CLEX_parse_error) (p - 2) (p - 1)
         else stb__clex_parse_suffixes (clex_code CLEX_intlit) p (p + n)))
      else if q \<noteq> [] \<and> (peek q 0 = CHR ''.'' \<or> peek q 0 = CHR ''e'' \<or> peek q 0 = CHR ''E'') then
        (let (v, n) = c_strtod s in
         cseq (cmodify (\<lambda>l. l\<lparr>real_number := v\<rparr>))
              (stb__clex_parse_suffixes (clex_code CLEX_floatlit) p (p + n)))
      else if peek s 0 = CHR ''0'' then
        (let (v, n) = c_strtol 8 s in
         cseq (cmodify (\<lambda>l. l\<lparr>int_number := v\<rparr>))
              (stb__clex_parse_suffixes (clex_code CLEX_intlit) p (p + n)))
      else
        (let (v, n) = c_strtol 10 s in
         cseq (cmodify (\<lambda>l. l\<lparr>int_number := v\<rparr>))
              (stb__clex_parse_suffixes (clex_code CLEX_intlit) p (p + n))))"

section \<open>The next token\<close>

text \<open>The dispatch on the first byte of the token, at position \<open>p\<close>.\<close>

definition lex_token :: "char list \<Rightarrow> nat \<Rightarrow> (stb_lexer, int) cm" where
  "lex_token s p =
     (let c = peek s 0 in
      if is_id_start c then lex_identifier s p
      else if c = CHR 0x22 then stb__clex_parse_string s p (clex_code CLEX_dqstring)
      else if c = CHR 0x27 then lex_char s p
      else if is_digit c then lex_number s p
      else (let (t, n) = lex_punct s in stb__clex_token t p (p + n - 1)))"

definition stb_c_lexer_get_token :: "(stb_lexer, int) cm" where
  "stb_c_lexer_get_token = (\<lambda>l.
     if parse_point l > eof l then Inl Invalid_Access
     else (case skip_blanks (drop (parse_point l) (input_stream l)) of
             Inl s \<Rightarrow> stb__clex_token (clex_code CLEX_parse_error) (eof l - length s) (eof l - 1) l
           | Inr s \<Rightarrow> if s = [] then stb__clex_eof l else lex_token s (eof l - length s) l))"

end
