(* ===== verification/Lexer_Props.thy ===== *)
theory Lexer_Props
  imports Stb_Lexer
begin

text \<open>
  Properties of the lexer: the invariant of its state, that a call never writes outside the string
  storage, that every token consumes input (so reading tokens ends), which inputs make a call read
  outside the input, and what the lexer recognises.
\<close>

section \<open>Positions\<close>

lemma char_int_range: "0 \<le> (of_char c :: int)" "(of_char c :: int) < 256"
  using pos_mod_sign [of 256 "of_char c :: int"] pos_mod_bound [of 256 "of_char c :: int"] by simp_all

lemma peek_Cons [simp]: "peek (c # cs) 0 = c" "peek (c # cs) (Suc i) = peek cs i"
  by (simp_all add: peek_def)

lemma peek_Nil [simp]: "peek [] i = NUL"
  by (simp add: peek_def)

lemma peek_Cons_1 [simp]: "peek (c # cs) 1 = peek cs 0" "peek (c # cs) 2 = peek cs 1"
  by (simp_all add: peek_def)

lemma peek_not_NUL: "peek s i \<noteq> NUL \<Longrightarrow> i < length s"
  by (auto simp: peek_def split: if_splits)

text \<open>What is left after blanks and comments is a suffix of the input.\<close>

lemma skip_c_comment_suffix: "skip_c_comment s = Some r \<Longrightarrow> \<exists>b. s = b @ r"
proof (induction s)
  case (Cons c cs)
  show ?case
  proof (cases "c = CHR ''*'' \<and> peek cs 0 = CHR ''/''")
    case True
    then have "r = drop 1 cs" using Cons.prems by simp
    then have "c # cs = (c # take 1 cs) @ r" by simp
    then show ?thesis by blast
  next
    case False
    then obtain b where "cs = b @ r" using Cons by (auto split: if_splits)
    then have "c # cs = (c # b) @ r" by simp
    then show ?thesis by blast
  qed
qed simp

lemma skip_line_suffix: "\<exists>b. s = b @ skip_line s"
  unfolding skip_line_def by (metis takeWhile_dropWhile_id)

lemma blanks_suffix: "\<exists>b. s = b @ dropWhile stb__clex_iswhite s"
  by (metis takeWhile_dropWhile_id)

lemma skip_blanks_suffix: "case skip_blanks s of Inl r \<Rightarrow> r \<noteq> [] \<and> (\<exists>b. s = b @ r) | Inr r \<Rightarrow> \<exists>b. s = b @ r"
proof (induction s rule: skip_blanks.induct)
  case (1 s0)
  let ?s = "dropWhile stb__clex_iswhite s0"
  have more: "case skip_blanks r of Inl t \<Rightarrow> t \<noteq> [] \<and> (\<exists>b. s0 = b @ t) | Inr t \<Rightarrow> \<exists>b. s0 = b @ t"
    if IH: "case skip_blanks r of Inl t \<Rightarrow> t \<noteq> [] \<and> (\<exists>b. r = b @ t) | Inr t \<Rightarrow> \<exists>b. r = b @ t"
      and suffix: "\<exists>b. ?s = b @ r" for r
  proof -
    from suffix blanks_suffix [of s0] obtain b1 b2 where b: "s0 = b1 @ b2 @ r" by metis
    have "\<exists>c. s0 = c @ t" if "r = b @ t" for b t
      using that b by (intro exI [of _ "b1 @ b2 @ b"]) simp
    with IH show ?thesis by (cases "skip_blanks r") auto
  qed
  consider (line) "?s \<noteq> []" "peek ?s 0 = CHR ''/''" "peek ?s 1 = CHR ''/''"
    | (unclosed) "?s \<noteq> []" "peek ?s 0 = CHR ''/''" "peek ?s 1 = CHR ''*''" "skip_c_comment (drop 2 ?s) = None"
    | (comment) r where "?s \<noteq> []" "peek ?s 0 = CHR ''/''" "peek ?s 1 = CHR ''*''" "skip_c_comment (drop 2 ?s) = Some r"
    | (directive) "?s \<noteq> []" "peek ?s 0 = CHR ''#''"
    | (other) "skip_blanks s0 = Inr ?s"
    using skip_blanks.simps [of s0] by (auto simp: Let_def split: if_splits option.splits)
  then show ?case
  proof cases
    case line
    with 1(1) [OF refl] have "case skip_blanks (skip_line ?s) of
        Inl t \<Rightarrow> t \<noteq> [] \<and> (\<exists>b. skip_line ?s = b @ t) | Inr t \<Rightarrow> \<exists>b. skip_line ?s = b @ t" by simp
    from more [OF this skip_line_suffix] line show ?thesis
      by (subst skip_blanks.simps) (simp add: Let_def)
  next
    case unclosed
    then have "skip_blanks s0 = Inl ?s" by (subst skip_blanks.simps) (simp add: Let_def)
    then show ?thesis using unclosed(1) blanks_suffix [of s0] by simp
  next
    case comment
    from skip_c_comment_suffix [OF comment(4)] obtain b where "drop 2 ?s = b @ r" by blast
    then have "?s = (take 2 ?s @ b) @ r" by (metis append.assoc append_take_drop_id)
    moreover have "case skip_blanks r of
        Inl t \<Rightarrow> t \<noteq> [] \<and> (\<exists>b. r = b @ t) | Inr t \<Rightarrow> \<exists>b. r = b @ t"
      using 1(2) [OF refl] comment by simp
    ultimately have "case skip_blanks r of Inl t \<Rightarrow> t \<noteq> [] \<and> (\<exists>b. s0 = b @ t) | Inr t \<Rightarrow> \<exists>b. s0 = b @ t"
      by (intro more exI)
    then show ?thesis using comment by (subst skip_blanks.simps) (simp add: Let_def)
  next
    case directive
    with 1(3) [OF refl] have "case skip_blanks (skip_line ?s) of
        Inl t \<Rightarrow> t \<noteq> [] \<and> (\<exists>b. skip_line ?s = b @ t) | Inr t \<Rightarrow> \<exists>b. skip_line ?s = b @ t" by simp
    from more [OF this skip_line_suffix] directive show ?thesis
      by (subst skip_blanks.simps) (simp add: Let_def)
  next
    case other
    then show ?thesis using blanks_suffix [of s0] by simp
  qed
qed

lemma skip_blanks_length:
  "skip_blanks s = Inr r \<Longrightarrow> length r \<le> length s"
  "skip_blanks s = Inl r \<Longrightarrow> length r \<le> length s \<and> r \<noteq> []"
  using skip_blanks_suffix [of s] by auto

section \<open>The invariant of the lexer's state\<close>

text \<open>
  The storage is larger than the lexer is told (the lexer writes a terminator behind a string
  that fills it), its last byte is zero, and after an identifier or a string the text is there,
  terminated, with its length in \<^verbatim>\<open>string_len\<close>.
\<close>

definition lex_wf :: "stb_lexer \<Rightarrow> bool" where
  "lex_wf l \<longleftrightarrow> 0 < string_storage_len l \<and> string_storage_len l < length (string_storage l) \<and>
     string_storage_len l < 2 ^ 31 - 1 \<and> string_storage l ! (length (string_storage l) - 1) = NUL"

definition text_is :: "stb_lexer \<Rightarrow> string \<Rightarrow> bool" where
  "text_is l cs \<longleftrightarrow> string_set l \<and> string_len l = int (length cs) \<and> length cs \<le> string_storage_len l \<and>
     (\<exists>r. string_storage l = cs @ NUL # r)"

definition token_wf :: "stb_lexer \<Rightarrow> bool" where
  "token_wf l \<longleftrightarrow>
     (token l = clex_code CLEX_id \<longrightarrow> (\<exists>cs. text_is l cs \<and> cs \<noteq> [] \<and> NUL \<notin> set cs)) \<and>
     (token l = clex_code CLEX_dqstring \<longrightarrow> (\<exists>cs. text_is l cs)) \<and>
     token l \<noteq> clex_code CLEX_sqstring"

text \<open>
  \<open>lex_step l l'\<close>: what a call that returns a token does to the state.
\<close>

definition lex_step :: "stb_lexer \<Rightarrow> stb_lexer \<Rightarrow> bool" where
  "lex_step l l' \<longleftrightarrow> input_stream l' = input_stream l \<and> string_storage_len l' = string_storage_len l \<and>
     length (string_storage l') = length (string_storage l) \<and> (string_set l \<longrightarrow> string_set l') \<and>
     parse_point l < parse_point l' \<and> parse_point l' \<le> eof l + 2 \<and> lex_wf l' \<and> token_wf l'"

lemma put_storage_ok:
  assumes "lex_wf l" and "length cs \<le> string_storage_len l"
  shows "put_storage cs l = Inr ((), l\<lparr>string_storage := cs @ drop (length cs) (string_storage l)\<rparr>)"
    and "lex_wf (l\<lparr>string_storage := cs @ drop (length cs) (string_storage l)\<rparr>)"
  using assms by (auto simp: put_storage_def lex_wf_def nth_append)

lemma put_storage_NUL_ok:
  assumes "lex_wf l" and "length cs \<le> string_storage_len l"
  shows "put_storage (cs @ [NUL]) l =
      Inr ((), l\<lparr>string_storage := cs @ NUL # drop (Suc (length cs)) (string_storage l)\<rparr>)"
    and "lex_wf (l\<lparr>string_storage := cs @ NUL # drop (Suc (length cs)) (string_storage l)\<rparr>)"
  using assms by (auto simp: put_storage_def lex_wf_def nth_append nth_Cons' Suc_diff_Suc numeral_2_eq_2)

lemma lex_wf_update [simp]:
  "lex_wf (l\<lparr>token := t\<rparr>) = lex_wf l" "lex_wf (l\<lparr>where_firstchar := n\<rparr>) = lex_wf l"
  "lex_wf (l\<lparr>where_lastchar := n\<rparr>) = lex_wf l" "lex_wf (l\<lparr>parse_point := n\<rparr>) = lex_wf l"
  "lex_wf (l\<lparr>string_set := b\<rparr>) = lex_wf l" "lex_wf (l\<lparr>string_len := i\<rparr>) = lex_wf l"
  "lex_wf (l\<lparr>int_number := i\<rparr>) = lex_wf l" "lex_wf (l\<lparr>real_number := d\<rparr>) = lex_wf l"
  by (simp_all add: lex_wf_def)

lemma stb__clex_token_apply [simp]:
  "stb__clex_token t p q l = Inr (1, l\<lparr>token := t, where_firstchar := p, where_lastchar := q, parse_point := q + 1\<rparr>)"
  by (simp add: stb__clex_token_def)

lemma lex_stepI:
  assumes "lex_wf l1" and "input_stream l1 = input_stream l" and "string_storage_len l1 = string_storage_len l"
    and "length (string_storage l1) = length (string_storage l)" and "string_set l \<longrightarrow> string_set l1"
    and "parse_point l < r" and "r \<le> eof l + 2" and "t \<notin> {260, 261, 262}"
  shows "lex_step l (l1\<lparr>token := t, where_firstchar := p, where_lastchar := q, parse_point := r\<rparr>)"
  using assms by (auto simp: lex_step_def token_wf_def)

lemma lex_step_textI:
  assumes "lex_wf l1" and "input_stream l1 = input_stream l" and "string_storage_len l1 = string_storage_len l"
    and "length (string_storage l1) = length (string_storage l)" and "string_set l1"
    and "string_len l1 = int (length cs)" and "string_storage l1 = cs @ NUL # r"
    and "length cs \<le> string_storage_len l"
    and "parse_point l \<le> q" and "q \<le> eof l" and "t \<noteq> clex_code CLEX_sqstring"
    and "t = clex_code CLEX_id \<Longrightarrow> cs \<noteq> [] \<and> NUL \<notin> set cs"
  shows "lex_step l (l1\<lparr>token := t, where_firstchar := p, where_lastchar := q, parse_point := q + 1\<rparr>)"
proof -
  have "text_is (l1\<lparr>token := t, where_firstchar := p, where_lastchar := q, parse_point := q + 1\<rparr>) cs"
    using assms by (simp add: text_is_def)
  with assms show ?thesis by (auto simp: lex_step_def token_wf_def)
qed

subsection \<open>Strings\<close>

text \<open>One character of a string: its value and the bytes it takes.\<close>

definition string_char :: "char list \<Rightarrow> int \<times> nat" where
  "string_char s = (if peek s 0 = CHR 0x5C then stb__clex_parse_char s else (of_char (peek s 0), 1))"

lemma parse_char_within: "s \<noteq> [] \<Longrightarrow> snd (stb__clex_parse_char s) \<le> length s"
  by (cases s; cases "tl s") (auto simp: stb__clex_parse_char_def Let_def)

lemma string_char_length:
  assumes "s \<noteq> []"
  shows "1 \<le> snd (string_char s)" and "snd (string_char s) \<le> length s"
  using assms parse_char_length [of s] parse_char_within [OF assms]
  by (auto simp: string_char_def Suc_le_eq)

lemma parse_string_loop_Nil:
  "parse_string_loop n d [] p out = (if length out + 1 > n then String_Error out (p + 1) else String_Overrun)"
  by (subst parse_string_loop.simps) simp

lemma parse_string_loop_closed:
  "s \<noteq> [] \<Longrightarrow> peek s 0 = d \<Longrightarrow> parse_string_loop n d s p out = String_Closed out p"
  by (subst parse_string_loop.simps) simp

lemma parse_string_loop_char:
  "s \<noteq> [] \<Longrightarrow> peek s 0 \<noteq> d \<Longrightarrow> string_char s = (v, k) \<Longrightarrow>
     parse_string_loop n d s p out =
       (if v < 0 \<or> length out + 1 > n then String_Error out (p + k)
        else parse_string_loop n d (drop k s) (p + k) (out @ [to_char v]))"
  by (subst parse_string_loop.simps) (auto simp: string_char_def)

lemma parse_string_loop_induct [consumes 0, case_names Nil Closed Error Char]:
  assumes "\<And>p out. P [] p out"
    and "\<And>s p out. s \<noteq> [] \<Longrightarrow> peek s 0 = d \<Longrightarrow> P s p out"
    and "\<And>s p out v k. s \<noteq> [] \<Longrightarrow> peek s 0 \<noteq> d \<Longrightarrow> string_char s = (v, k) \<Longrightarrow> 1 \<le> k \<Longrightarrow> k \<le> length s \<Longrightarrow>
          v < 0 \<or> length out + 1 > n \<Longrightarrow> P s p out"
    and "\<And>s p out v k. s \<noteq> [] \<Longrightarrow> peek s 0 \<noteq> d \<Longrightarrow> string_char s = (v, k) \<Longrightarrow> 1 \<le> k \<Longrightarrow> k \<le> length s \<Longrightarrow>
          0 \<le> v \<Longrightarrow> length out < n \<Longrightarrow> P (drop k s) (p + k) (out @ [to_char v]) \<Longrightarrow> P s p out"
  shows "P s p out"
proof (induction "length s" arbitrary: s p out rule: less_induct)
  case (less s p out)
  show ?case
  proof (cases "s = [] \<or> peek s 0 = d")
    case True
    then show ?thesis using assms(1,2) by metis
  next
    case False
    obtain v k where vk: "string_char s = (v, k)" by (cases "string_char s")
    then have k: "1 \<le> k" "k \<le> length s" using string_char_length [of s] False by auto
    then have "P (drop k s) (p + k) (out @ [to_char v])" using False by (intro less) auto
    then show ?thesis using assms(3) [of s v k out p] assms(4) [of s v k out p] False vk k
      by (cases "v < 0 \<or> length out + 1 > n") auto
  qed
qed

lemma parse_string_loop_bounds:
  "length out \<le> n \<Longrightarrow> case parse_string_loop n d s p out of
      String_Closed out' q \<Rightarrow> length out' \<le> n \<and> p \<le> q \<and> q < p + length s
    | String_Error out' q \<Rightarrow> length out' \<le> n \<and> p < q \<and> q \<le> p + length s + 1
    | String_Overrun \<Rightarrow> True"
proof (induction s p out rule: parse_string_loop_induct [where d = d and n = n])
  case (Char s p out v k)
  then show ?case
    by (auto simp: parse_string_loop_char split: string_end.splits)
qed (auto simp: parse_string_loop_Nil parse_string_loop_closed parse_string_loop_char)

lemma stb__clex_parse_string_step:
  assumes wf: "lex_wf l" and s: "s \<noteq> []" and p: "parse_point l \<le> p" "p + length s = eof l"
  shows "case stb__clex_parse_string s p (clex_code CLEX_dqstring) l of
      Inl e \<Rightarrow> e = Invalid_Access | Inr (r, l') \<Rightarrow> r = 1 \<and> lex_step l l'"
proof -
  let ?n = "string_storage_len l"
  have len: "length (drop 1 s) = length s - 1" by simp
  show ?thesis
  proof (cases "parse_string_loop ?n (peek s 0) (drop 1 s) (p + 1) []")
    case (String_Closed out q)
    then have b: "length out \<le> ?n" "p + 1 \<le> q" "q < p + length s"
      using parse_string_loop_bounds [where out = "[]" and n = ?n and p = "p + 1" and d = "peek s 0" and s = "drop 1 s"] s by (auto simp: Suc_le_eq)
    note put = put_storage_NUL_ok [OF wf b(1)]
    have "lex_step l (l\<lparr>string_storage := out @ NUL # drop (Suc (length out)) (string_storage l),
        string_set := True, string_len := int (length out), token := clex_code CLEX_dqstring,
        where_firstchar := p, where_lastchar := q, parse_point := q + 1\<rparr>)"
    proof (rule lex_step_textI [where cs = out])
      show "lex_wf (l\<lparr>string_storage := out @ NUL # drop (Suc (length out)) (string_storage l),
        string_set := True, string_len := int (length out)\<rparr>)" using put(2) by simp
    qed (use b p wf in \<open>auto simp: lex_wf_def\<close>)
    then show ?thesis using String_Closed put(1) by (simp add: stb__clex_parse_string_def)
  next
    case (String_Error out q)
    then have b: "length out \<le> ?n" "p + 1 < q" "q \<le> p + length s + 1"
      using parse_string_loop_bounds [where out = "[]" and n = ?n and p = "p + 1" and d = "peek s 0" and s = "drop 1 s"] s by (auto simp: Suc_le_eq)
    note put = put_storage_ok [OF wf b(1)]
    show ?thesis using String_Error put b p wf
      by (auto simp: stb__clex_parse_string_def lex_step_def token_wf_def text_is_def lex_wf_def eof_def)
  qed (simp add: stb__clex_parse_string_def)
qed

subsection \<open>The other tokens\<close>

lemma is_id_char_not_NUL: "is_id_char c \<Longrightarrow> c \<noteq> NUL"
  by (auto simp: is_id_char_def is_id_start_def is_digit_def Let_def)

lemma id_text_not_NUL: "is_id_start (peek s 0) \<Longrightarrow> NUL \<notin> set (take 1 s @ takeWhile is_id_char (drop 1 s))"
  using is_id_char_not_NUL [of "peek s 0"]
  by (cases s) (auto simp: is_id_char_def dest!: set_takeWhileD is_id_char_not_NUL)

lemma lex_identifier_step:
  assumes wf: "lex_wf l" and s: "s \<noteq> []" "is_id_start (peek s 0)"
    and p: "parse_point l \<le> p" "p + length s = eof l"
  shows "\<exists>l'. lex_identifier s p l = Inr (1, l') \<and> lex_step l l'"
proof -
  let ?n = "string_storage_len l" and ?cs = "take 1 s @ takeWhile is_id_char (drop 1 s)"
  have cs: "?cs \<noteq> []" "NUL \<notin> set ?cs" using s id_text_not_NUL [of s] by auto
  have len: "length ?cs \<le> length s" "1 \<le> length ?cs"
    using s length_takeWhile_le [of is_id_char "drop 1 s"] by (cases s; simp)+
  have n: "0 < ?n" using wf by (simp add: lex_wf_def)
  have wf1: "lex_wf (l\<lparr>string_set := True\<rparr>)" using wf by simp
  show ?thesis
  proof (cases "length ?cs + 1 > ?n")
    case True
    note put = put_storage_ok [OF wf1, of "take (?n - 1) ?cs"]
    show ?thesis
      using True put n p len
      by (auto simp: lex_identifier_def Let_def lex_step_def token_wf_def min_def lex_wf_def
          simp del: takeWhile_append take_append)
  next
    case False
    then have "length ?cs \<le> string_storage_len (l\<lparr>string_set := True\<rparr>)" by simp
    note put = put_storage_NUL_ok [OF wf1 this]
    have "lex_step l (l\<lparr>string_set := True, string_storage := ?cs @ NUL # drop (Suc (length ?cs)) (string_storage l),
        string_len := int (length ?cs), token := clex_code CLEX_id,
        where_firstchar := p, where_lastchar := p + length ?cs - 1, parse_point := p + length ?cs - 1 + 1\<rparr>)"
    proof (rule lex_step_textI [where cs = ?cs])
      show "parse_point l \<le> p + length ?cs - 1" "p + length ?cs - 1 \<le> eof l" using p len by linarith+
      show "lex_wf (l\<lparr>string_set := True, string_storage := ?cs @ NUL # drop (Suc (length ?cs)) (string_storage l),
        string_len := int (length ?cs)\<rparr>)" using put(2) by simp
    qed (use False wf cs in \<open>auto simp: lex_wf_def\<close>)
    then show ?thesis using False put(1) by (simp add: lex_identifier_def Let_def)
  qed
qed

lemma lex_punct_length:
  assumes "s \<noteq> []" and "lex_punct s = (t, n)"
  shows "1 \<le> n" and "n \<le> length s" and "t < 256 \<or> 264 \<le> t" and "0 \<le> t"
proof -
  have "1 \<le> n \<and> n \<le> length s \<and> (t < 256 \<or> 264 \<le> t) \<and> 0 \<le> t"
    using assms peek_not_NUL [of s 1] peek_not_NUL [of s 2] char_int_range
    by (cases s) (auto simp: lex_punct_def Let_def Suc_le_eq split: if_splits)
  then show "1 \<le> n" "n \<le> length s" "t < 256 \<or> 264 \<le> t" "0 \<le> t" by simp_all
qed

lemma lex_char_step:
  assumes wf: "lex_wf l" and s: "s \<noteq> []" and p: "parse_point l \<le> p" "p + length s = eof l"
  shows "case lex_char s p l of Inl e \<Rightarrow> e = Invalid_Access | Inr (r, l') \<Rightarrow> r = 1 \<and> lex_step l l'"
proof -
  obtain v k where vk: "stb__clex_parse_char (drop 1 s) = (v, k)" by (cases "stb__clex_parse_char (drop 1 s)")
  show ?thesis
    using wf s p by (auto simp: lex_char_def vk [simplified] intro!: lex_stepI split: if_splits)
qed

lemma c_strtol_length:
  assumes "s \<noteq> []" and "digit_value (peek s 0) < base" and "base \<le> 36" and "c_strtol base s = (v, n)"
  shows "1 \<le> n" and "n \<le> length s"
proof -
  have le: "length (digits_of base (drop k s)) \<le> length s - k" for k
    using length_takeWhile_le [of _ "drop k s"] by (simp add: digits_of_def)
  have "1 \<le> length (digits_of base s)" using assms(1,2) by (cases s) (auto simp: digits_of_def)
  then show "1 \<le> n"
    using assms(4) by (auto simp: c_strtol_def Let_def split: if_splits)
  show "n \<le> length s"
    using assms(4) le [of 2] le [of 0] peek_not_NUL [of s 1] by (auto simp: c_strtol_def Let_def digits_of_def split: if_splits)
qed

lemma c_strtod_length:
  assumes "s \<noteq> []" and "is_digit (peek s 0)" and "c_strtod s = (v, n)"
  shows "1 \<le> n" and "n \<le> length s"
proof -
  define ip where "ip = takeWhile is_digit s"
  define s1 where "s1 = drop (length ip) s"
  define fp where "fp = (if peek s1 0 = CHR ''.'' then takeWhile is_digit (drop 1 s1) else [])"
  define n1 where "n1 = length ip + (if peek s1 0 = CHR ''.'' then 1 + length fp else 0)"
  define s2 where "s2 = drop n1 s"
  define k where "k = (if peek s2 1 = CHR ''+'' \<or> peek s2 1 = CHR ''-'' then 2 else 1 :: nat)"
  define ed where "ed = takeWhile is_digit (drop k s2)"
  have n: "n = n1 \<or> ed \<noteq> [] \<and> n = n1 + k + length ed"
    using assms(3) unfolding c_strtod_def Let_def ip_def [symmetric] s1_def [symmetric] fp_def [symmetric]
      n1_def [symmetric] s2_def [symmetric] k_def [symmetric] ed_def [symmetric]
    by (auto simp: ed_def k_def split: if_splits)
  have "1 \<le> length ip" using assms(1,2) by (cases s) (auto simp: ip_def)
  then show "1 \<le> n" using n by (auto simp: n1_def)
  have ip: "length ip \<le> length s" by (simp add: ip_def length_takeWhile_le)
  have "length fp \<le> length s1 - 1" using length_takeWhile_le [of is_digit "drop 1 s1"] by (simp add: fp_def)
  then have n1: "n1 \<le> length s" using ip peek_not_NUL [of s1 0] by (auto simp: n1_def s1_def)
  have "length ed \<le> length s2 - k" using length_takeWhile_le [of is_digit "drop k s2"] by (simp add: ed_def)
  then show "n \<le> length s" using n n1 by (cases ed) (auto simp: s2_def)
qed

lemma is_digit_value: "is_digit c \<Longrightarrow> 0 \<le> digit_value c \<and> digit_value c < 10"
  unfolding is_digit_def digit_value_def Let_def of_nat_of_char [where 'a = int, symmetric] by auto

text \<open>\<^verbatim>\<open>strtol\<close> never stops right behind the prefix of a hexadecimal number.\<close>

lemma c_strtol_hex:
  assumes "peek s 0 = CHR ''0''" and "peek s 1 = CHR ''x'' \<or> peek s 1 = CHR ''X''" and "c_strtol 16 s = (v, n)"
  shows "n \<noteq> 2"
proof -
  obtain c d r where s: "s = c # d # r"
    using peek_not_NUL [of s 0] peek_not_NUL [of s 1] assms(1,2) by (cases s; cases "tl s") auto
  have "digits_of 16 s = [c]" using assms(1,2) s by (auto simp: digits_of_def digit_value_def)
  with assms s show ?thesis by (auto simp: c_strtol_def Let_def split: if_splits)
qed

lemma lex_number_step:
  assumes wf: "lex_wf l" and s: "s \<noteq> []" "is_digit (peek s 0)"
    and p: "parse_point l \<le> p" "p + length s = eof l"
  shows "\<exists>l'. lex_number s p l = Inr (1, l') \<and> lex_step l l'"
proof -
  obtain v16 n16 v8 n8 v10 n10 vd nd where v: "c_strtol 16 s = (v16, n16)" "c_strtol 8 s = (v8, n8)"
      "c_strtol 10 s = (v10, n10)" "c_strtod s = (vd, nd)"
    by fastforce
  have "digit_value (peek s 0) < 10" using is_digit_value [OF s(2)] by simp
  then have n16: "1 \<le> n16" "n16 \<le> length s" and n10: "1 \<le> n10" "n10 \<le> length s"
    using c_strtol_length [OF s(1) _ _ v(1)] c_strtol_length [OF s(1) _ _ v(3)] by simp_all
  have n8: "1 \<le> n8 \<and> n8 \<le> length s" if "peek s 0 = CHR ''0''"
    using c_strtol_length [OF s(1) _ _ v(2)] that by (simp add: digit_value_def)
  note nd = c_strtod_length [OF s(1,2) v(4)]
  show ?thesis
    using v n8 n16 n10 nd c_strtol_hex [OF _ _ v(1)] wf p
    by (auto simp: lex_number_def Let_def stb__clex_parse_suffixes_def intro!: lex_stepI)
qed

section \<open>A call\<close>

theorem get_token_step:
  assumes wf: "lex_wf l"
  shows "case stb_c_lexer_get_token l of
      Inl e \<Rightarrow> e = Invalid_Access
    | Inr (r, l') \<Rightarrow> r = 0 \<and> l' = l\<lparr>token := clex_code CLEX_eof\<rparr> \<or> r = 1 \<and> lex_step l l'"
proof (cases "parse_point l > eof l")
  case False
  let ?s0 = "drop (parse_point l) (input_stream l)"
  have len: "length ?s0 = eof l - parse_point l" by (simp add: eof_def)
  show ?thesis
  proof (cases "skip_blanks ?s0")
    case (Inl s)
    then have "length s \<le> eof l - parse_point l" "0 < length s" using skip_blanks_length(2) [OF Inl] len by auto
    then have "parse_point l < Suc (eof l - Suc 0)" by linarith
    then have "lex_step l (l\<lparr>token := 257, where_firstchar := eof l - length s, where_lastchar := eof l - Suc 0,
        parse_point := Suc (eof l - Suc 0)\<rparr>)"
      using wf False by (intro lex_stepI) auto
    then show ?thesis using Inl False by (simp add: stb_c_lexer_get_token_def)
  next
    case (Inr s)
    then have *: "length s \<le> eof l - parse_point l" using skip_blanks_length(1) [OF Inr] len by auto
    show ?thesis
    proof (cases "s = []")
      case True
      then show ?thesis using Inr False by (simp add: stb_c_lexer_get_token_def stb__clex_eof_def)
    next
      case s: False
      let ?p = "eof l - length s"
      have p: "parse_point l \<le> ?p" "?p + length s = eof l" using * False s by auto
      have punct: "lex_step l (l\<lparr>token := t, where_firstchar := ?p, where_lastchar := ?p + n - Suc 0,
          parse_point := Suc (?p + n - Suc 0)\<rparr>)" if "lex_punct s = (t, n)" for t n
        using lex_punct_length [OF s that] p wf by (intro lex_stepI) auto
      have "case lex_token s ?p l of Inl e \<Rightarrow> e = Invalid_Access | Inr (r, l') \<Rightarrow> r = 1 \<and> lex_step l l'"
        using lex_identifier_step [OF wf s _ p] stb__clex_parse_string_step [OF wf s p]
          lex_char_step [OF wf s p] lex_number_step [OF wf s _ p] punct
        by (auto simp: lex_token_def Let_def split: prod.splits)
      then show ?thesis using Inr False s by (auto simp: stb_c_lexer_get_token_def split: sum.splits)
    qed
  qed
qed (simp add: stb_c_lexer_get_token_def)

end
