(* ===== verification/Refinement.thy ===== *)
theory Refinement
  imports Moe_Types
begin

text \<open>
  Refinement of computations without memory.  A component whose state is the memory and something
  else (the lexer; the lexer, the engine and the files) is specified by a computation on the rest of
  the state alone; \<open>refines\<close> says that the component computes the same, with a memory that
  represents the specified values.  The rules follow the structure of computations.
\<close>

section \<open>State\<close>

text \<open>Memory together with the rest of the state, which for the parser is the lexer.\<close>

record 'r pstate =
  ps_mem :: heap
  ps_rest :: 'r

definition on_mem :: "(heap, 'a) cm \<Rightarrow> ('r pstate, 'a) cm" where
  "on_mem = clift ps_mem (\<lambda>m st. st\<lparr>ps_mem := m\<rparr>)"

definition on_rest :: "('r, 'a) cm \<Rightarrow> ('r pstate, 'a) cm" where
  "on_rest = clift ps_rest (\<lambda>r st. st\<lparr>ps_rest := r\<rparr>)"

section \<open>The relation and its rules\<close>

text \<open>
  \<open>refines P f g Q\<close>: started where \<open>P\<close> holds, \<open>f\<close> fails as \<open>g\<close> does, or
  both return, with the same rest of the state, results and memory related by \<open>Q\<close>.
\<close>

definition same_outcome ::
  "('b \<Rightarrow> 'a \<Rightarrow> heap \<Rightarrow> 'r \<Rightarrow> bool) \<Rightarrow> c_error + 'b \<times> 'r \<Rightarrow> c_error + 'a \<times> 'r pstate \<Rightarrow> bool" where
  "same_outcome Q r r' \<longleftrightarrow>
     (case r of
        Inl e \<Rightarrow> r' = Inl e
      | Inr (y, l') \<Rightarrow> \<exists>z m'. r' = Inr (z, \<lparr>ps_mem = m', ps_rest = l'\<rparr>) \<and> Q y z m' l')"

definition refines ::
  "(heap \<Rightarrow> 'r \<Rightarrow> bool) \<Rightarrow> ('r pstate, 'a) cm \<Rightarrow> ('r, 'b) cm \<Rightarrow>
   ('b \<Rightarrow> 'a \<Rightarrow> heap \<Rightarrow> 'r \<Rightarrow> bool) \<Rightarrow> bool" where
  "refines P f g Q \<longleftrightarrow> (\<forall>m l. P m l \<longrightarrow> same_outcome Q (g l) (f \<lparr>ps_mem = m, ps_rest = l\<rparr>))"

lemma same_outcome_simps [simp]:
  "same_outcome Q (Inl e) r' \<longleftrightarrow> r' = Inl e"
  "same_outcome Q (Inr (y, l')) r' \<longleftrightarrow> (\<exists>z m'. r' = Inr (z, \<lparr>ps_mem = m', ps_rest = l'\<rparr>) \<and> Q y z m' l')"
  by (simp_all add: same_outcome_def)

lemma refinesD: "refines P f g Q \<Longrightarrow> P m l \<Longrightarrow> same_outcome Q (g l) (f \<lparr>ps_mem = m, ps_rest = l\<rparr>)"
  by (simp add: refines_def)

lemma refines_bind:
  assumes f: "refines P f g Q" and k: "\<And>y z. refines (Q y z) (f' z) (g' y) R"
  shows "refines P (cbind f f') (cbind g g') R"
  unfolding refines_def
proof (intro allI impI)
  fix m l
  assume P: "P m l"
  show "same_outcome R (cbind g g' l) (cbind f f' \<lparr>ps_mem = m, ps_rest = l\<rparr>)"
    using refinesD [OF f P] refinesD [OF k] by (cases "g l") auto
qed

lemma refines_return: "(\<And>m l. P m l \<Longrightarrow> Q y z m l) \<Longrightarrow> refines P (creturn z) (creturn y) Q"
  by (auto simp: refines_def)

lemma refines_pre: "refines P' f g Q \<Longrightarrow> (\<And>m l. P m l \<Longrightarrow> P' m l) \<Longrightarrow> refines P f g Q"
  by (simp add: refines_def)

lemma refines_post:
  assumes "refines P f g Q" and "\<And>y z m l. Q y z m l \<Longrightarrow> Q' y z m l"
  shows "refines P f g Q'"
  unfolding refines_def
proof (intro allI impI)
  fix m l
  assume "P m l"
  then show "same_outcome Q' (g l) (f \<lparr>ps_mem = m, ps_rest = l\<rparr>)"
    using refinesD [OF assms(1), of m l] assms(2) by (cases "g l") auto
qed

lemma refines_on_rest:
  assumes "\<And>m l y l'. P m l \<Longrightarrow> g l = Inr (y, l') \<Longrightarrow> Q y y m l'"
  shows "refines P (on_rest g) g Q"
  unfolding refines_def
proof (intro allI impI)
  fix m l
  assume "P m l"
  then show "same_outcome Q (g l) (on_rest g \<lparr>ps_mem = m, ps_rest = l\<rparr>)"
    using assms [of m l] by (cases "g l") (auto simp: on_rest_def)
qed

lemma refines_on_mem:
  assumes "\<And>m l. P m l \<Longrightarrow> \<exists>z m'. f m = Inr (z, m') \<and> P' z m' l"
    and "\<And>z. refines (P' z) (f' z) g Q"
  shows "refines P (cbind (on_mem f) f') g Q"
  unfolding refines_def
proof (intro allI impI)
  fix m l
  assume "P m l"
  then obtain z m' where "f m = Inr (z, m')" and P': "P' z m' l" using assms(1) by blast
  then show "same_outcome Q (g l) (cbind (on_mem f) f' \<lparr>ps_mem = m, ps_rest = l\<rparr>)"
    using refinesD [OF assms(2) P'] by (simp add: on_mem_def)
qed

text \<open>A step of the lexer that both sides take, where one of them keeps the result.\<close>

lemma refines_read_rest:
  assumes "\<And>m l. P m l \<Longrightarrow> g l = Inr (y, l)" and "refines P (f' y) (g' y) Q"
  shows "refines P (cbind (on_rest g) f') (cbind g g') Q"
  using assms unfolding refines_def by (simp add: on_rest_def)

lemma refines_read_mem:
  assumes "\<And>m l. P m l \<Longrightarrow> f m = Inr (z, m)" and "refines P (f' z) g Q"
  shows "refines P (cbind (on_mem f) f') g Q"
  using assms unfolding refines_def by (simp add: on_mem_def)

lemma refines_ex: "(\<And>x. refines (P x) f g Q) \<Longrightarrow> refines (\<lambda>m l. \<exists>x. P x m l) f g Q"
  by (auto simp: refines_def)

lemma refines_assume: "(b \<Longrightarrow> refines P f g Q) \<Longrightarrow> refines (\<lambda>m l. b \<and> P m l) f g Q"
  by (auto simp: refines_def)

lemma refines_loop:
  fixes mu :: "'r \<Rightarrow> nat"
  assumes round: "\<And>a b. refines (I a b) (step b) (astep a) (\<lambda>r r' m l.
        case r of Inl a' \<Rightarrow> (\<exists>b'. r' = Inl b' \<and> I a' b' m l) | Inr y \<Rightarrow> (\<exists>z. r' = Inr z \<and> Q y z m l))"
    and dec: "\<And>a b m l a' l'. I a b m l \<Longrightarrow> astep a l = Inr (Inl a', l') \<Longrightarrow> mu l' < mu l"
  shows "refines (I a b) (cloop step b) (cloop astep a) Q"
proof -
  have "same_outcome Q (cloop astep a l) (cloop step b \<lparr>ps_mem = m, ps_rest = l\<rparr>)"
    if "I a b m l" for a b m l
    using that
  proof (induction "mu l" arbitrary: a b m l rule: less_induct)
    case (less l a b m)
    note out = refinesD [OF round less.prems]
    show ?case
    proof (cases "astep a l")
      case (Inl e)
      then show ?thesis using out by (simp add: cloop_unfold [of step b] cloop_unfold [of astep a])
    next
      case (Inr r)
      obtain y l' where r: "r = (y, l')" by (cases r)
      then show ?thesis using out Inr less.hyps dec [OF less.prems]
        by (cases y) (auto simp: cloop_unfold [of step b] cloop_unfold [of astep a])
    qed
  qed
  then show ?thesis by (simp add: refines_def)
qed

end
