(* ===== verification/Derive_Parser.thy ===== *)
theory Derive_Parser
  imports Derived_Build Lexer_Props Refinement
begin

text \<open>
  The parser of \<^verbatim>\<open>moe/proc_macro/proc_macro.c\<close> (lines 10 to 15 and 276 to 440), which finds a
  \<^verbatim>\<open>MOE_PROC_MACRO_DERIVES\<close> declaration in the token sequence and builds the derived struct.
  Its state is the memory and the lexer.
\<close>

section \<open>State\<close>

abbreviation on_lex :: "(stb_lexer, 'a) cm \<Rightarrow> (stb_lexer pstate, 'a) cm" where
  "on_lex \<equiv> on_rest"

definition MOE_PROC_MACRO_DERIVES_MACRO_NAME :: string where
  "MOE_PROC_MACRO_DERIVES_MACRO_NAME = ''MOE_PROC_MACRO_DERIVES''"

definition MOE_PROC_MACRO_DERIVES_ENUM_MACRO_NAME :: string where
  "MOE_PROC_MACRO_DERIVES_ENUM_MACRO_NAME = ''MOE_PROC_MACRO_DERIVES_ENUM''"

definition MOE_PROC_MACRO_MAX_DERIVE_ITEM_NUM :: int where
  "MOE_PROC_MACRO_MAX_DERIVE_ITEM_NUM = 8"

section \<open>Tokens\<close>

definition moe_next_token :: "(stb_lexer, unit) cm" where
  "moe_next_token = cbind stb_c_lexer_get_token (\<lambda>r. cassert (r \<noteq> 0) ''stb_c_lexer_get_token(lex)'')"

definition moe_expect_token :: "int \<Rightarrow> (stb_lexer, unit) cm" where
  "moe_expect_token expected =
     cbind (cgets token) (\<lambda>t. cassert (t = expected) ''(lex)->token == (expected_token)'')"

definition moe_expect_next_token :: "int \<Rightarrow> (stb_lexer, unit) cm" where
  "moe_expect_next_token expected = cseq moe_next_token (moe_expect_token expected)"

definition punct :: "char \<Rightarrow> int" where
  "punct c = of_char c"

text \<open>The text \<^verbatim>\<open>lex->string\<close> as \<^verbatim>\<open>strcmp\<close> reads it.\<close>

definition lex_text :: "(stb_lexer, string) cm" where
  "lex_text = cbind (cgets lex_string) c_str"

text \<open>The current token is an identifier, and one of the given ones.\<close>

definition at_keyword :: "string list \<Rightarrow> (stb_lexer, bool) cm" where
  "at_keyword ws =
     cbind (cgets token) (\<lambda>t.
     if t \<noteq> clex_code CLEX_id then creturn False
     else cbind lex_text (\<lambda>s. creturn (s \<in> set ws)))"

definition const_text :: "block option \<Rightarrow> (heap, string) cm" where
  "const_text s = cbind (moe_string_get_const s) c_str_at"

section \<open>Derive items\<close>

definition parse_args :: "(stb_lexer, unit) cm" where
  "parse_args =
     cseq (moe_expect_next_token (clex_code CLEX_id))
    (cseq (moe_expect_next_token (punct CHR ''(''))
    (cseq (moe_expect_next_token (clex_code CLEX_id))
    (cseq (moe_expect_next_token (punct CHR '',''))
    (cseq (moe_expect_next_token (clex_code CLEX_id))
          (moe_expect_next_token (punct CHR '')''))))))"

definition args_round :: "unit \<Rightarrow> (stb_lexer, unit + unit) cm" where
  "args_round u =
     cseq moe_next_token
    (cbind (cgets token) (\<lambda>t.
     if t = punct CHR '','' then cseq parse_args (creturn (Inl ())) else creturn (Inr ())))"

definition parse_derive_item :: "block option \<Rightarrow> nat \<Rightarrow> (stb_lexer pstate, unit) cm" where
  "parse_derive_item items i =
     cseq (on_lex (moe_expect_next_token (clex_code CLEX_id)))
    (cbind (on_lex (cgets lex_string)) (\<lambda>name.
     cseq (on_mem (moe_derive_item_create items i name 0))
          (on_lex (cloop args_round ()))))"

text \<open>Skipping the closing parenthesis' successor when it is a semicolon.\<close>

definition skip_semicolon :: "(stb_lexer, unit) cm" where
  "skip_semicolon =
     cseq moe_next_token
    (cbind (cgets token) (\<lambda>t. if t = punct CHR '';'' then moe_next_token else creturn ()))"

definition name_mismatch :: "block option \<Rightarrow> (stb_lexer pstate, unit) cm" where
  "name_mismatch name_ptr =
     cbind (on_mem (const_text name_ptr)) (\<lambda>expected.
     cbind (on_lex lex_text) (\<lambda>got.
     on_mem (emit (Out_Text (''Warning: Struct name mismatch: expected '' @ expected @ '', got '' @ got @ newline)))))"

definition try_parse_derive :: "block option \<Rightarrow> block option \<Rightarrow> nat \<Rightarrow> (stb_lexer pstate, int) cm" where
  "try_parse_derive name_ptr items i =
     cbind (on_lex (at_keyword [MOE_PROC_MACRO_DERIVES_MACRO_NAME])) (\<lambda>is_derive.
     if \<not> is_derive then creturn 0 else
     cseq (on_lex (moe_expect_next_token (punct CHR ''('')))
    (cseq (on_lex (moe_expect_next_token (clex_code CLEX_id)))
    (cbind (on_mem (const_text name_ptr)) (\<lambda>expected.
     cbind (on_lex lex_text) (\<lambda>got.
     if expected \<noteq> got then cseq (name_mismatch name_ptr) (creturn (- 1)) else
     cseq (on_lex (moe_expect_next_token (punct CHR '','')))
    (cseq (parse_derive_item items i)
    (cseq (on_lex skip_semicolon) (creturn 1))))))))"

section \<open>The body of the struct\<close>

definition body_token :: "(stb_lexer pstate, block option) cm" where
  "body_token =
     cbind (on_lex (cgets id)) (\<lambda>lex.
     if token lex = clex_code CLEX_id then
       on_mem (moe_token_create_identifier (lex_string lex) (string_len lex))
     else if token lex = clex_code CLEX_sqstring \<or> token lex = clex_code CLEX_dqstring then
       on_mem (moe_token_create_string_literal (lex_string lex) (string_len lex))
     else if token lex = clex_code CLEX_intlit then
       on_mem (moe_token_create_int_literal (to_i32 (int_number lex)))
     else if token lex = clex_code CLEX_floatlit then
       on_mem (moe_token_create_float_literal (Float_Cast (real_number lex)))
     else
       on_mem (moe_token_create_punctuation (to_schar (token lex))))"

definition body_round :: "block \<Rightarrow> unit \<Rightarrow> (stb_lexer pstate, unit + unit) cm" where
  "body_round derived_struct u =
     cseq (on_lex moe_next_token)
    (cbind (on_lex (cgets token)) (\<lambda>t.
     if t = punct CHR ''}'' then creturn (Inr ()) else
     cbind body_token (\<lambda>tok.
     cseq (on_mem (moe_derive_struct_metadata_add_token (Some (metadata_of derived_struct)) tok))
          (creturn (Inl ())))))"

definition try_parse_derived_struct_body :: "block option \<Rightarrow> block \<Rightarrow> (stb_lexer pstate, int) cm" where
  "try_parse_derived_struct_body name_ptr derived_struct =
     cbind (on_lex lex_text) (\<lambda>s.
     cbind (if s = ''typedef'' then cseq (on_lex moe_next_token) (creturn True) else creturn False) (\<lambda>is_typedef.
     cbind (on_lex (at_keyword [''struct'', ''enum''])) (\<lambda>is_struct.
     if \<not> is_struct then creturn 0 else
     cseq (on_lex (moe_expect_next_token (clex_code CLEX_id)))
    (cbind (on_mem (const_text name_ptr)) (\<lambda>expected.
     cbind (on_lex lex_text) (\<lambda>got.
     if expected \<noteq> got then cseq (name_mismatch name_ptr) (creturn (- 1)) else
     cseq (on_lex (moe_expect_next_token (punct CHR ''{'')))
    (cseq (cloop (body_round derived_struct) ())
    (cseq (if is_typedef then on_lex (moe_expect_next_token (clex_code CLEX_id)) else creturn ())
    (cseq (on_lex (moe_expect_next_token (punct CHR '';'')))
          (creturn 1))))))))))"

section \<open>The derived struct\<close>

definition derive_round :: "block \<Rightarrow> block option \<Rightarrow> int \<Rightarrow> (stb_lexer pstate, int + int) cm" where
  "derive_round derived_struct name_ptr derive_count =
     (if derive_count < MOE_PROC_MACRO_MAX_DERIVE_ITEM_NUM then
        cbind (on_mem (load_derived_struct (Some derived_struct))) (\<lambda>ds.
        cbind (try_parse_derive name_ptr (derive_items ds) (nat derive_count)) (\<lambda>ret.
        if ret = 1 then creturn (Inl (derive_count + 1))
        else if ret = 0 then creturn (Inr derive_count)
        else creturn (Inl derive_count)))
      else creturn (Inr derive_count))"

definition body_failed :: "string \<Rightarrow> block option \<Rightarrow> block \<Rightarrow> (stb_lexer pstate, block option) cm" where
  "body_failed msg name_ptr derived_struct =
     cbind (on_mem (const_text name_ptr)) (\<lambda>name.
     cseq (on_mem (emit (Out_Text (msg @ name @ newline))))
    (cseq (on_mem (moe_derived_struct_free (Some derived_struct)))
          (creturn None)))"

definition parse_derived_struct :: "(stb_lexer pstate, block option) cm" where
  "parse_derived_struct =
     cbind (on_lex (at_keyword [MOE_PROC_MACRO_DERIVES_MACRO_NAME, MOE_PROC_MACRO_DERIVES_ENUM_MACRO_NAME])) (\<lambda>is_derive.
     if \<not> is_derive then creturn None else
     cseq (on_lex (moe_expect_next_token (punct CHR ''('')))
    (cseq (on_lex (moe_expect_next_token (clex_code CLEX_id)))
    (cbind (on_lex (cgets lex_string)) (\<lambda>name.
     cbind (on_mem (moe_derived_struct_alloc name MOE_PROC_MACRO_MAX_DERIVE_ITEM_NUM)) (\<lambda>derived_struct.
     cbind (on_mem (load_derived_struct (Some derived_struct))) (\<lambda>ds.
     let name_ptr = struct_name ds in
     cseq (on_lex (moe_expect_next_token (punct CHR '','')))
    (cseq (parse_derive_item (derive_items ds) 0)
    (cseq (on_lex skip_semicolon)
    (cbind (cloop (derive_round derived_struct name_ptr) 1) (\<lambda>derive_count.
     cseq (on_mem (cbind (load_derived_struct (Some derived_struct)) (\<lambda>ds.
             store_obj (Some derived_struct) (Obj_Derived_Struct (ds\<lparr>derive_item_num := derive_count\<rparr>)))))
    (cbind (try_parse_derived_struct_body name_ptr derived_struct) (\<lambda>result.
     if result = 0 then
       body_failed ''Error: Failed to parse struct body for struct '' name_ptr derived_struct
     else if result = - 1 then
       body_failed ''Error: Struct name mismatch when parsing struct body for struct '' name_ptr derived_struct
     else creturn (Some derived_struct)))))))))))))"

end
