(* ===== verification/Parser_Spec.thy ===== *)
theory Parser_Spec
  imports Derive_Parser
begin

text \<open>
  What the parser computes, without memory: \<open>spec_parse\<close> reads the tokens of the same lexer and
  returns an abstract \<open>derived\<close> value.
\<close>

section \<open>The specification\<close>

definition spec_item :: "(stb_lexer, string) cm" where
  "spec_item =
     cseq (moe_expect_next_token (clex_code CLEX_id))
    (cbind lex_text (\<lambda>h. cseq (cloop args_round ()) (creturn h)))"

definition spec_derive_named :: "string \<Rightarrow> (stb_lexer, int \<times> string list) cm" where
  "spec_derive_named name =
     cseq (moe_expect_next_token (punct CHR ''(''))
    (cseq (moe_expect_next_token (clex_code CLEX_id))
    (cbind lex_text (\<lambda>got.
     if name \<noteq> got then creturn (- 1, []) else
     cseq (moe_expect_next_token (punct CHR '',''))
    (cbind spec_item (\<lambda>h.
     cseq skip_semicolon (creturn (1, [h])))))))"

definition spec_derive :: "string \<Rightarrow> (stb_lexer, int \<times> string list) cm" where
  "spec_derive name =
     cbind (at_keyword [MOE_PROC_MACRO_DERIVES_MACRO_NAME]) (\<lambda>is_derive.
     if \<not> is_derive then creturn (0, []) else spec_derive_named name)"

definition spec_derives_round :: "string \<Rightarrow> string list \<Rightarrow> (stb_lexer, string list + string list) cm" where
  "spec_derives_round name hs =
     (if length hs < 8 then
        cbind (spec_derive name) (\<lambda>(ret, new).
        if ret = 1 then creturn (Inl (hs @ new))
        else if ret = 0 then creturn (Inr hs)
        else creturn (Inl hs))
      else creturn (Inr hs))"

definition spec_token :: "stb_lexer \<Rightarrow> atoken" where
  "spec_token l =
     (let bytes = take (nat (string_len l)) (string_storage l) in
      if token l = clex_code CLEX_id then A_Ident bytes
      else if token l = clex_code CLEX_dqstring then A_Str bytes
      else if token l = clex_code CLEX_intlit then A_Int (to_i32 (int_number l))
      else if token l = clex_code CLEX_floatlit then A_Float (Float_Cast (real_number l))
      else A_Punct (to_schar (token l)))"

definition spec_body_round :: "atoken list \<Rightarrow> (stb_lexer, atoken list + atoken list) cm" where
  "spec_body_round tks =
     cseq moe_next_token
    (cbind (cgets id) (\<lambda>l.
     creturn (if token l = punct CHR ''}'' then Inr tks else Inl (tks @ [spec_token l]))))"

definition spec_body :: "string \<Rightarrow> (stb_lexer, int \<times> atoken list) cm" where
  "spec_body name =
     cbind lex_text (\<lambda>s.
     cbind (if s = ''typedef'' then cseq moe_next_token (creturn True) else creturn False) (\<lambda>is_typedef.
     cbind (at_keyword [''struct'', ''enum'']) (\<lambda>is_struct.
     if \<not> is_struct then creturn (0, []) else
     cseq (moe_expect_next_token (clex_code CLEX_id))
    (cbind lex_text (\<lambda>got.
     if name \<noteq> got then creturn (- 1, []) else
     cseq (moe_expect_next_token (punct CHR ''{''))
    (cbind (cloop spec_body_round []) (\<lambda>tks.
     cseq (if is_typedef then moe_expect_next_token (clex_code CLEX_id) else creturn ())
    (cseq (moe_expect_next_token (punct CHR '';''))
          (creturn (1, tks))))))))))"

definition spec_parse :: "(stb_lexer, derived option) cm" where
  "spec_parse =
     cbind (at_keyword [MOE_PROC_MACRO_DERIVES_MACRO_NAME, MOE_PROC_MACRO_DERIVES_ENUM_MACRO_NAME]) (\<lambda>is_derive.
     if \<not> is_derive then creturn None else
     cseq (moe_expect_next_token (punct CHR ''(''))
    (cseq (moe_expect_next_token (clex_code CLEX_id))
    (cbind lex_text (\<lambda>name.
     cseq (moe_expect_next_token (punct CHR '',''))
    (cbind spec_item (\<lambda>h.
     cseq skip_semicolon
    (cbind (cloop (spec_derives_round name) [h]) (\<lambda>hs.
     cbind (spec_body name) (\<lambda>(result, tks).
     creturn (if result = 1 then Some \<lparr>d_name = name, d_handlers = hs, d_tokens = tks\<rparr> else None))))))))))"

end
