(* ===== verification/Parser_Refine.thy ===== *)
theory Parser_Refine
  imports Parser_Spec
begin

text \<open>
  The parser refines its specification.  First what the parser's operations on the lexer keep and
  consume, then the refinement of each function, then of \<^verbatim>\<open>parse_derived_struct\<close>.
\<close>

section \<open>Operations on the lexer\<close>

text \<open>
  \<open>lex_left\<close> bounds the number of tokens that can still be read.  \<open>later l l'\<close>: the
  lexer is in a good state again and has not gone back; \<open>after l l'\<close>: it has consumed input.
\<close>

definition lex_left :: "stb_lexer \<Rightarrow> nat" where
  "lex_left l = eof l + 3 - parse_point l"

definition later :: "stb_lexer \<Rightarrow> stb_lexer \<Rightarrow> bool" where
  "later l l' \<longleftrightarrow> lex_wf l' \<and> lex_left l' \<le> lex_left l \<and> (string_set l \<longrightarrow> string_set l')"

definition after :: "stb_lexer \<Rightarrow> stb_lexer \<Rightarrow> bool" where
  "after l l' \<longleftrightarrow> later l l' \<and> lex_left l' < lex_left l"

lemma later_refl [simp]: "later l l = lex_wf l"
  by (simp add: later_def)

lemma later_trans [trans]: "later l l' \<Longrightarrow> later l' l'' \<Longrightarrow> later l l''"
  by (auto simp: later_def)

lemma after_trans [trans]: "after l l' \<Longrightarrow> later l' l'' \<Longrightarrow> after l l''"
  "later l l' \<Longrightarrow> after l' l'' \<Longrightarrow> after l l''"
  by (auto simp: after_def later_def)

lemma after_later: "after l l' \<Longrightarrow> later l l'"
  by (simp add: after_def)

lemma later_wf: "later l l' \<Longrightarrow> lex_wf l'" "after l l' \<Longrightarrow> lex_wf l'"
  by (simp_all add: later_def after_def)

lemma later_set: "later l l' \<Longrightarrow> string_set l \<Longrightarrow> string_set l'" "after l l' \<Longrightarrow> string_set l \<Longrightarrow> string_set l'"
  by (simp_all add: later_def after_def)

lemma lex_step_after: "lex_step l l' \<Longrightarrow> after l l'"
  by (auto simp: lex_step_def after_def later_def lex_left_def eof_def)

lemma moe_next_token_ok:
  assumes "moe_next_token l = Inr (u, l')" and "lex_wf l"
  shows "after l l'" and "token_wf l'"
proof -
  from assms(1) obtain r where r: "stb_c_lexer_get_token l = Inr (r, l')" "r \<noteq> 0"
    by (auto simp: moe_next_token_def split: if_splits)
  with get_token_step [OF assms(2)] have "lex_step l l'" by simp
  then show "after l l'" "token_wf l'" by (simp_all add: lex_step_after) (simp add: lex_step_def)
qed

lemma moe_expect_next_token_ok:
  assumes "moe_expect_next_token t l = Inr (u, l')" and "lex_wf l"
  shows "after l l'" and "token_wf l'" and "token l' = t"
  using assms moe_next_token_ok
  by (auto simp: moe_expect_next_token_def moe_expect_token_def split: if_splits)

text \<open>The current token is the identifier \<open>cs\<close>.\<close>

definition id_at :: "stb_lexer \<Rightarrow> string \<Rightarrow> bool" where
  "id_at l cs \<longleftrightarrow> lex_wf l \<and> text_is l cs \<and> cs \<noteq> [] \<and> NUL \<notin> set cs"

lemma token_id_at: "lex_wf l \<Longrightarrow> token_wf l \<Longrightarrow> token l = clex_code CLEX_id \<Longrightarrow> \<exists>cs. id_at l cs"
  by (auto simp: token_wf_def id_at_def)

lemma id_at_text: "id_at l cs \<Longrightarrow> lex_text l = Inr (cs, l)"
  by (auto simp: id_at_def text_is_def lex_text_def lex_string_def)

lemma id_at_bytes: "id_at l cs \<Longrightarrow> c_bytes (lex_string l) 0 cs"
  by (auto simp: id_at_def text_is_def c_bytes_def lex_string_def lex_wf_def)

lemma lex_wf_storage: "lex_wf l \<Longrightarrow> NUL \<in> set (string_storage l)"
  unfolding lex_wf_def by (metis diff_less length_greater_0_conv less_nat_zero_code less_one list.size(3) nth_mem)

text \<open>Reading the text needs only that there has been one.\<close>

lemma lex_text_ok:
  assumes "lex_wf l" and "string_set l"
  obtains s where "lex_text l = Inr (s, l)"
  using assms lex_wf_storage [OF assms(1)] by (auto simp: lex_text_def lex_string_def c_str_def)

lemma lex_text_state: "lex_text l = Inr (s, l') \<Longrightarrow> l' = l"
  by (auto simp: lex_text_def c_str_def split: option.splits if_splits)

lemma at_keyword_state: "at_keyword ws l = Inr (b, l') \<Longrightarrow> l' = l"
  by (auto simp: at_keyword_def split: if_splits dest!: lex_text_state elim!: cbind_InrE)

text \<open>Computations that keep the lexer good, and those that consume input.\<close>

definition keeps_rest :: "(stb_lexer, 'a) cm \<Rightarrow> bool" where
  "keeps_rest g \<longleftrightarrow> (\<forall>l y l'. lex_wf l \<longrightarrow> g l = Inr (y, l') \<longrightarrow> later l l')"

definition advances :: "(stb_lexer, 'a) cm \<Rightarrow> bool" where
  "advances g \<longleftrightarrow> (\<forall>l y l'. lex_wf l \<longrightarrow> g l = Inr (y, l') \<longrightarrow> after l l')"

lemma keeps_restD: "keeps_rest g \<Longrightarrow> g l = Inr (y, l') \<Longrightarrow> lex_wf l \<Longrightarrow> later l l'"
  by (simp add: keeps_rest_def)

lemma advancesD: "advances g \<Longrightarrow> g l = Inr (y, l') \<Longrightarrow> lex_wf l \<Longrightarrow> after l l'"
  by (simp add: advances_def)

lemma advances_keeps: "advances g \<Longrightarrow> keeps_rest g"
  by (simp add: advances_def keeps_rest_def after_later)

lemma keeps_rest_return [cm_intros]: "keeps_rest (creturn a)" "keeps_rest (cgets f)"
  by (simp_all add: keeps_rest_def)

lemma keeps_rest_if [cm_intros]: "keeps_rest f \<Longrightarrow> keeps_rest g \<Longrightarrow> keeps_rest (if b then f else g)"
  by simp

lemma keeps_rest_bind [cm_intros]:
  assumes "keeps_rest f" and "\<And>a. keeps_rest (g a)"
  shows "keeps_rest (cbind f g)"
  unfolding keeps_rest_def
proof (intro allI impI)
  fix l y l''
  assume wf: "lex_wf l" and "cbind f g l = Inr (y, l'')"
  then obtain a l' where "f l = Inr (a, l')" "g a l' = Inr (y, l'')" by (elim cbind_InrE)
  then show "later l l''"
    using keeps_restD [OF assms(1)] keeps_restD [OF assms(2)] wf later_wf(1) later_trans by metis
qed

lemma advances_bind:
  assumes "advances f" and "\<And>a. keeps_rest (g a)"
  shows "advances (cbind f g)"
  unfolding advances_def
proof (intro allI impI)
  fix l y l''
  assume wf: "lex_wf l" and "cbind f g l = Inr (y, l'')"
  then obtain a l' where "f l = Inr (a, l')" "g a l' = Inr (y, l'')" by (elim cbind_InrE)
  then show "after l l''"
    using advancesD [OF assms(1)] keeps_restD [OF assms(2)] wf later_wf(2) after_trans(1) by metis
qed

lemma keeps_rest_loop [cm_intros]:
  assumes "\<And>a. keeps_rest (step a)"
  shows "keeps_rest (cloop step a)"
  unfolding keeps_rest_def
proof (intro allI impI)
  fix l y l'
  assume "lex_wf l" and "cloop step a l = Inr (y, l')"
  then show "later l l'"
    by (elim cloop_keeps [where I = "\<lambda>_. later l"])
       (auto intro: later_trans dest: later_wf keeps_restD [OF assms])
qed

lemma advances_next: "advances moe_next_token" "advances (moe_expect_next_token t)"
  using moe_next_token_ok(1) moe_expect_next_token_ok(1) by (auto simp: advances_def)

lemmas keeps_rest_next [cm_intros] = advances_next [THEN advances_keeps]

lemma keeps_rest_read [cm_intros]: "keeps_rest lex_text" "keeps_rest (at_keyword ws)"
  by (auto simp: keeps_rest_def dest!: lex_text_state at_keyword_state)

lemma keeps_rest_args [cm_intros]: "keeps_rest (cloop args_round u)" "keeps_rest skip_semicolon"
  unfolding args_round_def parse_args_def skip_semicolon_def by (intro cm_intros)+

lemma advances_item: "advances spec_item"
  unfolding spec_item_def by (intro advances_bind advances_next cm_intros)

lemmas keeps_rest_item [cm_intros] = advances_item [THEN advances_keeps]

lemma advances_derive_named: "advances (spec_derive_named name)"
  unfolding spec_derive_named_def by (intro advances_bind advances_next cm_intros)

lemma advances_derive:
  assumes "spec_derive name l = Inr ((ret, hs), l')" and "lex_wf l" and "ret \<noteq> 0"
  shows "after l l'"
proof -
  from assms(1,3) have "spec_derive_named name l = Inr ((ret, hs), l')"
    unfolding spec_derive_def by (elim cbind_InrE) (auto split: if_splits dest!: at_keyword_state)
  then show ?thesis using advancesD [OF advances_derive_named] assms(2) by blast
qed

lemma advances_derives_round:
  assumes "spec_derives_round name hs l = Inr (Inl hs', l')" and "lex_wf l"
  shows "lex_left l' < lex_left l"
  using assms advances_derive [of name l]
  by (auto simp: spec_derives_round_def after_def split: if_splits elim!: cbind_InrE)

lemma advances_body_round: "advances (spec_body_round tks)"
  unfolding spec_body_round_def by (intro advances_bind advances_next cm_intros)

section \<open>The invariant of the parser\<close>

text \<open>
  Memory holds the struct under construction, with the pointers that the parser keeps in variables,
  and the lexer is in a good state and has seen an identifier.
\<close>

definition pinv ::
  "heap \<Rightarrow> block \<Rightarrow> block option \<Rightarrow> block option \<Rightarrow> int \<Rightarrow> derived \<Rightarrow> heap \<Rightarrow> stb_lexer \<Rightarrow> bool" where
  "pinv m0 a np ip n d m l \<longleftrightarrow> building m0 m a n d \<and>
     objs m a = Some (Obj_Derived_Struct \<lparr>struct_name = np, derive_item_num = n, derive_items = ip\<rparr>) \<and>
     NUL \<notin> set (d_name d) \<and> lex_wf l \<and> string_set l"

lemma pinv_later: "pinv m0 a np ip n d m l \<Longrightarrow> later l l' \<Longrightarrow> pinv m0 a np ip n d m l'"
  by (auto simp: pinv_def later_def)

lemma pinv_lex: "pinv m0 a np ip n d m l \<Longrightarrow> lex_wf l \<and> string_set l"
  by (simp add: pinv_def)

lemma refines_keeps:
  assumes "keeps_rest g" and "\<And>m l l'. P m l \<Longrightarrow> later l l' \<Longrightarrow> P m l'" and "\<And>m l. P m l \<Longrightarrow> lex_wf l"
  shows "refines P (on_lex g) g (\<lambda>y z m l. z = y \<and> P m l)"
proof (rule refines_on_rest, intro conjI)
  fix m l y l'
  assume P: "P m l" and "g l = Inr (y, l')"
  then have "later l l'" using keeps_restD [OF assms(1)] assms(3) by blast
  then show "P m l'" by (rule assms(2) [OF P])
qed simp

lemma refines_next:
  assumes "\<And>m l l'. P m l \<Longrightarrow> later l l' \<Longrightarrow> P m l'" and "\<And>m l. P m l \<Longrightarrow> lex_wf l"
  shows "refines P (on_lex moe_next_token) moe_next_token (\<lambda>y z m l. P m l \<and> token_wf l)"
proof (rule refines_on_rest, intro conjI)
  fix m l y l'
  assume P: "P m l" and g: "moe_next_token l = Inr (y, l')"
  note * = moe_next_token_ok [OF g assms(2) [OF P]]
  then show "P m l'" "token_wf l'" by (auto intro: assms(2) [OF P] assms(1) [OF P] after_later)
qed

lemma refines_expect:
  assumes "\<And>m l l'. P m l \<Longrightarrow> later l l' \<Longrightarrow> P m l'" and "\<And>m l. P m l \<Longrightarrow> lex_wf l"
  shows "refines P (on_lex (moe_expect_next_token t)) (moe_expect_next_token t) (\<lambda>y z m l. P m l)"
proof (rule refines_on_rest)
  fix m l y l'
  assume P: "P m l" and g: "moe_expect_next_token t l = Inr (y, l')"
  show "P m l'" by (rule assms(1) [OF P after_later [OF moe_expect_next_token_ok(1) [OF g assms(2) [OF P]]]])
qed

lemma refines_expect_id:
  assumes "\<And>m l l'. P m l \<Longrightarrow> later l l' \<Longrightarrow> P m l'" and "\<And>m l. P m l \<Longrightarrow> lex_wf l"
  shows "refines P (on_lex (moe_expect_next_token (clex_code CLEX_id))) (moe_expect_next_token (clex_code CLEX_id))
     (\<lambda>y z m l. \<exists>cs. id_at l cs \<and> P m l)"
proof (rule refines_on_rest)
  fix m l y l'
  assume "P m l" and e: "moe_expect_next_token (clex_code CLEX_id) l = Inr (y, l')"
  then have wf: "lex_wf l" using assms(2) by blast
  note * = moe_expect_next_token_ok [OF e wf]
  with \<open>P m l\<close> show "\<exists>cs. id_at l' cs \<and> P m l'"
    using assms(1) after_later later_wf(2) token_id_at [of l'] by blast
qed

lemma refines_keyword:
  assumes "\<And>m l. P m l \<Longrightarrow> lex_wf l"
  shows "refines P (on_lex (at_keyword ws)) (at_keyword ws) (\<lambda>y z m l. z = y \<and> P m l)"
  by (rule refines_on_rest) (auto dest: at_keyword_state)

text \<open>Reading on one side only.\<close>

lemma refines_impl_gets:
  assumes "\<And>y. refines (\<lambda>m l. k l = y \<and> P m l) (f' y) g Q"
  shows "refines P (cbind (on_lex (cgets k)) f') g Q"
  using assms unfolding refines_def by (simp add: on_rest_def)

lemma refines_impl_text:
  assumes "\<And>m l. P m l \<Longrightarrow> lex_wf l \<and> string_set l" and "\<And>y. refines P (f' y) g Q"
  shows "refines P (cbind (on_lex lex_text) f') g Q"
  unfolding refines_def
proof (intro allI impI)
  fix m l
  assume P: "P m l"
  obtain s where "lex_text l = Inr (s, l)" using assms(1) [OF P] by (auto elim: lex_text_ok)
  then show "same_outcome Q (g l) (cbind (on_lex lex_text) f' \<lparr>ps_mem = m, ps_rest = l\<rparr>)"
    using refinesD [OF assms(2) P] by (simp add: on_rest_def)
qed

lemma refines_text:
  assumes "\<And>y. refines P (f' y) (g' y) Q"
  shows "refines P (cbind (on_lex lex_text) f') (cbind lex_text g') Q"
proof (rule refines_bind)
  show "refines P (on_lex lex_text) lex_text (\<lambda>y z m l. z = y \<and> P m l)"
    by (rule refines_on_rest) (auto dest: lex_text_state)
  show "refines (\<lambda>m l. z = y \<and> P m l) (f' z) (g' y) Q" for y z
    using assms by (intro refines_assume) simp
qed

lemma refines_spec_read:
  assumes "\<And>m l. P m l \<Longrightarrow> g l = Inr (y, l)" and "refines P f (g' y) Q"
  shows "refines P f (cbind g g') Q"
  using assms unfolding refines_def by simp

lemma refines_then_return:
  assumes "refines P f g (\<lambda>y z m l. Q h z m l)"
  shows "refines P f (cseq g (creturn h)) Q"
  unfolding refines_def
proof (intro allI impI)
  fix m l
  assume "P m l"
  then show "same_outcome Q (cseq g (creturn h) l) (f \<lparr>ps_mem = m, ps_rest = l\<rparr>)"
    using refinesD [OF assms, of m l] by (cases "g l") auto
qed

section \<open>Derive items\<close>

lemma pinv_add_item:
  assumes "pinv m0 a np ip n d m l" and "id_at l cs" and "length (d_handlers d) < 8"
  shows "\<exists>m'. moe_derive_item_create ip (length (d_handlers d)) (lex_string l) 0 m = Inr ((), m') \<and>
     pinv m0 a np ip n (d\<lparr>d_handlers := d_handlers d @ [cs]\<rparr>) m' l"
  using building_add_item [OF _ id_at_bytes [OF assms(2)] assms(3)] assms(1)
  by (fastforce simp: pinv_def)

lemma refines_item:
  assumes "length (d_handlers d) < 8" and "i = length (d_handlers d)"
  shows "refines (pinv m0 a np ip n d) (parse_derive_item ip i) spec_item
     (\<lambda>h z. pinv m0 a np ip n (d\<lparr>d_handlers := d_handlers d @ [h]\<rparr>))"
  unfolding parse_derive_item_def spec_item_def
proof (rule refines_bind [OF refines_expect_id])
  fix y z :: unit
  show "refines (\<lambda>m l. \<exists>cs. id_at l cs \<and> pinv m0 a np ip n d m l)
     (cbind (on_lex (cgets lex_string)) (\<lambda>name. cseq (on_mem (moe_derive_item_create ip i name 0))
        (on_lex (cloop args_round ()))))
     (cbind lex_text (\<lambda>h. cseq (cloop args_round ()) (creturn h)))
     (\<lambda>h z. pinv m0 a np ip n (d\<lparr>d_handlers := d_handlers d @ [h]\<rparr>))"
  proof (intro refines_ex)
    fix cs
    show "refines (\<lambda>m l. id_at l cs \<and> pinv m0 a np ip n d m l)
       (cbind (on_lex (cgets lex_string)) (\<lambda>name. cseq (on_mem (moe_derive_item_create ip i name 0))
          (on_lex (cloop args_round ()))))
       (cbind lex_text (\<lambda>h. cseq (cloop args_round ()) (creturn h)))
       (\<lambda>h z. pinv m0 a np ip n (d\<lparr>d_handlers := d_handlers d @ [h]\<rparr>))"
    proof (rule refines_spec_read [where y = cs], use id_at_text in blast, rule refines_impl_gets,
        rule refines_on_mem [where P' = "\<lambda>_. pinv m0 a np ip n (d\<lparr>d_handlers := d_handlers d @ [cs]\<rparr>)"])
      fix name m l
      assume "lex_string l = name \<and> id_at l cs \<and> pinv m0 a np ip n d m l"
      then show "\<exists>z m'. moe_derive_item_create ip i name 0 m = Inr (z, m') \<and>
          pinv m0 a np ip n (d\<lparr>d_handlers := d_handlers d @ [cs]\<rparr>) m' l"
        using pinv_add_item [of m0 a np ip n d m l cs] assms by auto
    next
      fix z :: unit
      show "refines (pinv m0 a np ip n (d\<lparr>d_handlers := d_handlers d @ [cs]\<rparr>)) (on_lex (cloop args_round ()))
         (cseq (cloop args_round ()) (creturn cs)) (\<lambda>h z. pinv m0 a np ip n (d\<lparr>d_handlers := d_handlers d @ [h]\<rparr>))"
        by (rule refines_then_return, rule refines_post, rule refines_keeps)
           (auto intro: keeps_rest_args pinv_later dest: pinv_lex)
    qed
  qed
qed (auto intro: pinv_later dest: pinv_lex)

section \<open>Derive declarations\<close>

lemma pinv_name:
  assumes "pinv m0 a np ip n d m l"
  shows "const_text np m = Inr (d_name d, m)"
proof -
  obtain s Fs where "np = Some s" "string_at m s (d_name d) Fs" and "NUL \<notin> set (d_name d)"
    using assms building_name [of m0 m a n d] by (fastforce simp: pinv_def)
  then show ?thesis
    using c_str_ok [of "d_name d" "[]"]
    by (auto simp: const_text_def moe_string_get_const_def c_str_at_def string_at_def)
qed

lemma ds_at_stdout: "ds_at m a n d F \<Longrightarrow> ds_at (m\<lparr>stdout := x\<rparr>) a n d F"
proof -
  assume "ds_at m a n d F"
  then obtain s q its ns Fs Fi Ft
    where parts: "ds_parts m a n d s q its ns Fs Fi Ft" and F: "F = {a, q} \<union> Fs \<union> Fi \<union> Ft"
    unfolding ds_at_def by (elim exE conjE)
  note p = ds_partsD [OF parts]
  have ag: "agree_on G m (m\<lparr>stdout := x\<rparr>)" for G by simp
  have "ds_parts (m\<lparr>stdout := x\<rparr>) a n d s q its ns Fs Fi Ft"
  proof (rule ds_partsI)
    show "string_at (m\<lparr>stdout := x\<rparr>) s (d_name d) Fs" by (rule moe_str.agree_law [OF p(5) ag])
    show "rep_list item_at (m\<lparr>stdout := x\<rparr>) (take (length (d_handlers d)) its) (d_handlers d) Fi"
      by (rule moe_item.list_agree [OF p(8) ag])
    show "rep_list node_at (m\<lparr>stdout := x\<rparr>) ns (d_tokens d) Ft" by (rule moe_node.list_agree [OF p(10) ag])
  qed (use p in simp_all)
  with F show ?thesis unfolding ds_at_def by (intro exI conjI)
qed

lemma pinv_stdout: "pinv m0 a np ip n d m l \<Longrightarrow> pinv m0 a np ip n d (m\<lparr>stdout := x\<rparr>) l"
  by (simp add: pinv_def building_def ds_at_stdout)

lemma refines_mismatch:
  "refines (pinv m0 a np ip n d) (cseq (name_mismatch np) (creturn v)) (creturn w)
     (\<lambda>y z m l. y = w \<and> z = v \<and> pinv m0 a np ip n d m l)"
  unfolding name_mismatch_def cbind_assoc
proof (rule refines_read_mem [where z = "d_name d"])
  show "\<And>m l. pinv m0 a np ip n d m l \<Longrightarrow> const_text np m = Inr (d_name d, m)" by (rule pinv_name)
  show "refines (pinv m0 a np ip n d)
     (cbind (on_lex lex_text) (\<lambda>got. cbind (on_mem (emit (Out_Text (''Warning: Struct name mismatch: expected '' @
        d_name d @ '', got '' @ got @ newline)))) (\<lambda>_. creturn v)))
     (creturn w) (\<lambda>y z m l. y = w \<and> z = v \<and> pinv m0 a np ip n d m l)"
    by (rule refines_impl_text, use pinv_lex in blast,
        rule refines_on_mem [where P' = "\<lambda>_. pinv m0 a np ip n d"], simp add: pinv_stdout,
        rule refines_return, simp)
qed

lemma refines_if:
  "(b \<Longrightarrow> refines P f g Q) \<Longrightarrow> (\<not> b \<Longrightarrow> refines P f' g' Q) \<Longrightarrow>
     refines P (if b then f else f') (if b then g else g') Q"
  by simp

lemma expect_pinv:
  "refines (pinv m0 a np ip n d) (on_lex (moe_expect_next_token t)) (moe_expect_next_token t)
     (\<lambda>y z. pinv m0 a np ip n d)"
  by (rule refines_expect) (auto intro: pinv_later dest: pinv_lex)

lemma keeps_pinv:
  "keeps_rest g \<Longrightarrow> refines (pinv m0 a np ip n d) (on_lex g) g (\<lambda>y z m l. z = y \<and> pinv m0 a np ip n d m l)"
  by (rule refines_keeps) (auto intro: pinv_later dest: pinv_lex)

text \<open>Reading the struct's name from memory and the current text from the lexer.\<close>

lemma refines_names:
  assumes "\<And>got. refines (pinv m0 a np ip n d) (f' (d_name d) got) (g' got) Q"
  shows "refines (pinv m0 a np ip n d)
     (cbind (on_mem (const_text np)) (\<lambda>expected. cbind (on_lex lex_text) (\<lambda>got. f' expected got)))
     (cbind lex_text g') Q"
  by (rule refines_read_mem [where z = "d_name d"], rule pinv_name, assumption, rule refines_text, rule assms)

text \<open>
  The outcome of \<^verbatim>\<open>try_parse_derive\<close>: its return value, and the struct with the handler
  added when it is one.
\<close>

definition derive_outcome ::
  "(derived \<Rightarrow> heap \<Rightarrow> stb_lexer \<Rightarrow> bool) \<Rightarrow> derived \<Rightarrow> int \<times> string list \<Rightarrow> int \<Rightarrow> heap \<Rightarrow> stb_lexer \<Rightarrow> bool" where
  "derive_outcome P d r z m l \<longleftrightarrow> z = fst r \<and> P (d\<lparr>d_handlers := d_handlers d @ snd r\<rparr>) m l \<and>
     (if z = 1 then length (snd r) = 1 else snd r = [])"

lemma refines_mismatch_derive:
  "refines (pinv m0 a np ip n d) (cseq (name_mismatch np) (creturn (- 1))) (creturn (- 1, []))
     (derive_outcome (pinv m0 a np ip n) d)"
  by (rule refines_post [OF refines_mismatch]) (simp add: derive_outcome_def)

lemma refines_derive_item:
  assumes "length (d_handlers d) < 8" and "i = length (d_handlers d)"
  shows "refines (pinv m0 a np ip n d) (cseq (parse_derive_item ip i) (cseq (on_lex skip_semicolon) (creturn 1)))
     (cbind spec_item (\<lambda>h. cseq skip_semicolon (creturn (1, [h])))) (derive_outcome (pinv m0 a np ip n) d)"
proof (rule refines_bind [OF refines_item [OF assms]], rule refines_bind [OF keeps_pinv [OF keeps_rest_args(2)]])
  show "refines (\<lambda>m l. z = y \<and> pinv m0 a np ip n (d\<lparr>d_handlers := d_handlers d @ [h]\<rparr>) m l)
      (creturn 1) (creturn (1, [h])) (derive_outcome (pinv m0 a np ip n) d)" for h z y
    by (rule refines_return) (simp add: derive_outcome_def)
qed

lemma refines_derive:
  assumes room: "length (d_handlers d) < 8" and i: "i = length (d_handlers d)"
  shows "refines (pinv m0 a np ip n d) (try_parse_derive np ip i) (spec_derive (d_name d))
     (derive_outcome (pinv m0 a np ip n) d)"
  unfolding try_parse_derive_def spec_derive_def spec_derive_named_def
  apply (rule refines_bind [OF keeps_pinv [OF keeps_rest_read(2)]], rule refines_assume, hypsubst)
  apply (rule refines_if, rule refines_return, simp add: derive_outcome_def)
  apply (rule refines_bind [OF expect_pinv], rule refines_bind [OF expect_pinv], rule refines_names)
  apply (rule refines_if, rule refines_mismatch_derive)
  apply (rule refines_bind [OF expect_pinv], rule refines_derive_item [OF room i])
  done

lemma refines_derives:
  assumes "1 \<le> length hs" and "length hs \<le> 8"
  shows "refines (pinv m0 a np ip n (d\<lparr>d_handlers := hs\<rparr>)) (cloop (derive_round a np) (int (length hs)))
     (cloop (spec_derives_round (d_name d)) hs)
     (\<lambda>hs' z m l. z = int (length hs') \<and> 1 \<le> length hs' \<and> length hs' \<le> 8 \<and>
        pinv m0 a np ip n (d\<lparr>d_handlers := hs'\<rparr>) m l)"
proof -
  let ?I = "\<lambda>hs z m l. z = int (length hs) \<and> 1 \<le> length hs \<and> length hs \<le> 8 \<and>
        pinv m0 a np ip n (d\<lparr>d_handlers := hs\<rparr>) m l"
  let ?ds = "\<lparr>struct_name = np, derive_item_num = n, derive_items = ip\<rparr>"
  have "refines (?I hs (int (length hs))) (cloop (derive_round a np) (int (length hs)))
     (cloop (spec_derives_round (d_name d)) hs) ?I"
  proof (rule refines_loop [where mu = lex_left and I = ?I and Q = ?I])
    show "lex_left l' < lex_left l"
      if "?I hs z m l" "spec_derives_round (d_name d) hs l = Inr (Inl hs', l')" for hs z m l hs' l'
      using advances_derives_round [OF that(2)] that(1) by (simp add: pinv_def)
    fix hs z
    show "refines (?I hs z) (derive_round a np z) (spec_derives_round (d_name d) hs)
       (\<lambda>r r' m l. case r of Inl a' \<Rightarrow> \<exists>b'. r' = Inl b' \<and> ?I a' b' m l | Inr y \<Rightarrow> \<exists>z. r' = Inr z \<and> ?I y z m l)"
    proof (intro refines_assume)
      assume z: "z = int (length hs)" and len: "1 \<le> length hs" "length hs \<le> 8"
      let ?d = "d\<lparr>d_handlers := hs\<rparr>"
      have split: "(case r of (ret, new) \<Rightarrow> g ret new) = g (fst r) (snd r)"
        for r :: "int \<times> string list" and g :: "int \<Rightarrow> string list \<Rightarrow> (stb_lexer, string list + string list) cm"
        by (simp add: case_prod_unfold)
      have ret: "refines (derive_outcome (pinv m0 a np ip n) ?d r ret)
          (if ret = 1 then creturn (Inl (z + 1)) else if ret = 0 then creturn (Inr z) else creturn (Inl z))
          (if fst r = 1 then creturn (Inl (hs @ snd r)) else if fst r = 0 then creturn (Inr hs) else creturn (Inl hs))
          (\<lambda>r r' m l. case r of Inl a' \<Rightarrow> \<exists>b'. r' = Inl b' \<and> ?I a' b' m l | Inr y \<Rightarrow> \<exists>z. r' = Inr z \<and> ?I y z m l)"
        if "length hs < 8" for r ret
        using z len that by (auto simp: refines_def derive_outcome_def)
      have "refines (pinv m0 a np ip n ?d)
          (cbind (on_mem (load_derived_struct (Some a))) (\<lambda>ds.
            cbind (try_parse_derive np (derive_items ds) (nat z)) (\<lambda>ret.
            if ret = 1 then creturn (Inl (z + 1)) else if ret = 0 then creturn (Inr z) else creturn (Inl z))))
          (cbind (spec_derive (d_name d)) (\<lambda>r.
            if fst r = 1 then creturn (Inl (hs @ snd r)) else if fst r = 0 then creturn (Inr hs) else creturn (Inl hs)))
          (\<lambda>r r' m l. case r of Inl a' \<Rightarrow> \<exists>b'. r' = Inl b' \<and> ?I a' b' m l | Inr y \<Rightarrow> \<exists>z. r' = Inr z \<and> ?I y z m l)"
        if "length hs < 8"
      proof (rule refines_read_mem [where z = ?ds])
        show "load_derived_struct (Some a) m = Inr (?ds, m)" if "pinv m0 a np ip n ?d m l" for m l
          using that by (simp add: pinv_def)
        show "refines (pinv m0 a np ip n ?d) (cbind (try_parse_derive np (derive_items ?ds) (nat z)) (\<lambda>ret.
            if ret = 1 then creturn (Inl (z + 1)) else if ret = 0 then creturn (Inr z) else creturn (Inl z)))
          (cbind (spec_derive (d_name d)) (\<lambda>r.
            if fst r = 1 then creturn (Inl (hs @ snd r)) else if fst r = 0 then creturn (Inr hs) else creturn (Inl hs)))
          (\<lambda>r r' m l. case r of Inl a' \<Rightarrow> \<exists>b'. r' = Inl b' \<and> ?I a' b' m l | Inr y \<Rightarrow> \<exists>z. r' = Inr z \<and> ?I y z m l)"
          using refines_derive [of ?d "nat z" m0 a np ip n] that z
          by (intro refines_bind [OF _ ret [OF that]]) simp
      qed
      then show "refines (pinv m0 a np ip n ?d) (derive_round a np z) (spec_derives_round (d_name d) hs)
          (\<lambda>r r' m l. case r of Inl a' \<Rightarrow> \<exists>b'. r' = Inl b' \<and> ?I a' b' m l | Inr y \<Rightarrow> \<exists>z. r' = Inr z \<and> ?I y z m l)"
        using z len unfolding derive_round_def spec_derives_round_def MOE_PROC_MACRO_MAX_DERIVE_ITEM_NUM_def split
        by (cases "length hs < 8") (auto intro!: refines_return)
    qed
  qed
  then show ?thesis using assms by (simp add: refines_def)
qed

section \<open>The body of the struct\<close>

lemma text_is_bytes:
  assumes "lex_wf l" and "text_is l cs"
  shows "c_bytes (lex_string l) (string_len l) cs" and "take (nat (string_len l)) (string_storage l) = cs"
  using assms by (auto simp: text_is_def c_bytes_def lex_string_def lex_wf_def)

lemma body_token_ok:
  assumes p: "pinv m0 a np ip n d m l" and wf: "token_wf l"
  shows "\<exists>t m'. body_token \<lparr>ps_mem = m, ps_rest = l\<rparr> = Inr (Some t, \<lparr>ps_mem = m', ps_rest = l\<rparr>) \<and>
     mem_ext m m' \<and> token_at m' t (spec_token l) {fresh_block m..<fresh_block m'}"
proof -
  have m: "mem_wf m" and l: "lex_wf l" using p by (simp_all add: pinv_def building_def)
  note create = token_create_ok [OF m]
  consider (ident) cs where "token l = clex_code CLEX_id" "text_is l cs"
    | (str) cs where "token l = clex_code CLEX_dqstring" "text_is l cs"
    | (other) "token l \<notin> {clex_code CLEX_id, clex_code CLEX_sqstring, clex_code CLEX_dqstring}"
    using wf by (auto simp: token_wf_def)
  then show ?thesis
  proof cases
    case ident
    then show ?thesis using create(1) [OF text_is_bytes(1) [OF l ident(2)]] text_is_bytes(2) [OF l ident(2)]
      by (auto simp: body_token_def on_rest_def on_mem_def spec_token_def)
  next
    case str
    then show ?thesis using create(2) [OF text_is_bytes(1) [OF l str(2)]] text_is_bytes(2) [OF l str(2)]
      by (auto simp: body_token_def on_rest_def on_mem_def spec_token_def)
  next
    case other
    then show ?thesis
      using create(4) [of "to_i32 (int_number l)"] create(5) [of "Float_Cast (real_number l)"]
        create(3) [of "to_schar (token l)"]
      by (auto simp: body_token_def on_rest_def on_mem_def spec_token_def)
  qed
qed

lemma pinv_add_token:
  assumes p: "pinv m0 a np ip n d m l" and e: "mem_ext m m1"
    and t: "token_at m1 t tk {fresh_block m..<fresh_block m1}"
  shows "\<exists>m'. moe_derive_struct_metadata_add_token (Some (metadata_of a)) (Some t) m1 = Inr ((), m') \<and>
     pinv m0 a np ip n (d\<lparr>d_tokens := d_tokens d @ [tk]\<rparr>) m' l"
proof -
  have b: "building m0 m a n d" using p by (simp add: pinv_def)
  obtain m2 where "moe_derive_struct_metadata_add_token (Some (a, 24)) (Some t) m1 = Inr ((), m2)"
      "building m0 m2 a n (d\<lparr>d_tokens := d_tokens d @ [tk]\<rparr>)" "objs m2 a = objs m a"
    using building_add_token [OF b e t] by blast
  with p show ?thesis by (simp add: pinv_def metadata_of_def)
qed

definition with_tokens :: "derived \<Rightarrow> atoken list \<Rightarrow> derived" where
  "with_tokens d tks = d\<lparr>d_tokens := tks\<rparr>"

lemma with_tokens_simps [simp]:
  "d_tokens (with_tokens d tks) = tks" "d_name (with_tokens d tks) = d_name d"
  "d_handlers (with_tokens d tks) = d_handlers d"
  "(with_tokens d tks)\<lparr>d_tokens := tks'\<rparr> = with_tokens d tks'"
  by (simp_all add: with_tokens_def)

lemma refines_body:
  "refines (pinv m0 a np ip n (with_tokens d [])) (cloop (body_round a) ()) (cloop spec_body_round [])
     (\<lambda>tks z. pinv m0 a np ip n (with_tokens d tks))"
proof (rule refines_loop [where mu = lex_left and I = "\<lambda>tks z. pinv m0 a np ip n (with_tokens d tks)"])
  show "lex_left l' < lex_left l"
    if "pinv m0 a np ip n (with_tokens d tks) m l" "spec_body_round tks l = Inr (Inl tks', l')" for tks m l tks' l'
    using advancesD [OF advances_body_round that(2)] that(1) by (simp add: pinv_def after_def)
  fix tks and z :: unit
  let ?P = "pinv m0 a np ip n (with_tokens d tks)"
  let ?Q = "\<lambda>r (r' :: unit + unit) m l. case r of
      Inl a' \<Rightarrow> \<exists>b'. r' = Inl b' \<and> pinv m0 a np ip n (with_tokens d a') m l
    | Inr y \<Rightarrow> \<exists>z. r' = Inr z \<and> pinv m0 a np ip n (with_tokens d y) m l"
  show "refines ?P (body_round a z) (spec_body_round tks) ?Q"
    unfolding body_round_def spec_body_round_def
  proof (rule refines_bind [OF refines_next])
    show "refines (\<lambda>m l. ?P m l \<and> token_wf l)
        (cbind (on_lex (cgets token)) (\<lambda>t. if t = punct CHR ''}'' then creturn (Inr ()) else
           cbind body_token (\<lambda>tok.
             cseq (on_mem (moe_derive_struct_metadata_add_token (Some (metadata_of a)) tok)) (creturn (Inl ())))))
        (cbind (cgets id) (\<lambda>l. creturn (if token l = punct CHR ''}'' then Inr tks else Inl (tks @ [spec_token l])))) ?Q"
      unfolding refines_def
    proof (intro allI impI, elim conjE)
      fix m l
      assume p: "?P m l" and "token_wf l"
      then obtain t m1 where t: "body_token \<lparr>ps_mem = m, ps_rest = l\<rparr> = Inr (Some t, \<lparr>ps_mem = m1, ps_rest = l\<rparr>)"
          "mem_ext m m1" "token_at m1 t (spec_token l) {fresh_block m..<fresh_block m1}"
        using body_token_ok by blast
      obtain m2 where "moe_derive_struct_metadata_add_token (Some (metadata_of a)) (Some t) m1 = Inr ((), m2)"
          "pinv m0 a np ip n (with_tokens d (tks @ [spec_token l])) m2 l"
        using pinv_add_token [OF p t(2,3)] by auto
      then show "same_outcome ?Q
          (cbind (cgets id) (\<lambda>l. creturn (if token l = punct CHR ''}'' then Inr tks else Inl (tks @ [spec_token l]))) l)
          (cbind (on_lex (cgets token)) (\<lambda>t. if t = punct CHR ''}'' then creturn (Inr ()) else
             cbind body_token (\<lambda>tok.
               cseq (on_mem (moe_derive_struct_metadata_add_token (Some (metadata_of a)) tok)) (creturn (Inl ()))))
           \<lparr>ps_mem = m, ps_rest = l\<rparr>)"
        using t(1) p by (simp add: on_rest_def on_mem_def)
    qed
  qed (auto intro: pinv_later dest: pinv_lex)
qed

definition body_outcome ::
  "(derived \<Rightarrow> heap \<Rightarrow> stb_lexer \<Rightarrow> bool) \<Rightarrow> derived \<Rightarrow> int \<times> atoken list \<Rightarrow> int \<Rightarrow> heap \<Rightarrow> stb_lexer \<Rightarrow> bool" where
  "body_outcome P d r z m l \<longleftrightarrow> z = fst r \<and> P (with_tokens d (snd r)) m l \<and> fst r \<in> {0, - 1, 1}"

lemma refines_mismatch_body:
  "refines (pinv m0 a np ip n (with_tokens d [])) (cseq (name_mismatch np) (creturn (- 1))) (creturn (- 1, []))
     (body_outcome (pinv m0 a np ip n) d)"
  by (rule refines_post [OF refines_mismatch]) (simp add: body_outcome_def)

lemma refines_struct:
  "refines (pinv m0 a np ip n (with_tokens d [])) (try_parse_derived_struct_body np a) (spec_body (d_name d))
     (body_outcome (pinv m0 a np ip n) d)"
  unfolding try_parse_derived_struct_body_def spec_body_def
  apply (rule refines_text)
  subgoal for s
    apply (rule refines_bind [where Q = "\<lambda>y z m l. z = y \<and> pinv m0 a np ip n (with_tokens d []) m l"])
     apply (rule refines_if)
      apply (rule refines_bind [OF keeps_pinv [OF keeps_rest_next(1)]], rule refines_return, simp)
     apply (rule refines_return, simp)
    apply (rule refines_assume, hypsubst)
    apply (rule refines_bind [OF keeps_pinv [OF keeps_rest_read(2)]], rule refines_assume, hypsubst)
    apply (rule refines_if, rule refines_return, simp add: body_outcome_def)
    apply (rule refines_bind [OF expect_pinv], subst with_tokens_simps(2) [symmetric, where tks = "[]"], rule refines_names)
    apply (rule refines_if, rule refines_mismatch_body)
    apply (rule refines_bind [OF expect_pinv], rule refines_bind [OF refines_body])
    apply (rule refines_bind)
     apply (rule refines_if, rule expect_pinv, rule refines_return, assumption)
    apply (rule refines_bind [OF expect_pinv], rule refines_return, simp add: body_outcome_def)
    done
  done

section \<open>The parser\<close>

text \<open>
  Memory as it was in \<open>m0\<close>: the same live blocks, the same objects and nodes below the block
  that is allocated next, and the same balance of the counters.
\<close>

definition no_leak :: "heap \<Rightarrow> heap \<Rightarrow> bool" where
  "no_leak m0 m \<longleftrightarrow> mem_wf m \<and> blocks m = blocks m0 \<and> fresh_block m0 \<le> fresh_block m \<and>
     (\<forall>b < fresh_block m0. objs m b = objs m0 b \<and> (\<forall>k. lnodes m (b, k) = lnodes m0 (b, k))) \<and>
     total_allocated (stats m) - total_freed (stats m) = total_allocated (stats m0) - total_freed (stats m0)"

definition parse_outcome :: "heap \<Rightarrow> derived option \<Rightarrow> block option \<Rightarrow> heap \<Rightarrow> stb_lexer \<Rightarrow> bool" where
  "parse_outcome m0 r z m l \<longleftrightarrow> lex_wf l \<and>
     (case r of
        None \<Rightarrow> z = None \<and> no_leak m0 m
      | Some d \<Rightarrow> \<exists>a. z = Some a \<and> building m0 m a (int (length (d_handlers d))) d \<and> length (d_handlers d) \<in> {1..8})"

lemma pinv_building: "pinv m0 a np ip n d m l \<Longrightarrow> building m0 m a n d"
  by (simp add: pinv_def)

lemma pinv_alloc:
  assumes "mem_wf m" and "id_at l cs"
  shows "\<exists>a m'. moe_derived_struct_alloc (lex_string l) 8 m = Inr (a, m') \<and>
     (\<exists>np ip. pinv m a np ip 8 \<lparr>d_name = cs, d_handlers = [], d_tokens = []\<rparr> m' l)"
proof -
  obtain m' where m': "moe_derived_struct_alloc (lex_string l) 8 m = Inr (fresh_block m, m')"
     "building m m' (fresh_block m) 8 \<lparr>d_name = cs, d_handlers = [], d_tokens = []\<rparr>"
    using building_alloc [OF assms(1) id_at_bytes [OF assms(2)]] by blast
  obtain s q its ns Fs Fi Ft
    where "ds_parts m' (fresh_block m) 8 \<lparr>d_name = cs, d_handlers = [], d_tokens = []\<rparr> s q its ns Fs Fi Ft"
    by (rule building_parts [OF m'(2)])
  from ds_partsD(4) [OF this] m' assms(2) show ?thesis
    by (auto simp: pinv_def id_at_def text_is_def)
qed

lemma pinv_set_count:
  assumes "pinv m0 a np ip n d m l"
  shows "\<exists>m'. cbind (load_derived_struct (Some a)) (\<lambda>ds.
       store_obj (Some a) (Obj_Derived_Struct (ds\<lparr>derive_item_num := k\<rparr>))) m = Inr ((), m') \<and>
     pinv m0 a np ip k d m' l"
  using building_set_count [of m0 m a n d k] assms by (auto simp: pinv_def)

lemma pinv_destroy:
  assumes "pinv m0 a np ip (int (length (d_handlers d))) d m l"
  shows "\<exists>m'. moe_derived_struct_free (Some a) m = Inr ((), m') \<and> no_leak m0 m'"
  using building_destroy [of m0 m a d] assms by (auto simp: pinv_def no_leak_def)

lemma refines_body_failed:
  assumes "n = int (length (d_handlers d))"
  shows "refines (pinv m0 a np ip n d) (body_failed msg np a) (creturn None) (parse_outcome m0)"
  unfolding body_failed_def
proof (rule refines_read_mem [where z = "d_name d"])
  show "\<And>m l. pinv m0 a np ip n d m l \<Longrightarrow> const_text np m = Inr (d_name d, m)" by (rule pinv_name)
  show "refines (pinv m0 a np ip n d) (cseq (on_mem (emit (Out_Text (msg @ d_name d @ newline))))
      (cseq (on_mem (moe_derived_struct_free (Some a))) (creturn None))) (creturn None) (parse_outcome m0)"
  proof (rule refines_on_mem [where P' = "\<lambda>_. pinv m0 a np ip n d"])
    show "\<exists>z m'. emit e m = Inr (z, m') \<and> pinv m0 a np ip n d m' l" if "pinv m0 a np ip n d m l" for e m l
      using that by (simp add: pinv_stdout)
    show "refines (pinv m0 a np ip n d) (cseq (on_mem (moe_derived_struct_free (Some a))) (creturn None))
        (creturn None) (parse_outcome m0)"
      by (rule refines_on_mem [where P' = "\<lambda>_ m l. no_leak m0 m \<and> lex_wf l"])
         (use assms pinv_destroy [of m0 a np ip d] pinv_lex in
           \<open>fastforce intro: refines_return simp: parse_outcome_def\<close>)+
  qed
qed

lemma refines_finish:
  assumes "k = int (length (d_handlers d))" and "1 \<le> length (d_handlers d)" "length (d_handlers d) \<le> 8"
  shows "refines (body_outcome (pinv m0 a np ip k) d r z)
     (if z = 0 then body_failed msg np a else if z = - 1 then body_failed msg' np a else creturn (Some a))
     (creturn (if fst r = 1 then Some (with_tokens d (snd r)) else None))
     (parse_outcome m0)"
proof -
  have fail: "refines (pinv m0 a np ip k (with_tokens d (snd r))) (body_failed msg np a) (creturn None) (parse_outcome m0)" for msg
    by (rule refines_body_failed) (simp add: assms(1))
  have "refines (\<lambda>m l. z = fst r \<and> fst r \<in> {0, - 1, 1} \<and> pinv m0 a np ip k (with_tokens d (snd r)) m l)
     (if z = 0 then body_failed msg np a else if z = - 1 then body_failed msg' np a else creturn (Some a))
     (creturn (if fst r = 1 then Some (with_tokens d (snd r)) else None)) (parse_outcome m0)"
    by (intro refines_assume)
       (use assms fail [of msg] fail [of msg'] in
        \<open>auto intro!: refines_return simp: parse_outcome_def dest: pinv_lex pinv_building\<close>)
  then show ?thesis by (rule refines_pre) (simp add: body_outcome_def)
qed

lemma refines_handlers:
  "refines (pinv m0 a np ip n \<lparr>d_name = cs, d_handlers = [h], d_tokens = []\<rparr>) (cloop (derive_round a np) 1)
     (cloop (spec_derives_round cs) [h])
     (\<lambda>hs z m l. z = int (length hs) \<and> 1 \<le> length hs \<and> length hs \<le> 8 \<and>
        pinv m0 a np ip n \<lparr>d_name = cs, d_handlers = hs, d_tokens = []\<rparr> m l)"
  using refines_derives [of "[h]" m0 a np ip n "\<lparr>d_name = cs, d_handlers = [], d_tokens = []\<rparr>"] by simp

lemma refines_struct_finish:
  assumes "k = int (length hs)" and "1 \<le> length hs" and "length hs \<le> 8"
  shows "refines (pinv m0 a np ip k \<lparr>d_name = cs, d_handlers = hs, d_tokens = []\<rparr>)
     (cbind (try_parse_derived_struct_body np a) (\<lambda>result.
        if result = 0 then body_failed msg np a
        else if result = - 1 then body_failed msg' np a else creturn (Some a)))
     (cbind (spec_body cs) (\<lambda>r.
        creturn (if fst r = 1 then Some \<lparr>d_name = cs, d_handlers = hs, d_tokens = snd r\<rparr> else None)))
     (parse_outcome m0)"
proof -
  let ?d = "\<lparr>d_name = cs, d_handlers = hs, d_tokens = []\<rparr>"
  have d: "with_tokens ?d tks = \<lparr>d_name = cs, d_handlers = hs, d_tokens = tks\<rparr>" for tks
    by (simp add: with_tokens_def)
  have "refines (pinv m0 a np ip k (with_tokens ?d []))
     (cbind (try_parse_derived_struct_body np a) (\<lambda>result.
        if result = 0 then body_failed msg np a
        else if result = - 1 then body_failed msg' np a else creturn (Some a)))
     (cbind (spec_body (d_name ?d)) (\<lambda>r. creturn (if fst r = 1 then Some (with_tokens ?d (snd r)) else None)))
     (parse_outcome m0)"
    using assms by (intro refines_bind [OF refines_struct] refines_finish) simp_all
  then show ?thesis unfolding d by simp
qed

lemma refines_count_finish:
  "refines (\<lambda>m l. z = int (length hs) \<and> 1 \<le> length hs \<and> length hs \<le> 8 \<and>
        pinv m0 a np ip n \<lparr>d_name = cs, d_handlers = hs, d_tokens = []\<rparr> m l)
     (cseq (on_mem (cbind (load_derived_struct (Some a)) (\<lambda>ds.
        store_obj (Some a) (Obj_Derived_Struct (ds\<lparr>derive_item_num := z\<rparr>)))))
     (cbind (try_parse_derived_struct_body np a) (\<lambda>result.
        if result = 0 then body_failed msg np a
        else if result = - 1 then body_failed msg' np a else creturn (Some a))))
     (cbind (spec_body cs) (\<lambda>r.
        creturn (if fst r = 1 then Some \<lparr>d_name = cs, d_handlers = hs, d_tokens = snd r\<rparr> else None)))
     (parse_outcome m0)"
  by (intro refines_assume,
      rule refines_on_mem [where P' = "\<lambda>_. pinv m0 a np ip z \<lparr>d_name = cs, d_handlers = hs, d_tokens = []\<rparr>"],
      use pinv_set_count in blast, rule refines_struct_finish)

text \<open>The parser once the name \<open>cs\<close> of the struct has been read and the struct allocated.\<close>

lemma refines_declaration:
  "refines (pinv m0 a np ip 8 \<lparr>d_name = cs, d_handlers = [], d_tokens = []\<rparr>)
     (cseq (on_lex (moe_expect_next_token (punct CHR '','')))
     (cseq (parse_derive_item ip 0)
     (cseq (on_lex skip_semicolon)
     (cbind (cloop (derive_round a np) 1) (\<lambda>derive_count.
      cseq (on_mem (cbind (load_derived_struct (Some a)) (\<lambda>ds.
             store_obj (Some a) (Obj_Derived_Struct (ds\<lparr>derive_item_num := derive_count\<rparr>)))))
     (cbind (try_parse_derived_struct_body np a) (\<lambda>result.
      if result = 0 then body_failed msg np a
      else if result = - 1 then body_failed msg' np a else creturn (Some a))))))))
     (cseq (moe_expect_next_token (punct CHR '',''))
     (cbind spec_item (\<lambda>h.
      cseq skip_semicolon
     (cbind (cloop (spec_derives_round cs) [h]) (\<lambda>hs.
      cbind (spec_body cs) (\<lambda>r.
      creturn (if fst r = 1 then Some \<lparr>d_name = cs, d_handlers = hs, d_tokens = snd r\<rparr> else None)))))))
     (parse_outcome m0)"
  apply (rule refines_bind [OF expect_pinv], rule refines_bind [OF refines_item], simp, simp)
  apply (rule refines_bind [OF keeps_pinv [OF keeps_rest_args(2)]], rule refines_assume)
  apply (rule refines_pre [OF refines_bind [OF refines_handlers]])
   apply (rule refines_count_finish)
  apply simp
  done

theorem refines_parse:
  "refines (\<lambda>m l. m = m0 \<and> mem_wf m0 \<and> lex_wf l \<and> token_wf l) parse_derived_struct spec_parse (parse_outcome m0)"
  unfolding parse_derived_struct_def spec_parse_def case_prod_unfold
  apply (rule refines_bind [OF refines_keyword], simp, rule refines_assume, hypsubst)
  apply (rule refines_if, rule refines_return, simp add: parse_outcome_def no_leak_def)
  apply (rule refines_pre [where P' = "\<lambda>m l. (m = m0 \<and> mem_wf m0) \<and> lex_wf l"])
  apply (rule refines_bind [OF refines_expect], simp add: later_wf, simp)
  apply (rule refines_bind [OF refines_expect_id], simp add: later_wf, simp)
  apply (intro refines_ex)
  subgoal for _ _ _ _ _ _ cs
    apply (rule refines_spec_read [where y = cs], simp add: id_at_text)
    apply (rule refines_impl_gets)
    subgoal for name
      apply (rule refines_on_mem [where P' = "\<lambda>a m l. \<exists>np ip.
          pinv m0 a np ip 8 \<lparr>d_name = cs, d_handlers = [], d_tokens = []\<rparr> m l"])
       apply (use pinv_alloc [of m0 _ cs] in \<open>fastforce simp: MOE_PROC_MACRO_MAX_DERIVE_ITEM_NUM_def\<close>)
      apply (intro refines_ex)
      subgoal for a np ip
        apply (rule refines_read_mem
            [where z = "\<lparr>struct_name = np, derive_item_num = 8, derive_items = ip\<rparr>"])
         apply (simp add: pinv_def)
        apply (simp only: Let_def moe_derived_struct.simps)
        apply (rule refines_declaration)
        done
      done
    done
  apply simp
  done

end
