(* ===== verification/Parser_Safety.thy ===== *)
theory Parser_Safety
  imports Parser_Refine
begin

text \<open>
  Every run of the parser ends, and the only ways in which it ends the program are a failed
  assertion (a token that is not the expected one, or the end of the input) and a read behind the
  end of the input by the lexer: no null or dangling pointer is used, nothing is freed twice.
\<close>

section \<open>The errors of a computation on the lexer\<close>

definition lexer_error :: "c_error \<Rightarrow> bool" where
  "lexer_error e \<longleftrightarrow> e = Invalid_Access \<or> (\<exists>msg. e = Assertion_Failed msg)"

definition lex_good :: "stb_lexer \<Rightarrow> bool" where
  "lex_good l \<longleftrightarrow> lex_wf l \<and> string_set l"

definition safe :: "(stb_lexer, 'a) cm \<Rightarrow> bool" where
  "safe g \<longleftrightarrow> (\<forall>l. lex_good l \<longrightarrow> (case g l of Inl e \<Rightarrow> lexer_error e | Inr (y, l') \<Rightarrow> later l l'))"

named_theorems safe_intros \<open>computations on the lexer without other errors\<close>

lemma later_good: "later l l' \<Longrightarrow> lex_good l \<Longrightarrow> lex_good l'"
  by (simp add: later_def lex_good_def)

lemma safe_keeps: "safe g \<Longrightarrow> lex_good l \<Longrightarrow> g l = Inr (y, l') \<Longrightarrow> later l l'"
  unfolding safe_def by fastforce

lemma safe_error: "safe g \<Longrightarrow> lex_good l \<Longrightarrow> g l = Inl e \<Longrightarrow> lexer_error e"
  unfolding safe_def by fastforce

lemma safeI:
  assumes "\<And>l y l'. lex_good l \<Longrightarrow> g l = Inr (y, l') \<Longrightarrow> later l l'"
    and "\<And>l e. lex_good l \<Longrightarrow> g l = Inl e \<Longrightarrow> lexer_error e"
  shows "safe g"
  using assms by (auto simp: safe_def split: sum.splits)

lemma safe_return [safe_intros]: "safe (creturn a)" "safe (cgets f)"
  by (auto simp: safe_def lex_good_def)

lemma safe_if [safe_intros]: "safe f \<Longrightarrow> safe g \<Longrightarrow> safe (if b then f else g)"
  by simp

lemma safe_bind [safe_intros]:
  assumes f: "safe f" and g: "\<And>a. safe (g a)"
  shows "safe (cbind f g)"
proof (rule safeI)
  fix l y l''
  assume good: "lex_good l" and "cbind f g l = Inr (y, l'')"
  then obtain a l' where "f l = Inr (a, l')" "g a l' = Inr (y, l'')" by (elim cbind_InrE)
  then show "later l l''"
    using safe_keeps [OF f good] safe_keeps [OF g] later_good good later_trans by metis
next
  fix l e
  assume good: "lex_good l" and e: "cbind f g l = Inl e"
  show "lexer_error e"
  proof (cases "f l")
    case (Inl e')
    then show ?thesis using safe_error [OF f good] e by simp
  next
    case (Inr r)
    obtain a l' where r: "r = (a, l')" by (cases r)
    with Inr have fl: "f l = Inr (a, l')" by simp
    then have "lex_good l'" using safe_keeps [OF f good] later_good good by blast
    then show ?thesis using safe_error [OF g] e fl by simp
  qed
qed

lemma safe_loop:
  assumes step: "\<And>a. safe (step a)"
    and dec: "\<And>a l a' l'. lex_good l \<Longrightarrow> step a l = Inr (Inl a', l') \<Longrightarrow> lex_left l' < lex_left l"
  shows "safe (cloop step a)"
proof -
  have "case cloop step a l of Inl e \<Rightarrow> lexer_error e | Inr (y, l') \<Rightarrow> later l l'" if "lex_good l" for a l
    using that
  proof (induction "lex_left l" arbitrary: a l rule: less_induct)
    case (less l a)
    show ?case
    proof (cases "step a l")
      case (Inl e)
      then show ?thesis using safe_error [OF step less.prems] by (simp add: cloop_unfold [of step a])
    next
      case (Inr r)
      obtain y l' where r: "r = (y, l')" by (cases r)
      with Inr have s: "step a l = Inr (y, l')" by simp
      note l' = safe_keeps [OF step less.prems s]
      show ?thesis
      proof (cases y)
        case (Inl a')
        then have IH: "case cloop step a' l' of Inl e \<Rightarrow> lexer_error e | Inr (z, l'') \<Rightarrow> later l' l''"
          using less.hyps dec [OF less.prems] s later_good [OF l' less.prems] by blast
        have "cloop step a l = cloop step a' l'" using s Inl by (simp add: cloop_unfold [of step a])
        then show ?thesis using IH later_trans [OF l'] by (auto split: sum.splits)
      next
        case (Inr b)
        then show ?thesis using s l' by (simp add: cloop_unfold [of step a])
      qed
    qed
  qed
  then show ?thesis by (simp add: safe_def)
qed

section \<open>The parser's operations\<close>

lemma safe_next [safe_intros]: "safe moe_next_token"
proof (rule safeI)
  fix l y l'
  assume "lex_good l" and "moe_next_token l = Inr (y, l')"
  then show "later l l'" using moe_next_token_ok(1) after_later by (auto simp: lex_good_def)
next
  fix l e
  assume "lex_good l" and "moe_next_token l = Inl e"
  then show "lexer_error e"
    using get_token_step [of l]
    by (auto simp: moe_next_token_def cbind_apply lexer_error_def lex_good_def split: sum.splits if_splits)
qed

lemma safe_expect [safe_intros]: "safe (moe_expect_next_token t)"
proof -
  have "safe (moe_expect_token t)"
    by (auto simp: safe_def moe_expect_token_def lexer_error_def lex_good_def)
  then show ?thesis unfolding moe_expect_next_token_def by (intro safe_intros)
qed

lemma safe_text [safe_intros]: "safe lex_text"
proof (rule safeI)
  show "later l l'" if "lex_good l" "lex_text l = Inr (y, l')" for l y l'
    using that lex_text_state [OF that(2)] by (simp add: lex_good_def)
  show "lexer_error e" if "lex_good l" "lex_text l = Inl e" for l e
    using that lex_text_ok [of l] by (metis Inl_Inr_False lex_good_def)
qed

lemma safe_keyword [safe_intros]: "safe (at_keyword ws)"
  unfolding at_keyword_def by (intro safe_intros)

lemma args_round_left:
  assumes "args_round u l = Inr (r, l')" and "lex_wf l"
  shows "lex_left l' < lex_left l"
proof -
  have "advances (args_round u)"
    unfolding args_round_def parse_args_def by (intro advances_bind advances_next cm_intros)
  from advancesD [OF this assms] show ?thesis by (simp add: after_def)
qed

lemma safe_args [safe_intros]: "safe (cloop args_round u)"
proof (rule safe_loop)
  show "safe (args_round u)" for u
    unfolding args_round_def parse_args_def by (intro safe_intros)
qed (auto simp: lex_good_def intro: args_round_left)

lemma safe_item [safe_intros]: "safe spec_item" "safe skip_semicolon"
  unfolding spec_item_def skip_semicolon_def by (intro safe_intros)+

lemma safe_derive [safe_intros]: "safe (spec_derive name)"
  unfolding spec_derive_def spec_derive_named_def by (intro safe_intros)

lemma safe_derives [safe_intros]: "safe (cloop (spec_derives_round name) hs)"
proof (rule safe_loop)
  show "safe (spec_derives_round name hs)" for hs
    unfolding spec_derives_round_def case_prod_unfold by (intro safe_intros)
qed (auto simp: lex_good_def intro: advances_derives_round)

lemma safe_body_loop [safe_intros]: "safe (cloop spec_body_round tks)"
proof (rule safe_loop)
  show "safe (spec_body_round tks)" for tks
    unfolding spec_body_round_def by (intro safe_intros)
  show "lex_left l' < lex_left l" if "lex_good l" "spec_body_round tks l = Inr (Inl tks', l')" for tks l tks' l'
    using advancesD [OF advances_body_round that(2)] that(1) by (simp add: after_def lex_good_def)
qed

lemma safe_body [safe_intros]: "safe (spec_body name)"
  unfolding spec_body_def by (intro safe_intros)

lemma safe_parse: "safe spec_parse"
  unfolding spec_parse_def case_prod_unfold by (intro safe_intros)

lemma spec_parse_no_keyword: "token l \<noteq> clex_code CLEX_id \<Longrightarrow> spec_parse l = Inr (None, l)"
  by (simp add: spec_parse_def at_keyword_def)

lemma spec_parse_outcome:
  assumes "lex_wf l" and "token_wf l"
  shows "case spec_parse l of Inl e \<Rightarrow> lexer_error e | Inr (r, l') \<Rightarrow> later l l'"
proof (cases "token l = clex_code CLEX_id")
  case True
  then have "lex_good l" using assms by (auto simp: lex_good_def token_wf_def text_is_def)
  then show ?thesis using safe_parse by (simp add: safe_def)
next
  case False
  then show ?thesis using spec_parse_no_keyword assms(1) by simp
qed

end
