(* ===== verification/Parser_Claims.thy ===== *)
theory Parser_Claims
  imports Parser_Safety
begin

text \<open>
  The properties of the parser of derive declarations: it refines its specification, it ends and
  fails only in known ways, what it built is destroyed without a trace, and how many handlers a
  struct may have.
\<close>

section \<open>A concrete input\<close>

definition example_source :: string where
  "example_source = ''MOE_PROC_MACRO_DERIVES(T, d); struct T { int x; };''"

definition lexer_on :: "string \<Rightarrow> stb_lexer" where
  "lexer_on s = stb_c_lexer_init s (replicate 25 NUL) 24"

definition lexer_at_first :: "string \<Rightarrow> stb_lexer" where
  "lexer_at_first s = (case moe_next_token (lexer_on s) of Inr (u, l) \<Rightarrow> l | Inl e \<Rightarrow> lexer_on s)"

definition example_derived :: derived where
  "example_derived = \<lparr>d_name = ''T'', d_handlers = [''d''], d_tokens = [A_Ident ''int'', A_Ident ''x'', A_Punct 59]\<rparr>"

lemma lexer_on_wf: "lex_wf (lexer_on s)" "token_wf (lexer_on s)"
  by (simp_all add: lexer_on_def stb_c_lexer_init_def lex_wf_def token_wf_def)

lemma lexer_at_first_wf: "lex_wf (lexer_at_first s)" "token_wf (lexer_at_first s)"
proof -
  have "lex_wf (lexer_at_first s) \<and> token_wf (lexer_at_first s)"
    using moe_next_token_ok [OF _ lexer_on_wf(1)] lexer_on_wf [of s]
    by (auto simp: lexer_at_first_def dest: later_wf split: sum.splits)
  then show "lex_wf (lexer_at_first s)" "token_wf (lexer_at_first s)" by simp_all
qed

lemma example_parses: "\<exists>l'. spec_parse (lexer_at_first example_source) = Inr (Some example_derived, l')"
proof -
  have "case spec_parse (lexer_at_first example_source) of
      Inr (Some d, l') \<Rightarrow> d = example_derived | _ \<Rightarrow> False"
    by code_simp
  then show ?thesis by (auto split: sum.splits option.splits)
qed

lemma example_run:
  "\<exists>a m' l'. parse_derived_struct \<lparr>ps_mem = mem_init, ps_rest = lexer_at_first example_source\<rparr> =
     Inr (Some a, \<lparr>ps_mem = m', ps_rest = l'\<rparr>)"
proof -
  obtain l' where l': "spec_parse (lexer_at_first example_source) = Inr (Some example_derived, l')"
    using example_parses by blast
  have "same_outcome (parse_outcome mem_init) (spec_parse (lexer_at_first example_source))
     (parse_derived_struct \<lparr>ps_mem = mem_init, ps_rest = lexer_at_first example_source\<rparr>)"
    by (rule refinesD [OF refines_parse]) (simp add: mem_wf_init lexer_at_first_wf)
  with l' show ?thesis by (fastforce simp: parse_outcome_def)
qed

section \<open>The parser refines its specification\<close>

text \<open>C1: \<^verbatim>\<open>parse_derived_struct\<close>, with its reference-counted strings, arrays and linked
  token stream, refines the memory-free specification \<open>spec_parse\<close> on the same tokens: it fails
  with the same error, or leaves the lexer in the same state and returns a null pointer with no
  block allocated, or a struct that represents the specified name, handlers and tokens and owns
  exactly the blocks allocated by the call.\<close>

theorem parse_derived_struct_refines:
  assumes "mem_wf m" and "lex_wf l" and "token_wf l"
  shows "case spec_parse l of
      Inl e \<Rightarrow> parse_derived_struct \<lparr>ps_mem = m, ps_rest = l\<rparr> = Inl e
    | Inr (None, l') \<Rightarrow> \<exists>m'. parse_derived_struct \<lparr>ps_mem = m, ps_rest = l\<rparr> =
          Inr (None, \<lparr>ps_mem = m', ps_rest = l'\<rparr>) \<and> no_leak m m'
    | Inr (Some d, l') \<Rightarrow> \<exists>a m'. parse_derived_struct \<lparr>ps_mem = m, ps_rest = l\<rparr> =
          Inr (Some a, \<lparr>ps_mem = m', ps_rest = l'\<rparr>) \<and>
          ds_at m' a (int (length (d_handlers d))) d {fresh_block m..<fresh_block m'}"
  using refinesD [OF refines_parse, of m m l] assms
  by (auto simp: parse_outcome_def building_def split: sum.splits option.splits)

lemma parse_derived_struct_refines_witness:
  "\<exists>a m' l'. parse_derived_struct \<lparr>ps_mem = mem_init, ps_rest = lexer_at_first example_source\<rparr> =
     Inr (Some a, \<lparr>ps_mem = m', ps_rest = l'\<rparr>) \<and> ds_at m' a 1 example_derived {0..<fresh_block m'}"
  using parse_derived_struct_refines [OF mem_wf_init lexer_at_first_wf, of example_source] example_parses
  by (auto simp: mem_init_def example_derived_def)

text \<open>C2: The parser always ends, and the only errors it can end the program with are a failed
  assertion and a read behind the end of the input by the lexer; in particular it never uses a
  null or freed pointer, frees nothing twice and overflows no integer.\<close>

theorem parse_derived_struct_errors:
  assumes "mem_wf m" and "lex_wf l" and "token_wf l"
    and "parse_derived_struct \<lparr>ps_mem = m, ps_rest = l\<rparr> = Inl e"
  shows "e = Invalid_Access \<and> spec_parse l = Inl Invalid_Access \<or> (\<exists>msg. e = Assertion_Failed msg)"
  using refinesD [OF refines_parse, of m m l] assms spec_parse_outcome [OF assms(2,3)]
  by (cases "spec_parse l") (auto simp: lexer_error_def)

lemma parse_derived_struct_errors_witness:
  "\<exists>e. parse_derived_struct \<lparr>ps_mem = mem_init, ps_rest = lexer_at_first ''MOE_PROC_MACRO_DERIVES;''\<rparr> = Inl e \<and>
     (e = Invalid_Access \<and> spec_parse (lexer_at_first ''MOE_PROC_MACRO_DERIVES;'') = Inl Invalid_Access \<or>
      (\<exists>msg. e = Assertion_Failed msg))"
proof -
  let ?l = "lexer_at_first ''MOE_PROC_MACRO_DERIVES;''"
  have "case spec_parse ?l of Inl e \<Rightarrow> True | _ \<Rightarrow> False" by code_simp
  then obtain e where "spec_parse ?l = Inl e" by (auto split: sum.splits)
  then have "parse_derived_struct \<lparr>ps_mem = mem_init, ps_rest = ?l\<rparr> = Inl e"
    using refinesD [OF refines_parse, of mem_init mem_init ?l] lexer_at_first_wf mem_wf_init by simp
  from parse_derived_struct_errors [OF mem_wf_init lexer_at_first_wf this] this show ?thesis by blast
qed

text \<open>C3: A struct that the parser returns is destroyed by \<^verbatim>\<open>moe_derived_struct_free\<close> without
  an error, and then the live blocks and the balance of the allocator's counters are those from
  before parsing.\<close>

theorem parse_then_free:
  assumes "mem_wf m" and "lex_wf l" and "token_wf l"
    and "parse_derived_struct \<lparr>ps_mem = m, ps_rest = l\<rparr> = Inr (p, \<lparr>ps_mem = m', ps_rest = l'\<rparr>)"
  shows "\<exists>m''. moe_derived_struct_free p m' = Inr ((), m'') \<and> no_leak m m''"
proof -
  have "same_outcome (parse_outcome m) (spec_parse l) (Inr (p, \<lparr>ps_mem = m', ps_rest = l'\<rparr>))"
    using refinesD [OF refines_parse, of m m l] assms by simp
  then obtain r where "parse_outcome m r p m' l'" by (cases "spec_parse l") auto
  then consider "p = None" "no_leak m m'"
    | a d where "p = Some a" "building m m' a (int (length (d_handlers d))) d"
    by (cases r) (auto simp: parse_outcome_def)
  then show ?thesis
  proof cases
    case 1
    then show ?thesis by (simp add: moe_derived_struct_free_def)
  next
    case 2
    then show ?thesis using building_destroy [OF 2(2)] unfolding no_leak_def by blast
  qed
qed

lemma parse_then_free_witness:
  "\<exists>a m' l' m''. parse_derived_struct \<lparr>ps_mem = mem_init, ps_rest = lexer_at_first example_source\<rparr> =
     Inr (Some a, \<lparr>ps_mem = m', ps_rest = l'\<rparr>) \<and>
     moe_derived_struct_free (Some a) m' = Inr ((), m'') \<and> no_leak mem_init m''"
proof -
  obtain a m' l' where "parse_derived_struct \<lparr>ps_mem = mem_init, ps_rest = lexer_at_first example_source\<rparr> =
     Inr (Some a, \<lparr>ps_mem = m', ps_rest = l'\<rparr>)"
    using example_run by blast
  with parse_then_free [OF mem_wf_init lexer_at_first_wf this] show ?thesis by blast
qed

text \<open>C4: A struct has at least one and at most \<^verbatim>\<open>MOE_PROC_MACRO_MAX_DERIVE_ITEM_NUM\<close> handlers,
  whatever the input: the parser never writes behind the array of derive items.\<close>

theorem derive_count_bounds:
  assumes "mem_wf m" and "lex_wf l" and "token_wf l"
    and "parse_derived_struct \<lparr>ps_mem = m, ps_rest = l\<rparr> = Inr (Some a, \<lparr>ps_mem = m', ps_rest = l'\<rparr>)"
  shows "\<exists>ds. objs m' a = Some (Obj_Derived_Struct ds) \<and>
     1 \<le> derive_item_num ds \<and> derive_item_num ds \<le> MOE_PROC_MACRO_MAX_DERIVE_ITEM_NUM"
proof -
  have "same_outcome (parse_outcome m) (spec_parse l) (Inr (Some a, \<lparr>ps_mem = m', ps_rest = l'\<rparr>))"
    using refinesD [OF refines_parse, of m m l] assms by simp
  then obtain d where "building m m' a (int (length (d_handlers d))) d" "length (d_handlers d) \<in> {1..8}"
    by (cases "spec_parse l") (auto simp: parse_outcome_def split: option.splits)
  then show ?thesis
    using building_struct [of m m' a "int (length (d_handlers d))" d]
    by (auto simp: MOE_PROC_MACRO_MAX_DERIVE_ITEM_NUM_def)
qed

lemma derive_count_bounds_witness:
  "\<exists>a m' l' ds. parse_derived_struct \<lparr>ps_mem = mem_init, ps_rest = lexer_at_first example_source\<rparr> =
     Inr (Some a, \<lparr>ps_mem = m', ps_rest = l'\<rparr>) \<and> objs m' a = Some (Obj_Derived_Struct ds) \<and>
     1 \<le> derive_item_num ds \<and> derive_item_num ds \<le> MOE_PROC_MACRO_MAX_DERIVE_ITEM_NUM"
proof -
  obtain a m' l' where "parse_derived_struct \<lparr>ps_mem = mem_init, ps_rest = lexer_at_first example_source\<rparr> =
     Inr (Some a, \<lparr>ps_mem = m', ps_rest = l'\<rparr>)"
    using example_run by blast
  with derive_count_bounds [OF mem_wf_init lexer_at_first_wf this] show ?thesis by blast
qed

end
