(* ===== verification/Codegen.thy ===== *)
theory Codegen
  imports Derive_Parser
begin

text \<open>
  Code generation and the program's entry point (\<^verbatim>\<open>moe/proc_macro/proc_macro.c\<close>, lines 442 to
  742).

  The JavaScript engine (QuickJS) is a parameter: a record of the functions of its C interface that
  the program calls, over a type of engine states and a type of values.  The program has one runtime
  with one context, so the pointers to both stand for the one engine state.  The file system is a
  map from paths to contents with the set of paths that can be opened for writing.
\<close>

section \<open>The engine's interface\<close>

text \<open>
  The functions that can run code of a script (a handler, a getter or setter, \<^verbatim>\<open>toString\<close>) are
  \<open>None\<close> when that code does not end.  \<^verbatim>\<open>JS_FreeRuntime\<close> asserts that no object is left:
  its value is the message of a failed assertion or the new state.
\<close>

record ('e, 'v) js_engine =
  JS_NewRuntime :: "'e \<Rightarrow> 'e"
  JS_NewContext :: "'e \<Rightarrow> 'e"
  JS_GetGlobalObject :: "'e \<Rightarrow> 'v \<times> 'e"
  JS_NewObject :: "'e \<Rightarrow> 'v \<times> 'e"
  JS_NewArray :: "'e \<Rightarrow> 'v \<times> 'e"
  JS_NewString :: "string \<Rightarrow> 'e \<Rightarrow> 'v \<times> 'e"
  JS_NewInt32 :: "int \<Rightarrow> 'e \<Rightarrow> 'v \<times> 'e"
  JS_NewFloat64 :: "c_float \<Rightarrow> 'e \<Rightarrow> 'v \<times> 'e"
  JS_SetPropertyStr :: "'v \<Rightarrow> string \<Rightarrow> 'v \<Rightarrow> 'e \<Rightarrow> 'e option"
  JS_SetPropertyUint32 :: "'v \<Rightarrow> int \<Rightarrow> 'v \<Rightarrow> 'e \<Rightarrow> 'e option"
  JS_GetPropertyStr :: "'v \<Rightarrow> string \<Rightarrow> 'e \<Rightarrow> ('v \<times> 'e) option"
  JS_IsFunction :: "'v \<Rightarrow> 'e \<Rightarrow> bool"
  JS_Call :: "'v \<Rightarrow> 'v \<Rightarrow> 'v list \<Rightarrow> 'e \<Rightarrow> ('v \<times> 'e) option"
  JS_Eval :: "string \<Rightarrow> string \<Rightarrow> 'e \<Rightarrow> ('v \<times> 'e) option"
  JS_IsException :: "'v \<Rightarrow> bool"
  JS_GetException :: "'e \<Rightarrow> 'v \<times> 'e"
  JS_ToCString :: "'v \<Rightarrow> 'e \<Rightarrow> (char list option \<times> 'e) option"
  JS_FreeCString :: "char list option \<Rightarrow> 'e \<Rightarrow> 'e"
  JS_FreeValue :: "'v \<Rightarrow> 'e \<Rightarrow> 'e"
  JS_FreeContext :: "'e \<Rightarrow> 'e"
  JS_FreeRuntime :: "'e \<Rightarrow> string + 'e"

section \<open>State\<close>

record 'e world =
  w_lex :: stb_lexer
  w_js :: 'e
  w_files :: "string \<rightharpoonup> string"
  w_writable :: "string \<Rightarrow> bool"

type_synonym 'e mstate = "'e world pstate"

definition world_lex :: "(stb_lexer, 'a) cm \<Rightarrow> ('e world, 'a) cm" where
  "world_lex = clift w_lex (\<lambda>l w. w\<lparr>w_lex := l\<rparr>)"

abbreviation in_lex :: "(stb_lexer, 'a) cm \<Rightarrow> ('e mstate, 'a) cm" where
  "in_lex f \<equiv> on_rest (world_lex f)"

text \<open>The parser works on the memory and the lexer.\<close>

definition in_parser :: "(stb_lexer pstate, 'a) cm \<Rightarrow> ('e mstate, 'a) cm" where
  "in_parser = clift (\<lambda>s. \<lparr>ps_mem = ps_mem s, ps_rest = w_lex (ps_rest s)\<rparr>)
                     (\<lambda>p s. s\<lparr>ps_mem := ps_mem p, ps_rest := (ps_rest s)\<lparr>w_lex := ps_rest p\<rparr>\<rparr>)"

definition js_get :: "('e \<Rightarrow> 'a \<times> 'e) \<Rightarrow> ('e world, 'a) cm" where
  "js_get f = (\<lambda>w. Inr (fst (f (w_js w)), w\<lparr>w_js := snd (f (w_js w))\<rparr>))"

definition js_do :: "('e \<Rightarrow> 'e) \<Rightarrow> ('e world, unit) cm" where
  "js_do f = cmodify (\<lambda>w. w\<lparr>w_js := f (w_js w)\<rparr>)"

definition js_run :: "('e \<Rightarrow> ('a \<times> 'e) option) \<Rightarrow> ('e world, 'a) cm" where
  "js_run f = (\<lambda>w. case f (w_js w) of
     None \<Rightarrow> Inl Nontermination
   | Some (y, e) \<Rightarrow> Inr (y, w\<lparr>w_js := e\<rparr>))"

definition js_act :: "('e \<Rightarrow> 'e option) \<Rightarrow> ('e world, unit) cm" where
  "js_act f = js_run (\<lambda>e. map_option (Pair ()) (f e))"

definition js_check :: "('e \<Rightarrow> string + 'e) \<Rightarrow> ('e world, unit) cm" where
  "js_check f = (\<lambda>w. case f (w_js w) of
     Inl msg \<Rightarrow> Inl (Assertion_Failed msg)
   | Inr e \<Rightarrow> Inr ((), w\<lparr>w_js := e\<rparr>))"

definition say :: "string \<Rightarrow> ('r pstate, unit) cm" where
  "say txt = on_mem (emit (Out_Text txt))"

section \<open>The engine's runtime\<close>

record 'v moe_js_runtime =
  jr_block :: block
  global_obj :: 'v

definition moe_js_runtime_alloc :: "('e, 'v) js_engine \<Rightarrow> ('e mstate, 'v moe_js_runtime) cm" where
  "moe_js_runtime_alloc E =
     cbind (on_mem (MOE_ALLOC ''moe_js_runtime_t'' 32)) (\<lambda>b.
     cseq (on_mem (store_obj (Some b) Obj_Js_Runtime))
    (cseq (on_rest (js_do (JS_NewRuntime E)))
    (cseq (on_rest (js_do (JS_NewContext E)))
    (cbind (on_rest (js_get (JS_GetGlobalObject E))) (\<lambda>g.
     creturn \<lparr>jr_block = b, global_obj = g\<rparr>)))))"

definition moe_js_runtime_free :: "('e, 'v) js_engine \<Rightarrow> 'v moe_js_runtime option \<Rightarrow> ('e mstate, unit) cm" where
  "moe_js_runtime_free E rt =
     (case rt of None \<Rightarrow> creturn () | Some r \<Rightarrow>
      cseq (on_rest (js_do (JS_FreeValue E (global_obj r))))
     (cseq (on_rest (js_do (JS_FreeContext E)))
     (cseq (on_rest (js_check (JS_FreeRuntime E)))
           (on_mem (MOE_FREE (Some (jr_block r)))))))"

section \<open>Tokens as objects\<close>

definition set_prop :: "('e, 'v) js_engine \<Rightarrow> 'v \<Rightarrow> string \<Rightarrow> ('e \<Rightarrow> 'v \<times> 'e) \<Rightarrow> ('e world, unit) cm" where
  "set_prop E obj name mk = cbind (js_get mk) (\<lambda>v. js_act (JS_SetPropertyStr E obj name v))"

definition from_token_to_js_token_object ::
  "('e, 'v) js_engine \<Rightarrow> block option \<Rightarrow> ('e mstate, 'v) cm" where
  "from_token_to_js_token_object E tok =
     cbind (on_rest (js_get (JS_NewObject E))) (\<lambda>obj.
     cbind (on_mem (load_token tok)) (\<lambda>tk.
     cseq (on_rest (set_prop E obj ''type'' (JS_NewString E (moe_token_type_to_string (tok_type tk)))))
    (cseq (case tok_type tk of
        MOE_TOKEN_IDENTIFIER \<Rightarrow>
          cbind (on_mem (cbind (str_member tk) const_text)) (\<lambda>s. on_rest (set_prop E obj ''value'' (JS_NewString E s)))
      | MOE_TOKEN_STRING_LITERAL \<Rightarrow>
          cbind (on_mem (cbind (str_member tk) const_text)) (\<lambda>s. on_rest (set_prop E obj ''value'' (JS_NewString E s)))
      | MOE_TOKEN_PUNCTUATION \<Rightarrow>
          cbind (on_mem (int_member tk)) (\<lambda>i.
          cbind (c_str (Some [to_char i, NUL])) (\<lambda>s. on_rest (set_prop E obj ''value'' (JS_NewString E s))))
      | MOE_TOKEN_INT_LITERAL \<Rightarrow>
          cbind (on_mem (int_member tk)) (\<lambda>i. on_rest (set_prop E obj ''value'' (JS_NewInt32 E i)))
      | MOE_TOKEN_FLOAT_LITERAL \<Rightarrow>
          cbind (on_mem (float_member tk)) (\<lambda>f. on_rest (set_prop E obj ''value'' (JS_NewFloat64 E f)))
      | MOE_TOKEN_UNKNOWN \<Rightarrow> cfail (Assertion_Failed ''unreachable code reached''))
     (creturn obj))))"

text \<open>The loop over the token stream, with the index as loop variable.\<close>

definition array_round ::
  "('e, 'v) js_engine \<Rightarrow> 'v \<Rightarrow> node_ptr moe_list_iterator \<times> int \<Rightarrow>
   ('e mstate, node_ptr moe_list_iterator \<times> int + unit) cm" where
  "array_round E arr = (\<lambda>(it, index).
     cbind (moe_list_iterator_next (\<lambda>s. lnodes (ps_mem s)) it) (\<lambda>(more, it').
     if more = 0 then creturn (Inr ()) else
     cbind (on_mem (load_stream_node (stream_node_entry (moe_list_iterator_get it')))) (\<lambda>tok.
     cbind (from_token_to_js_token_object E tok) (\<lambda>obj.
     cseq (on_rest (js_act (JS_SetPropertyUint32 E arr index obj)))
    (cbind (i32_add index 1) (\<lambda>index'.
          creturn (Inl (it', index'))))))))"

definition from_token_stream_to_js_array ::
  "('e, 'v) js_engine \<Rightarrow> node_ptr option \<Rightarrow> ('e mstate, 'v) cm" where
  "from_token_stream_to_js_array E head =
     cbind (on_rest (js_get (JS_NewArray E))) (\<lambda>arr.
     cseq (cloop (array_round E arr) (moe_list_iterator_init head, 0))
          (creturn arr))"

section \<open>Files\<close>

text \<open>
  \<^verbatim>\<open>read_file\<close>: a buffer of the file's size, as the \<^verbatim>\<open>int\<close> that holds it, is
  allocated and the bytes read into it.
\<close>

definition write_chars :: "block option \<Rightarrow> string \<Rightarrow> (heap, unit) cm" where
  "write_chars p bs =
     cbind (load_chars p) (\<lambda>cs.
     if length bs \<le> length cs then store_obj p (Obj_Chars (bs @ drop (length bs) cs))
     else cfail Invalid_Access)"

definition read_file :: "string \<Rightarrow> ('e mstate, block option) cm" where
  "read_file filename =
     cbind (on_rest (cgets w_files)) (\<lambda>files.
     case files filename of
       None \<Rightarrow> creturn None
     | Some content \<Rightarrow>
         let size = to_i32 (int (length content)) in
         cbind (on_mem (moe_string_alloc None size)) (\<lambda>str.
         cbind (on_mem (moe_string_get str)) (\<lambda>buf.
         cseq (on_mem (write_chars buf (take (nat (size mod 2 ^ 64)) content)))
              (creturn str))))"

definition clear_file :: "string \<Rightarrow> ('e world, int) cm" where
  "clear_file output_file =
     cbind (cgets w_writable) (\<lambda>ok.
     if \<not> ok output_file then creturn 1
     else cseq (cmodify (\<lambda>s. s\<lparr>w_files := (w_files s)(output_file \<mapsto> [])\<rparr>)) (creturn 0))"

text \<open>Opening for appending creates the file when there is none.\<close>

definition file_append :: "string \<Rightarrow> string \<Rightarrow> ('e world, unit) cm" where
  "file_append path bs =
     cmodify (\<lambda>s. s\<lparr>w_files := (w_files s)(path \<mapsto>
        (case w_files s path of None \<Rightarrow> [] | Some old \<Rightarrow> old) @ bs)\<rparr>)"

definition append_to_output :: "string \<Rightarrow> string \<Rightarrow> ('e world, int) cm" where
  "append_to_output output_file content =
     cbind (cgets w_writable) (\<lambda>ok.
     if \<not> ok output_file then creturn 1
     else cseq (file_append output_file content) (creturn 0))"

definition append_include_directive :: "string \<Rightarrow> string \<Rightarrow> ('e world, unit) cm" where
  "append_include_directive output_file header_file =
     cbind (cgets w_writable) (\<lambda>ok.
     if \<not> ok output_file then creturn ()
     else file_append output_file (''#include '' @ [CHR 0x22] @ header_file @ [CHR 0x22] @ newline))"

text \<open>\<^verbatim>\<open>strrchr\<close>: what follows the last occurrence of a character.\<close>

definition after_last :: "char \<Rightarrow> string \<Rightarrow> string option" where
  "after_last c path =
     (if c \<in> set path then Some (rev (takeWhile (\<lambda>x. x \<noteq> c) (rev path))) else None)"

definition extract_base_filename :: "string \<Rightarrow> (heap, block option) cm" where
  "extract_base_filename path =
     (let base = (case after_last (CHR ''/'') path of
                    Some b \<Rightarrow> b
                  | None \<Rightarrow> (case after_last (CHR 0x5C) path of Some b \<Rightarrow> b | None \<Rightarrow> path))
      in moe_string_alloc (Some (base @ [NUL])) 0)"

section \<open>Generating code\<close>

definition print_arg :: "block option \<Rightarrow> nat \<Rightarrow> (heap, unit) cm" where
  "print_arg args j =
     cbind (load_derive_args args) (\<lambda>ar.
     if j < length ar then
       cbind (moe_string_text (arg_type (ar ! j))) (\<lambda>t.
       cbind (moe_string_text (arg_name (ar ! j))) (\<lambda>n.
       emit (Out_Text (''    Arg: '' @ t @ '' '' @ n @ newline))))
     else cfail Invalid_Access)"

definition report_exception :: "('e, 'v) js_engine \<Rightarrow> string \<Rightarrow> ('e mstate, unit) cm" where
  "report_exception E msg =
     cbind (on_rest (js_get (JS_GetException E))) (\<lambda>exception.
     cbind (on_rest (js_run (JS_ToCString E exception))) (\<lambda>error_message.
     cbind (c_str error_message) (\<lambda>txt.
     cseq (say (msg @ txt @ newline))
    (cseq (on_rest (js_do (JS_FreeCString E error_message)))
          (on_rest (js_do (JS_FreeValue E exception)))))))"

definition call_handler ::
  "('e, 'v) js_engine \<Rightarrow> 'v moe_js_runtime \<Rightarrow> 'v \<Rightarrow> 'v \<Rightarrow> block option \<Rightarrow> block option \<Rightarrow> block option \<Rightarrow>
   ('e mstate, block option) cm" where
  "call_handler E rt js_token_array callfunc name handler output =
     cbind (on_mem (const_text name)) (\<lambda>nm.
     cbind (on_rest (js_get (JS_NewString E nm))) (\<lambda>arg0.
     cbind (on_rest (js_run (JS_Call E callfunc (global_obj rt) [arg0, js_token_array]))) (\<lambda>ret.
     cseq (on_rest (js_do (JS_FreeValue E arg0)))
    (if JS_IsException E ret then
       cbind (on_mem (moe_string_text handler)) (\<lambda>h.
       cseq (report_exception E (''Error: Exception when calling derive handler '' @ h @ '': ''))
            (creturn output))
     else
       cbind (on_rest (js_run (JS_ToCString E ret))) (\<lambda>generated_code.
       cbind (on_mem (moe_string_text handler)) (\<lambda>h.
       cbind (c_str generated_code) (\<lambda>code.
       cseq (say (''Generated code from derive handler '' @ h @ '':'' @ newline @ code @ newline))
      (cbind (on_mem (moe_string_alloc generated_code 0)) (\<lambda>out.
       cseq (on_rest (js_do (JS_FreeCString E generated_code)))
      (cseq (on_rest (js_do (JS_FreeValue E ret)))
            (creturn out)))))))))))"

definition generate_for_item ::
  "('e, 'v) js_engine \<Rightarrow> 'v moe_js_runtime \<Rightarrow> 'v \<Rightarrow> moe_derived_struct \<Rightarrow> nat \<Rightarrow> block option \<Rightarrow>
   ('e mstate, block option) cm" where
  "generate_for_item E rt js_token_array ds i output =
     cbind (on_mem (load_derive_items (derive_items ds))) (\<lambda>its.
     if \<not> i < length its then cfail Invalid_Access else
     let item = its ! i in
     cbind (on_mem (moe_string_text (derive_handler_name item))) (\<lambda>h.
     cseq (say (''  Derive item: '' @ h @ newline))
    (cseq (on_mem (cforeach (print_arg (item_args item)) [0..<nat (arg_num item)]))
    (cbind (on_mem (const_text (derive_handler_name item))) (\<lambda>hn.
     cbind (on_rest (js_run (JS_GetPropertyStr E (global_obj rt) hn))) (\<lambda>callfunc.
     cbind (on_rest (cgets (\<lambda>w. JS_IsFunction E callfunc (w_js w)))) (\<lambda>is_function.
     if is_function then
       cbind (call_handler E rt js_token_array callfunc (struct_name ds) (derive_handler_name item) output) (\<lambda>out.
       cseq (on_rest (js_do (JS_FreeValue E callfunc))) (creturn out))
     else
       cbind (on_mem (moe_string_text (derive_handler_name item))) (\<lambda>h.
       cseq (say (''Warning: Derive handler '' @ h @ '' is not a function'' @ newline))
      (cseq (on_rest (js_do (JS_FreeValue E callfunc))) (creturn output))))))))))"

primrec generate_items ::
  "('e, 'v) js_engine \<Rightarrow> 'v moe_js_runtime \<Rightarrow> 'v \<Rightarrow> moe_derived_struct \<Rightarrow> nat list \<Rightarrow> block option \<Rightarrow>
   ('e mstate, block option) cm" where
  "generate_items E rt js_token_array ds [] output = creturn output"
| "generate_items E rt js_token_array ds (i # is) output =
     cbind (generate_for_item E rt js_token_array ds i output)
           (\<lambda>out. generate_items E rt js_token_array ds is out)"

definition generate_code_for_derived_struct ::
  "('e, 'v) js_engine \<Rightarrow> 'v moe_js_runtime \<Rightarrow> 'v \<Rightarrow> block option \<Rightarrow> ('e mstate, block option) cm" where
  "generate_code_for_derived_struct E rt js_token_array derived_struct =
     cbind (on_mem (load_derived_struct derived_struct)) (\<lambda>ds.
     generate_items E rt js_token_array ds [0..<nat (derive_item_num ds)] None)"

section \<open>Scripts\<close>

text \<open>The bytes that \<^verbatim>\<open>JS_Eval\<close> is given: \<^verbatim>\<open>script->length\<close> of them.\<close>

definition load_proc_macro_scripts ::
  "('e, 'v) js_engine \<Rightarrow> string \<Rightarrow> ('e mstate, int) cm" where
  "load_proc_macro_scripts E script_path =
     cbind (read_file script_path) (\<lambda>script.
     if script = None then
       cseq (say (''Error: Failed to read proc macro script file: '' @ script_path @ newline)) (creturn 1)
     else
       cbind (on_mem (moe_string_text script)) (\<lambda>txt.
       cseq (say (txt @ newline))
      (cbind (on_mem (moe_string_get script)) (\<lambda>buf.
       cbind (on_mem (load_chars buf)) (\<lambda>cs.
       cbind (on_mem (load_string script)) (\<lambda>r.
       cbind (on_rest (js_run (JS_Eval E (take (nat (str_length r)) cs) script_path))) (\<lambda>ret.
       cseq (on_mem (moe_string_free script))
      (cseq (if JS_IsException E ret then
               report_exception E (''Error: Exception when evaluating proc macro script '' @ script_path @ '': '')
             else creturn ())
      (cseq (on_rest (js_do (JS_FreeValue E ret)))
            (creturn 0))))))))))"

section \<open>The program\<close>

definition emit_struct ::
  "('e, 'v) js_engine \<Rightarrow> 'v moe_js_runtime \<Rightarrow> string \<Rightarrow> block \<Rightarrow> ('e mstate, unit) cm" where
  "emit_struct E rt output_file derived_struct =
     cbind (on_mem (load_derived_struct (Some derived_struct))) (\<lambda>ds.
     cbind (on_mem (moe_string_text (struct_name ds))) (\<lambda>name.
     cseq (say (''Found derived struct: '' @ name @ newline))
    (cseq (say (''Metadata:'' @ newline))
    (cseq (on_mem (moe_derive_struct_metadata_print (Some (metadata_of derived_struct))))
    (cbind (from_token_stream_to_js_array E (Some (metadata_of derived_struct))) (\<lambda>arr.
     cbind (generate_code_for_derived_struct E rt arr (Some derived_struct)) (\<lambda>generated.
     cseq (if generated = None then creturn () else
             cbind (on_mem (moe_string_text generated)) (\<lambda>code.
             cbind (on_rest (append_to_output output_file code)) (\<lambda>r.
             cseq (if r \<noteq> 0 then
                     say (''Error: Failed to append generated code to output file: '' @ output_file @ newline)
                   else creturn ())
                  (on_mem (moe_string_free generated)))))
    (cseq (on_rest (js_do (JS_FreeValue E arr)))
          (on_mem (moe_derived_struct_free (Some derived_struct)))))))))))"

definition main_round ::
  "('e, 'v) js_engine \<Rightarrow> 'v moe_js_runtime \<Rightarrow> string \<Rightarrow> unit \<Rightarrow> ('e mstate, unit + unit) cm" where
  "main_round E rt output_file u =
     cbind (in_lex stb_c_lexer_get_token) (\<lambda>more.
     if more = 0 then creturn (Inr ()) else
     cbind (in_lex (cgets token)) (\<lambda>t.
     if t = clex_code CLEX_parse_error then
       cseq (say (newline @ ''<<<PARSE ERROR>>>'' @ newline)) (creturn (Inr ()))
     else
       cbind (in_parser parse_derived_struct) (\<lambda>p.
       cseq (case p of None \<Rightarrow> creturn () | Some b \<Rightarrow> emit_struct E rt output_file b)
            (creturn (Inl ())))))"

text \<open>The lexer over the input string's bytes, with the buffer of the string store as storage.\<close>

definition start_lexer :: "block option \<Rightarrow> block option \<Rightarrow> ('e mstate, unit) cm" where
  "start_lexer input_str string_store =
     cbind (on_mem (cbind (moe_string_get_const input_str) load_chars)) (\<lambda>input.
     cbind (on_mem (load_string input_str)) (\<lambda>r.
     cbind (on_mem (cbind (moe_string_get string_store) load_chars)) (\<lambda>store.
     in_lex (cmodify (\<lambda>_. stb_c_lexer_init (take (nat (str_length r)) input) store 1024)))))"

definition EXIT_SUCCESS :: int where
  "EXIT_SUCCESS = 0"

definition EXIT_FAILURE :: int where
  "EXIT_FAILURE = 1"

text \<open>Everything from the string storage to the last release, and then the leak check.\<close>

definition run_until_check ::
  "('e, 'v) js_engine \<Rightarrow> 'v moe_js_runtime \<Rightarrow> string \<Rightarrow> block option \<Rightarrow> ('e mstate, unit) cm" where
  "run_until_check E rt output_file input_str =
     cbind (on_mem (moe_string_alloc None 1024)) (\<lambda>string_store.
     cseq (start_lexer input_str string_store)
    (cseq (cloop (main_round E rt output_file) ())
    (cseq (on_mem (moe_string_free string_store))
    (cseq (moe_js_runtime_free E (Some rt))
          (on_mem (moe_string_free input_str))))))"

definition run_input ::
  "('e, 'v) js_engine \<Rightarrow> 'v moe_js_runtime \<Rightarrow> string \<Rightarrow> block option \<Rightarrow> ('e mstate, int) cm" where
  "run_input E rt output_file input_str =
     cseq (run_until_check E rt output_file input_str)
    (cseq (on_mem moe_check_memory_leak)
          (creturn EXIT_SUCCESS))"

definition main :: "('e, 'v) js_engine \<Rightarrow> string list \<Rightarrow> ('e mstate, int) cm" where
  "main E argv =
     (if length argv < 4 then
        cseq (say (''Usage: '' @ (case argv of [] \<Rightarrow> ''(null)'' | a # _ \<Rightarrow> a) @
                   '' <input_file> <output_file> <script_file>'' @ newline))
             (creturn EXIT_FAILURE)
      else
        let input_file = argv ! 1; output_file = argv ! 2; script_file = argv ! 3 in
        cbind (on_rest (clear_file output_file)) (\<lambda>failed.
        if failed \<noteq> 0 then
          cseq (say (''Error: Failed to clear output file: '' @ output_file @ newline)) (creturn EXIT_FAILURE)
        else
          cbind (on_mem (extract_base_filename input_file)) (\<lambda>input_base.
          cbind (on_mem (const_text input_base)) (\<lambda>base.
          cseq (say (''Input file: '' @ base @ newline))
         (cseq (on_rest (append_include_directive output_file base))
         (cseq (on_mem (moe_string_free input_base))
         (cbind (read_file input_file) (\<lambda>input_str.
          cbind (moe_js_runtime_alloc E) (\<lambda>rt.
          cbind (load_proc_macro_scripts E script_file) (\<lambda>failed.
          if failed \<noteq> 0 then creturn EXIT_FAILURE
          else run_input E rt output_file input_str))))))))))"

end
