(* ===== verification/Codegen_Spec.thy ===== *)
theory Codegen_Spec
  imports Codegen Parser_Safety
begin

text \<open>
  What code generation computes, without memory: on the world (lexer, engine, files) alone.
  \<open>spec_main\<close> reads declarations with \<open>spec_parse\<close>, hands the tokens of each to its handlers
  and appends what the last successful handler returned to the output file.  \<open>surplus\<close> counts
  the strings that are overwritten before they are used.
\<close>

section \<open>Tokens as objects\<close>

text \<open>A C string ends at the first zero byte.\<close>

definition cut :: "string \<Rightarrow> string" where
  "cut cs = takeWhile (\<lambda>c. c \<noteq> NUL) cs"

primrec spec_value :: "('e, 'v) js_engine \<Rightarrow> atoken \<Rightarrow> 'e \<Rightarrow> 'v \<times> 'e" where
  "spec_value E (A_Ident s) = JS_NewString E (cut s)"
| "spec_value E (A_Str s) = JS_NewString E (cut s)"
| "spec_value E (A_Punct i) = JS_NewString E (cut [to_char i])"
| "spec_value E (A_Int i) = JS_NewInt32 E i"
| "spec_value E (A_Float f) = JS_NewFloat64 E f"

definition spec_token_object :: "('e, 'v) js_engine \<Rightarrow> atoken \<Rightarrow> ('e world, 'v) cm" where
  "spec_token_object E tk =
     cbind (js_get (JS_NewObject E)) (\<lambda>obj.
     cseq (set_prop E obj ''type'' (JS_NewString E (moe_token_type_to_string (atoken_type tk))))
    (cseq (set_prop E obj ''value'' (spec_value E tk)) (creturn obj)))"

primrec spec_elements :: "('e, 'v) js_engine \<Rightarrow> 'v \<Rightarrow> int \<Rightarrow> atoken list \<Rightarrow> ('e world, unit) cm" where
  "spec_elements E arr index [] = creturn ()"
| "spec_elements E arr index (tk # tks) =
     cbind (spec_token_object E tk) (\<lambda>obj.
     cseq (js_act (JS_SetPropertyUint32 E arr index obj))
    (cbind (i32_add index 1) (\<lambda>index'. spec_elements E arr index' tks)))"

definition spec_array :: "('e, 'v) js_engine \<Rightarrow> atoken list \<Rightarrow> ('e world, 'v) cm" where
  "spec_array E tks =
     cbind (js_get (JS_NewArray E)) (\<lambda>arr. cseq (spec_elements E arr 0 tks) (creturn arr))"

section \<open>Generating code\<close>

definition spec_exception :: "('e, 'v) js_engine \<Rightarrow> ('e world, unit) cm" where
  "spec_exception E =
     cbind (js_get (JS_GetException E)) (\<lambda>exception.
     cbind (js_run (JS_ToCString E exception)) (\<lambda>error_message.
     cbind (c_str error_message) (\<lambda>txt.
     cseq (js_do (JS_FreeCString E error_message))
          (js_do (JS_FreeValue E exception)))))"

text \<open>The codes of a list of handlers: one for every handler that is a function and returns.\<close>

definition spec_call :: "('e, 'v) js_engine \<Rightarrow> 'v \<Rightarrow> 'v \<Rightarrow> 'v \<Rightarrow> string \<Rightarrow> ('e world, string list) cm" where
  "spec_call E g arr callfunc name =
     cbind (js_get (JS_NewString E (cut name))) (\<lambda>arg0.
     cbind (js_run (JS_Call E callfunc g [arg0, arr])) (\<lambda>ret.
     cseq (js_do (JS_FreeValue E arg0))
    (if JS_IsException E ret then cseq (spec_exception E) (creturn [])
     else
       cbind (js_run (JS_ToCString E ret)) (\<lambda>generated_code.
       cbind (c_str generated_code) (\<lambda>code.
       cseq (js_do (JS_FreeCString E generated_code))
      (cseq (js_do (JS_FreeValue E ret))
            (creturn [code])))))))"

definition spec_handler :: "('e, 'v) js_engine \<Rightarrow> 'v \<Rightarrow> 'v \<Rightarrow> string \<Rightarrow> string \<Rightarrow> ('e world, string list) cm" where
  "spec_handler E g arr name h =
     cbind (js_run (JS_GetPropertyStr E g (cut h))) (\<lambda>callfunc.
     cbind (cgets (\<lambda>w. JS_IsFunction E callfunc (w_js w))) (\<lambda>is_function.
     cbind (if is_function then spec_call E g arr callfunc name else creturn []) (\<lambda>codes.
     cseq (js_do (JS_FreeValue E callfunc)) (creturn codes))))"

primrec spec_generate ::
  "('e, 'v) js_engine \<Rightarrow> 'v \<Rightarrow> 'v \<Rightarrow> string \<Rightarrow> string list \<Rightarrow> ('e world, string list) cm" where
  "spec_generate E g arr name [] = creturn []"
| "spec_generate E g arr name (h # hs) =
     cbind (spec_handler E g arr name h) (\<lambda>codes.
     cbind (spec_generate E g arr name hs) (\<lambda>more. creturn (codes @ more)))"

section \<open>The program\<close>

definition surplus :: "string list \<Rightarrow> nat" where
  "surplus codes = length codes - 1"

definition spec_emit :: "('e, 'v) js_engine \<Rightarrow> 'v \<Rightarrow> string \<Rightarrow> derived \<Rightarrow> ('e world, nat) cm" where
  "spec_emit E g output_file d =
     cbind (spec_array E (d_tokens d)) (\<lambda>arr.
     cbind (spec_generate E g arr (d_name d) (d_handlers d)) (\<lambda>codes.
     cseq (if codes = [] then creturn 0 else append_to_output output_file (last codes))
    (cseq (js_do (JS_FreeValue E arr)) (creturn (surplus codes)))))"

definition spec_main_round :: "('e, 'v) js_engine \<Rightarrow> 'v \<Rightarrow> string \<Rightarrow> nat \<Rightarrow> ('e world, nat + nat) cm" where
  "spec_main_round E g output_file lost =
     cbind (world_lex stb_c_lexer_get_token) (\<lambda>more.
     if more = 0 then creturn (Inr lost) else
     cbind (world_lex (cgets token)) (\<lambda>t.
     if t = clex_code CLEX_parse_error then creturn (Inr lost)
     else
       cbind (world_lex spec_parse) (\<lambda>r.
       cbind (case r of None \<Rightarrow> creturn 0 | Some d \<Rightarrow> spec_emit E g output_file d) (\<lambda>n.
       creturn (Inl (lost + n))))))"

end
