(* ===== verification/Codegen_Refine.thy ===== *)
theory Codegen_Refine
  imports Codegen_Spec Parser_Refine
begin

text \<open>
  Code generation refines its specification.  While the codes of a struct are generated, memory
  only grows by the strings that hold them; the last one is freed with the struct, the others are
  what leaks.
\<close>

section \<open>Reading strings and tokens\<close>

lemma cut_NUL: "NUL \<notin> set (cut cs)"
  by (auto simp: cut_def dest: set_takeWhileD)

lemma cut_id: "NUL \<notin> set cs \<Longrightarrow> cut cs = cs"
  by (auto simp: cut_def takeWhile_eq_all_conv)

lemma c_str_cut [simp]: "NUL \<in> set bs \<Longrightarrow> c_str (Some bs) s = Inr (cut bs, s)"
  by (simp add: c_str_def cut_def)

lemma cut_append_NUL [simp]: "cut (cs @ NUL # r) = cut cs"
proof (cases "NUL \<in> set cs")
  case True
  then show ?thesis by (auto simp: cut_def takeWhile_append1)
next
  case False
  then show ?thesis by (simp add: cut_id) (simp add: cut_def)
qed

lemma c_str_char: "c_str (Some [c, NUL]) = creturn (cut [c])"
  using cut_append_NUL [of "[c]" "[]"] by (auto simp: fun_eq_iff)

lemma text_cut:
  assumes "string_at m s cs F"
  shows "moe_string_text (Some s) m = Inr (cut cs, m)" and "const_text (Some s) m = Inr (cut cs, m)"
  using assms cut_append_NUL [of cs "[]"]
  by (auto simp: string_at_def moe_string_text_def const_text_def moe_string_get_def
      moe_string_get_const_def c_str_at_def)

text \<open>Computations on the world keep every predicate on memory.\<close>

lemma refines_world: "refines (\<lambda>m w. p m) (on_rest g) g (\<lambda>y z m w. z = y \<and> p m)"
  by (rule refines_on_rest) simp

lemma refines_world_bind:
  assumes "\<And>y. refines (\<lambda>m w. p m) (f' y) (g' y) Q"
  shows "refines (\<lambda>m w. p m) (cbind (on_rest g) f') (cbind g g') Q"
  by (rule refines_bind [OF refines_world], rule refines_assume) (use assms in simp)

lemma refines_token:
  assumes t: "token_at m t tk F"
  shows "refines (\<lambda>m' w. m' = m) (from_token_to_js_token_object E (Some t)) (spec_token_object E tk)
     (\<lambda>y z m' w. z = y \<and> m' = m)"
proof -
  from t obtain v G where obj: "objs m t = Some (Obj_Token \<lparr>tok_value = v, tok_type = atoken_type tk\<rparr>)"
    and val: "value_at m v tk G"
    by (auto simp: token_at_def)
  let ?tk = "\<lparr>tok_value = v, tok_type = atoken_type tk\<rparr>"
  have str: "refines (\<lambda>m' w. m' = m)
      (cbind (on_mem (cbind (str_member ?tk) const_text)) (\<lambda>s. on_rest (set_prop E obj ''value'' (JS_NewString E s))))
      (set_prop E obj ''value'' (JS_NewString E (cut cs))) (\<lambda>y z m' w. z = y \<and> m' = m)"
    if "v = Str_Value (Some s)" "string_at m s cs G" for obj s cs
    by (rule refines_read_mem [where z = "cut cs"], simp add: that(1) text_cut [OF that(2)] str_member_def,
        rule refines_world)
  have "refines (\<lambda>m' w. m' = m) (case atoken_type tk of
        MOE_TOKEN_IDENTIFIER \<Rightarrow>
          cbind (on_mem (cbind (str_member ?tk) const_text)) (\<lambda>s. on_rest (set_prop E obj ''value'' (JS_NewString E s)))
      | MOE_TOKEN_STRING_LITERAL \<Rightarrow>
          cbind (on_mem (cbind (str_member ?tk) const_text)) (\<lambda>s. on_rest (set_prop E obj ''value'' (JS_NewString E s)))
      | MOE_TOKEN_PUNCTUATION \<Rightarrow>
          cbind (on_mem (int_member ?tk)) (\<lambda>i.
          cbind (c_str (Some [to_char i, NUL])) (\<lambda>s. on_rest (set_prop E obj ''value'' (JS_NewString E s))))
      | MOE_TOKEN_INT_LITERAL \<Rightarrow>
          cbind (on_mem (int_member ?tk)) (\<lambda>i. on_rest (set_prop E obj ''value'' (JS_NewInt32 E i)))
      | MOE_TOKEN_FLOAT_LITERAL \<Rightarrow>
          cbind (on_mem (float_member ?tk)) (\<lambda>f. on_rest (set_prop E obj ''value'' (JS_NewFloat64 E f)))
      | MOE_TOKEN_UNKNOWN \<Rightarrow> cfail (Assertion_Failed ''unreachable code reached''))
     (set_prop E obj ''value'' (spec_value E tk)) (\<lambda>y z m' w. z = y \<and> m' = m)" for obj
  proof (cases tk)
    case (A_Ident cs)
    then show ?thesis using val str [of _ cs] by auto
  next
    case (A_Str cs)
    then show ?thesis using val str [of _ cs] by auto
  next
    case (A_Punct i)
    then show ?thesis
      using val refines_world [of "\<lambda>m'. m' = m" "set_prop E obj ''value'' (JS_NewString E (cut [to_char i]))"]
      by (auto simp: int_member_def c_str_char intro!: refines_read_mem [where z = i])
  next
    case (A_Int i)
    then show ?thesis
      using val refines_world [of "\<lambda>m'. m' = m" "set_prop E obj ''value'' (JS_NewInt32 E i)"]
      by (auto simp: int_member_def intro!: refines_read_mem [where z = i])
  next
    case (A_Float f)
    then show ?thesis
      using val refines_world [of "\<lambda>m'. m' = m" "set_prop E obj ''value'' (JS_NewFloat64 E f)"]
      by (auto simp: float_member_def intro!: refines_read_mem [where z = f])
  qed
  note val = this
  show ?thesis
    unfolding from_token_to_js_token_object_def spec_token_object_def
    apply (rule refines_world_bind)
    apply (rule refines_read_mem [where z = ?tk], simp add: obj)
    apply (simp only: moe_token.simps)
    apply (rule refines_world_bind)
    apply (rule refines_bind [OF val])
    apply (rule refines_return, simp)
    done
qed

end
