(* ===== verification/Codegen_Struct.thy ===== *)
theory Codegen_Struct
  imports Codegen_Refine
begin

text \<open>
  Generating the code of one struct refines its specification: the token array, the handlers, the
  output.  Strings that a later handler replaces stay allocated; they are counted.
\<close>

section \<open>The array of tokens\<close>

lemma refines_pure_bind:
  assumes "\<And>y. refines P (f' y) (g' y) Q"
  shows "refines P (cbind (i32_add a b) f') (cbind (i32_add a b) g') Q"
  using assms by (auto simp: i32_add_def refines_def)

lemma refines_elements:
  assumes "nxt (lnodes m) c = Some (hd (node_ptrs ns @ [l]))" and "follows (nxt (lnodes m)) (node_ptrs ns) l"
    and "rep_list node_at m ns tks F"
  shows "refines (\<lambda>m' w. m' = m) (cloop (array_round E arr) (\<lparr>it_current = Some c, it_head = Some l\<rparr>, index))
     (spec_elements E arr index tks) (\<lambda>y z m' w. m' = m)"
  using assms
proof (induction ns arbitrary: c tks F index)
  case Nil
  then have "array_round E arr (\<lparr>it_current = Some c, it_head = Some l\<rparr>, index) \<lparr>ps_mem = m, ps_rest = w\<rparr> =
      Inr (Inr (), \<lparr>ps_mem = m, ps_rest = w\<rparr>)" for w
    by (simp add: array_round_def moe_list_iterator_next_known)
  then show ?case using Nil by (simp add: refines_def cloop_unfold)
next
  case (Cons n ns)
  from Cons.prems(3) obtain tk tks' F1 F2 where tks: "tks = tk # tks'" and n: "node_at m n tk F1"
    and rest: "rep_list node_at m ns tks' F2" by auto
  from n obtain t G where t: "objs m n = Some (Obj_Stream_Node (Some t))" "token_at m t tk G"
    by (auto simp: node_at_def)
  let ?it = "\<lparr>it_current = Some (n, 0), it_head = Some l\<rparr>"
  have IH: "refines (\<lambda>m' w. m' = m) (cloop (array_round E arr) (?it, index')) (spec_elements E arr index' tks')
      (\<lambda>y z m' w. m' = m)" for index'
    using Cons.IH [OF _ _ rest] Cons.prems(2) by simp
  have "refines (\<lambda>m' w. m' = m)
     (cbind (from_token_to_js_token_object E (Some t)) (\<lambda>obj.
      cseq (on_rest (js_act (JS_SetPropertyUint32 E arr index obj)))
     (cbind (i32_add index 1) (\<lambda>index'. cloop (array_round E arr) (?it, index')))))
     (spec_elements E arr index tks) (\<lambda>y z m' w. m' = m)"
    unfolding tks spec_elements.simps
    apply (rule refines_bind [OF refines_token [OF t(2)]], rule refines_assume, hypsubst)
    apply (rule refines_world_bind)
    apply (rule refines_pure_bind [OF IH])
    done
  moreover have "cloop (array_round E arr) (\<lparr>it_current = Some c, it_head = Some l\<rparr>, index) \<lparr>ps_mem = m, ps_rest = w\<rparr> =
     cbind (from_token_to_js_token_object E (Some t)) (\<lambda>obj.
      cseq (on_rest (js_act (JS_SetPropertyUint32 E arr index obj)))
     (cbind (i32_add index 1) (\<lambda>index'. cloop (array_round E arr) (?it, index')))) \<lparr>ps_mem = m, ps_rest = w\<rparr>" for w
    using Cons.prems t
    by (subst cloop_unfold) (auto simp: array_round_def moe_list_iterator_next_known moe_list_iterator_get_def
        stream_node_entry_def cbind_apply on_mem_def split: sum.splits)
  ultimately show ?case by (simp add: refines_def)
qed

lemma refines_array:
  assumes d: "dlist (lnodes m) l (node_ptrs ns)" and r: "rep_list node_at m ns tks F"
  shows "refines (\<lambda>m' w. m' = m) (from_token_stream_to_js_array E (Some l)) (spec_array E tks)
     (\<lambda>y z m' w. z = y \<and> m' = m)"
proof -
  have "nxt (lnodes m) l = Some (hd (node_ptrs ns @ [l]))"
    using d chain_nxt [of "lnodes m" l "node_ptrs ns" l] by (simp add: dlist_def)
  note elements = refines_elements [OF this dlist_follows(1) [OF d] r]
  show ?thesis
    unfolding from_token_stream_to_js_array_def spec_array_def moe_list_iterator_init_def
    apply (rule refines_world_bind)
    apply (rule refines_bind [OF elements])
    apply (rule refines_return, simp)
    done
qed

section \<open>Printing the metadata\<close>

text \<open>Memory that differs from \<open>m\<close> in its output only.\<close>

definition printed :: "heap \<Rightarrow> heap \<Rightarrow> bool" where
  "printed m m' \<longleftrightarrow> (\<exists>x. m' = m\<lparr>stdout := x\<rparr>)"

lemma printed_refl [simp, intro]: "printed m m"
  unfolding printed_def by (rule exI [of _ "stdout m"]) simp

lemma printed_trans: "printed m m' \<Longrightarrow> printed m' m'' \<Longrightarrow> printed m m''"
  by (auto simp: printed_def)

lemma printed_emit: "printed m m' \<Longrightarrow> printed m (m'\<lparr>stdout := x\<rparr>)"
  by (auto simp: printed_def)

lemma printed_same:
  assumes "printed m m'"
  shows "objs m' = objs m" and "blocks m' = blocks m" and "lnodes m' = lnodes m"
    and "fresh_block m' = fresh_block m" and "mem_wf m' = mem_wf m" and "agree_on F m m'"
    and "mem_grew A m0 m' = mem_grew A m0 m" and "mem_freed G m0 m' = mem_freed G m0 m"
  using assms by (auto simp: printed_def)

lemma string_at_printed: "string_at m s cs F \<Longrightarrow> printed m m' \<Longrightarrow> string_at m' s cs F"
  using string_at_agree printed_same(6) by blast

lemma token_print_ok:
  assumes "token_at m t tk F"
  shows "\<exists>m'. moe_token_print (Some t) m = Inr ((), m') \<and> printed m m'"
proof -
  from assms obtain v G where "objs m t = Some (Obj_Token \<lparr>tok_value = v, tok_type = atoken_type tk\<rparr>)"
    and "value_at m v tk G"
    by (auto simp: token_at_def)
  then show ?thesis
    by (cases tk) (auto simp: moe_token_print_def str_member_def int_member_def float_member_def text_cut
        intro!: printed_emit)
qed

abbreviation print_round :: "node_ptr moe_list_iterator \<Rightarrow> (heap, node_ptr moe_list_iterator + unit) cm" where
  "print_round \<equiv> (\<lambda>it. cbind (moe_list_iterator_next lnodes it) (\<lambda>(more, it').
       if more = 0 then creturn (Inr ())
       else cseq (cbind (load_stream_node (stream_node_entry (moe_list_iterator_get it'))) moe_token_print)
                 (creturn (Inl it'))))"

lemma print_loop_ok:
  assumes "nxt (lnodes m) c = Some (hd (node_ptrs ns @ [l]))" and "follows (nxt (lnodes m)) (node_ptrs ns) l"
    and "rep_list node_at m ns tks F"
  shows "\<exists>m'. cloop print_round \<lparr>it_current = Some c, it_head = Some l\<rparr> m = Inr ((), m') \<and> printed m m'"
  using assms
proof (induction ns arbitrary: c tks F m)
  case Nil
  then show ?case by (subst cloop_unfold) (auto simp: moe_list_iterator_next_known)
next
  case (Cons n ns)
  from Cons.prems(3) obtain tk tks' F1 F2 where n: "node_at m n tk F1" and rest: "rep_list node_at m ns tks' F2" by auto
  from n obtain t G where t: "objs m n = Some (Obj_Stream_Node (Some t))" "token_at m t tk G"
    by (auto simp: node_at_def)
  obtain m1 where m1: "moe_token_print (Some t) m = Inr ((), m1)" "printed m m1"
    using token_print_ok [OF t(2)] by blast
  note same = printed_same [OF m1(2)]
  have "rep_list node_at m1 ns tks' F2" by (rule moe_node.list_agree [OF rest same(6)])
  then obtain m2 where "cloop print_round \<lparr>it_current = Some (n, 0), it_head = Some l\<rparr> m1 = Inr ((), m2)" "printed m1 m2"
    using Cons.IH [of m1 "(n, 0)"] Cons.prems(2) same(3) by auto
  with m1 printed_trans show ?case
    using Cons.prems t
    by (subst cloop_unfold) (auto simp: moe_list_iterator_next_known moe_list_iterator_get_def stream_node_entry_def)
qed

lemma metadata_print_ok:
  assumes d: "dlist (lnodes m) l (node_ptrs ns)" and r: "rep_list node_at m ns tks F"
  shows "\<exists>m'. moe_derive_struct_metadata_print (Some l) m = Inr ((), m') \<and> printed m m'"
proof -
  have "nxt (lnodes m) l = Some (hd (node_ptrs ns @ [l]))"
    using d chain_nxt [of "lnodes m" l "node_ptrs ns" l] by (simp add: dlist_def)
  from print_loop_ok [OF this dlist_follows(1) [OF d] r] show ?thesis
    by (simp add: moe_derive_struct_metadata_print_def iterator_loop_def moe_list_iterator_init_def)
qed

section \<open>Generating code\<close>

text \<open>
  \<open>held m0 m codes out\<close>: since \<open>m0\<close>, one string was made for each code, and the last one,
  if any, is \<open>out\<close>.
\<close>

definition held :: "heap \<Rightarrow> heap \<Rightarrow> string list \<Rightarrow> block option \<Rightarrow> bool" where
  "held m0 m codes out \<longleftrightarrow>
     mem_ext m0 m \<and> fresh_block m = fresh_block m0 + 3 * length codes \<and>
     (if codes = [] then out = None
      else \<exists>b. out = Some b \<and> NUL \<notin> set (last codes) \<and>
        string_at m b (last codes) {fresh_block m - 3..<fresh_block m})"

text \<open>What the program relies on of the engine's strings: they fit the \<^verbatim>\<open>int\<close> lengths.\<close>

definition js_strings_fit :: "('e, 'v) js_engine \<Rightarrow> bool" where
  "js_strings_fit E \<longleftrightarrow> (\<forall>v e bs e'. JS_ToCString E v e = Some (Some bs, e') \<longrightarrow> length bs < 2 ^ 31)"

lemma held_start: "mem_wf m \<Longrightarrow> held m m [] None"
  by (simp add: held_def mem_ext_refl)

lemma held_printed:
  assumes "held m0 m codes out" and "printed m m'"
  shows "held m0 m' codes out"
proof -
  note same = printed_same [OF assms(2)]
  have "mem_ext m0 m'" using assms(1) same by (simp add: held_def mem_ext_def)
  then show ?thesis using assms(1) string_at_printed [OF _ assms(2)] same(4) by (auto simp: held_def)
qed

lemma held_string:
  assumes h: "held m0 m codes out" and c: "NUL \<notin> set code" "length code + 1 < 2 ^ 31"
  shows "\<exists>b m'. moe_string_alloc (Some (code @ NUL # r)) 0 m = Inr (Some b, m') \<and> held m0 m' (codes @ [code]) (Some b)"
proof -
  have wf: "mem_wf m" and ext: "mem_ext m0 m" using h by (simp_all add: held_def mem_ext_def)
  have "c_bytes (Some (code @ NUL # r)) 0 code" using c by (auto simp: c_bytes_def)
  from mem_ext_string [OF wf this] obtain m' where
    "moe_string_alloc (Some (code @ NUL # r)) 0 m = Inr (Some (fresh_block m), m')" "mem_ext m m'"
    "fresh_block m' = fresh_block m + 3" "string_at m' (fresh_block m) code {fresh_block m..<fresh_block m'}"
    by blast
  with h c ext mem_ext_trans [OF ext] show ?thesis
    by (intro exI [of _ "fresh_block m"] exI [of _ m']) (auto simp: held_def)
qed

lemma refines_say:
  assumes "\<And>m w x. P m w \<Longrightarrow> P (m\<lparr>stdout := x\<rparr>) w" and "refines P f g Q"
  shows "refines P (cseq (say txt) f) g Q"
  using assms unfolding refines_def by (simp add: say_def on_mem_def)

lemma refines_c_str:
  assumes "\<And>cs r. p = Some (cs @ NUL # r) \<Longrightarrow> NUL \<notin> set cs \<Longrightarrow> refines P (f' cs) (g' cs) Q"
  shows "refines P (cbind (c_str p) f') (cbind (c_str p) g') Q"
proof (cases p)
  case None
  then show ?thesis by (simp add: refines_def c_str_def)
next
  case (Some bs)
  show ?thesis
  proof (cases "NUL \<in> set bs")
    case False
    then show ?thesis using Some by (simp add: refines_def c_str_def)
  next
    case True
    have "bs = cut bs @ NUL # tl (dropWhile (\<lambda>c. c \<noteq> NUL) bs)"
      using True hd_dropWhile [of "\<lambda>c. c \<noteq> NUL" bs]
      by (cases "dropWhile (\<lambda>c. c \<noteq> NUL) bs") (auto simp: cut_def dropWhile_eq_Nil_conv, metis takeWhile_dropWhile_id)
    then have "refines P (f' (cut bs)) (g' (cut bs)) Q" using assms [OF _ cut_NUL] Some by metis
    then show ?thesis using True Some by (simp add: refines_def)
  qed
qed

lemma refines_exception:
  assumes "\<And>m x. p m \<Longrightarrow> p (m\<lparr>stdout := x\<rparr>)"
  shows "refines (\<lambda>m w. p m) (report_exception E msg) (spec_exception E) (\<lambda>y z m w. p m)"
  unfolding report_exception_def spec_exception_def
  apply (rule refines_world_bind)
  apply (rule refines_world_bind)
  apply (rule refines_c_str)
  apply (rule refines_say, rule assms, assumption)
  apply (rule refines_world_bind)
  apply (rule refines_post [OF refines_world], simp)
  done

lemma held_text:
  assumes "held m0 m codes out" and "mem_wf m0" and "string_at m0 s cs F"
  shows "moe_string_text (Some s) m = Inr (cut cs, m)" and "const_text (Some s) m = Inr (cut cs, m)"
proof -
  have "F \<subseteq> dom (blocks m0)" using string_at_live [OF assms(3)] by blast
  moreover have "mem_grew {} m0 m" using assms(1) by (simp add: held_def mem_ext_def)
  ultimately have "string_at m s cs F"
    using string_at_agree [OF assms(3) agree_on_grew] assms(2) by blast
  then show "moe_string_text (Some s) m = Inr (cut cs, m)" "const_text (Some s) m = Inr (cut cs, m)"
    by (rule text_cut)+
qed

lemma refines_to_c_string:
  assumes "js_strings_fit E"
  shows "refines (\<lambda>m w. p m) (on_rest (js_run (JS_ToCString E v))) (js_run (JS_ToCString E v))
     (\<lambda>y z m w. (z = y \<and> (\<forall>bs. y = Some bs \<longrightarrow> length bs < 2 ^ 31)) \<and> p m)"
proof (rule refines_on_rest)
  fix m w y w'
  assume "p m" and "js_run (JS_ToCString E v) w = Inr (y, w')"
  then obtain e' where "JS_ToCString E v (w_js w) = Some (y, e')"
    by (auto simp: js_run_def split: option.splits)
  with assms \<open>p m\<close> show "(y = y \<and> (\<forall>bs. y = Some bs \<longrightarrow> length bs < 2 ^ 31)) \<and> p m"
    unfolding js_strings_fit_def by blast
qed

lemma refines_call:
  assumes fit: "js_strings_fit E" and wf: "mem_wf m0"
    and s: "string_at m0 s name Fs" and h: "string_at m0 hp hname Fh"
  shows "refines (\<lambda>m w. held m0 m codes out)
     (call_handler E rt arr callfunc (Some s) (Some hp) out) (spec_call E (global_obj rt) arr callfunc name)
     (\<lambda>cs z m w. held m0 m (codes @ cs) z)"
  unfolding call_handler_def spec_call_def
  apply (rule refines_read_mem [where z = "cut name"], rule held_text(2) [OF _ wf s], assumption)
  apply (rule refines_world_bind)
  apply (rule refines_world_bind)
  apply (rule refines_world_bind)
  apply (rule refines_if)
   apply (rule refines_read_mem [where z = "cut hname"], rule held_text(1) [OF _ wf h], assumption)
   apply (rule refines_bind [OF refines_exception], rule held_printed, assumption, simp add: printed_emit)
   apply (rule refines_return, simp)
  apply (rule refines_bind [OF refines_to_c_string [OF fit]], rule refines_assume, erule conjE, hypsubst)
  apply (rule refines_read_mem [where z = "cut hname"], rule held_text(1) [OF _ wf h], assumption)
  apply (rule refines_c_str)
  apply (rule refines_say)
   apply (rule held_printed, assumption, simp add: printed_emit)
  subgoal for arg0 ret u y z cs r
    apply (rule refines_on_mem [where P' = "\<lambda>z m w. held m0 m (codes @ [cs]) z"])
     apply (use held_string in force)
    apply (rule refines_world_bind)
    apply (rule refines_world_bind)
    apply (rule refines_return, simp)
    done
  done

lemma held_objs:
  assumes "held m0 m codes out" and "mem_wf m0" and "objs m0 b = Some x"
  shows "objs m b = Some x"
proof -
  have "b \<in> dom (blocks m0)" using assms(2,3) by (auto simp: mem_wf_def)
  then have "agree_on {b} m0 m" using assms(1,2) by (intro agree_on_grew) (auto simp: held_def mem_ext_def)
  then show ?thesis using assms(3) by (simp add: agree_on_def)
qed

lemma refines_item_code:
  assumes fit: "js_strings_fit E" and wf: "mem_wf m0" and s: "string_at m0 s name Fs"
    and ds: "struct_name ds = Some s" "derive_items ds = Some q"
    and its: "objs m0 q = Some (Obj_Derive_Items its)" and i: "i < length its"
    and item: "item_at m0 (its ! i) h Fh"
  shows "refines (\<lambda>m w. held m0 m codes out)
     (generate_for_item E rt arr ds i out) (spec_handler E (global_obj rt) arr name h)
     (\<lambda>cs z m w. held m0 m (codes @ cs) z)"
proof -
  from item obtain hp args G where it: "its ! i = \<lparr>derive_handler_name = Some hp, arg_num = 0, item_args = args\<rparr>"
    and hp: "string_at m0 hp h G"
    unfolding item_at_def by blast
  note texts = held_text [OF _ wf hp]
  show ?thesis
    unfolding generate_for_item_def spec_handler_def ds Let_def
    apply (rule refines_read_mem [where z = its], simp add: held_objs [OF _ wf its])
    apply (simp only: i it simp_thms if_False)
    apply (simp only: moe_derive_item.simps)
    apply (rule refines_read_mem [where z = "cut h"], rule texts(1), assumption)
    apply (rule refines_say, rule held_printed, assumption, simp add: printed_emit)
    apply (rule refines_read_mem [where z = "()"], simp)
    apply (rule refines_read_mem [where z = "cut h"], rule texts(2), assumption)
    apply (rule refines_world_bind)
    apply (rule refines_world_bind)
    subgoal for callfunc is_function
      apply (cases is_function)
       apply (simp only: if_True)
       apply (rule refines_bind [OF refines_call [OF fit wf s hp]])
       apply (rule refines_world_bind)
       apply (rule refines_return, simp)
      apply (simp only: if_False cbind_creturn)
      apply (rule refines_read_mem [where z = "cut h"], rule texts(1), assumption)
      apply (rule refines_say, rule held_printed, assumption, simp add: printed_emit)
      apply (rule refines_world_bind)
      apply (rule refines_return, simp)
      done
    done
qed

lemma refines_map_result:
  assumes "refines P f g (\<lambda>y z m w. Q (h y) z m w)"
  shows "refines P f (cbind g (\<lambda>y. creturn (h y))) Q"
  unfolding refines_def
proof (intro allI impI)
  fix m w
  assume "P m w"
  from refinesD [OF assms this] show "same_outcome Q (cbind g (\<lambda>y. creturn (h y)) w) (f \<lparr>ps_mem = m, ps_rest = w\<rparr>)"
    by (cases "g w") auto
qed

lemma refines_items_code:
  assumes fit: "js_strings_fit E" and wf: "mem_wf m0" and s: "string_at m0 s name Fs"
    and ds: "struct_name ds = Some s" "derive_items ds = Some q"
    and its: "objs m0 q = Some (Obj_Derive_Items its)" and n: "n \<le> length its" and k: "k \<le> n"
    and items: "rep_list item_at m0 (drop k (take n its)) hs F"
  shows "refines (\<lambda>m w. held m0 m codes out)
     (generate_items E rt arr ds [k..<n] out) (spec_generate E (global_obj rt) arr name hs)
     (\<lambda>cs z m w. held m0 m (codes @ cs) z)"
  using k items
proof (induction "n - k" arbitrary: k hs F codes out)
  case 0
  then show ?case by (auto simp: refines_def)
next
  case (Suc d)
  then have k: "k < n" "[k..<n] = k # [Suc k..<n]" and d: "d = n - Suc k"
    by (auto simp: upt_conv_Cons)
  then have "drop k (take n its) = its ! k # drop (Suc k) (take n its)"
    using n by (simp flip: Cons_nth_drop_Suc)
  with Suc.prems(2) obtain h hs' F1 F2 where hs: "hs = h # hs'" and item: "item_at m0 (its ! k) h F1"
    and rest: "rep_list item_at m0 (drop (Suc k) (take n its)) hs' F2"
    by auto
  have "k < length its" using k(1) n by simp
  note one = refines_item_code [OF fit wf s ds its this item]
  show ?case
    unfolding k(2) hs generate_items.simps spec_generate.simps
    apply (rule refines_bind [OF one])
    apply (rule refines_map_result)
    apply (rule refines_post [OF Suc.hyps(1) [OF d _ rest]])
     apply (use k(1) in simp_all)
    done
qed

lemma refines_codes:
  assumes fit: "js_strings_fit E" and wf: "mem_wf m0"
    and p: "ds_parts m0 a (int (length (d_handlers d))) d s q its ns Fs Fi Ft"
  shows "refines (\<lambda>m w. m = m0) (generate_code_for_derived_struct E rt arr (Some a))
     (spec_generate E (global_obj rt) arr (d_name d) (d_handlers d)) (\<lambda>codes z m w. held m0 m codes z)"
proof -
  note parts = ds_partsD [OF p]
  let ?n = "length (d_handlers d)"
  have "refines (\<lambda>m w. held m0 m [] None)
     (generate_items E rt arr \<lparr>struct_name = Some s, derive_item_num = int ?n, derive_items = Some q\<rparr> [0..<?n] None)
     (spec_generate E (global_obj rt) arr (d_name d) (d_handlers d)) (\<lambda>cs z m w. held m0 m ([] @ cs) z)"
    by (rule refines_items_code [OF fit wf parts(5) _ _ parts(6) parts(7)]) (use parts(8) in simp_all)
  then have "refines (\<lambda>m w. m = m0)
     (generate_items E rt arr \<lparr>struct_name = Some s, derive_item_num = int ?n, derive_items = Some q\<rparr> [0..<?n] None)
     (spec_generate E (global_obj rt) arr (d_name d) (d_handlers d)) (\<lambda>cs z m w. held m0 m cs z)"
    using held_start [OF wf] by (auto elim!: refines_pre)
  then show ?thesis
    unfolding generate_code_for_derived_struct_def
    by (intro refines_read_mem [where z = "\<lparr>struct_name = Some s, derive_item_num = int ?n, derive_items = Some q\<rparr>"])
       (use parts(4) in simp_all)
qed

end
