(* ===== verification/Codegen_Emit.thy ===== *)
theory Codegen_Emit
  imports Codegen_Struct
begin

text \<open>
  Emitting a struct: its code is generated and appended to the output, and everything but the
  overwritten strings is freed.
\<close>

section \<open>Lost strings\<close>

text \<open>\<open>kept F m m'\<close>: the blocks \<open>F\<close> and the nodes in them are the same.\<close>

definition kept :: "block set \<Rightarrow> heap \<Rightarrow> heap \<Rightarrow> bool" where
  "kept F m m' \<longleftrightarrow> agree_on F m m' \<and> (\<forall>b \<in> F. \<forall>k. lnodes m' (b, k) = lnodes m (b, k))"

lemma kept_refl [simp]: "kept F m m"
  by (simp add: kept_def)

lemma kept_trans: "kept F m m' \<Longrightarrow> kept F m' m'' \<Longrightarrow> kept F m m''"
  unfolding kept_def using agree_on_trans by force

lemma kept_subset: "kept F m m' \<Longrightarrow> G \<subseteq> F \<Longrightarrow> kept G m m'"
  by (auto simp: kept_def intro: agree_on_subset)

lemma kept_printed: "printed m m' \<Longrightarrow> kept F m m'"
  by (auto simp: kept_def printed_same)

lemma kept_grew: "mem_wf m \<Longrightarrow> mem_grew {} m m' \<Longrightarrow> kept (dom (blocks m)) m m'"
  using agree_on_grew [of "{}" m m' "dom (blocks m)"] unfolding kept_def mem_grew_def mem_wf_def by blast

lemma kept_freed: "mem_freed G m m' \<Longrightarrow> F \<inter> G = {} \<Longrightarrow> kept F m m'"
  by (auto simp: kept_def mem_freedD intro: agree_on_freed)

lemma kept_parts:
  assumes p: "ds_parts m a n d s q its ns Fs Fi Ft" and k: "kept ({a, q} \<union> Fs \<union> Fi \<union> Ft) m m'"
  shows "ds_parts m' a n d s q its ns Fs Fi Ft"
proof -
  note parts = ds_partsD [OF p]
  have ag: "agree_on ({a, q} \<union> Fs \<union> Fi \<union> Ft) m m'" using k by (simp add: kept_def)
  note ag = agree_parts [OF ag]
  have "dlist (lnodes m') (a, 24) (node_ptrs ns)"
  proof (subst dlist_lnodes_cong)
    show "dlist (lnodes m) (a, 24) (node_ptrs ns)" by (rule parts(9))
    show "lnodes m' x = lnodes m x" if "x \<in> set ((a, 24) # node_ptrs ns)" for x
    proof -
      from that have "fst x \<in> insert a Ft" using rep_nodes_blocks [OF parts(10)] by auto
      then show ?thesis using k by (cases x) (auto simp: kept_def)
    qed
  qed
  then show ?thesis
    using p string_at_agree [OF parts(5) ag(5)] moe_item.list_agree [OF parts(8) ag(6)]
      moe_node.list_agree [OF parts(10) ag(7)] ag(1-4)
    unfolding ds_parts_def by (auto simp: domIff)
qed

text \<open>
  \<open>lost F m0 n m\<close>: since \<open>m0\<close>, the blocks \<open>F\<close> were freed, \<open>n\<close> strings (three blocks each)
  were allocated that nothing frees any more, and the other blocks were kept.
\<close>

definition lost :: "block set \<Rightarrow> heap \<Rightarrow> nat \<Rightarrow> heap \<Rightarrow> bool" where
  "lost F m0 n m \<longleftrightarrow> mem_wf m \<and> kept (dom (blocks m0) - F) m0 m \<and>
     (\<exists>L. dom (blocks m) = (dom (blocks m0) - F) \<union> L \<and> L \<inter> dom (blocks m0) = {} \<and> card L = 3 * n \<and>
       fresh_block m0 \<le> fresh_block m \<and> L \<subseteq> {fresh_block m0..})"

lemma lostE:
  assumes "lost F m0 n m"
  obtains L where "dom (blocks m) = (dom (blocks m0) - F) \<union> L" and "L \<inter> dom (blocks m0) = {}"
    and "card L = 3 * n" and "fresh_block m0 \<le> fresh_block m" and "L \<subseteq> {fresh_block m0..}"
    and "mem_wf m" and "kept (dom (blocks m0) - F) m0 m"
  using assms unfolding lost_def by (elim conjE exE) (rule that)

lemma lost_none: "mem_wf m \<Longrightarrow> lost {} m 0 m"
  by (auto simp: lost_def)

lemma lost_printed: "lost F m0 n m \<Longrightarrow> printed m m' \<Longrightarrow> lost F m0 n m'"
  unfolding lost_def using kept_trans kept_printed [of m m'] by (auto simp: printed_same)

lemma lost_trans:
  assumes "lost {} m0 n m" and "lost {} m k m'" and wf: "mem_wf m0"
  shows "lost {} m0 (n + k) m'"
proof -
  from assms(1) obtain L where L: "dom (blocks m) = dom (blocks m0) \<union> L" "L \<inter> dom (blocks m0) = {}"
      "card L = 3 * n" "fresh_block m0 \<le> fresh_block m" "L \<subseteq> {fresh_block m0..}"
    and m: "mem_wf m" "kept (dom (blocks m0)) m0 m"
    by (rule lostE [of "{}" m0 n m, unfolded Diff_empty])
  from assms(2) obtain K where K: "dom (blocks m') = dom (blocks m) \<union> K" "K \<inter> dom (blocks m) = {}"
      "card K = 3 * k" "fresh_block m \<le> fresh_block m'" "K \<subseteq> {fresh_block m..}"
    and m': "mem_wf m'" "kept (dom (blocks m)) m m'"
    by (rule lostE [of "{}" m k m', unfolded Diff_empty])
  have fin: "finite L" "finite K"
    using mem_wf_finite [OF m(1)] mem_wf_finite [OF m'(1)] L(1) K(1) by (auto intro: finite_subset)
  have "L \<inter> K = {}" using K(2) L(1) by blast
  then have card: "card (L \<union> K) = 3 * (n + k)" using fin L(3) K(3) by (simp add: card_Un_disjoint)
  have keep: "kept (dom (blocks m0)) m0 m'"
    using m(2) kept_subset [OF m'(2), of "dom (blocks m0)"] L(1) kept_trans by blast
  have dom: "dom (blocks m') = dom (blocks m0) \<union> (L \<union> K)" using L(1) K(1) by blast
  have new: "(L \<union> K) \<inter> dom (blocks m0) = {}" using L(1,2) K(2) by blast
  have le: "fresh_block m0 \<le> fresh_block m'" using L(4) K(4) by (rule le_trans)
  have "L \<union> K \<subseteq> {fresh_block m0..}" using L(4,5) K(5) by (meson Un_least atLeast_iff le_trans subset_iff)
  then show ?thesis
    unfolding lost_def Diff_empty using m'(1) keep dom new card le by blast
qed

lemma lost_freed:
  assumes l: "lost {} m0 n m" and f: "mem_freed F m m'" and F: "F \<subseteq> dom (blocks m0)" and wf: "mem_wf m0"
  shows "lost F m0 n m'"
proof -
  from l obtain L where L: "dom (blocks m) = dom (blocks m0) \<union> L" "L \<inter> dom (blocks m0) = {}"
      "card L = 3 * n" "fresh_block m0 \<le> fresh_block m" "L \<subseteq> {fresh_block m0..}"
    and m: "mem_wf m" "kept (dom (blocks m0)) m0 m"
    by (rule lostE [of "{}" m0 n m, unfolded Diff_empty])
  have "mem_wf m'" using mem_freed_wf [OF m(1) f] F L(1) by blast
  moreover have "kept (dom (blocks m0) - F) m0 m'"
    by (rule kept_trans [OF kept_subset [OF m(2)] kept_freed [OF f]]) (rule Diff_subset, rule Diff_disjoint [THEN trans [OF Int_commute]])
  moreover have "dom (blocks m') = (dom (blocks m0) - F) \<union> L"
  proof -
    have "dom (blocks m') = dom (blocks m) - F" using mem_freedD(1) [OF f] by (auto split: if_splits)
    then show ?thesis unfolding L(1) using L(2) F by blast
  qed
  moreover have "fresh_block m' = fresh_block m" using f by (simp add: mem_freed_def)
  ultimately show ?thesis unfolding lost_def using L(2-5) by (intro conjI exI [of _ L]) simp_all
qed

section \<open>One struct\<close>

lemma held_nothing: "held m0 m [] out \<Longrightarrow> mem_wf m0 \<Longrightarrow> lost {} m0 0 m"
  unfolding held_def mem_ext_def lost_def Diff_empty
  by (intro conjI exI [of _ "{}"]) (auto simp: kept_grew mem_grew_def)

lemma held_free_last:
  assumes h: "held m0 m codes (Some b)" and wf: "mem_wf m0" and c: "codes \<noteq> []"
  shows "\<exists>m'. moe_string_free (Some b) m = Inr ((), m') \<and> lost {} m0 (surplus codes) m'"
proof -
  let ?k = "length codes - 1" and ?F = "{fresh_block m - 3..<fresh_block m}"
  have ext: "mem_wf m" "mem_grew {} m0 m" and fresh: "fresh_block m = fresh_block m0 + 3 * length codes"
    and str: "string_at m b (last codes) ?F"
    using h c unfolding held_def mem_ext_def by (metis option.inject)+
  obtain m' where m': "moe_string_free (Some b) m = Inr ((), m')" "mem_freed ?F m m'"
    using moe_string_free_ok [OF str] by blast
  have k: "length codes = Suc ?k" using c by (cases codes) simp_all
  then have start: "fresh_block m - 3 = fresh_block m0 + 3 * ?k" using fresh by simp
  have old: "dom (blocks m0) \<subseteq> {..<fresh_block m0}" using wf by (simp add: mem_wf_def)
  have live: "?F \<subseteq> dom (blocks m)" using string_at_live [OF str] by blast
  have disj: "dom (blocks m0) \<inter> ?F = {}" using old start by auto
  have "kept (dom (blocks m0)) m0 m'"
    by (rule kept_trans [OF kept_grew [OF wf ext(2)] kept_freed [OF m'(2) disj]])
  moreover have "dom (blocks m') = dom (blocks m0) \<union> {fresh_block m0..<fresh_block m - 3}"
  proof -
    have "dom (blocks m') = dom (blocks m) - ?F" using mem_freedD(1) [OF m'(2)] by (auto split: if_splits)
    moreover have "dom (blocks m) = dom (blocks m0) \<union> {fresh_block m0..<fresh_block m}"
      using ext(2) by (simp add: mem_grew_def)
    ultimately show ?thesis using disj start fresh by auto
  qed
  moreover have "{fresh_block m0..<fresh_block m - 3} \<inter> dom (blocks m0) = {}" using old by auto
  moreover have "card {fresh_block m0..<fresh_block m - 3} = 3 * ?k" using start by simp
  moreover have "fresh_block m' = fresh_block m" using m'(2) by (simp add: mem_freed_def)
  moreover have "mem_wf m'" by (rule mem_freed_wf [OF ext(1) m'(2) live])
  ultimately have "lost {} m0 ?k m'"
    unfolding lost_def Diff_empty using fresh
    by (intro conjI exI [of _ "{fresh_block m0..<fresh_block m - 3}"]) (auto simp: subset_iff)
  then show ?thesis using m'(1) unfolding surplus_def by blast
qed

lemma refines_each: "(\<And>m1. p m1 \<Longrightarrow> refines (\<lambda>m w. m = m1) f g Q) \<Longrightarrow> refines (\<lambda>m w. p m) f g Q"
  unfolding refines_def by blast

lemma refines_world_last:
  assumes "\<And>y. refines (\<lambda>m w. p m) (f' y) (creturn y) Q"
  shows "refines (\<lambda>m w. p m) (cbind (on_rest g) f') g Q"
proof -
  have "cbind g creturn = g" by (rule ext) (simp add: cbind_apply split: sum.splits)
  moreover have "refines (\<lambda>m w. p m) (cbind (on_rest g) f') (cbind g creturn) Q"
    by (rule refines_world_bind) (rule assms)
  ultimately show ?thesis by (simp only:)
qed

lemma refines_output:
  assumes wf: "mem_wf m0"
  shows "refines (\<lambda>m w. held m0 m codes out)
     (if out = None then creturn () else
        cbind (on_mem (moe_string_text out)) (\<lambda>code.
        cbind (on_rest (append_to_output output_file code)) (\<lambda>r.
        cseq (if r \<noteq> 0 then say (msg output_file) else creturn ())
             (on_mem (moe_string_free out)))))
     (if codes = [] then creturn 0 else append_to_output output_file (last codes))
     (\<lambda>y z m w. lost {} m0 (surplus codes) m)"
proof (cases "codes = []")
  case True
  then show ?thesis using held_nothing [OF _ wf]
    by (auto simp: refines_def held_def surplus_def)
next
  case False
  have "refines (\<lambda>m w. held m0 m codes (Some b))
     (cbind (on_mem (moe_string_text (Some b))) (\<lambda>code.
        cbind (on_rest (append_to_output output_file code)) (\<lambda>r.
        cseq (if r \<noteq> 0 then say (msg output_file) else creturn ())
             (on_mem (moe_string_free (Some b))))))
     (append_to_output output_file (last codes)) (\<lambda>y z m w. lost {} m0 (surplus codes) m)" for b
  proof (rule refines_read_mem [where z = "last codes"])
    show "moe_string_text (Some b) m = Inr (last codes, m)" if "held m0 m codes (Some b)" for m w
      using that False unfolding held_def by (metis moe_string_text_ok option.inject)
    have free: "refines (\<lambda>m w. held m0 m codes (Some b)) (on_mem (moe_string_free (Some b))) (creturn y)
        (\<lambda>y z m w. lost {} m0 (surplus codes) m)" for y :: int
      using held_free_last [OF _ wf False] by (fastforce simp: refines_def on_mem_def)
    show "refines (\<lambda>m w. held m0 m codes (Some b))
       (cbind (on_rest (append_to_output output_file (last codes))) (\<lambda>r.
        cseq (if r \<noteq> 0 then say (msg output_file) else creturn ()) (on_mem (moe_string_free (Some b)))))
       (append_to_output output_file (last codes)) (\<lambda>y z m w. lost {} m0 (surplus codes) m)"
    proof (rule refines_world_last)
      fix y :: int
      have "refines (\<lambda>m w. held m0 m codes (Some b)) (cseq (say (msg output_file)) (on_mem (moe_string_free (Some b))))
          (creturn y) (\<lambda>y z m w. lost {} m0 (surplus codes) m)"
        by (rule refines_say [OF _ free]) (rule held_printed, assumption, simp add: printed_emit)
      then show "refines (\<lambda>m w. held m0 m codes (Some b))
          (cseq (if y \<noteq> 0 then say (msg output_file) else creturn ()) (on_mem (moe_string_free (Some b))))
          (creturn y) (\<lambda>y z m w. lost {} m0 (surplus codes) m)"
        using free by (simp only: cbind_creturn split: if_split) blast
    qed
  qed
  then show ?thesis using False by (cases out) (auto simp: held_def refines_def)
qed

lemma destroy_after:
  assumes l: "lost {} m1 n m" and wf: "mem_wf m1"
    and p: "ds_parts m1 a (int (length (d_handlers d))) d s q its ns Fs Fi Ft"
    and F: "F = {a, q} \<union> Fs \<union> Fi \<union> Ft"
  shows "\<exists>m'. moe_derived_struct_free (Some a) m = Inr ((), m') \<and> lost F m1 n m'"
proof -
  have "ds_at m1 a (int (length (d_handlers d))) d F" using p F unfolding ds_at_def by blast
  then have live: "F \<subseteq> dom (blocks m1)" using ds_at_live by blast
  have "kept (dom (blocks m1)) m1 m" by (rule lostE [OF l, unfolded Diff_empty])
  then have "kept F m1 m" using live by (rule kept_subset)
  then have "ds_parts m a (int (length (d_handlers d))) d s q its ns Fs Fi Ft"
    using kept_parts [OF p] F by simp
  then have "ds_at m a (int (length (d_handlers d))) d F" using F unfolding ds_at_def by blast
  from moe_derived_struct_free_ok [OF this] lost_freed [OF l _ live wf] show ?thesis by blast
qed

lemma refines_emit_printed:
  assumes fit: "js_strings_fit E" and wf: "mem_wf m1"
    and p: "ds_parts m1 a (int (length (d_handlers d))) d s q its ns Fs Fi Ft"
    and F: "F = {a, q} \<union> Fs \<union> Fi \<union> Ft"
  shows "refines (\<lambda>m w. m = m1)
     (cbind (from_token_stream_to_js_array E (Some (metadata_of a))) (\<lambda>arr.
      cbind (generate_code_for_derived_struct E rt arr (Some a)) (\<lambda>generated.
      cseq (if generated = None then creturn () else
             cbind (on_mem (moe_string_text generated)) (\<lambda>code.
             cbind (on_rest (append_to_output output_file code)) (\<lambda>r.
             cseq (if r \<noteq> 0 then
                     say (''Error: Failed to append generated code to output file: '' @ output_file @ newline)
                   else creturn ())
                  (on_mem (moe_string_free generated)))))
     (cseq (on_rest (js_do (JS_FreeValue E arr)))
           (on_mem (moe_derived_struct_free (Some a)))))))
     (spec_emit E (global_obj rt) output_file d)
     (\<lambda>n z m w. lost F m1 n m)"
  unfolding spec_emit_def
  apply (rule refines_bind [OF refines_array])
  using ds_partsD(9,10) [OF p] apply (simp_all only: metadata_of_def)
  apply (rule refines_assume, hypsubst)
  apply (rule refines_bind [OF refines_codes [OF fit wf p]])
  apply (rule refines_bind [OF refines_output [OF wf]])
  apply (rule refines_world_bind)
  using destroy_after [OF _ wf p F] apply (fastforce simp: refines_def on_mem_def)
  done

text \<open>The whole of \<open>emit_struct\<close>.\<close>

lemma refines_emit:
  assumes fit: "js_strings_fit E" and wf: "mem_wf m0" and d: "ds_at m0 a (int (length (d_handlers d))) d F"
  shows "refines (\<lambda>m w. m = m0) (emit_struct E rt output_file a) (spec_emit E (global_obj rt) output_file d)
     (\<lambda>n z m w. lost F m0 n m)"
proof -
  from d obtain s q its ns Fs Fi Ft
    where p: "ds_parts m0 a (int (length (d_handlers d))) d s q its ns Fs Fi Ft"
      and F: "F = {a, q} \<union> Fs \<union> Fi \<union> Ft"
    unfolding ds_at_def by blast
  note parts = ds_partsD [OF p]
  let ?ds = "\<lparr>struct_name = Some s, derive_item_num = int (length (d_handlers d)), derive_items = Some q\<rparr>"
  have moved: "lost F m0 n m" if "printed m0 m1" "lost F m1 n m" for m1 n m
    using that(2) kept_trans [OF kept_printed [OF that(1)]]
    by (simp only: lost_def printed_same(2,4) [OF that(1)])
  show ?thesis
    unfolding emit_struct_def
    apply (rule refines_read_mem [where z = ?ds], simp add: parts(4))
    apply (simp only: moe_derived_struct.simps)
    apply (rule refines_read_mem [where z = "cut (d_name d)"], simp add: text_cut [OF parts(5)])
    apply (rule refines_pre [where P' = "\<lambda>m w. printed m0 m"])
     apply (rule refines_say, simp add: printed_emit)+
     apply (rule refines_on_mem [where P' = "\<lambda>z m w. printed m0 m"])
    subgoal for m w
      using metadata_print_ok [of m "(a, 24)" ns "d_tokens d" Ft] parts(9,10)
        moe_node.list_agree [OF parts(10) printed_same(6)] printed_trans
      by (fastforce simp: metadata_of_def printed_same)
     apply (rule refines_each)
     apply (rule refines_post [OF refines_emit_printed [OF fit _ kept_parts [OF p kept_printed] F]])
    using wf moved apply (auto simp: printed_same)
    done
qed

end
