(* ===== verification/Codegen_Main.thy ===== *)
theory Codegen_Main
  imports Codegen_Emit
begin

text \<open>
  The main loop and the program refine their specification on the lexer, the engine and the
  files; what is allocated at the end is what the specification counts as lost.
\<close>

section \<open>Code generation leaves the lexer alone\<close>

definition keeps_lex :: "('e world, 'a) cm \<Rightarrow> bool" where
  "keeps_lex f \<longleftrightarrow> (\<forall>w y w'. f w = Inr (y, w') \<longrightarrow> w_lex w' = w_lex w)"

named_theorems lex_intros \<open>computations on the world that leave the lexer alone\<close>

lemma keeps_lexD: "keeps_lex f \<Longrightarrow> f w = Inr (y, w') \<Longrightarrow> w_lex w' = w_lex w"
  by (simp add: keeps_lex_def)

lemma keeps_lex_bind [lex_intros]:
  "keeps_lex f \<Longrightarrow> (\<And>y. keeps_lex (g y)) \<Longrightarrow> keeps_lex (cbind f g)"
  unfolding keeps_lex_def by (auto simp: cbind_eq_Inr)

lemma keeps_lex_basic [lex_intros]:
  "keeps_lex (creturn x)" "keeps_lex (cfail e)" "keeps_lex (cgets p)" "keeps_lex (js_get h)" "keeps_lex (js_do k)"
  "keeps_lex (js_run p')" "keeps_lex (js_act k')" "keeps_lex (c_str s)" "keeps_lex (i32_add i j)"
  by (auto simp: keeps_lex_def js_get_def js_do_def js_run_def js_act_def c_str_def i32_add_def split: option.splits if_splits)

lemma keeps_lex_if [lex_intros]: "keeps_lex f \<Longrightarrow> keeps_lex g \<Longrightarrow> keeps_lex (if b then f else g)"
  by simp

lemma keeps_lex_append [lex_intros]: "keeps_lex (append_to_output p c)"
  by (auto simp: append_to_output_def file_append_def keeps_lex_def)

lemma keeps_lex_elements [lex_intros]: "keeps_lex (spec_elements E arr i tks)"
  by (induction tks arbitrary: i)
     (auto simp: spec_token_object_def set_prop_def intro!: lex_intros)

lemma keeps_lex_generate [lex_intros]: "keeps_lex (spec_generate E g arr name hs)"
proof (induction hs)
  case Nil
  show ?case unfolding spec_generate.simps by (intro lex_intros)
next
  case (Cons h hs)
  then show ?case
    unfolding spec_generate.simps spec_handler_def spec_call_def spec_exception_def by (intro lex_intros)
qed

lemma keeps_lex_emit [lex_intros]: "keeps_lex (spec_emit E g output_file d)"
  unfolding spec_emit_def spec_array_def by (intro lex_intros)

section \<open>One round\<close>

lemma refines_with:
  assumes "refines P f g Q" and "\<And>m w y w'. P m w \<Longrightarrow> g w = Inr (y, w') \<Longrightarrow> R y w'"
  shows "refines P f g (\<lambda>y z m w. Q y z m w \<and> R y w)"
  unfolding refines_def
proof (intro allI impI)
  fix m w
  assume P: "P m w"
  show "same_outcome (\<lambda>y z m w. Q y z m w \<and> R y w) (g w) (f \<lparr>ps_mem = m, ps_rest = w\<rparr>)"
    using refinesD [OF assms(1) P] assms(2) [OF P] by (cases "g w") auto
qed

lemma world_lex_eq:
  "world_lex f w = (case f (w_lex w) of Inl e \<Rightarrow> Inl e | Inr (y, l) \<Rightarrow> Inr (y, w\<lparr>w_lex := l\<rparr>))"
  by (simp add: world_lex_def clift_apply)

lemma lost_stdout [simp]: "lost F m0 n (m\<lparr>stdout := x\<rparr>) = lost F m0 n m"
proof
  assume "lost F m0 n (m\<lparr>stdout := x\<rparr>)"
  moreover have "printed (m\<lparr>stdout := x\<rparr>) m" unfolding printed_def by (rule exI [of _ "stdout m"]) simp
  ultimately show "lost F m0 n m" by (rule lost_printed)
next
  assume "lost F m0 n m"
  then show "lost F m0 n (m\<lparr>stdout := x\<rparr>)" by (rule lost_printed) (simp add: printed_emit)
qed

text \<open>The state between the rounds, and after a token.\<close>

definition between :: "heap \<Rightarrow> nat \<Rightarrow> heap \<Rightarrow> 'e world \<Rightarrow> bool" where
  "between m0 n m w \<longleftrightarrow> lost {} m0 n m \<and> lex_wf (w_lex w)"

lemma refines_get_token:
  "refines (between m0 n) (in_lex stb_c_lexer_get_token) (world_lex stb_c_lexer_get_token)
     (\<lambda>y z m w. z = y \<and> between m0 n m w \<and> (y \<noteq> 0 \<longrightarrow> token_wf (w_lex w)))"
proof (rule refines_on_rest)
  fix m w y w'
  assume b: "between m0 n m w" and run: "world_lex stb_c_lexer_get_token w = Inr (y, w' :: 'e world)"
  then obtain l where l: "stb_c_lexer_get_token (w_lex w) = Inr (y, l)" "w' = w\<lparr>w_lex := l\<rparr>"
    by (auto simp: world_lex_eq split: sum.splits)
  have "lex_wf (w_lex w)" using b by (simp add: between_def)
  from get_token_step [OF this] l b
  show "y = y \<and> between m0 n m w' \<and> (y \<noteq> 0 \<longrightarrow> token_wf (w_lex w'))"
    by (auto simp: between_def lex_step_def lex_wf_def split: if_splits)
qed

lemma refines_parse_world:
  assumes "mem_wf m0"
  shows "refines (\<lambda>m w. between m0 n m w \<and> token_wf (w_lex w)) (in_parser parse_derived_struct) (world_lex spec_parse)
     (\<lambda>r z m w. \<exists>m1. lost {} m0 n m1 \<and> parse_outcome m1 r z m (w_lex w))"
  unfolding refines_def
proof (intro allI impI)
  fix m and w :: "'e world"
  assume b: "between m0 n m w \<and> token_wf (w_lex w)"
  then have "mem_wf m \<and> lex_wf (w_lex w) \<and> token_wf (w_lex w)" by (auto simp: between_def lost_def)
  then have "same_outcome (parse_outcome m) (spec_parse (w_lex w)) (parse_derived_struct \<lparr>ps_mem = m, ps_rest = w_lex w\<rparr>)"
    by (intro refinesD [OF refines_parse]) simp
  then show "same_outcome (\<lambda>r z m w. \<exists>m1. lost {} m0 n m1 \<and> parse_outcome m1 r z m (w_lex w))
      (world_lex spec_parse w) (in_parser parse_derived_struct \<lparr>ps_mem = m, ps_rest = w\<rparr>)"
    using b by (cases "spec_parse (w_lex w)") (auto simp: world_lex_eq in_parser_def clift_apply between_def, blast)
qed

lemma no_leak_lost:
  assumes "no_leak m1 m" and "mem_wf m1"
  shows "lost {} m1 0 m"
proof -
  have "dom (blocks m1) \<subseteq> {..<fresh_block m1}" using assms(2) by (simp add: mem_wf_def)
  then have "kept (dom (blocks m1)) m1 m"
    using assms(1) by (auto simp: no_leak_def kept_def agree_on_def)
  then show ?thesis
    unfolding lost_def Diff_empty using assms(1)
    by (intro conjI exI [of _ "{}"]) (auto simp: no_leak_def)
qed

lemma lost_building:
  assumes b: "building m1 m a n d" and l: "lost {fresh_block m1..<fresh_block m} m k m'"
  shows "lost {} m1 k m'"
proof -
  let ?F = "{fresh_block m1..<fresh_block m}"
  have wf: "mem_wf m1" "mem_wf m" and g: "mem_grew {} m1 m"
    using b by (simp_all add: building_def)
  have old: "dom (blocks m1) \<subseteq> {..<fresh_block m1}" using wf(1) by (simp add: mem_wf_def)
  have dom: "dom (blocks m) = dom (blocks m1) \<union> ?F" using g by (simp add: mem_grew_def)
  have rest: "dom (blocks m) - ?F = dom (blocks m1)" using dom old by auto
  from l obtain L where L: "dom (blocks m') = dom (blocks m1) \<union> L" "L \<inter> dom (blocks m) = {}"
      "card L = 3 * k" "fresh_block m \<le> fresh_block m'" "L \<subseteq> {fresh_block m..}"
    and m': "mem_wf m'" "kept (dom (blocks m1)) m m'"
    by (rule lostE [of ?F m k m', unfolded rest])
  have le: "fresh_block m1 \<le> fresh_block m" using g by (simp add: mem_grew_def)
  have keep: "kept (dom (blocks m1)) m1 m'" by (rule kept_trans [OF kept_grew [OF wf(1) g] m'(2)])
  have disj: "L \<inter> dom (blocks m1) = {}" using L(2) dom by blast
  have up: "L \<subseteq> {fresh_block m1..}" using L(5) le by (meson atLeast_subset_iff subset_trans)
  show ?thesis
    unfolding lost_def Diff_empty using m'(1) keep L(1,3) disj up le_trans [OF le L(4)] by blast
qed

lemma refines_declared:
  assumes fit: "js_strings_fit E" and wf: "mem_wf m0"
  shows "refines (\<lambda>m w. \<exists>m1. lost {} m0 n m1 \<and> parse_outcome m1 r z m (w_lex w))
     (case z of None \<Rightarrow> creturn () | Some b \<Rightarrow> emit_struct E rt output_file b)
     (case r of None \<Rightarrow> creturn 0 | Some d \<Rightarrow> spec_emit E (global_obj rt) output_file d)
     (\<lambda>k _ m w. between m0 (n + k) m w)"
proof (cases r)
  case None
  have "between m0 n m w" if "lost {} m0 n m1" "parse_outcome m1 None z m (w_lex w)" for m1 m and w :: "'a world"
    using that lost_trans [OF that(1) no_leak_lost wf] by (auto simp: parse_outcome_def between_def elim: lostE)
  then show ?thesis using None by (auto simp: refines_def parse_outcome_def)
next
  case (Some d)
  show ?thesis
    unfolding refines_def
  proof (intro allI impI)
    fix m and w :: "'a world"
    assume "\<exists>m1. lost {} m0 n m1 \<and> parse_outcome m1 r z m (w_lex w)"
    then obtain m1 a where m1: "lost {} m0 n m1" and z: "z = Some a" and lex: "lex_wf (w_lex w)"
      and b: "building m1 m a (int (length (d_handlers d))) d"
      using Some by (auto simp: parse_outcome_def)
    from b have "mem_wf m" "ds_at m a (int (length (d_handlers d))) d {fresh_block m1..<fresh_block m}"
      by (simp_all add: building_def)
    from refinesD [OF refines_emit [OF fit this, of rt output_file], of m w]
    have "same_outcome (\<lambda>k z' m' w'. lost {fresh_block m1..<fresh_block m} m k m')
       (spec_emit E (global_obj rt) output_file d w) (emit_struct E rt output_file a \<lparr>ps_mem = m, ps_rest = w\<rparr>)"
      by simp
    moreover have "between m0 (n + k) m' w'" if "lost {fresh_block m1..<fresh_block m} m k m'"
        "spec_emit E (global_obj rt) output_file d w = Inr (k, w')" for k m' w'
      using lost_trans [OF m1 lost_building [OF b that(1)] wf] keeps_lexD [OF keeps_lex_emit that(2)] lex
      by (simp add: between_def)
    ultimately show "same_outcome (\<lambda>k _ m w. between m0 (n + k) m w)
       ((case r of None \<Rightarrow> creturn 0 | Some d \<Rightarrow> spec_emit E (global_obj rt) output_file d) w)
       ((case z of None \<Rightarrow> creturn () | Some b \<Rightarrow> emit_struct E rt output_file b) \<lparr>ps_mem = m, ps_rest = w\<rparr>)"
      using Some z by (cases "spec_emit E (global_obj rt) output_file d w") auto
  qed
qed

lemma refines_round:
  assumes fit: "js_strings_fit E" and wf: "mem_wf m0"
  shows "refines (between m0 n) (main_round E rt output_file ()) (spec_main_round E (global_obj rt) output_file n)
     (\<lambda>r z m w. case r of
         Inl k \<Rightarrow> (\<exists>b'. z = Inl b' \<and> between m0 k m w)
       | Inr k \<Rightarrow> (\<exists>y. z = Inr y \<and> between m0 k m w))"
  unfolding main_round_def spec_main_round_def
  apply (rule refines_bind [OF refines_get_token], rule refines_assume, hypsubst)
  apply (rule refines_if, rule refines_return, simp)
  apply (rule refines_pre [where P' = "\<lambda>m w. between m0 n m w \<and> token_wf (w_lex w)"])
   apply (rule refines_bind [where Q = "\<lambda>y z m w. z = y \<and> between m0 n m w \<and> token_wf (w_lex w)"])
    apply (rule refines_on_rest, simp add: world_lex_eq)
   apply (rule refines_assume, hypsubst)
   apply (rule refines_if)
    apply (rule refines_say, simp add: between_def)
    apply (rule refines_return, simp)
   apply (rule refines_bind [OF refines_parse_world [OF wf]])
   apply (rule refines_bind [OF refines_declared [OF fit wf]])
   apply (rule refines_return, simp)
  apply simp
  done

section \<open>The loop\<close>

definition spec_main_loop :: "('e, 'v) js_engine \<Rightarrow> 'v \<Rightarrow> string \<Rightarrow> ('e world, nat) cm" where
  "spec_main_loop E g output_file = cloop (spec_main_round E g output_file) 0"

lemma spec_round_progress:
  assumes run: "spec_main_round E g output_file n w = Inr (Inl k, w')" and wf: "lex_wf (w_lex w)"
  shows "lex_left (w_lex w') < lex_left (w_lex w) \<and> lex_wf (w_lex w')"
proof -
  from run obtain more w1 t r w3 where get: "world_lex stb_c_lexer_get_token w = Inr (more, w1)" "more \<noteq> 0"
    and parse: "world_lex spec_parse w1 = Inr (r, w3)"
    and emit: "cbind (case r of None \<Rightarrow> creturn 0 | Some d \<Rightarrow> spec_emit E g output_file d)
        (\<lambda>k. creturn (Inl (n + k) :: nat + nat)) w3 = Inr (Inl k, w')"
    unfolding spec_main_round_def by (auto simp: world_lex_eq cbind_eq_Inr split: if_splits)
  have l1: "after (w_lex w) (w_lex w1)" "token_wf (w_lex w1)"
    using get get_token_step [OF wf] lex_step_after
    by (auto simp: world_lex_eq lex_step_def split: sum.splits if_splits)
  have l3: "later (w_lex w1) (w_lex w3)"
    using parse spec_parse_outcome [OF later_wf(2) [OF l1(1)] l1(2)]
    by (auto simp: world_lex_eq split: sum.splits)
  have "keeps_lex (cbind (case r of None \<Rightarrow> creturn 0 | Some d \<Rightarrow> spec_emit E g output_file d)
        (\<lambda>k. creturn (Inl (n + k) :: nat + nat)))"
    by (cases r) (simp_all only: option.case, (intro lex_intros)+)
  from keeps_lexD [OF this emit] have "w_lex w' = w_lex w3" .
  with after_trans(1) [OF l1(1) l3] show ?thesis by (auto simp: after_def later_def)
qed

lemma refines_main_loop:
  assumes fit: "js_strings_fit E" and wf: "mem_wf m0"
  shows "refines (between m0 0) (cloop (main_round E rt output_file) ()) (spec_main_loop E (global_obj rt) output_file)
     (\<lambda>n z m w. between m0 n m w)"
  unfolding spec_main_loop_def
  by (rule refines_loop [where I = "\<lambda>n u. between m0 n" and mu = "\<lambda>w. lex_left (w_lex w)"])
     (use refines_round [OF fit wf] in \<open>auto simp: between_def dest: spec_round_progress\<close>)

end
