(* ===== verification/Codegen_Run.thy ===== *)
theory Codegen_Run
  imports Codegen_Main
begin

text \<open>
  A run over the input: the lexer is set up, the loop runs, and everything is freed; the leak
  check at the end finds the lost strings.
\<close>

section \<open>Freeing what the program owns\<close>

lemma lost_freed_more:
  assumes l: "lost F m0 n m" and f: "mem_freed G m m'" and G: "G \<subseteq> dom (blocks m0) - F"
  shows "lost (F \<union> G) m0 n m'"
proof -
  from l obtain L where L: "dom (blocks m) = (dom (blocks m0) - F) \<union> L" "L \<inter> dom (blocks m0) = {}"
      "card L = 3 * n" "fresh_block m0 \<le> fresh_block m" "L \<subseteq> {fresh_block m0..}"
    and m: "mem_wf m" "kept (dom (blocks m0) - F) m0 m"
    by (rule lostE)
  have "mem_wf m'" using mem_freed_wf [OF m(1) f] G L(1) by blast
  moreover have "kept (dom (blocks m0) - (F \<union> G)) m0 m'"
    by (rule kept_trans [OF kept_subset [OF m(2)] kept_freed [OF f]]) blast+
  moreover have "dom (blocks m') = (dom (blocks m0) - (F \<union> G)) \<union> L"
  proof -
    have "dom (blocks m') = dom (blocks m) - G" using mem_freedD(1) [OF f] by (auto split: if_splits)
    then show ?thesis unfolding L(1) using L(2) G by blast
  qed
  moreover have "fresh_block m' = fresh_block m" using f by (simp add: mem_freed_def)
  ultimately show ?thesis unfolding lost_def using L(2-5) by (intro conjI exI [of _ L]) simp_all
qed

lemma lost_string_free:
  assumes l: "lost F m0 n m" and s: "string_at m0 s cs G" and disj: "G \<inter> F = {}"
  shows "\<exists>m'. moe_string_free (Some s) m = Inr ((), m') \<and> lost (F \<union> G) m0 n m'"
proof -
  have G: "G \<subseteq> dom (blocks m0) - F" using string_at_live [OF s] disj by blast
  have "kept (dom (blocks m0) - F) m0 m" by (rule lostE [OF l])
  from kept_subset [OF this G] have "agree_on G m0 m" by (simp only: kept_def)
  then have "string_at m s cs G" by (rule string_at_agree [OF s])
  then obtain m' where m': "moe_string_free (Some s) m = Inr ((), m')" "mem_freed G m m'"
    using moe_string_free_ok by blast
  show ?thesis by (rule exI [of _ m']) (rule conjI [OF m'(1) lost_freed_more [OF l m'(2) G]])
qed

lemma lost_block_free:
  assumes l: "lost F m0 n m" and b: "b \<in> dom (blocks m0) - F"
  shows "\<exists>m'. MOE_FREE (Some b) m = Inr ((), m') \<and> lost (F \<union> {b}) m0 n m'"
proof -
  have "kept (dom (blocks m0) - F) m0 m" by (rule lostE [OF l])
  then have "blocks m b \<noteq> None" using b by (auto simp: kept_def agree_on_def domIff)
  then obtain m' where m': "MOE_FREE (Some b) m = Inr ((), m')" "mem_freed {b} m m'"
    using MOE_FREE_ok by blast
  have "{b} \<subseteq> dom (blocks m0) - F" using b by simp
  then show ?thesis by (intro exI [of _ m'] conjI m'(1) lost_freed_more [OF l m'(2)])
qed

text \<open>
  \<open>leaked m0 n m\<close>: nothing that was allocated in \<open>m0\<close> is live any more, and of what came later
  exactly \<open>n\<close> strings of three blocks are.
\<close>

definition leaked :: "heap \<Rightarrow> nat \<Rightarrow> heap \<Rightarrow> bool" where
  "leaked m0 n m \<longleftrightarrow> mem_wf m \<and> card (dom (blocks m)) = 3 * n \<and> dom (blocks m) \<inter> dom (blocks m0) = {}"

lemma lost_leaked:
  assumes l: "lost (dom (blocks m1)) m1 n m" and sub: "dom (blocks m0) \<subseteq> dom (blocks m1)"
  shows "leaked m0 n m"
proof -
  from l obtain L where "dom (blocks m) = L" "L \<inter> dom (blocks m1) = {}" "card L = 3 * n" "mem_wf m"
    by (auto elim: lostE)
  then show ?thesis using sub unfolding leaked_def by blast
qed

lemma leaked_check:
  assumes "leaked m0 n m"
  shows "moe_check_memory_leak m =
    (if 2 ^ 64 dvd n then Inr ((), m) else Inl (Assertion_Failed ''memory leak detected''))"
proof -
  have "(of_nat (3 * n) :: 64 word) = 0 \<longleftrightarrow> 2 ^ 64 dvd 3 * n"
    by (simp only: word_of_nat_eq_0_iff len_bit0 len_num1) simp
  also have "\<dots> \<longleftrightarrow> (2 :: nat) ^ 64 dvd n"
  proof (rule coprime_dvd_mult_right_iff)
    have "coprime (2 :: nat) 3" by simp
    then show "coprime ((2 :: nat) ^ 64) 3" by (subst coprime_power_left_iff) (rule disjI1)
  qed
  finally show ?thesis
    using assms by (simp add: leaked_def moe_check_memory_leak_def mem_wf_def)
qed

section \<open>The run\<close>

text \<open>The result of the part before the leak check is the number of lost strings.\<close>

definition spec_until_check :: "('e, 'v) js_engine \<Rightarrow> 'v \<Rightarrow> string \<Rightarrow> string \<Rightarrow> ('e world, nat) cm" where
  "spec_until_check E g output_file content =
     cseq (world_lex (cmodify (\<lambda>_. stb_c_lexer_init content (replicate 1025 NUL) 1024)))
    (cbind (spec_main_loop E g output_file) (\<lambda>n.
     cseq (js_do (JS_FreeValue E g))
    (cseq (js_do (JS_FreeContext E))
    (cseq (js_check (JS_FreeRuntime E))
          (creturn n)))))"

definition spec_run :: "('e, 'v) js_engine \<Rightarrow> 'v \<Rightarrow> string \<Rightarrow> string option \<Rightarrow> ('e world, int) cm" where
  "spec_run E g output_file input =
     (case input of
        None \<Rightarrow> cfail (Assertion_Failed ''str != NULL'')
      | Some content \<Rightarrow>
          cbind (spec_until_check E g output_file content) (\<lambda>n.
          if 2 ^ 64 dvd n then creturn EXIT_SUCCESS
          else cfail (Assertion_Failed ''memory leak detected'')))"

lemma start_lexer_ok:
  assumes i: "string_at m ib content Fi" and s: "string_at m b (replicate 1024 NUL) Fs"
  shows "start_lexer (Some ib) (Some b) \<lparr>ps_mem = m, ps_rest = w\<rparr> =
    Inr ((), \<lparr>ps_mem = m, ps_rest = w\<lparr>w_lex := stb_c_lexer_init content (replicate 1025 NUL) 1024\<rparr>\<rparr>)"
proof -
  have "(1025 :: nat) = Suc 1024" by simp
  then have "replicate 1024 NUL @ [NUL] = replicate 1025 NUL"
    by (simp only: replicate_Suc replicate_append_same)
  then show ?thesis
    using i s
    by (auto simp: start_lexer_def on_mem_def on_rest_def clift_apply world_lex_eq string_at_def
        moe_string_get_const_def moe_string_get_def)
qed

lemma init_lexer_wf: "lex_wf (stb_c_lexer_init content (replicate 1025 NUL) 1024)"
  by (simp add: lex_wf_def stb_c_lexer_init_def)

lemma refines_mem_step:
  assumes "\<And>m. p m \<Longrightarrow> \<exists>m'. f m = Inr ((), m') \<and> p' m'" and "refines (\<lambda>m w. p' m) f' g Q"
  shows "refines (\<lambda>m w. p m) (cseq (on_mem f) f') g Q"
  by (rule refines_on_mem [where P' = "\<lambda>_ m w. p' m"]) (use assms in blast)+

lemma refines_finish_run:
  assumes i: "string_at m1 ib content Fi" and s: "string_at m1 b st Fs"
    and all: "dom (blocks m1) = Fs \<union> {jr_block rt} \<union> Fi"
    and sep: "Fs \<inter> Fi = {}" "jr_block rt \<notin> Fs" "jr_block rt \<notin> Fi"
  shows "refines (\<lambda>m w. lost {} m1 n m)
     (cseq (on_mem (moe_string_free (Some b)))
     (cseq (moe_js_runtime_free E (Some rt))
           (on_mem (moe_string_free (Some ib)))))
     (cseq (js_do (JS_FreeValue E (global_obj rt)))
     (cseq (js_do (JS_FreeContext E))
     (cseq (js_check (JS_FreeRuntime E))
           (creturn n))))
     (\<lambda>k z m w. lost (dom (blocks m1)) m1 k m)"
  unfolding moe_js_runtime_free_def option.case cbind_assoc
proof (rule refines_mem_step)
  show "\<exists>m'. moe_string_free (Some b) m = Inr ((), m') \<and> lost Fs m1 n m'" if "lost {} m1 n m" for m
    using lost_string_free [OF that s] by simp
  have last: "refines (\<lambda>m w. lost (Fs \<union> {jr_block rt}) m1 n m) (on_mem (moe_string_free (Some ib))) (creturn n)
      (\<lambda>k z m w. lost (dom (blocks m1)) m1 k m)"
    using lost_string_free [OF _ i] sep unfolding all by (fastforce simp: refines_def on_mem_def)
  show "refines (\<lambda>m w. lost Fs m1 n m)
     (cseq (on_rest (js_do (JS_FreeValue E (global_obj rt))))
     (cseq (on_rest (js_do (JS_FreeContext E)))
     (cseq (on_rest (js_check (JS_FreeRuntime E)))
     (cseq (on_mem (MOE_FREE (Some (jr_block rt))))
           (on_mem (moe_string_free (Some ib)))))))
     (cseq (js_do (JS_FreeValue E (global_obj rt)))
     (cseq (js_do (JS_FreeContext E))
     (cseq (js_check (JS_FreeRuntime E))
           (creturn n))))
     (\<lambda>k z m w. lost (dom (blocks m1)) m1 k m)"
    apply (rule refines_world_bind)
    apply (rule refines_world_bind)
    apply (rule refines_world_bind)
    apply (rule refines_mem_step [OF lost_block_free last], assumption)
    using all sep(2) apply blast
    done
qed

lemma refines_until_check:
  assumes fit: "js_strings_fit E" and wf: "mem_wf m0" and i: "string_at m0 ib content Fi"
    and all: "dom (blocks m0) = insert (jr_block rt) Fi" and j: "jr_block rt \<notin> Fi"
  shows "refines (\<lambda>m w. m = m0) (run_until_check E rt output_file (Some ib))
     (spec_until_check E (global_obj rt) output_file content) (\<lambda>n z m w. leaked m0 n m)"
proof -
  have old: "dom (blocks m0) \<subseteq> {..<fresh_block m0}" using wf by (simp add: mem_wf_def)
  obtain m1 where m1: "moe_string_alloc None 1024 m0 = Inr (Some (fresh_block m0), m1)" "mem_ext m0 m1"
      "string_at m1 (fresh_block m0) (replicate 1024 NUL) {fresh_block m0..<fresh_block m1}"
    using mem_ext_string [OF wf, of None 1024 "replicate 1024 NUL"] by (auto simp: c_bytes_def)
  have g: "mem_grew {} m0 m1" and wf1: "mem_wf m1" using m1(2) by (simp_all add: mem_ext_def)
  have "Fi \<subseteq> dom (blocks m0)" using all by blast
  from string_at_agree [OF i agree_on_grew [OF g this wf]] have i1: "string_at m1 ib content Fi" .
  have all1: "dom (blocks m1) = {fresh_block m0..<fresh_block m1} \<union> {jr_block rt} \<union> Fi"
    using g all by (auto simp: mem_grew_def)
  have sep: "{fresh_block m0..<fresh_block m1} \<inter> Fi = {}" "jr_block rt \<notin> {fresh_block m0..<fresh_block m1}"
    using old all by auto
  have sub: "dom (blocks m0) \<subseteq> dom (blocks m1)" using all all1 by blast
  show ?thesis
    unfolding run_until_check_def spec_until_check_def
    apply (rule refines_on_mem [where P' = "\<lambda>z m w. z = Some (fresh_block m0) \<and> m = m1"])
    using m1(1) apply blast
    apply (rule refines_assume, hypsubst)
    apply (rule refines_bind [where Q = "\<lambda>_ _. between m1 0"])
     apply (auto simp: refines_def start_lexer_ok [OF i1 m1(3)] world_lex_eq between_def init_lexer_wf lost_none [OF wf1])[1]
    apply (rule refines_bind [OF refines_main_loop [OF fit wf1]])
    apply (rule refines_pre [OF refines_post [OF refines_finish_run [OF i1 m1(3) all1 sep j] lost_leaked [OF _ sub]]], assumption)
    apply (simp add: between_def)
    done
qed

lemma refines_run:
  assumes fit: "js_strings_fit E" and wf: "mem_wf m0" and i: "string_at m0 ib content Fi"
    and all: "dom (blocks m0) = insert (jr_block rt) Fi" and j: "jr_block rt \<notin> Fi"
  shows "refines (\<lambda>m w. m = m0) (run_input E rt output_file (Some ib))
     (spec_run E (global_obj rt) output_file (Some content)) (\<lambda>y z m w. z = y)"
  unfolding run_input_def spec_run_def option.case
proof (rule refines_bind [OF refines_until_check [OF assms]])
  show "refines (\<lambda>m w. leaked m0 n m) (cseq (on_mem moe_check_memory_leak) (creturn EXIT_SUCCESS))
      (if 2 ^ 64 dvd n then creturn EXIT_SUCCESS else cfail (Assertion_Failed ''memory leak detected''))
      (\<lambda>y z m w. z = y)" for n
    using leaked_check [of m0 n] by (auto simp: refines_def on_mem_def clift_apply cbind_apply)
qed

end
