(* ===== verification/Codegen_Program.thy ===== *)
theory Codegen_Program
  imports Codegen_Run
begin

text \<open>
  The whole program refines its specification on the lexer, the engine and the files.
\<close>

section \<open>The specification\<close>

definition base_name :: "string \<Rightarrow> string" where
  "base_name path =
     (case after_last (CHR ''/'') path of
        Some b \<Rightarrow> b
      | None \<Rightarrow> (case after_last (CHR 0x5C) path of Some b \<Rightarrow> b | None \<Rightarrow> path))"

text \<open>An empty file ends the program: its size is taken for a request to measure a null pointer.\<close>

definition spec_read_file :: "string \<Rightarrow> ('e world, string option) cm" where
  "spec_read_file path =
     cbind (cgets w_files) (\<lambda>files.
     case files path of
       None \<Rightarrow> creturn None
     | Some content \<Rightarrow> if content = [] then cfail Null_Dereference else creturn (Some content))"

definition spec_load_scripts :: "('e, 'v) js_engine \<Rightarrow> string \<Rightarrow> ('e world, int) cm" where
  "spec_load_scripts E path =
     cbind (spec_read_file path) (\<lambda>script.
     case script of
       None \<Rightarrow> creturn 1
     | Some content \<Rightarrow>
         cbind (js_run (JS_Eval E content path)) (\<lambda>ret.
         cseq (if JS_IsException E ret then spec_exception E else creturn ())
        (cseq (js_do (JS_FreeValue E ret)) (creturn 0))))"

definition spec_main :: "('e, 'v) js_engine \<Rightarrow> string list \<Rightarrow> ('e world, int) cm" where
  "spec_main E argv =
     (if length argv < 4 then creturn EXIT_FAILURE
      else
        let input_file = argv ! 1; output_file = argv ! 2; script_file = argv ! 3 in
        cbind (clear_file output_file) (\<lambda>failed.
        if failed \<noteq> 0 then creturn EXIT_FAILURE
        else
          cseq (append_include_directive output_file (base_name input_file))
         (cbind (spec_read_file input_file) (\<lambda>input.
          cseq (js_do (JS_NewRuntime E))
         (cseq (js_do (JS_NewContext E))
         (cbind (js_get (JS_GetGlobalObject E)) (\<lambda>g.
          cbind (spec_load_scripts E script_file) (\<lambda>failed.
          if failed \<noteq> 0 then creturn EXIT_FAILURE
          else spec_run E g output_file input))))))))"

section \<open>Files\<close>

text \<open>The lengths of the files that are read are \<^verbatim>\<open>int\<close> values with room for the terminator.\<close>

definition fits :: "string set \<Rightarrow> 'e world \<Rightarrow> bool" where
  "fits ps w \<longleftrightarrow> (\<forall>p \<in> ps. \<forall>c. w_files w p = Some c \<longrightarrow> length c + 1 < 2 ^ 31)"

lemma refines_keep:
  assumes "\<And>w y w'. r w \<Longrightarrow> g w = Inr (y, w') \<Longrightarrow> r w'"
    and "\<And>y. refines (\<lambda>m w. p m \<and> r w) (f' y) (g' y) Q"
  shows "refines (\<lambda>m w. p m \<and> r w) (cbind (on_rest g) f') (cbind g g') Q"
  by (rule refines_bind [where Q = "\<lambda>y z m w. z = y \<and> p m \<and> r w"])
     (rule refines_on_rest, use assms(1) in blast, rule refines_assume, use assms(2) in simp)

lemma fits_js: "fits ps w \<Longrightarrow> js_get h w = Inr (y, w') \<Longrightarrow> fits ps w'"
  "fits ps w \<Longrightarrow> js_do k w = Inr (u, w') \<Longrightarrow> fits ps w'"
  by (auto simp: fits_def js_get_def js_do_def)

lemma fits_clear: "fits ps w \<Longrightarrow> out \<notin> ps \<Longrightarrow> clear_file out w = Inr (y, w') \<Longrightarrow> fits ps w'"
  by (auto simp: fits_def clear_file_def cbind_eq_Inr split: if_splits)

lemma fits_include: "fits ps w \<Longrightarrow> out \<notin> ps \<Longrightarrow> append_include_directive out h w = Inr (y, w') \<Longrightarrow> fits ps w'"
  by (auto simp: fits_def append_include_directive_def file_append_def cbind_eq_Inr split: if_splits)

lemma read_file_ok:
  assumes wf: "mem_wf m" and fl: "w_files w path = Some content" and c: "content \<noteq> []" "length content + 1 < 2 ^ 31"
  shows "\<exists>b m'. read_file path \<lparr>ps_mem = m, ps_rest = w\<rparr> = Inr (Some b, \<lparr>ps_mem = m', ps_rest = w\<rparr>) \<and>
     mem_ext m m' \<and> string_at m' b content {fresh_block m..<fresh_block m'}"
proof -
  let ?n = "int (length content)" and ?b = "fresh_block m"
  have n: "to_i32 ?n = ?n" using c(2) by (intro to_i32_id) (simp add: in_i32_def)
  have "c_bytes None ?n (replicate (length content) NUL)" using c by (simp add: c_bytes_def)
  from mem_ext_string [OF wf this] obtain m1 where m1: "moe_string_alloc None ?n m = Inr (Some ?b, m1)"
      "mem_ext m m1" "fresh_block m1 = ?b + 3"
      "string_at m1 ?b (replicate (length content) NUL) {?b..<fresh_block m1}" by blast
  from m1(4) obtain i d where sa: "distinct [?b, i, d]" "{?b..<fresh_block m1} = {?b, i, d}"
      "{?b..<fresh_block m1} \<subseteq> dom (blocks m1)"
      "objs m1 ?b = Some (Obj_String \<lparr>str_internal = Some i, str_length = int (length content), str_capacity = int (length content) + 1\<rparr>)"
      "objs m1 i = Some (Obj_String_Internal \<lparr>si_data = Some d, si_ref_count = 1\<rparr>)"
      "objs m1 d = Some (Obj_Chars (replicate (length content) NUL @ [NUL]))"
    by (auto simp: string_at_def)
  let ?m = "m1\<lparr>objs := (objs m1)(d \<mapsto> Obj_Chars (content @ [NUL]))\<rparr>"
  have d: "blocks m1 d \<noteq> None" "?b \<le> d" using sa(2,3) by (auto simp: domIff)
  have "nat (?n mod 2 ^ 64) = length content" using c(2) by simp
  then have "read_file path \<lparr>ps_mem = m, ps_rest = w\<rparr> = Inr (Some ?b, \<lparr>ps_mem = ?m, ps_rest = w\<rparr>)"
    using fl m1(1) n sa d
    by (simp add: read_file_def on_rest_def on_mem_def clift_apply Let_def moe_string_get_def write_chars_def)
  moreover have "mem_ext m ?m" by (rule mem_ext_store [OF m1(2) d(2,1)])
  moreover have "string_at ?m ?b content {?b..<fresh_block ?m}"
    unfolding string_at_def using sa by (intro exI [of _ i] exI [of _ d]) auto
  ultimately show ?thesis by blast
qed

section \<open>What the program owns before the run\<close>

definition own_input :: "string option \<Rightarrow> block option \<Rightarrow> block set \<Rightarrow> heap \<Rightarrow> bool" where
  "own_input input ip J m \<longleftrightarrow> mem_wf m \<and>
     (case input of
        None \<Rightarrow> ip = None
      | Some content \<Rightarrow> \<exists>b F. ip = Some b \<and> string_at m b content F \<and> dom (blocks m) = J \<union> F \<and> J \<inter> F = {})"

lemma own_input_same:
  assumes own: "own_input input ip J m" and wf: "mem_wf m'" and l: "lost {} m 0 m'"
  shows "own_input input ip J m'"
proof (cases input)
  case None
  then show ?thesis using own wf by (simp add: own_input_def)
next
  case (Some content)
  with own obtain b F where b: "ip = Some b" "string_at m b content F" "dom (blocks m) = J \<union> F" "J \<inter> F = {}"
    by (auto simp: own_input_def)
  from l obtain L where L: "dom (blocks m') = dom (blocks m) \<union> L" "card L = 3 * 0" and k: "kept (dom (blocks m)) m m'"
    by (rule lostE [of "{}" m 0 m', unfolded Diff_empty])
  have "finite L" using mem_wf_finite [OF wf] L(1) by (auto intro: finite_subset)
  then have "dom (blocks m') = dom (blocks m)" using L by simp
  moreover have "string_at m' b content F"
    using kept_subset [OF k, of F] b(3) string_at_agree [OF b(2)] by (simp add: kept_def)
  ultimately show ?thesis using Some b wf by (auto simp: own_input_def)
qed

lemma own_input_stdout: "own_input input ip J m \<Longrightarrow> own_input input ip J (m\<lparr>stdout := x\<rparr>)"
  using own_input_same [of input ip J m "m\<lparr>stdout := x\<rparr>"] lost_none [of m] by (auto simp: own_input_def)

section \<open>The steps of the program\<close>

text \<open>A new string whose blocks are freed again leaves nothing.\<close>

lemma lost_temporary:
  assumes wf: "mem_wf m" and e: "mem_ext m m1" and s: "string_at m1 b cs {fresh_block m..<fresh_block m1}"
    and p: "printed m1 m2"
  shows "\<exists>m3. moe_string_free (Some b) m2 = Inr ((), m3) \<and> lost {} m 0 m3"
proof -
  obtain m3 where m3: "moe_string_free (Some b) m2 = Inr ((), m3)" "mem_freed {fresh_block m..<fresh_block m1} m2 m3"
    using moe_string_free_ok [OF string_at_printed [OF s p]] by blast
  let ?F = "{fresh_block m..<fresh_block m1}"
  have g: "mem_grew {} m m2" "mem_wf m2" using e printed_same [OF p] by (simp_all add: mem_ext_def)
  have old: "dom (blocks m) \<inter> ?F = {}" using wf by (auto simp: mem_wf_def)
  have live: "?F \<subseteq> dom (blocks m2)"
    using string_at_live [OF string_at_printed [OF s p]] by blast
  have keep: "kept (dom (blocks m)) m m3"
    by (rule kept_trans [OF kept_grew [OF wf g(1)] kept_freed [OF m3(2) old]])
  have f: "fresh_block m2 = fresh_block m1" by (rule printed_same(4) [OF p])
  have "dom (blocks m3) = dom (blocks m2) - ?F" using mem_freedD(1) [OF m3(2)] by (auto split: if_splits)
  also have "dom (blocks m2) = dom (blocks m) \<union> ?F" using g(1) f by (simp add: mem_grew_def)
  finally have "dom (blocks m3) = dom (blocks m)" using old by blast
  moreover have "fresh_block m \<le> fresh_block m3" using g(1) m3(2) by (simp add: mem_grew_def mem_freed_def)
  ultimately have "lost {} m 0 m3"
    unfolding lost_def Diff_empty using keep mem_freed_wf [OF g(2) m3(2) live]
    by (intro conjI exI [of _ "{}"]) simp_all
  then show ?thesis using m3(1) by blast
qed

lemma refines_read_file:
  assumes wf: "mem_wf m1" and r: "\<And>w. r w \<Longrightarrow> fits {path} w"
  shows "refines (\<lambda>m w. m = m1 \<and> r w) (read_file path) (spec_read_file path)
     (\<lambda>y z m w. (case y of None \<Rightarrow> z = None \<and> m = m1
        | Some content \<Rightarrow> \<exists>b. z = Some b \<and> mem_ext m1 m \<and> string_at m b content {fresh_block m1..<fresh_block m}) \<and> r w)"
  unfolding refines_def
proof (intro allI impI)
  fix m w
  assume m: "m = m1 \<and> r w"
  show "same_outcome (\<lambda>y z m w. (case y of None \<Rightarrow> z = None \<and> m = m1
        | Some content \<Rightarrow> \<exists>b. z = Some b \<and> mem_ext m1 m \<and> string_at m b content {fresh_block m1..<fresh_block m}) \<and> r w)
     (spec_read_file path w) (read_file path \<lparr>ps_mem = m, ps_rest = w\<rparr>)"
  proof (cases "w_files w path")
    case None
    then show ?thesis using m by (simp add: spec_read_file_def read_file_def on_rest_def clift_apply)
  next
    case (Some content)
    show ?thesis
    proof (cases "content = []")
      case True
      then show ?thesis using Some moe_string_alloc_NULL_zero [of m]
        by (simp add: spec_read_file_def read_file_def on_rest_def on_mem_def clift_apply to_i32_def)
    next
      case False
      have "length content + 1 < 2 ^ 31" using r m Some by (auto simp: fits_def)
      with read_file_ok [OF wf Some False this] m Some False show ?thesis
        by (auto simp: spec_read_file_def)
    qed
  qed
qed

lemma string_at_parts:
  assumes "string_at m b cs F"
  obtains d r where "moe_string_get (Some b) m = Inr (Some d, m)" and "moe_string_get_const (Some b) m = Inr (Some d, m)"
    and "load_chars (Some d) m = Inr (cs @ [NUL], m)"
    and "load_string (Some b) m = Inr (r, m)" and "str_length r = int (length cs)"
proof -
  obtain i d where *: "objs m b = Some (Obj_String \<lparr>str_internal = Some i, str_length = int (length cs),
       str_capacity = int (length cs) + 1\<rparr>)"
     "objs m i = Some (Obj_String_Internal \<lparr>si_data = Some d, si_ref_count = 1\<rparr>)"
     "objs m d = Some (Obj_Chars (cs @ [NUL]))"
    using assms by (auto simp: string_at_def)
  show thesis
    by (rule that [of d "\<lparr>str_internal = Some i, str_length = int (length cs), str_capacity = int (length cs) + 1\<rparr>"])
       (simp_all add: * moe_string_get_def moe_string_get_const_def)
qed

lemma refines_script:
  assumes own: "own_input input ip J m1" and e: "mem_ext m1 m2"
    and s: "string_at m2 b content {fresh_block m1..<fresh_block m2}"
  shows "refines (\<lambda>m w. m = m2)
    (cbind (on_mem (moe_string_text (Some b))) (\<lambda>txt.
       cseq (say (txt @ newline))
      (cbind (on_mem (moe_string_get (Some b))) (\<lambda>buf.
       cbind (on_mem (load_chars buf)) (\<lambda>cs.
       cbind (on_mem (load_string (Some b))) (\<lambda>r.
       cbind (on_rest (js_run (JS_Eval E (take (nat (str_length r)) cs) script_path))) (\<lambda>ret.
       cseq (on_mem (moe_string_free (Some b)))
      (cseq (if JS_IsException E ret then report_exception E msg else creturn ())
      (cseq (on_rest (js_do (JS_FreeValue E ret)))
            (creturn 0))))))))))
    (cbind (js_run (JS_Eval E content script_path)) (\<lambda>ret.
       cseq (if JS_IsException E ret then spec_exception E else creturn ())
      (cseq (js_do (JS_FreeValue E ret)) (creturn 0))))
    (\<lambda>y z m w. z = y \<and> own_input input ip J m)"
proof -
  have wf: "mem_wf m1" using own by (simp add: own_input_def)
  have free: "\<exists>m'. moe_string_free (Some b) m = Inr ((), m') \<and> own_input input ip J m'" if "printed m2 m" for m
    using lost_temporary [OF wf e s that] own_input_same [OF own] by (auto elim: lostE)
  note str = string_at_printed [OF s]
  show ?thesis
    apply (rule refines_pre [where P' = "\<lambda>m w. printed m2 m"])
     apply (rule refines_read_mem [where z = "cut content"], rule text_cut(1) [OF str], assumption)
     apply (rule refines_say, simp add: printed_emit)
     apply (rule refines_each)
    subgoal for m
      apply (rule string_at_parts [OF str [of m]], assumption)
      subgoal for d rr
        apply (rule refines_read_mem [where z = "Some d"], simp)
        apply (rule refines_read_mem [where z = "content @ [NUL]"], simp)
        apply (rule refines_read_mem [where z = rr], simp)
        apply (simp only: nat_int take_append take_all le_refl diff_self_eq_0 take_0 append_Nil2)
        apply (rule refines_world_bind)
        apply (rule refines_mem_step [where p' = "own_input input ip J"])
         apply (use free in simp)
        apply (rule refines_bind [where Q = "\<lambda>_ _ m w. own_input input ip J m"])
         apply (rule refines_if, rule refines_exception, erule own_input_stdout)
         apply (rule refines_return, assumption)
        apply (rule refines_world_bind)
        apply (rule refines_return, simp)
        done
      done
    apply simp
    done
qed

lemma refines_each_with:
  "(\<And>m1. p m1 \<Longrightarrow> refines (\<lambda>m w. m = m1 \<and> r w) f g Q) \<Longrightarrow> refines (\<lambda>m w. p m \<and> r w) f g Q"
  unfolding refines_def by blast

lemma refines_load_scripts:
  assumes r: "\<And>w. r w \<Longrightarrow> fits {path} w"
  shows "refines (\<lambda>m w. own_input input ip J m \<and> r w) (load_proc_macro_scripts E path) (spec_load_scripts E path)
     (\<lambda>y z m w. z = y \<and> own_input input ip J m)"
proof (rule refines_each_with)
  fix m1
  assume own: "own_input input ip J m1"
  then have wf: "mem_wf m1" by (simp add: own_input_def)
  show "refines (\<lambda>m w. m = m1 \<and> r w) (load_proc_macro_scripts E path) (spec_load_scripts E path)
     (\<lambda>y z m w. z = y \<and> own_input input ip J m)"
    unfolding load_proc_macro_scripts_def spec_load_scripts_def
  proof (rule refines_bind [OF refines_read_file [OF wf r]])
    fix y z
    let ?P = "\<lambda>m w. (case y of None \<Rightarrow> z = None \<and> m = m1
       | Some content \<Rightarrow> \<exists>b. z = Some b \<and> mem_ext m1 m \<and> string_at m b content {fresh_block m1..<fresh_block m}) \<and> r w"
    let ?f = "if z = None then
         cseq (say (''Error: Failed to read proc macro script file: '' @ path @ newline)) (creturn 1)
       else
         cbind (on_mem (moe_string_text z)) (\<lambda>txt.
         cseq (say (txt @ newline))
        (cbind (on_mem (moe_string_get z)) (\<lambda>buf.
         cbind (on_mem (load_chars buf)) (\<lambda>cs.
         cbind (on_mem (load_string z)) (\<lambda>r.
         cbind (on_rest (js_run (JS_Eval E (take (nat (str_length r)) cs) path))) (\<lambda>ret.
         cseq (on_mem (moe_string_free z))
        (cseq (if JS_IsException E ret then
                 report_exception E (''Error: Exception when evaluating proc macro script '' @ path @ '': '')
               else creturn ())
        (cseq (on_rest (js_do (JS_FreeValue E ret)))
              (creturn 0)))))))))"
    show "refines ?P ?f (case y of None \<Rightarrow> creturn 1
       | Some content \<Rightarrow>
           cbind (js_run (JS_Eval E content path)) (\<lambda>ret.
           cseq (if JS_IsException E ret then spec_exception E else creturn ())
          (cseq (js_do (JS_FreeValue E ret)) (creturn 0))))
       (\<lambda>y z m w. z = y \<and> own_input input ip J m)"
    proof (cases y)
      case None
      show ?thesis
        unfolding None option.case
        apply (rule refines_pre [where P' = "\<lambda>m w. z = None \<and> own_input input ip J m"])
         apply (rule refines_assume)
         apply (simp only: if_True simp_thms)
         apply (rule refines_say, erule own_input_stdout)
         apply (rule refines_return, simp)
        using own apply simp
        done
    next
      case (Some content)
      show ?thesis
        unfolding Some option.case
        apply (rule refines_pre [where P' = "\<lambda>m w. \<exists>b. z = Some b \<and> mem_ext m1 m \<and>
            string_at m b content {fresh_block m1..<fresh_block m}"])
         apply (rule refines_ex, rule refines_assume)
        subgoal for b
          apply (rule refines_each)
          apply (simp only: option.distinct if_False)
          apply (rule refines_script [OF own], blast, blast)
          done
        apply simp
        done
    qed
  qed
qed

lemma own_input_block:
  assumes own: "own_input input ip {} m1" and e: "mem_ext m1 m" and f: "fresh_block m = Suc (fresh_block m1)"
  shows "own_input input ip {fresh_block m1} m"
proof (cases input)
  case None
  then show ?thesis using own e by (simp add: own_input_def mem_ext_def)
next
  case (Some content)
  with own obtain b F where b: "ip = Some b" "string_at m1 b content F" "dom (blocks m1) = F" and wf: "mem_wf m1"
    by (auto simp: own_input_def)
  have g: "mem_grew {} m1 m" "mem_wf m" using e by (simp_all add: mem_ext_def)
  have "F \<subseteq> dom (blocks m1)" using b(3) by blast
  then have "string_at m b content F" by (rule string_at_agree [OF b(2) agree_on_grew [OF g(1) _ wf]])
  moreover have "dom (blocks m) = {fresh_block m1} \<union> F" using g(1) f b(3) by (auto simp: mem_grew_def)
  moreover have "{fresh_block m1} \<inter> F = {}" using wf b(3) by (auto simp: mem_wf_def)
  ultimately show ?thesis using Some b(1) g(2) by (auto simp: own_input_def)
qed

lemma refines_runtime_alloc:
  assumes own: "own_input input ip {} m1"
    and k: "\<And>j g. refines (\<lambda>m w. own_input input ip {j} m \<and> fits ps w) (f' \<lparr>jr_block = j, global_obj = g\<rparr>) (g' g) Q"
  shows "refines (\<lambda>m w. m = m1 \<and> fits ps w) (cbind (moe_js_runtime_alloc E) f')
     (cseq (js_do (JS_NewRuntime E)) (cseq (js_do (JS_NewContext E)) (cbind (js_get (JS_GetGlobalObject E)) g'))) Q"
proof -
  let ?j = "fresh_block m1"
  have "mem_wf m1" using own by (simp add: own_input_def)
  from mem_ext_alloc [OF this] obtain m2 where m2: "MOE_ALLOC ''moe_js_runtime_t'' 32 m1 = Inr (?j, m2)"
      "mem_ext m1 m2" "fresh_block m2 = Suc ?j" by blast
  let ?m = "m2\<lparr>objs := (objs m2)(?j \<mapsto> Obj_Js_Runtime)\<rparr>"
  have live: "blocks m2 ?j \<noteq> None" using mem_ext_live [OF m2(2)] m2(3) by simp
  then have "mem_ext m1 ?m" by (intro mem_ext_store [OF m2(2)]) simp
  then have own2: "own_input input ip {?j} ?m" by (rule own_input_block [OF own]) (simp add: m2(3))
  show ?thesis
    unfolding moe_js_runtime_alloc_def cbind_assoc cbind_creturn
    apply (rule refines_on_mem [where P' = "\<lambda>z m w. z = ?j \<and> m = m2 \<and> fits ps w"])
    using m2(1) apply blast
    apply (rule refines_assume, hypsubst)
    apply (rule refines_on_mem [where P' = "\<lambda>z m w. own_input input ip {?j} m \<and> fits ps w"])
    using live own2 apply simp
    apply (rule refines_keep, erule fits_js, assumption)
    apply (rule refines_keep, erule fits_js, assumption)
    apply (rule refines_keep, erule fits_js, assumption)
    apply (rule k)
    done
qed

section \<open>The program\<close>

lemma after_last_part: "after_last c path = Some b \<Longrightarrow> set b \<subseteq> set path \<and> length b \<le> length path"
  using set_takeWhileD [of _ "\<lambda>x. x \<noteq> c" "rev path"] length_takeWhile_le [of "\<lambda>x. x \<noteq> c" "rev path"]
  by (auto simp: after_last_def split: if_splits)

lemma base_name_part: "set (base_name path) \<subseteq> set path \<and> length (base_name path) \<le> length path"
  unfolding base_name_def by (auto split: option.splits dest: after_last_part)

lemma extract_base_filename_ok:
  assumes wf: "mem_wf m" and path: "NUL \<notin> set path" "length path + 1 < 2 ^ 31"
  shows "\<exists>m'. extract_base_filename path m = Inr (Some (fresh_block m), m') \<and> mem_ext m m' \<and>
     string_at m' (fresh_block m) (base_name path) {fresh_block m..<fresh_block m'}"
proof -
  have "c_bytes (Some (base_name path @ [NUL])) 0 (base_name path)"
    using base_name_part [of path] path by (auto simp: c_bytes_def)
  from mem_ext_string [OF wf this] show ?thesis
    unfolding extract_base_filename_def base_name_def Let_def by blast
qed

lemma own_input_read:
  assumes "mem_wf m1" and "blocks m1 = Map.empty"
    and "case y of None \<Rightarrow> z = None \<and> m = m1
       | Some content \<Rightarrow> \<exists>b. z = Some b \<and> mem_ext m1 m \<and> string_at m b content {fresh_block m1..<fresh_block m}"
  shows "own_input y z {} m"
proof (cases y)
  case (Some content)
  then obtain b where b: "z = Some b" "mem_ext m1 m" "string_at m b content {fresh_block m1..<fresh_block m}"
    using assms(3) by auto
  have "dom (blocks m) = {fresh_block m1..<fresh_block m}" using b(2) assms(2) by (simp add: mem_ext_def mem_grew_def)
  then show ?thesis using Some b by (auto simp: own_input_def mem_ext_def)
qed (use assms in \<open>auto simp: own_input_def\<close>)

lemma refines_run_case:
  assumes fit: "js_strings_fit E"
  shows "refines (\<lambda>m w. own_input y z {jr_block rt} m) (run_input E rt output_file z)
     (spec_run E (global_obj rt) output_file y) (\<lambda>c c' m w. c' = c)"
proof (cases y)
  case None
  have "run_input E rt output_file None \<lparr>ps_mem = m, ps_rest = w\<rparr> = Inl (Assertion_Failed ''str != NULL'')"
    if "mem_wf m" for m and w :: "'a world"
    using mem_ext_string [OF that, of None 1024 "replicate 1024 NUL"]
    by (auto simp: run_input_def run_until_check_def c_bytes_def on_mem_def clift_apply start_lexer_def moe_string_get_const_def)
  then show ?thesis using None by (auto simp: refines_def own_input_def spec_run_def)
next
  case (Some content)
  have "refines (\<lambda>m w. own_input (Some content) (Some b) {jr_block rt} m) (run_input E rt output_file (Some b))
      (spec_run E (global_obj rt) output_file (Some content)) (\<lambda>c c' m w. c' = c)" for b
  proof (rule refines_each)
    fix m1
    assume "own_input (Some content) (Some b) {jr_block rt} m1"
    then obtain F where wf: "mem_wf m1" and s: "string_at m1 b content F"
        and all: "dom (blocks m1) = insert (jr_block rt) F" and j: "jr_block rt \<notin> F"
      by (auto simp: own_input_def)
    show "refines (\<lambda>m w. m = m1) (run_input E rt output_file (Some b))
      (spec_run E (global_obj rt) output_file (Some content)) (\<lambda>c c' m w. c' = c)"
      by (rule refines_post [OF refines_run [OF fit wf s all j]]) simp
  qed
  then show ?thesis using Some by (cases z) (auto simp: refines_def own_input_def)
qed

lemma refines_after_read:
  assumes fit: "js_strings_fit E" and wf: "mem_wf m1" and empty: "blocks m1 = Map.empty"
  shows "refines (\<lambda>m w. m = m1 \<and> fits {input_file, script_file} w)
    (cbind (read_file input_file) (\<lambda>input_str.
          cbind (moe_js_runtime_alloc E) (\<lambda>rt.
          cbind (load_proc_macro_scripts E script_file) (\<lambda>failed.
          if failed \<noteq> 0 then creturn EXIT_FAILURE
          else run_input E rt output_file input_str))))
    (cbind (spec_read_file input_file) (\<lambda>input.
          cseq (js_do (JS_NewRuntime E))
         (cseq (js_do (JS_NewContext E))
         (cbind (js_get (JS_GetGlobalObject E)) (\<lambda>g.
          cbind (spec_load_scripts E script_file) (\<lambda>failed.
          if failed \<noteq> 0 then creturn EXIT_FAILURE
          else spec_run E g output_file input))))))
    (\<lambda>y z m w. z = y)"
proof (rule refines_bind [OF refines_read_file [OF wf]])
  fix w :: "'a world"
  show "fits {input_file, script_file} w \<Longrightarrow> fits {input_file} w" by (simp add: fits_def)
next
  fix y z
  have own: "refines (\<lambda>m w. own_input y z {} m \<and> fits {input_file, script_file} w)
     (cbind (moe_js_runtime_alloc E) (\<lambda>rt.
        cbind (load_proc_macro_scripts E script_file) (\<lambda>failed.
        if failed \<noteq> 0 then creturn EXIT_FAILURE else run_input E rt output_file z)))
     (cseq (js_do (JS_NewRuntime E)) (cseq (js_do (JS_NewContext E))
       (cbind (js_get (JS_GetGlobalObject E)) (\<lambda>g.
        cbind (spec_load_scripts E script_file) (\<lambda>failed.
        if failed \<noteq> 0 then creturn EXIT_FAILURE else spec_run E g output_file y)))))
     (\<lambda>y z m w. z = y)"
    apply (rule refines_each_with)
    apply (rule refines_runtime_alloc, assumption)
    apply (rule refines_bind)
     apply (rule refines_load_scripts)
     apply (simp add: fits_def)
    apply (rule refines_assume)
    apply (simp only:)
    apply (rule refines_if)
     apply (rule refines_return, simp)
    subgoal for m1 j g
      using refines_run_case [OF fit, of y z "\<lparr>jr_block = j, global_obj = g\<rparr>" output_file] by simp
    done
  show "refines (\<lambda>m w. (case y of None \<Rightarrow> z = None \<and> m = m1
        | Some content \<Rightarrow> \<exists>b. z = Some b \<and> mem_ext m1 m \<and>
            string_at m b content {fresh_block m1..<fresh_block m}) \<and> fits {input_file, script_file} w)
     (cbind (moe_js_runtime_alloc E) (\<lambda>rt.
        cbind (load_proc_macro_scripts E script_file) (\<lambda>failed.
        if failed \<noteq> 0 then creturn EXIT_FAILURE else run_input E rt output_file z)))
     (cseq (js_do (JS_NewRuntime E)) (cseq (js_do (JS_NewContext E))
       (cbind (js_get (JS_GetGlobalObject E)) (\<lambda>g.
        cbind (spec_load_scripts E script_file) (\<lambda>failed.
        if failed \<noteq> 0 then creturn EXIT_FAILURE else spec_run E g output_file y)))))
     (\<lambda>y z m w. z = y)"
    by (rule refines_pre [OF own]) (use own_input_read [OF wf empty] in blast)
qed

lemma refines_main:
  assumes fit: "js_strings_fit E" and path: "NUL \<notin> set (argv ! 1)" "length (argv ! 1) + 1 < 2 ^ 31"
    and out: "argv ! 2 \<notin> {argv ! 1, argv ! 3}"
  shows "refines (\<lambda>m w. m = mem_init \<and> fits {argv ! 1, argv ! 3} w) (main E argv) (spec_main E argv) (\<lambda>y z m w. z = y)"
proof (cases "length argv < 4")
  case True
  then show ?thesis
    unfolding main_def spec_main_def
    apply (simp only: if_True)
    apply (rule refines_pre [where P' = "\<lambda>_ _. True"])
     apply (rule refines_say, simp)
     apply (rule refines_return, simp)
    apply simp
    done
next
  case False
  obtain m1 where m1: "extract_base_filename (argv ! 1) mem_init = Inr (Some (fresh_block (mem_init :: heap)), m1)"
      "mem_ext mem_init m1"
      "string_at m1 (fresh_block (mem_init :: heap)) (base_name (argv ! 1)) {fresh_block (mem_init :: heap)..<fresh_block m1}"
    using extract_base_filename_ok [OF mem_wf_init path] by blast
  let ?b = "fresh_block (mem_init :: heap)"
  have cut: "cut (base_name (argv ! 1)) = base_name (argv ! 1)"
    using base_name_part [of "argv ! 1"] path(1) by (intro cut_id) blast
  have free: "\<exists>m'. moe_string_free (Some ?b) m = Inr ((), m') \<and> mem_wf m' \<and> blocks m' = Map.empty"
    if pr: "printed m1 m" for m
  proof -
    obtain m' where m': "moe_string_free (Some ?b) m = Inr ((), m')" "lost {} mem_init 0 m'"
      using lost_temporary [OF mem_wf_init m1(2,3) pr] by blast
    from m'(2) obtain L where L: "dom (blocks m') = dom (blocks (mem_init :: heap)) \<union> L" "card L = 3 * 0" and wf: "mem_wf m'"
      by (rule lostE [of "{}" mem_init 0 m', unfolded Diff_empty])
    have "dom (blocks m') = L" using L(1) by (simp add: mem_init_def)
    moreover have "finite (dom (blocks m'))" by (rule mem_wf_finite [OF wf])
    ultimately have "dom (blocks m') = {}" using L(2) by simp
    then show ?thesis using m'(1) wf by simp
  qed
  show ?thesis
    unfolding main_def spec_main_def Let_def
    apply (simp only: False if_False)
    apply (rule refines_keep)
    using out apply (blast intro: fits_clear)
    apply (rule refines_if)
     apply (rule refines_pre [where P' = "\<lambda>_ _. True"])
      apply (rule refines_say, simp)
      apply (rule refines_return, simp)
     apply simp
    apply (rule refines_on_mem [where P' = "\<lambda>z m w. z = Some ?b \<and> m = m1 \<and> fits {argv ! 1, argv ! 3} w"])
    using m1(1) apply blast
    apply (rule refines_assume, hypsubst)
    apply (rule refines_read_mem [where z = "base_name (argv ! 1)"])
    using text_cut(2) [OF m1(3)] cut apply simp
    apply (rule refines_pre [where P' = "\<lambda>m w. printed m1 m \<and> fits {argv ! 1, argv ! 3} w"])
     apply (rule refines_say, simp add: printed_emit)
     apply (rule refines_keep)
    using out apply (blast intro: fits_include)
     apply (rule refines_on_mem [where P' = "\<lambda>_ m w. (mem_wf m \<and> blocks m = Map.empty) \<and> fits {argv ! 1, argv ! 3} w"])
    using free apply blast
     apply (rule refines_each_with)
     apply (rule refines_after_read [OF fit], simp, simp)
    apply simp
    done
qed

end
