(* ===== verification/Codegen_Errors.thy ===== *)
theory Codegen_Errors
  imports Codegen_Program
begin

text \<open>
  Which errors the program can end with.  \<open>fails X P g\<close>: started in a world with \<open>P\<close>, the only
  errors of \<open>g\<close> are failed assertions, a read behind the input, the overflow of an index, and
  those of \<open>X\<close>, for which the engine or the files are to blame.
\<close>

section \<open>Permitted errors\<close>

definition permitted :: "c_error \<Rightarrow> bool" where
  "permitted e \<longleftrightarrow> e = Invalid_Access \<or> e = Signed_Overflow \<or> (\<exists>msg. e = Assertion_Failed msg)"

definition fails :: "c_error set \<Rightarrow> ('s \<Rightarrow> bool) \<Rightarrow> ('s, 'a) cm \<Rightarrow> bool" where
  "fails X P g \<longleftrightarrow> (\<forall>w e. P w \<longrightarrow> g w = Inl e \<longrightarrow> permitted e \<or> e \<in> X)"

abbreviation fails_any :: "c_error set \<Rightarrow> ('s, 'a) cm \<Rightarrow> bool" where
  "fails_any X \<equiv> fails X (\<lambda>_. True)"

named_theorems fails_intros \<open>computations whose errors are permitted\<close>

lemma failsD: "fails X P g \<Longrightarrow> P w \<Longrightarrow> g w = Inl e \<Longrightarrow> permitted e \<or> e \<in> X"
  by (simp add: fails_def)

lemma permitted_lexer: "lexer_error e \<Longrightarrow> permitted e"
  by (auto simp: lexer_error_def permitted_def)

lemma fails_then:
  assumes "fails X P f" and "\<And>w y w'. P w \<Longrightarrow> f w = Inr (y, w') \<Longrightarrow> Q w'" and "\<And>y. fails X Q (g y)"
  shows "fails X P (cbind f g)"
  unfolding fails_def
proof (intro allI impI)
  fix w e
  assume P: "P w" and run: "cbind f g w = Inl e"
  show "permitted e \<or> e \<in> X"
  proof (cases "f w")
    case (Inl e')
    then show ?thesis using run failsD [OF assms(1) P] by (simp add: cbind_apply)
  next
    case (Inr r)
    obtain y w' where r: "r = (y, w')" by fastforce
    from assms(2) [OF P Inr [unfolded r]] show ?thesis
      by (rule failsD [OF assms(3)]) (use run Inr r in \<open>simp add: cbind_apply\<close>)
  qed
qed

lemma fails_bind [fails_intros]: "fails_any X f \<Longrightarrow> (\<And>y. fails_any X (g y)) \<Longrightarrow> fails_any X (cbind f g)"
  by (rule fails_then [where Q = "\<lambda>_. True"]) simp_all

lemma fails_weaken: "fails_any X g \<Longrightarrow> fails X P g"
  by (simp add: fails_def)

lemma fails_basic [fails_intros]:
  "fails_any X (creturn x)" "fails_any X (cgets p)" "fails_any X (js_get h)" "fails_any X (js_do k)" "fails_any X (i32_add i j)"
  "fails_any X (js_check r)" "fails_any X (cfail (Assertion_Failed msg))"
  by (auto simp: fails_def permitted_def js_get_def js_do_def js_check_def i32_add_def split: sum.splits)

lemma fails_if [fails_intros]: "fails_any X f \<Longrightarrow> fails_any X g \<Longrightarrow> fails_any X (if b then f else g)"
  by simp

lemma fails_option [fails_intros]:
  "fails_any X f \<Longrightarrow> (\<And>d. fails_any X (g d)) \<Longrightarrow> fails_any X (case r of None \<Rightarrow> f | Some d \<Rightarrow> g d)"
  by (cases r) simp_all

lemma fails_loop:
  fixes mu :: "'s \<Rightarrow> nat"
  assumes step: "\<And>a. fails X I (step a)"
    and dec: "\<And>a w a' w'. I w \<Longrightarrow> step a w = Inr (Inl a', w') \<Longrightarrow> I w' \<and> mu w' < mu w"
  shows "fails X I (cloop step a)"
proof -
  have "permitted e \<or> e \<in> X" if "I w" "cloop step a w = Inl e" for a w e
    using that
  proof (induction w arbitrary: a rule: measure_induct_rule [where f = mu])
    case (less w)
    show ?case
    proof (cases "step a w")
      case (Inl e')
      then show ?thesis using less.prems failsD [OF step less.prems(1)] by (simp add: cloop_unfold [of step a w])
    next
      case (Inr r)
      obtain x w' where r: "r = (x, w')" by fastforce
      show ?thesis
      proof (cases x)
        case (Inl a')
        then show ?thesis
          using less.IH [of w' a'] dec [OF less.prems(1), of a a' w'] less.prems(2) Inr r
          by (simp add: cloop_unfold [of step a w])
      next
        case (Inr b)
        then show ?thesis using less.prems(2) \<open>step a w = Inr r\<close> r by (simp add: cloop_unfold [of step a w])
      qed
    qed
  qed
  then show ?thesis by (simp add: fails_def)
qed

section \<open>Code generation\<close>

text \<open>
  The engine never returns a null pointer for a string, and every call of it returns.  What either
  one excludes is an error of \<open>engine_errors\<close>.
\<close>

definition js_strings_given :: "('e, 'v) js_engine \<Rightarrow> bool" where
  "js_strings_given E \<longleftrightarrow> (\<forall>v e e'. JS_ToCString E v e \<noteq> Some (None, e'))"

definition js_returns :: "('e, 'v) js_engine \<Rightarrow> bool" where
  "js_returns E \<longleftrightarrow> (\<forall>e. (\<forall>obj name v. JS_SetPropertyStr E obj name v e \<noteq> None) \<and>
     (\<forall>obj i v. JS_SetPropertyUint32 E obj i v e \<noteq> None) \<and>
     (\<forall>obj name. JS_GetPropertyStr E obj name e \<noteq> None) \<and>
     (\<forall>f this args. JS_Call E f this args e \<noteq> None) \<and>
     (\<forall>src path. JS_Eval E src path e \<noteq> None) \<and>
     (\<forall>v. JS_ToCString E v e \<noteq> None))"

definition engine_errors :: "('e, 'v) js_engine \<Rightarrow> c_error set" where
  "engine_errors E = (if js_strings_given E then {} else {Null_Dereference}) \<union>
     (if js_returns E then {} else {Nontermination})"

lemma fails_js_run:
  assumes "js_returns E \<Longrightarrow> \<forall>e. f e \<noteq> None" and "engine_errors E \<subseteq> X"
  shows "fails_any X (js_run f)"
proof (cases "js_returns E")
  case True
  then have ok: "f e \<noteq> None" for e using assms(1) by blast
  have "js_run f w \<noteq> Inl e" for w e
    using ok [of "w_js w"] by (auto simp: js_run_def)
  then show ?thesis by (simp add: fails_def)
next
  case False
  then show ?thesis using assms(2) by (auto simp: fails_def js_run_def engine_errors_def split: option.split_asm)
qed

lemma fails_js [fails_intros]:
  assumes "engine_errors E \<subseteq> X"
  shows "fails_any X (js_act (JS_SetPropertyStr E obj name v))" "fails_any X (js_act (JS_SetPropertyUint32 E obj i v))"
    "fails_any X (js_run (JS_GetPropertyStr E obj name))" "fails_any X (js_run (JS_Call E f this args))"
    "fails_any X (js_run (JS_Eval E src path))"
  unfolding js_act_def by (rule fails_js_run [OF _ assms], simp add: js_returns_def)+

lemma fails_text:
  assumes E: "engine_errors E \<subseteq> X" and k: "\<And>s txt. fails_any X (k s txt)"
  shows "fails_any X (cbind (js_run (JS_ToCString E v)) (\<lambda>s. cbind (c_str s) (k s)))"
  unfolding fails_def
proof (intro allI impI)
  fix w e
  assume run: "cbind (js_run (JS_ToCString E v)) (\<lambda>s. cbind (c_str s) (k s)) w = Inl e"
  show "permitted e \<or> e \<in> X"
  proof (cases "JS_ToCString E v (w_js w)")
    case None
    then have "\<not> js_returns E" unfolding js_returns_def by blast
    then show ?thesis using run None E by (auto simp: js_run_def engine_errors_def cbind_apply)
  next
    case (Some r)
    obtain p e' where r: "r = (p, e')" by fastforce
    show ?thesis
    proof (cases p)
      case None
      then have "\<not> js_strings_given E" using Some r unfolding js_strings_given_def by blast
      then show ?thesis using run None Some r E by (auto simp: js_run_def engine_errors_def c_str_def cbind_apply)
    next
      case (Some bs)
      then show ?thesis
        using run \<open>JS_ToCString E v (w_js w) = Some r\<close> r failsD [OF k TrueI]
        by (auto simp: js_run_def c_str_def cbind_apply permitted_def split: if_splits)
    qed
  qed
qed

lemma fails_set_prop [fails_intros]: "engine_errors E \<subseteq> X \<Longrightarrow> fails_any X (set_prop E obj name mk)"
  unfolding set_prop_def by (assumption | intro fails_intros)+

lemma fails_elements [fails_intros]: "engine_errors E \<subseteq> X \<Longrightarrow> fails_any X (spec_elements E arr i tks)"
  by (induction tks arbitrary: i) (simp_all add: spec_token_object_def, (assumption | intro fails_intros)+)

lemma fails_exception: "engine_errors E \<subseteq> X \<Longrightarrow> fails_any X (spec_exception E)"
  unfolding spec_exception_def by (assumption | intro fails_intros fails_text)+

lemma fails_handler: "engine_errors E \<subseteq> X \<Longrightarrow> fails_any X (spec_handler E g arr name h)"
  unfolding spec_handler_def spec_call_def by (assumption | intro fails_intros fails_text fails_exception)+

lemma fails_generate: "engine_errors E \<subseteq> X \<Longrightarrow> fails_any X (spec_generate E g arr name hs)"
  by (induction hs) (simp_all, (assumption | intro fails_intros fails_handler)+)

lemma fails_append [fails_intros]: "fails_any X (append_to_output p c)"
  by (auto simp: append_to_output_def file_append_def fails_def split: if_splits)

lemma fails_emit: "engine_errors E \<subseteq> X \<Longrightarrow> fails_any X (spec_emit E g output_file d)"
  unfolding spec_emit_def spec_array_def by (assumption | intro fails_intros fails_generate)+

section \<open>The main loop\<close>

lemma fails_round:
  assumes "engine_errors E \<subseteq> X"
  shows "fails X (\<lambda>w. lex_wf (w_lex w)) (spec_main_round E g output_file n)"
  unfolding spec_main_round_def
proof (rule fails_then [where Q = "\<lambda>w. lex_wf (w_lex w) \<and> token_wf (w_lex w)"])
  have out: "case stb_c_lexer_get_token l of Inl e \<Rightarrow> e = Invalid_Access
     | Inr (r, l') \<Rightarrow> lex_wf l' \<and> token_wf l'" if "lex_wf l" for l
    using get_token_step [OF that] that
    by (auto simp: lex_step_def lex_wf_def token_wf_def split: sum.splits)
  show "fails X (\<lambda>w. lex_wf (w_lex w)) (world_lex stb_c_lexer_get_token :: ('a world, int) cm)"
    using out by (fastforce simp: fails_def world_lex_eq permitted_def split: sum.splits)
  show "lex_wf (w_lex w') \<and> token_wf (w_lex w')"
    if "lex_wf (w_lex w)" "world_lex stb_c_lexer_get_token w = Inr (more, w')" for w w' :: "'a world" and more
    using out [OF that(1)] that(2) by (auto simp: world_lex_eq split: sum.splits)
  have parse: "fails X (\<lambda>w. lex_wf (w_lex w) \<and> token_wf (w_lex w)) (world_lex spec_parse :: ('a world, derived option) cm)"
    using spec_parse_outcome by (fastforce simp: fails_def world_lex_eq split: sum.splits intro: permitted_lexer)
  have rest: "fails X (\<lambda>w. lex_wf (w_lex w) \<and> token_wf (w_lex w))
     (cbind (world_lex spec_parse) (\<lambda>r.
       cbind (case r of None \<Rightarrow> creturn 0 | Some d \<Rightarrow> spec_emit E g output_file d) (\<lambda>k.
       creturn (Inl (n + k) :: nat + nat))))"
    by (rule fails_then [OF parse, where Q = "\<lambda>_. True"], rule TrueI) (intro fails_intros fails_emit assms)
  show "fails X (\<lambda>w. lex_wf (w_lex w) \<and> token_wf (w_lex w))
     (if more = 0 then creturn (Inr n) else
      cbind (world_lex (cgets token)) (\<lambda>t.
      if t = clex_code CLEX_parse_error then creturn (Inr n)
      else
        cbind (world_lex spec_parse) (\<lambda>r.
        cbind (case r of None \<Rightarrow> creturn 0 | Some d \<Rightarrow> spec_emit E g output_file d) (\<lambda>k.
        creturn (Inl (n + k))))))" for more
    using rest by (auto simp: fails_def world_lex_eq)
qed

lemma fails_main_loop:
  assumes "engine_errors E \<subseteq> X"
  shows "fails X (\<lambda>w. lex_wf (w_lex w)) (spec_main_loop E g output_file)"
  unfolding spec_main_loop_def
  by (rule fails_loop [where mu = "\<lambda>w. lex_left (w_lex w)", OF fails_round [OF assms]]) (blast dest: spec_round_progress)

section \<open>The program\<close>

text \<open>None of the files is empty; an empty one is a null pointer that is measured.\<close>

definition filled :: "string set \<Rightarrow> 'e world \<Rightarrow> bool" where
  "filled ps w \<longleftrightarrow> (\<forall>p \<in> ps. w_files w p \<noteq> Some [])"

text \<open>The files can be read without an error, or the error is one of \<open>X\<close>.\<close>

definition readable :: "c_error set \<Rightarrow> string set \<Rightarrow> 'e world \<Rightarrow> bool" where
  "readable X ps w \<longleftrightarrow> Null_Dereference \<in> X \<or> filled ps w"

lemma readable_js: "readable X ps w \<Longrightarrow> js_get h w = Inr (y, w') \<Longrightarrow> readable X ps w'"
  "readable X ps w \<Longrightarrow> js_do k w = Inr (u, w') \<Longrightarrow> readable X ps w'"
  by (auto simp: readable_def filled_def js_get_def js_do_def)

lemma readable_clear: "readable X ps w \<Longrightarrow> out \<notin> ps \<Longrightarrow> clear_file out w = Inr (y, w') \<Longrightarrow> readable X ps w'"
  by (auto simp: readable_def filled_def clear_file_def cbind_eq_Inr split: if_splits)

lemma readable_include:
  "readable X ps w \<Longrightarrow> out \<notin> ps \<Longrightarrow> append_include_directive out h w = Inr (y, w') \<Longrightarrow> readable X ps w'"
  by (auto simp: readable_def filled_def append_include_directive_def file_append_def cbind_eq_Inr split: if_splits)

lemma read_same_world: "spec_read_file path w = Inr (y, w') \<Longrightarrow> w' = w"
  by (auto simp: spec_read_file_def cbind_eq_Inr split: option.splits if_splits)

lemma fails_read: "path \<in> ps \<Longrightarrow> fails X (readable X ps) (spec_read_file path)"
  by (auto simp: fails_def readable_def filled_def spec_read_file_def split: option.splits if_splits)

lemma fails_scripts:
  assumes "engine_errors E \<subseteq> X" and "path \<in> ps"
  shows "fails X (readable X ps) (spec_load_scripts E path)"
  unfolding spec_load_scripts_def
  by (rule fails_then [OF fails_read [OF assms(2)], where Q = "\<lambda>_. True"], rule TrueI)
     (intro fails_intros fails_exception assms)

lemma fails_run:
  assumes "engine_errors E \<subseteq> X"
  shows "fails_any X (spec_run E g output_file input)"
proof (cases input)
  case None
  then show ?thesis unfolding spec_run_def option.case by (simp only: option.case) (intro fails_intros)
next
  case (Some content)
  let ?init = "world_lex (cmodify (\<lambda>_. stb_c_lexer_init content (replicate 1025 NUL) 1024)) :: ('a world, unit) cm"
  have wf: "lex_wf (w_lex w')" if "?init w = Inr (u, w')" for w u w'
    using that init_lexer_wf [of content] by (auto simp: world_lex_eq)
  show ?thesis
    unfolding spec_run_def spec_until_check_def Some option.case cbind_assoc
    apply (rule fails_then [where Q = "\<lambda>w. lex_wf (w_lex w)"])
      apply (simp add: fails_def world_lex_eq)
     apply (erule wf)
    apply (rule fails_then [OF fails_main_loop [OF assms], where Q = "\<lambda>_. True"], rule TrueI)
    apply (intro fails_intros)
    done
qed

lemma fails_main:
  assumes E: "engine_errors E \<subseteq> X" and out: "argv ! 2 \<notin> {argv ! 1, argv ! 3}"
  shows "fails X (readable X {argv ! 1, argv ! 3}) (spec_main E argv)"
proof (cases "length argv < 4")
  case True
  then show ?thesis by (simp add: spec_main_def fails_def)
next
  case False
  let ?P = "readable X {argv ! 1, argv ! 3} :: 'a world \<Rightarrow> bool"
  have early: "fails X ?P (creturn c)" for c :: int
    by (simp add: fails_def)
  show ?thesis
    unfolding spec_main_def Let_def if_not_P [OF False]
    apply (rule fails_then [where Q = ?P])
      apply (simp add: fails_def clear_file_def)
    using out apply (blast intro: readable_clear)
    subgoal for failed
      apply (cases "failed = 0")
       apply (simp_all only: simp_thms if_True if_False early)
      apply (rule fails_then [where Q = ?P])
        apply (simp add: fails_def append_include_directive_def file_append_def)
      using out apply (blast intro: readable_include)
      apply (rule fails_then [where Q = ?P, OF fails_read])
        apply simp
       apply (blast dest: read_same_world)
      apply (rule fails_then [where Q = ?P, OF fails_weaken [OF fails_basic(4)]])
       apply (erule (1) readable_js)
      apply (rule fails_then [where Q = ?P, OF fails_weaken [OF fails_basic(4)]])
       apply (erule (1) readable_js)
      apply (rule fails_then [where Q = ?P, OF fails_weaken [OF fails_basic(3)]])
       apply (erule (1) readable_js)
      apply (rule fails_then [where Q = "\<lambda>_. True", OF fails_scripts [OF E]])
        apply simp
       apply (rule TrueI)
      apply (assumption | intro fails_intros fails_run E)+
      done
    done
qed

end
