(* ===== verification/Codegen_Claims.thy ===== *)
theory Codegen_Claims
  imports Codegen_Errors Parser_Claims
begin

text \<open>
  The properties of code generation and of the program as a whole.
\<close>

section \<open>A concrete engine and concrete files\<close>

text \<open>Values are their texts, and every name is a function that returns a comment.\<close>

definition example_engine :: "(unit, string) js_engine" where
  "example_engine = \<lparr>
     JS_NewRuntime = (\<lambda>e. e), JS_NewContext = (\<lambda>e. e), JS_GetGlobalObject = (\<lambda>e. (''global'', e)),
     JS_NewObject = (\<lambda>e. (''{}'', e)), JS_NewArray = (\<lambda>e. (''[]'', e)),
     JS_NewString = (\<lambda>s e. (s, e)), JS_NewInt32 = (\<lambda>i e. (''1'', e)), JS_NewFloat64 = (\<lambda>f e. (''1.0'', e)),
     JS_SetPropertyStr = (\<lambda>obj name v e. Some e), JS_SetPropertyUint32 = (\<lambda>arr i v e. Some e),
     JS_GetPropertyStr = (\<lambda>obj name e. Some (name, e)), JS_IsFunction = (\<lambda>v e. True),
     JS_Call = (\<lambda>f this args e. Some (''/*'' @ f @ (case args of [] \<Rightarrow> [] | a # as \<Rightarrow> a) @ ''*/'', e)),
     JS_Eval = (\<lambda>src path e. Some (''undefined'', e)), JS_IsException = (\<lambda>v. False),
     JS_GetException = (\<lambda>e. ('''', e)), JS_ToCString = (\<lambda>v e. Some (Some (take 9 v @ [NUL]), e)),
     JS_FreeCString = (\<lambda>s e. e), JS_FreeValue = (\<lambda>v e. e), JS_FreeContext = (\<lambda>e. e),
     JS_FreeRuntime = Inr\<rparr>"

definition example_world :: "string \<Rightarrow> unit world" where
  "example_world src = \<lparr>w_lex = lexer_on [], w_js = (),
     w_files = [''d/i.h'' \<mapsto> src, ''s.js'' \<mapsto> ''0''], w_writable = (\<lambda>p. True)\<rparr>"

definition example_argv :: "string list" where
  "example_argv = [''moe'', ''d/i.h'', ''o.h'', ''s.js'']"

definition one_handler :: string where
  "one_handler = ''MOE_PROC_MACRO_DERIVES(T,d);struct T{};''"

definition two_handlers :: string where
  "two_handlers = ''MOE_PROC_MACRO_DERIVES(T,d)MOE_PROC_MACRO_DERIVES(T,e)struct T{};''"

definition include_line :: string where
  "include_line = ''#include '' @ [CHR 0x22] @ ''i.h'' @ [CHR 0x22] @ newline"

lemma example_strings_fit: "js_strings_fit example_engine"
  by (auto simp: js_strings_fit_def example_engine_def min_def)


lemma example_calls:
  "JS_GetGlobalObject example_engine e = (''global'', e)" "JS_IsException example_engine v = False"
  "JS_Eval example_engine src path e = Some (''undefined'', e)" "JS_FreeRuntime example_engine = Inr"
  by (simp_all add: example_engine_def)

text \<open>Writing into the storage looks at no more of it than what is overwritten.\<close>

fun covers :: "'a list \<Rightarrow> 'a list \<Rightarrow> bool" where
  "covers [] ys = True"
| "covers (x # xs) [] = False"
| "covers (x # xs) (y # ys) = covers xs ys"

lemma covers_length: "covers xs ys \<longleftrightarrow> length xs \<le> length ys"
  by (induction xs ys rule: covers.induct) auto

lemma put_storage_code [code]:
  "put_storage cs l =
    (if covers cs (string_storage l)
     then Inr ((), l\<lparr>string_storage := cs @ drop (length cs) (string_storage l)\<rparr>) else Inl Invalid_Access)"
  by (simp add: put_storage_def covers_length)

fun before_NUL :: "char list \<Rightarrow> char list option" where
  "before_NUL [] = None"
| "before_NUL (c # cs) = (if c = NUL then Some [] else map_option (Cons c) (before_NUL cs))"

lemma before_NUL_takeWhile:
  "before_NUL cs = (if NUL \<in> set cs then Some (takeWhile (\<lambda>c. c \<noteq> NUL) cs) else None)"
  by (induction cs) auto

lemma c_str_code [code]:
  "c_str p s = (case p of None \<Rightarrow> Inl Null_Dereference
     | Some bs \<Rightarrow> (case before_NUL bs of None \<Rightarrow> Inl Invalid_Access | Some cs \<Rightarrow> Inr (cs, s)))"
  by (simp add: c_str_def before_NUL_takeWhile split: option.split)


section \<open>Running the examples\<close>

text \<open>Reading an input with one declaration: the first token, the declaration, the end.\<close>

definition read_declaration :: "string \<Rightarrow> char list \<Rightarrow> c_error + (int \<times> int \<times> derived option \<times> int) \<times> stb_lexer" where
  "read_declaration src st =
     cbind stb_c_lexer_get_token (\<lambda>got.
     cbind (cgets token) (\<lambda>t.
     cbind spec_parse (\<lambda>r.
     cbind stb_c_lexer_get_token (\<lambda>again. creturn (got, t, r, again))))) (stb_c_lexer_init src st 1024)"

lemma one_handler_read:
  "case read_declaration one_handler (replicate 25 NUL @ t) of
    Inr ((got, t, r, again), l) \<Rightarrow> got = 1 \<and> t = clex_code CLEX_id \<and> again = 0 \<and>
      r = Some \<lparr>d_name = ''T'', d_handlers = [''d''], d_tokens = []\<rparr>
  | _ \<Rightarrow> False"
  by code_simp

lemma two_handlers_read:
  "case read_declaration two_handlers (replicate 25 NUL @ t) of
    Inr ((got, t, r, again), l) \<Rightarrow> got = 1 \<and> t = clex_code CLEX_id \<and> again = 0 \<and>
      r = Some \<lparr>d_name = ''T'', d_handlers = [''d'', ''e''], d_tokens = []\<rparr>
  | _ \<Rightarrow> False"
  by code_simp

definition started_files :: "string \<Rightarrow> string \<rightharpoonup> string" where
  "started_files src = [''d/i.h'' \<mapsto> src, ''s.js'' \<mapsto> ''0'', ''o.h'' \<mapsto> include_line]"

definition started :: "string \<Rightarrow> stb_lexer \<Rightarrow> unit world" where
  "started src l = \<lparr>w_lex = l, w_js = (), w_files = started_files src, w_writable = (\<lambda>p. True)\<rparr>"

lemma started_emit:
  "spec_emit example_engine ''global'' ''o.h'' \<lparr>d_name = ''T'', d_handlers = [''d''], d_tokens = []\<rparr> (started src l) =
     Inr (0, (started src l)\<lparr>w_files := (started_files src)(''o.h'' \<mapsto> include_line @ ''/*dT*/'')\<rparr>)"
  "spec_emit example_engine ''global'' ''o.h'' \<lparr>d_name = ''T'', d_handlers = [''d'', ''e''], d_tokens = []\<rparr> (started src l) =
     Inr (1, (started src l)\<lparr>w_files := (started_files src)(''o.h'' \<mapsto> include_line @ ''/*eT*/'')\<rparr>)"
  by (simp_all add: spec_emit_def spec_array_def spec_handler_def spec_call_def js_get_def js_do_def js_run_def js_act_def example_engine_def
    started_def started_files_def cut_def c_str_def append_to_output_def file_append_def surplus_def)

lemma main_loop_one:
  assumes "read_declaration src st = Inr ((1, clex_code CLEX_id, Some d, 0), l)"
    and "\<And>l. spec_emit E g out d (started src l) = Inr (n, (started src l)\<lparr>w_files := f\<rparr>)"
  shows "spec_main_loop E g out (started src (stb_c_lexer_init src st 1024)) = Inr (n, (started src l)\<lparr>w_files := f\<rparr>)"
  using assms
  by (auto simp: read_declaration_def cbind_eq_Inr spec_main_loop_def cloop_unfold [of "spec_main_round E g out"]
    spec_main_round_def world_lex_eq started_def)

lemma storage_split: "replicate 1025 NUL = replicate 25 NUL @ replicate 1000 NUL"
  by (simp flip: replicate_add)

lemma example_main:
  assumes "src \<noteq> []"
  shows "spec_main example_engine example_argv (example_world src) =
    (case spec_main_loop example_engine ''global'' ''o.h'' (started src (stb_c_lexer_init src (replicate 1025 NUL) 1024)) of
       Inl e \<Rightarrow> Inl e
     | Inr (n, w') \<Rightarrow> if 2 ^ 64 dvd n then Inr (0, w') else Inl (Assertion_Failed ''memory leak detected''))"
proof -
  have base: "base_name ''d/i.h'' = ''i.h''" by code_simp
  show ?thesis
    using assms
    by (simp add: spec_main_def example_argv_def example_world_def base clear_file_def append_include_directive_def
      file_append_def include_line_def spec_read_file_def spec_load_scripts_def spec_run_def spec_until_check_def js_get_def js_do_def js_run_def js_check_def
      example_calls world_lex_eq started_def started_files_def EXIT_SUCCESS_def Let_def cbind_apply split: sum.split prod.split)
qed

lemma one_handler_loop:
  "\<exists>l. spec_main_loop example_engine ''global'' ''o.h'' (started one_handler (stb_c_lexer_init one_handler (replicate 1025 NUL) 1024)) =
     Inr (0, (started one_handler l)\<lparr>w_files := (started_files one_handler)(''o.h'' \<mapsto> include_line @ ''/*dT*/'')\<rparr>)"
proof -
  obtain l where "read_declaration one_handler (replicate 1025 NUL) =
      Inr ((1, clex_code CLEX_id, Some \<lparr>d_name = ''T'', d_handlers = [''d''], d_tokens = []\<rparr>, 0), l)"
    using one_handler_read [of "replicate 1000 NUL"] unfolding storage_split by (auto split: sum.splits)
  from main_loop_one [OF this started_emit(1)] show ?thesis by blast
qed

lemma two_handlers_loop:
  "\<exists>l. spec_main_loop example_engine ''global'' ''o.h'' (started two_handlers (stb_c_lexer_init two_handlers (replicate 1025 NUL) 1024)) =
     Inr (1, (started two_handlers l)\<lparr>w_files := (started_files two_handlers)(''o.h'' \<mapsto> include_line @ ''/*eT*/'')\<rparr>)"
proof -
  obtain l where "read_declaration two_handlers (replicate 1025 NUL) =
      Inr ((1, clex_code CLEX_id, Some \<lparr>d_name = ''T'', d_handlers = [''d'', ''e''], d_tokens = []\<rparr>, 0), l)"
    using two_handlers_read [of "replicate 1000 NUL"] unfolding storage_split by (auto split: sum.splits)
  from main_loop_one [OF this started_emit(2)] show ?thesis by blast
qed


section \<open>The program refines its specification\<close>

text \<open>C5: \<^verbatim>\<open>main\<close>, with its heap of strings, derived structs and arrays, refines the
  memory-free specification \<open>spec_main\<close> on the lexer, the engine and the files: it fails with
  the same error, or returns the same exit code with the same files written and the same state of
  the engine, for every engine.  The engine's strings and the files read are shorter than 2^31
  bytes (their lengths are \<^verbatim>\<open>int\<close> values), the path of the input is a C string of such a
  length, and the output is neither the input nor the script.\<close>

theorem main_refines:
  assumes "js_strings_fit E" and "NUL \<notin> set (argv ! 1)" and "length (argv ! 1) + 1 < 2 ^ 31"
    and "argv ! 2 \<notin> {argv ! 1, argv ! 3}" and "fits {argv ! 1, argv ! 3} w"
  shows "case spec_main E argv w of
      Inl e \<Rightarrow> main E argv \<lparr>ps_mem = mem_init, ps_rest = w\<rparr> = Inl e
    | Inr (code, w') \<Rightarrow> \<exists>m'. main E argv \<lparr>ps_mem = mem_init, ps_rest = w\<rparr> = Inr (code, \<lparr>ps_mem = m', ps_rest = w'\<rparr>)"
  using refinesD [OF refines_main [OF assms(1-4)], of mem_init w] assms(5) by (auto split: sum.splits)

lemma example_fits: "length src < 100 \<Longrightarrow> fits {example_argv ! 1, example_argv ! 3} (example_world src)"
  by (simp add: fits_def example_argv_def example_world_def)

lemma example_paths:
  "NUL \<notin> set (example_argv ! 1)" "length (example_argv ! 1) + 1 < 2 ^ 31" "example_argv ! 2 \<notin> {example_argv ! 1, example_argv ! 3}"
  by (simp_all add: example_argv_def)

lemma main_refines_witness:
  "\<exists>m' w'. main example_engine example_argv \<lparr>ps_mem = mem_init, ps_rest = example_world one_handler\<rparr> =
       Inr (0, \<lparr>ps_mem = m', ps_rest = w'\<rparr>) \<and> w_files w' ''o.h'' = Some (include_line @ ''/*dT*/'')"
proof -
  obtain l where l: "spec_main example_engine example_argv (example_world one_handler) =
      Inr (0, (started one_handler l)\<lparr>w_files := (started_files one_handler)(''o.h'' \<mapsto> include_line @ ''/*dT*/'')\<rparr>)"
    using example_main [of one_handler] one_handler_loop by (auto simp: one_handler_def)
  have "fits {example_argv ! 1, example_argv ! 3} (example_world one_handler)"
    by (rule example_fits) (simp add: one_handler_def)
  from main_refines [OF example_strings_fit example_paths this] l show ?thesis by auto
qed


section \<open>Code for one struct\<close>

text \<open>C6: \<^verbatim>\<open>emit_struct\<close> passes the tokens of a struct to each of its handlers, appends what
  the last successful one returned to the output, and frees the struct; what stays allocated are
  the strings that the handlers before returned: three blocks for each code beyond the first.\<close>

theorem emit_struct_refines:
  assumes "js_strings_fit E" and "mem_wf m" and "ds_at m a (int (length (d_handlers d))) d F"
  shows "case spec_emit E (global_obj rt) output_file d w of
      Inl e \<Rightarrow> emit_struct E rt output_file a \<lparr>ps_mem = m, ps_rest = w\<rparr> = Inl e
    | Inr (n, w') \<Rightarrow> \<exists>m'. emit_struct E rt output_file a \<lparr>ps_mem = m, ps_rest = w\<rparr> = Inr ((), \<lparr>ps_mem = m', ps_rest = w'\<rparr>) \<and>
        lost F m n m'"
  proof -
  have "same_outcome (\<lambda>n z m' w. lost F m n m') (spec_emit E (global_obj rt) output_file d w)
      (emit_struct E rt output_file a \<lparr>ps_mem = m, ps_rest = w\<rparr>)"
    by (rule refinesD [OF refines_emit [OF assms]]) simp
  then show ?thesis by (auto split: sum.splits)
qed

lemma two_handlers_parsed:
  "\<exists>a m l l'. parse_derived_struct \<lparr>ps_mem = mem_init, ps_rest = l\<rparr> = Inr (Some a, \<lparr>ps_mem = m, ps_rest = l'\<rparr>) \<and>
     building mem_init m a 2 \<lparr>d_name = ''T'', d_handlers = [''d'', ''e''], d_tokens = []\<rparr>"
proof -
  let ?l0 = "stb_c_lexer_init two_handlers (replicate 1025 NUL) 1024"
  obtain l1 l2 where l1: "stb_c_lexer_get_token ?l0 = Inr (1, l1)"
    and l2: "spec_parse l1 = Inr (Some \<lparr>d_name = ''T'', d_handlers = [''d'', ''e''], d_tokens = []\<rparr>, l2)"
    using two_handlers_read [of "replicate 1000 NUL"] unfolding storage_split read_declaration_def
    by (auto simp: cbind_eq_Inr split: sum.splits)
  have "lex_wf l1 \<and> token_wf l1"
    using get_token_step [OF init_lexer_wf [of two_handlers]] l1 by (auto simp: lex_step_def lex_wf_def token_wf_def)
  then have "same_outcome (parse_outcome mem_init) (spec_parse l1) (parse_derived_struct \<lparr>ps_mem = mem_init, ps_rest = l1\<rparr>)"
    by (intro refinesD [OF refines_parse]) (simp add: mem_wf_init)
  with l2 show ?thesis by (fastforce simp: parse_outcome_def)
qed

lemma emit_struct_refines_witness:
  "\<exists>a m m' w'. emit_struct example_engine \<lparr>jr_block = 0, global_obj = ''global''\<rparr> ''o.h'' a
       \<lparr>ps_mem = m, ps_rest = started [] (lexer_on [])\<rparr> = Inr ((), \<lparr>ps_mem = m', ps_rest = w'\<rparr>) \<and>
     w_files w' ''o.h'' = Some (include_line @ ''/*eT*/'') \<and> card (dom (blocks m')) = 3"
proof -
  let ?d = "\<lparr>d_name = ''T'', d_handlers = [''d'', ''e''], d_tokens = []\<rparr>"
  obtain a m where b: "building mem_init m a 2 ?d" using two_handlers_parsed by blast
  then have ds: "ds_at m a (int (length (d_handlers ?d))) ?d {0..<fresh_block m}" and wf: "mem_wf m"
    and all: "dom (blocks m) = {0..<fresh_block m}"
    by (auto simp: building_def mem_init_def mem_ext_def mem_grew_def)
  obtain m' where m': "emit_struct example_engine \<lparr>jr_block = 0, global_obj = ''global''\<rparr> ''o.h'' a
      \<lparr>ps_mem = m, ps_rest = started [] (lexer_on [])\<rparr> = Inr ((), \<lparr>ps_mem = m', ps_rest =
        (started [] (lexer_on []))\<lparr>w_files := (started_files [])(''o.h'' \<mapsto> include_line @ ''/*eT*/'')\<rparr>\<rparr>)"
      "lost {0..<fresh_block m} m 1 m'"
    using emit_struct_refines [OF example_strings_fit wf ds, of "\<lparr>jr_block = 0, global_obj = ''global''\<rparr>"
      "''o.h''" "started [] (lexer_on [])"] by (auto simp: started_emit)
  from m'(2) have "card (dom (blocks m')) = 3"
    unfolding lost_def all by auto
  moreover have "w_files ((started [] (lexer_on []))\<lparr>w_files := (started_files [])(''o.h'' \<mapsto> include_line @ ''/*eT*/'')\<rparr>) ''o.h'' =
      Some (include_line @ ''/*eT*/'')" by simp
  ultimately show ?thesis using m'(1) by blast
qed


section \<open>How the program can fail\<close>

text \<open>C7: Whatever the input, the handlers and the script do, \<^verbatim>\<open>main\<close> ends, unless a call of the
  engine does not return, and an error that it ends in is one of its memory-free specification:
  nothing is freed twice and no freed block is used.  The error is a failed assertion, a read
  behind the end of the input (or of an engine's string without a terminator), more than 2^31 - 1
  tokens in one struct, or a null pointer, and that only when the engine can return one for a
  string or the input or the script is an empty file.  Sizes and paths are as in C5.\<close>

theorem main_errors:
  assumes "js_strings_fit E" and "NUL \<notin> set (argv ! 1)" and "length (argv ! 1) + 1 < 2 ^ 31"
    and "argv ! 2 \<notin> {argv ! 1, argv ! 3}" and "fits {argv ! 1, argv ! 3} w"
    and "main E argv \<lparr>ps_mem = mem_init, ps_rest = w\<rparr> = Inl e"
  shows "spec_main E argv w = Inl e \<and>
    ((\<exists>msg. e = Assertion_Failed msg) \<or> e = Invalid_Access \<or> e = Signed_Overflow \<or>
     e = Null_Dereference \<and> (\<not> js_strings_given E \<or> \<not> filled {argv ! 1, argv ! 3} w) \<or>
     e = Nontermination \<and> \<not> js_returns E)"
proof -
  let ?X = "engine_errors E \<union> (if filled {argv ! 1, argv ! 3} w then {} else {Null_Dereference})"
  have "same_outcome (\<lambda>y z m w. z = y) (spec_main E argv w) (main E argv \<lparr>ps_mem = mem_init, ps_rest = w\<rparr>)"
    by (rule refinesD [OF refines_main [OF assms(1-4)]]) (rule conjI [OF refl assms(5)])
  with assms(6) have e: "spec_main E argv w = Inl e" by (cases "spec_main E argv w") auto
  have "fails ?X (readable ?X {argv ! 1, argv ! 3}) (spec_main E argv)" by (rule fails_main [OF _ assms(4)]) simp
  moreover have "readable ?X {argv ! 1, argv ! 3} w" by (simp add: readable_def)
  ultimately have "permitted e \<or> e \<in> ?X" using e by (rule failsD)
  then show ?thesis using e by (auto simp: permitted_def engine_errors_def split: if_split_asm)
qed

definition broken :: string where
  "broken = ''MOE_PROC_MACRO_DERIVES;''"

lemma broken_loop:
  "case spec_main_loop example_engine ''global'' ''o.h'' (started broken (stb_c_lexer_init broken (replicate 25 NUL @ t) 1024)) of
    Inl e \<Rightarrow> True | Inr r \<Rightarrow> False"
  by code_simp

lemma example_engine_sound: "js_strings_given example_engine" "js_returns example_engine"
  by (simp_all add: js_strings_given_def js_returns_def example_engine_def)

lemma main_errors_witness:
  "\<exists>e. main example_engine example_argv \<lparr>ps_mem = mem_init, ps_rest = example_world broken\<rparr> = Inl e \<and>
     (e = Invalid_Access \<or> e = Signed_Overflow \<or> (\<exists>msg. e = Assertion_Failed msg))"
proof -
  have fit: "fits {example_argv ! 1, example_argv ! 3} (example_world broken)"
    by (rule example_fits) (simp add: broken_def)
  have filled: "filled {example_argv ! 1, example_argv ! 3} (example_world broken)"
    by (simp add: filled_def example_argv_def example_world_def broken_def)
  obtain e where "spec_main example_engine example_argv (example_world broken) = Inl e"
    using example_main [of broken] broken_loop [of "replicate 1000 NUL"] unfolding storage_split
    by (auto simp: broken_def split: sum.splits)
  moreover have "same_outcome (\<lambda>y z m w. z = y) (spec_main example_engine example_argv (example_world broken))
      (main example_engine example_argv \<lparr>ps_mem = mem_init, ps_rest = example_world broken\<rparr>)"
    by (rule refinesD [OF refines_main [OF example_strings_fit example_paths]]) (rule conjI [OF refl fit])
  ultimately have "main example_engine example_argv \<lparr>ps_mem = mem_init, ps_rest = example_world broken\<rparr> = Inl e"
    by simp
  with main_errors [OF example_strings_fit example_paths fit this] example_engine_sound filled show ?thesis by blast
qed

section \<open>The leak check at the end\<close>

text \<open>C8: When the main loop and the engine's own check end, everything that was allocated before
  is free, and what is left of the run are exactly the strings that later handlers overwrote, three
  blocks each; their number \<open>n\<close> is that of the specification.  The leak check then fails, unless
  \<open>n\<close> is 0 or another multiple of \<open>2 ^ 64\<close> (its counters have 64 bits), when the program
  returns \<^verbatim>\<open>EXIT_SUCCESS\<close>.\<close>

theorem run_input_leak_check:
  assumes "js_strings_fit E" and "mem_wf m" and "string_at m b content F"
    and "dom (blocks m) = insert (jr_block rt) F" and "jr_block rt \<notin> F"
    and "spec_main_loop E (global_obj rt) output_file (w\<lparr>w_lex := stb_c_lexer_init content (replicate 1025 NUL) 1024\<rparr>) = Inr (n, w')"
    and "JS_FreeRuntime E (JS_FreeContext E (JS_FreeValue E (global_obj rt) (w_js w'))) = Inr e"
  shows "\<exists>m'. run_until_check E rt output_file (Some b) \<lparr>ps_mem = m, ps_rest = w\<rparr> =
        Inr ((), \<lparr>ps_mem = m', ps_rest = w'\<lparr>w_js := e\<rparr>\<rparr>) \<and>
      dom (blocks m') \<inter> dom (blocks m) = {} \<and> card (dom (blocks m')) = 3 * n \<and>
      run_input E rt output_file (Some b) \<lparr>ps_mem = m, ps_rest = w\<rparr> =
        (if 2 ^ 64 dvd n then Inr (EXIT_SUCCESS, \<lparr>ps_mem = m', ps_rest = w'\<lparr>w_js := e\<rparr>\<rparr>)
         else Inl (Assertion_Failed ''memory leak detected''))"
proof -
  have "spec_until_check E (global_obj rt) output_file content w = Inr (n, w'\<lparr>w_js := e\<rparr>)"
    using assms(6,7) by (simp add: spec_until_check_def world_lex_eq js_do_def js_check_def)
  moreover have "same_outcome (\<lambda>n z m' w. leaked m n m') (spec_until_check E (global_obj rt) output_file content w)
      (run_until_check E rt output_file (Some b) \<lparr>ps_mem = m, ps_rest = w\<rparr>)"
    by (rule refinesD [OF refines_until_check [OF assms(1-5)]]) simp
  ultimately obtain m' where run: "run_until_check E rt output_file (Some b) \<lparr>ps_mem = m, ps_rest = w\<rparr> =
        Inr ((), \<lparr>ps_mem = m', ps_rest = w'\<lparr>w_js := e\<rparr>\<rparr>)" and left: "leaked m n m'"
    by auto
  have "run_input E rt output_file (Some b) \<lparr>ps_mem = m, ps_rest = w\<rparr> =
        (if 2 ^ 64 dvd n then Inr (EXIT_SUCCESS, \<lparr>ps_mem = m', ps_rest = w'\<lparr>w_js := e\<rparr>\<rparr>)
         else Inl (Assertion_Failed ''memory leak detected''))"
    using run leaked_check [OF left] by (simp add: run_input_def on_mem_def clift_apply)
  with run left show ?thesis unfolding leaked_def by blast
qed

lemma run_input_leak_check_witness:
  "\<exists>m b. run_input example_engine \<lparr>jr_block = 0, global_obj = ''global''\<rparr> ''o.h'' (Some b)
     \<lparr>ps_mem = m, ps_rest = started two_handlers (lexer_on [])\<rparr> = Inl (Assertion_Failed ''memory leak detected'')"
proof -
  let ?rt = "\<lparr>jr_block = 0, global_obj = ''global''\<rparr>"
  have init: "fresh_block (mem_init :: heap) = 0" "blocks (mem_init :: heap) = Map.empty" by (simp_all add: mem_init_def)
  have "mem_wf (mem_init :: heap)" by (rule mem_wf_init)
  then obtain m1 where m1: "mem_ext (mem_init :: heap) m1" "fresh_block m1 = 1"
    using mem_ext_alloc [of "mem_init :: heap" "''moe_js_runtime_t''" 32] init(1) by auto
  then have wf1: "mem_wf m1" and all1: "dom (blocks m1) = {0}" using init by (auto simp: mem_ext_def mem_grew_def)
  have "c_bytes (Some (two_handlers @ [NUL])) 0 two_handlers" by (simp add: c_bytes_def two_handlers_def)
  from mem_ext_string [OF wf1 this] obtain b m2 where m2: "mem_ext m1 m2"
      "string_at m2 b two_handlers {fresh_block m1..<fresh_block m2}" by blast
  then have wf2: "mem_wf m2" and all2: "dom (blocks m2) = insert (jr_block ?rt) {fresh_block m1..<fresh_block m2}"
    using all1 by (auto simp: mem_ext_def mem_grew_def)
  have j: "jr_block ?rt \<notin> {fresh_block m1..<fresh_block m2}" by (simp add: m1(2))
  have w: "(started two_handlers (lexer_on []))\<lparr>w_lex := l\<rparr> = started two_handlers l" for l
    by (simp add: started_def)
  obtain w' where "spec_main_loop example_engine (global_obj ?rt) ''o.h''
      ((started two_handlers (lexer_on []))\<lparr>w_lex := stb_c_lexer_init two_handlers (replicate 1025 NUL) 1024\<rparr>) = Inr (1, w')"
    unfolding w using two_handlers_loop by auto
  from run_input_leak_check [OF example_strings_fit wf2 m2(2) all2 j this]
  show ?thesis by (intro exI [of _ m2] exI [of _ b]) (auto simp: example_calls)
qed

end
