(* ===== verification/Heap_Steps.thy ===== *)
theory Heap_Steps
  imports Moe_Alloc
begin

text \<open>
  Histories of the allocator of \<^verbatim>\<open>moe/common/moe_alloc.c\<close> as a step relation.

  \<open>heap_step\<close> is one call of a client that keeps to the rules of the macros: an allocation
  that succeeds, the release of a live block, an assignment to the object of a live block, a
  node placed in a live block, an operation on the links of nodes that are there, and a message
  that is not one of the allocator's.  \<open>heap_reachable\<close> are the memories that histories of such
  steps reach from the start of the program.  The invariant \<open>mem_wf\<close> and the agreement of the
  verbose log with the live blocks hold in all of them, by rule induction.
\<close>

section \<open>Steps and reachable memories\<close>

fun is_message :: "out_event \<Rightarrow> bool" where
  "is_message (Out_Text s) = True"
| "is_message (Out_Float x) = True"
| "is_message e = False"

inductive heap_step :: "'o mem \<Rightarrow> 'o mem \<Rightarrow> bool" where
  alloc: "MOE_ALLOC ty sz m = Inr (b, m') \<Longrightarrow> heap_step m m'"
| alloc_range: "MOE_ALLOC_RANGE ty sz n m = Inr (Some b, m') \<Longrightarrow> heap_step m m'"
| free: "MOE_FREE (Some b) m = Inr ((), m') \<Longrightarrow> heap_step m m'"
| store: "store_obj p x m = Inr ((), m') \<Longrightarrow> heap_step m m'"
| place: "blocks m b \<noteq> None \<Longrightarrow> place_node b k m = Inr ((), m') \<Longrightarrow> heap_step m m'"
| link: "on_lnodes f m = Inr ((), m') \<Longrightarrow> dom (lnodes m') = dom (lnodes m) \<Longrightarrow> heap_step m m'"
| message: "is_message e \<Longrightarrow> emit e m = Inr ((), m') \<Longrightarrow> heap_step m m'"

inductive heap_reachable :: "'o mem \<Rightarrow> bool" where
  start: "heap_reachable mem_init"
| step: "heap_reachable m \<Longrightarrow> heap_step m m' \<Longrightarrow> heap_reachable m'"

lemma heap_reachable_rtranclp: "heap_step\<^sup>*\<^sup>* m m' \<Longrightarrow> heap_reachable m \<Longrightarrow> heap_reachable m'"
  by (induction rule: rtranclp_induct) (auto intro: heap_reachable.step)

section \<open>What the verbose log says\<close>

text \<open>The blocks that the messages of the verbose macros name as allocated and not yet freed.\<close>

fun log_event :: "block set \<Rightarrow> out_event \<Rightarrow> block set" where
  "log_event live (Out_Alloc ty sz b) = insert b live"
| "log_event live (Out_Calloc ty sz n (Some b)) = insert b live"
| "log_event live (Out_Free (Some b)) = live - {b}"
| "log_event live e = live"

definition log_live :: "out_event list \<Rightarrow> block set" where
  "log_live = foldl log_event {}"

lemma log_live_simps [simp]:
  "log_live [] = {}"
  "log_live (es @ [e]) = log_event (log_live es) e"
  by (simp_all add: log_live_def)

lemma log_event_message: "is_message e \<Longrightarrow> log_event live e = live"
  by (cases e) auto

section \<open>The invariant\<close>

definition heap_inv :: "'o mem \<Rightarrow> bool" where
  "heap_inv m \<longleftrightarrow> mem_wf m \<and> log_live (stdout m) = dom (blocks m)"

lemma MOE_ALLOC_log:
  "MOE_ALLOC ty sz m = Inr (b, m') \<Longrightarrow>
     stdout m' = stdout m @ [Out_Alloc ty sz b] \<and> dom (blocks m') = insert b (dom (blocks m))"
  by (auto simp: MOE_ALLOC_def moe_malloc_def c_malloc_def cbind_apply)

lemma MOE_ALLOC_RANGE_log:
  "MOE_ALLOC_RANGE ty sz n m = Inr (Some b, m') \<Longrightarrow>
     0 \<le> n \<and> stdout m' = stdout m @ [Out_Calloc ty sz n (Some b)] \<and>
     dom (blocks m') = insert b (dom (blocks m))"
  by (auto simp: MOE_ALLOC_RANGE_def moe_calloc_def c_malloc_def cbind_apply split: if_splits)

lemma MOE_FREE_log:
  "MOE_FREE (Some b) m = Inr ((), m') \<Longrightarrow>
     blocks m b \<noteq> None \<and> stdout m' = stdout m @ [Out_Free (Some b)] \<and>
     dom (blocks m') = dom (blocks m) - {b}"
  by (auto simp: MOE_FREE_def moe_free_def c_free_def split: if_splits)

lemma heap_step_inv:
  assumes "heap_step m m'" and "heap_inv m"
  shows "heap_inv m'"
proof -
  have wf: "mem_wf m" and log: "log_live (stdout m) = dom (blocks m)"
    using assms(2) by (simp_all add: heap_inv_def)
  from assms(1) show ?thesis
  proof (cases rule: heap_step.cases)
    case (alloc ty sz b)
    then show ?thesis
      using MOE_ALLOC_log [OF alloc] MOE_ALLOC_ok [OF wf, of ty sz] log by (auto simp: heap_inv_def)
  next
    case (alloc_range ty sz n b)
    then show ?thesis
      using MOE_ALLOC_RANGE_log [OF alloc_range] MOE_ALLOC_RANGE_ok [OF wf, of n ty sz] log
      by (auto simp: heap_inv_def)
  next
    case (free b)
    then have "mem_freed {b} m m'"
      using MOE_FREE_log [OF free] MOE_FREE_ok [of m b] by auto
    then show ?thesis
      using MOE_FREE_log [OF free] mem_freed_wf [OF wf] log by (auto simp: heap_inv_def)
  next
    case (store p x)
    then obtain b where "p = Some b" and "blocks m b \<noteq> None" and "m' = m\<lparr>objs := (objs m)(b \<mapsto> x)\<rparr>"
      by (auto simp: store_obj_def split: option.splits if_splits)
    then show ?thesis
      using mem_wf_store [OF wf] log by (simp add: heap_inv_def)
  next
    case (place b k)
    then have "m' = m\<lparr>lnodes := (lnodes m)((b, k) \<mapsto> \<lparr>nd_next = None, nd_prev = None\<rparr>)\<rparr>"
      by (simp add: place_node_def)
    then show ?thesis
      using wf log place(1) by (simp add: heap_inv_def mem_wf_def domIff) blast
  next
    case (link f)
    then obtain h where h: "m' = m\<lparr>lnodes := h\<rparr>" and "dom h = dom (lnodes m)"
      by (auto simp: on_lnodes_def clift_def split: sum.splits)
    then have "h p = None \<longleftrightarrow> lnodes m p = None" for p
      by (metis domIff)
    then show ?thesis
      using wf log by (simp add: heap_inv_def mem_wf_def h)
  next
    case (message e)
    then show ?thesis
      using wf log by (auto simp: heap_inv_def log_event_message)
  qed
qed

lemma heap_inv_start: "heap_inv mem_init"
  by (simp add: heap_inv_def mem_wf_init) (simp add: mem_init_def)

lemma heap_reachable_inv: "heap_reachable m \<Longrightarrow> heap_inv m"
  by (induction rule: heap_reachable.induct)
    (simp_all add: heap_inv_start heap_step_inv)

section \<open>The leak check\<close>

text \<open>In a well-formed memory the leak check passes exactly when no block is live.\<close>

lemma leak_check_exact:
  assumes "mem_wf m" and "card (dom (blocks m)) < 2 ^ 64"
  shows "moe_check_memory_leak m =
    (if blocks m = Map.empty then Inr ((), m) else Inl (Assertion_Failed ''memory leak detected''))"
proof -
  have "unat (of_nat (card (dom (blocks m))) :: 64 word) = card (dom (blocks m))"
    using assms(2) by (simp add: unsigned_of_nat take_bit_nat_eq_self)
  then have "(of_nat (card (dom (blocks m))) :: 64 word) = 0 \<longleftrightarrow> card (dom (blocks m)) = 0"
    by (metis unsigned_eq_0_iff)
  moreover have "card (dom (blocks m)) = 0 \<longleftrightarrow> blocks m = Map.empty"
    using mem_wf_finite [OF assms(1)] by simp
  ultimately show ?thesis using assms(1) by (simp add: moe_check_memory_leak_def mem_wf_def)
qed

section \<open>Every reachable memory can be drained\<close>

lemma heap_drain:
  assumes "heap_reachable m"
  shows "\<exists>m'. heap_step\<^sup>*\<^sup>* m m' \<and> heap_reachable m' \<and> blocks m' = Map.empty"
  using assms
proof (induction "card (dom (blocks m))" arbitrary: m)
  case 0
  then have "blocks m = Map.empty"
    using heap_reachable_inv [OF 0(2)] by (simp add: heap_inv_def mem_wf_finite)
  then show ?case using 0(2) by blast
next
  case (Suc n)
  have fin: "finite (dom (blocks m))"
    using heap_reachable_inv [OF Suc.prems] by (simp add: heap_inv_def mem_wf_finite)
  from Suc(2) obtain b where b: "b \<in> dom (blocks m)" by fastforce
  then obtain m1 where m1: "MOE_FREE (Some b) m = Inr ((), m1)"
    using MOE_FREE_ok [of m b] by auto
  then have step: "heap_step m m1" by (rule heap_step.free)
  have "n = card (dom (blocks m1))"
    using MOE_FREE_log [OF m1] b fin Suc(2) by simp
  then obtain m' where "heap_step\<^sup>*\<^sup>* m1 m'" "heap_reachable m'" "blocks m' = Map.empty"
    using Suc(1) heap_reachable.step [OF Suc.prems step] by blast
  then show ?case using step by (meson converse_rtranclp_into_rtranclp)
qed

end
