(* ===== verification/Library_Claims.thy ===== *)
theory Library_Claims
  imports Moe_String Heap_Steps
begin

text \<open>
  The properties of the common library: the list operations act on the represented sequence,
  traversals visit it in order, strings keep and compare their contents, what a clone of a
  string does to its owner, and what the leak check says of a history of the allocator.
\<close>

section \<open>Concrete states\<close>

text \<open>A list with head 0 and the nodes 1 and 2, and the node 3 that is in no list.\<close>

definition example_nodes :: "nat nodes" where
  "example_nodes = [0 \<mapsto> \<lparr>nd_next = Some 1, nd_prev = Some 2\<rparr>, 1 \<mapsto> \<lparr>nd_next = Some 2, nd_prev = Some 0\<rparr>,
     2 \<mapsto> \<lparr>nd_next = Some 0, nd_prev = Some 1\<rparr>, 3 \<mapsto> \<lparr>nd_next = None, nd_prev = None\<rparr>]"

lemma example_dlist: "dlist example_nodes 0 [1, 2]"
  by (simp add: dlist_def example_nodes_def linked_def nxt_def prv_def)

lemma example_dlist_split: "dlist example_nodes 0 ([1] @ 2 # [])"
  using example_dlist by simp

lemma example_free_node: "3 \<in> dom example_nodes" "3 \<notin> set [0, 1, 2 :: nat]"
  by (simp_all add: example_nodes_def)

lemma example_string:
  "\<exists>m. mem_wf m \<and> string_at m 0 ''ab'' {0, 1, 2} \<and> moe_string_alloc (Some (''ab'' @ [NUL])) 0 mem_init = Inr (Some 0, m)"
proof -
  have "c_bytes (Some (''ab'' @ [NUL])) 0 ''ab''" by (simp add: c_bytes_def)
  from moe_string_alloc_ok [OF mem_wf_init this] obtain m where
    "moe_string_alloc (Some (''ab'' @ [NUL])) 0 mem_init = Inr (Some 0, m)" "mem_wf m" "fresh_block m = 3"
    "string_at m 0 ''ab'' {0..<fresh_block m}"
    by (auto simp: mem_init_def)
  moreover have "{0..<3} = {0, 1, 2 :: nat}" by auto
  ultimately show ?thesis by auto
qed

section \<open>Lists\<close>

text \<open>C9: \<^verbatim>\<open>moe_list_add_head\<close> and \<^verbatim>\<open>moe_list_add_tail\<close> put a node that is in no
  list at the front and at the end of the sequence that a head represents, and change no node
  but the head, the new node and those of the list.\<close>

theorem moe_list_add_both_ends:
  assumes "dlist h l xs" and "n \<in> dom h" and "n \<notin> set (l # xs)"
  shows "\<exists>h1 h2. moe_list_add_head (Some l) (Some n) h = Inr ((), h1) \<and> dlist h1 l (n # xs) \<and>
      moe_list_add_tail (Some l) (Some n) h = Inr ((), h2) \<and> dlist h2 l (xs @ [n]) \<and>
      (\<forall>p. p \<notin> set (l # n # xs) \<longrightarrow> h1 p = h p \<and> h2 p = h p)"
  using moe_list_add_head_ok [OF assms] moe_list_add_tail_ok [OF assms]
  unfolding same_elsewhere_def by blast

lemma moe_list_add_both_ends_witness:
  "\<exists>h1 h2. moe_list_add_head (Some 0) (Some 3) example_nodes = Inr ((), h1) \<and> dlist h1 0 [3, 1, 2] \<and>
     moe_list_add_tail (Some 0) (Some 3) example_nodes = Inr ((), h2) \<and> dlist h2 0 [1, 2, 3]"
  using moe_list_add_both_ends [OF example_dlist example_free_node] by auto

text \<open>C10: \<^verbatim>\<open>moe_list_remove\<close> takes a node out of the sequence, wherever it is, and
  \<^verbatim>\<open>moe_list_replace\<close> puts any other node in its place; both leave the node that went out
  with null links.\<close>

theorem moe_list_take_out:
  assumes "dlist h l (xs @ n # ys)"
  shows "(\<exists>h1. moe_list_remove (Some n) h = Inr ((), h1) \<and> dlist h1 l (xs @ ys) \<and>
      nxt h1 n = None \<and> prv h1 n = None) \<and>
    (\<forall>m \<in> dom h - set (l # xs @ n # ys). \<exists>h2.
      moe_list_replace (Some n) (Some m) h = Inr (Some n, h2) \<and> dlist h2 l (xs @ m # ys) \<and>
      nxt h2 n = None \<and> prv h2 n = None)"
  using moe_list_remove_ok [OF assms] moe_list_replace_ok [OF assms] by blast

lemma moe_list_take_out_witness:
  "\<exists>h1 h2. moe_list_remove (Some 2) example_nodes = Inr ((), h1) \<and> dlist h1 0 [1] \<and>
     moe_list_replace (Some 2) (Some 3) example_nodes = Inr (Some 2, h2) \<and> dlist h2 0 [1, 3]"
proof -
  have "3 \<in> dom example_nodes - set (0 # [1] @ 2 # [])" using example_free_node by simp
  then show ?thesis using moe_list_take_out [OF example_dlist_split] by fastforce
qed

text \<open>C11: The two traversals and the external iterator call their callback on exactly the nodes of
  the sequence, in order (in reverse order for the reverse traversal), and end, when the
  callback leaves the links alone.\<close>

theorem moe_list_traversals:
  assumes "dlist (nds s) l xs" and "links_untouched nds f"
  shows "moe_list_iterate nds (Some l) f s = cforeach (\<lambda>x. f (Some x)) xs s \<and>
    moe_list_reverse_iterate nds (Some l) f s = cforeach (\<lambda>x. f (Some x)) (rev xs) s \<and>
    iterator_loop nds (Some l) f s = cforeach (\<lambda>x. f (Some x)) xs s"
  using moe_list_iterate_eq [OF assms] iterator_loop_eq [OF assms] by blast+

text \<open>The callback of the witness logs the nodes it is called on.\<close>

definition log_node :: "nat option \<Rightarrow> (nat nodes \<times> nat option list, unit) cm" where
  "log_node p = cmodify (\<lambda>(h, ps). (h, ps @ [p]))"

lemma log_node_untouched: "links_untouched fst log_node"
  by (auto simp: links_untouched_def log_node_def)

lemma moe_list_traversals_witness:
  "moe_list_iterate fst (Some 0) log_node (example_nodes, []) = Inr ((), (example_nodes, [Some 1, Some 2])) \<and>
   moe_list_reverse_iterate fst (Some 0) log_node (example_nodes, []) = Inr ((), (example_nodes, [Some 2, Some 1])) \<and>
   iterator_loop fst (Some 0) log_node (example_nodes, []) = Inr ((), (example_nodes, [Some 1, Some 2]))"
proof -
  have d: "dlist (fst (example_nodes, [] :: nat option list)) 0 [1, 2]" using example_dlist by simp
  show ?thesis
    using moe_list_traversals [OF d log_node_untouched] by (simp add: log_node_def)
qed

text \<open>The callback may also unlink the node it is called on; that empties the list.\<close>

lemma moe_list_safe_unlink:
  assumes "dlist h l xs"
  shows "\<exists>h'. moe_list_iterate_safe id (Some l) moe_list_remove h = Inr ((), h') \<and> dlist h' l [] \<and> dom h' = dom h"
proof -
  have "moe_list_iterate_safe id (Some l) moe_list_remove h = cforeach (\<lambda>x. moe_list_remove (Some x)) xs h"
  proof (rule moe_list_iterate_safe_inv [where I = "\<lambda>zs s. dlist s l zs"])
    show "nxt (id s) x = Some (hd (zs @ [l]))" if "dlist s l (x # zs)" for x zs s
      using that by (cases zs) (auto simp: dlist_def linked_def)
    show "dlist t l zs" if "dlist s l (x # zs)" "moe_list_remove (Some x) s = Inr (r, t)" for x zs s r t
      using moe_list_remove_ok [of s l "[]" x zs] that by auto
  qed (use assms in \<open>auto simp: dlist_def dest: chain_nxt\<close>)
  then show ?thesis using moe_list.unlink_all [OF assms] by simp
qed

text \<open>C12: \<^verbatim>\<open>moe_list_iterate_safe\<close> reads the link of a node before it calls its callback: with
  \<^verbatim>\<open>moe_list_node_free\<close> as callback it frees each allocated node of the list, once, and nothing
  else, and reads none after it was freed.  \<^verbatim>\<open>moe_list_iterate\<close> with the same callback reads a
  freed node, unless the list is empty.\<close>

theorem moe_list_safe_drain:
  assumes "dlist (lnodes m) l (own_nodes bs)" and "set bs \<subseteq> dom (blocks m)" and "fst l \<notin> set bs"
  shows "(\<exists>m'. moe_list_iterate_safe lnodes (Some l) moe_list_node_free m = Inr ((), m') \<and> mem_freed (set bs) m m') \<and>
    (bs \<noteq> [] \<longrightarrow> moe_list_iterate lnodes (Some l) moe_list_node_free m = Inl Invalid_Access)"
proof
  show "\<exists>m'. moe_list_iterate_safe lnodes (Some l) moe_list_node_free m = Inr ((), m') \<and> mem_freed (set bs) m m'"
    using assms by (rule iterate_safe_frees)
  show "bs \<noteq> [] \<longrightarrow> moe_list_iterate lnodes (Some l) moe_list_node_free m = Inl Invalid_Access"
  proof
    assume "bs \<noteq> []"
    then obtain b bs' where "bs = b # bs'" by (cases bs) simp
    then show "moe_list_iterate lnodes (Some l) moe_list_node_free m = Inl Invalid_Access"
      using assms(1,2) by (intro iterate_uses_freed [of m l b bs']) simp_all
  qed
qed

text \<open>A memory of three nodes of their own: a list with the head in block 0.\<close>

definition example_heap :: heap where
  "example_heap = mem_init\<lparr>fresh_block := 3, blocks := [0 \<mapsto> 16, 1 \<mapsto> 16, 2 \<mapsto> 16],
     lnodes := [(0, 0) \<mapsto> \<lparr>nd_next = Some (1, 0), nd_prev = Some (2, 0)\<rparr>,
       (1, 0) \<mapsto> \<lparr>nd_next = Some (2, 0), nd_prev = Some (0, 0)\<rparr>,
       (2, 0) \<mapsto> \<lparr>nd_next = Some (0, 0), nd_prev = Some (1, 0)\<rparr>]\<rparr>"

lemma moe_list_safe_drain_witness:
  "\<exists>m'. moe_list_iterate_safe lnodes (Some (0, 0)) moe_list_node_free example_heap = Inr ((), m') \<and>
     dom (blocks m') = {0} \<and>
     moe_list_iterate lnodes (Some (0, 0)) moe_list_node_free example_heap = Inl Invalid_Access"
proof -
  have d: "dlist (lnodes example_heap) (0, 0) (own_nodes [1, 2])"
    by (simp add: dlist_def example_heap_def linked_def nxt_def prv_def)
  have all: "dom (blocks example_heap) = {0, 1, 2}" by (auto simp: example_heap_def)
  then have "set [1, 2] \<subseteq> dom (blocks example_heap)" and "fst (0, 0) \<notin> set [1, 2 :: nat]" by simp_all
  note drain = moe_list_safe_drain [OF d this]
  from conjunct1 [OF drain] obtain m' where
    m': "moe_list_iterate_safe lnodes (Some (0, 0)) moe_list_node_free example_heap = Inr ((), m')"
      "mem_freed (set [1, 2]) example_heap m'" by iprover
  from conjunct2 [OF drain]
  have bad: "moe_list_iterate lnodes (Some (0, 0)) moe_list_node_free example_heap = Inl Invalid_Access"
    by (rule mp) (rule list.distinct(2))
  have "dom (blocks m') = dom (blocks example_heap) - set [1, 2]"
    using mem_freedD(1) [OF m'(2)] by (auto simp del: list.set split: if_splits)
  also have "\<dots> = {0}" unfolding all by (simp add: insert_Diff_if)
  finally have "dom (blocks m') = {0}" .
  with m'(1) bad show ?thesis by blast
qed

section \<open>Strings\<close>

text \<open>C13: A string that \<^verbatim>\<open>moe_string_alloc\<close> makes of bytes has those bytes as its text, and
  after \<^verbatim>\<open>moe_string_free\<close> the live blocks and the balance of the allocator are those from
  before.\<close>

theorem moe_string_alloc_text_free:
  assumes "mem_wf m" and "c_bytes data len cs" and "NUL \<notin> set cs"
  shows "\<exists>s m' m''. moe_string_alloc data len m = Inr (Some s, m') \<and> moe_string_text (Some s) m' = Inr (cs, m') \<and>
      moe_string_free (Some s) m' = Inr ((), m'') \<and> blocks m'' = blocks m \<and>
      total_allocated (stats m'') - total_freed (stats m'') = total_allocated (stats m) - total_freed (stats m)"
proof -
  obtain m' where m': "moe_string_alloc data len m = Inr (Some (fresh_block m), m')" "mem_grew {} m m'"
    "string_at m' (fresh_block m) cs {fresh_block m..<fresh_block m'}"
    using moe_string_alloc_ok [OF assms(1,2)] by blast
  then show ?thesis
    using moe_str.create_destroy [OF assms(1) m'(2,3)] moe_string_text_ok [OF m'(3) assms(3)] by blast
qed

lemma moe_string_alloc_text_free_witness:
  "\<exists>s m' m''. moe_string_alloc (Some (''ab'' @ [NUL])) 0 mem_init = Inr (Some s, m') \<and>
     moe_string_text (Some s) m' = Inr (''ab'', m') \<and> moe_string_free (Some s) m' = Inr ((), m'') \<and>
     blocks m'' = Map.empty"
proof -
  have "c_bytes (Some (''ab'' @ [NUL])) 0 ''ab''" by (simp add: c_bytes_def)
  from moe_string_alloc_text_free [OF mem_wf_init this] show ?thesis by (auto simp: mem_init_def)
qed

text \<open>C14: \<^verbatim>\<open>moe_string_equal\<close> decides whether two strings without a zero byte have the same
  contents, and changes nothing.\<close>

theorem moe_string_equal_decides:
  assumes "string_at m a cs F" and "string_at m b ds G" and "NUL \<notin> set cs" and "NUL \<notin> set ds"
  shows "moe_string_equal (Some a) (Some b) m = Inr (if cs = ds then MOE_TRUE else MOE_FALSE, m)"
  by (rule moe_string_equal_ok [OF assms])

lemma moe_string_equal_decides_witness: "\<exists>m. moe_string_equal (Some 0) (Some 0) m = Inr (MOE_TRUE, m)"
proof -
  obtain m where "string_at m 0 ''ab'' {0, 1, 2}" using example_string by blast
  from moe_string_equal_decides [OF this this] have "moe_string_equal (Some 0) (Some 0) m = Inr (MOE_TRUE, m)" by simp
  then show ?thesis ..
qed

text \<open>C15: A clone shares the buffer of its original without counting the new reference: when one of
  the two is freed, whichever it is, the text of the other can no longer be read and freeing the
  other is an error, for it is in freed memory that they look for the reference count.\<close>

theorem moe_string_clone_not_counted:
  assumes "mem_wf m" and "string_at m s cs F"
  shows "\<exists>c m1. moe_string_clone (Some s) m = Inr (Some c, m1) \<and>
      (\<exists>m2. moe_string_free (Some s) m1 = Inr ((), m2) \<and>
        moe_string_text (Some c) m2 = Inl Invalid_Access \<and> moe_string_free (Some c) m2 = Inl Invalid_Access) \<and>
      (\<exists>m2. moe_string_free (Some c) m1 = Inr ((), m2) \<and>
        moe_string_text (Some s) m2 = Inl Invalid_Access \<and> moe_string_free (Some s) m2 = Inl Invalid_Access)"
proof -
  obtain c m1 i d where clone: "moe_string_clone (Some s) m = Inr (Some c, m1)" and ne: "c \<noteq> s" "s \<noteq> c"
    and two: "string_at m1 s cs {s, i, d}" "string_at m1 c cs {c, i, d}"
    using moe_string_clone_shares [OF assms] by blast
  show ?thesis
    by (rule exI [of _ c], rule exI [of _ m1])
       (intro conjI clone shared_string_free [OF two ne(2)] shared_string_free [OF two(2,1) ne(1)])
qed

lemma moe_string_clone_not_counted_witness:
  "\<exists>m c m1 m2. moe_string_clone (Some 0) m = Inr (Some c, m1) \<and> moe_string_free (Some 0) m1 = Inr ((), m2) \<and>
     moe_string_text (Some c) m2 = Inl Invalid_Access"
proof -
  obtain m where "mem_wf m" "string_at m 0 ''ab'' {0, 1, 2}" using example_string by blast
  from moe_string_clone_not_counted [OF this] show ?thesis by blast
qed

text \<open>With a null pointer and length 0, \<^verbatim>\<open>moe_string_alloc\<close> dereferences the null pointer,
  whatever the state of the memory.\<close>

theorem moe_string_alloc_null: "moe_string_alloc None 0 m = Inl Null_Dereference"
  by (rule moe_string_alloc_NULL_zero)

section \<open>The leak check\<close>

text \<open>C16: In every memory that a history of allocations, releases and assignments reaches from
  the start, with fewer than \<open>2 ^ 64\<close> live blocks (the counters have 64 bits), the leak check
  passes exactly when the verbose log names no block that was allocated and not freed, and the
  history can always go on to a memory where it passes.\<close>

theorem reachable_leak_check:
  assumes "heap_reachable m" and "card (dom (blocks m)) < 2 ^ 64"
  shows "moe_check_memory_leak m =
      (if log_live (stdout m) = {} then Inr ((), m) else Inl (Assertion_Failed ''memory leak detected'')) \<and>
    (\<exists>m'. heap_step\<^sup>*\<^sup>* m m' \<and> moe_check_memory_leak m' = Inr ((), m'))"
proof
  show "moe_check_memory_leak m =
      (if log_live (stdout m) = {} then Inr ((), m) else Inl (Assertion_Failed ''memory leak detected''))"
    using leak_check_exact [OF _ assms(2)] heap_reachable_inv [OF assms(1)] by (simp add: heap_inv_def)
  obtain m' where "heap_step\<^sup>*\<^sup>* m m'" "mem_wf m'" "blocks m' = Map.empty"
    using heap_drain [OF assms(1)] heap_reachable_inv unfolding heap_inv_def by blast
  then show "\<exists>m'. heap_step\<^sup>*\<^sup>* m m' \<and> moe_check_memory_leak m' = Inr ((), m')"
    using leak_check_exact [of m'] by auto
qed

lemma reachable_leak_check_witness:
  "\<exists>m m' :: heap. MOE_ALLOC ''moe_string_t'' 16 mem_init = Inr (0, m) \<and>
     moe_check_memory_leak m = Inl (Assertion_Failed ''memory leak detected'') \<and>
     heap_step\<^sup>*\<^sup>* m m' \<and> moe_check_memory_leak m' = Inr ((), m')"
proof -
  obtain m :: heap where m: "MOE_ALLOC ''moe_string_t'' 16 mem_init = Inr (0, m)"
    using MOE_ALLOC_ok [OF mem_wf_init, of "''moe_string_t''" 16] by (auto simp: mem_init_def)
  then have reach: "heap_reachable m"
    by (blast intro: heap_reachable.start heap_reachable.step heap_step.alloc)
  have "dom (blocks m) = {0}" and "log_live (stdout m) \<noteq> {}"
    using MOE_ALLOC_log [OF m] by (simp_all add: mem_init_def log_live_def)
  then show ?thesis
    using reachable_leak_check [OF reach] m by auto
qed

end
