(* ===== verification/C_Memory.thy ===== *)
theory C_Memory
  imports Main "HOL-Library.Word" "HOL-Library.Monad_Syntax" "HOL-Library.Multiset"
begin

text \<open>
  Arrays of C as lists.  The utility functions of the vendored code work on arrays that
  their caller passes; a pointer into an array is its index.  An access behind the end of
  the array, whose effect C leaves undefined, is \<open>None\<close>, so a theorem that a
  function returns \<open>Some\<close> value says that it stays inside its arrays.
\<close>

unbundle bit_operations_syntax

type_synonym u8 = "8 word"
type_synonym u16 = "16 word"
type_synonym u32 = "32 word"
type_synonym u64 = "64 word"

section \<open>Reading and writing one element\<close>

definition rd :: "'a list \<Rightarrow> nat \<Rightarrow> 'a option" where
  "rd xs i = (if i < length xs then Some (xs ! i) else None)"

definition wr :: "'a list \<Rightarrow> nat \<Rightarrow> 'a \<Rightarrow> 'a list option" where
  "wr xs i x = (if i < length xs then Some (xs[i := x]) else None)"

lemma rd_Some [simp]: "i < length xs \<Longrightarrow> rd xs i = Some (xs ! i)"
  by (simp add: rd_def)

lemma rd_eq_Some: "rd xs i = Some x \<longleftrightarrow> i < length xs \<and> xs ! i = x"
  by (auto simp: rd_def)

lemma rd_append_right: "i = length xs \<Longrightarrow> rd (xs @ y # ys) i = Some y"
  by (simp add: rd_def)

lemma wr_Some [simp]: "i < length xs \<Longrightarrow> wr xs i x = Some (xs[i := x])"
  by (simp add: wr_def)

lemma wr_eq_Some: "wr xs i x = Some ys \<longleftrightarrow> i < length xs \<and> ys = xs[i := x]"
  by (auto simp: wr_def)

lemma wr_length: "wr xs i x = Some ys \<Longrightarrow> length ys = length xs"
  by (auto simp: wr_eq_Some)

section \<open>Blocks of elements\<close>

text \<open>\<open>memcpy\<close>, \<open>memmove\<close> and the reads of several consecutive elements.\<close>

definition rd_block :: "'a list \<Rightarrow> nat \<Rightarrow> nat \<Rightarrow> 'a list option" where
  "rd_block xs i n = (if i + n \<le> length xs then Some (take n (drop i xs)) else None)"

definition wr_block :: "'a list \<Rightarrow> nat \<Rightarrow> 'a list \<Rightarrow> 'a list option" where
  "wr_block xs i ys =
     (if i + length ys \<le> length xs then Some (take i xs @ ys @ drop (i + length ys) xs) else None)"

lemma rd_block_Some [simp]: "i + n \<le> length xs \<Longrightarrow> rd_block xs i n = Some (take n (drop i xs))"
  by (simp add: rd_block_def)

lemma wr_block_Some [simp]:
  "i + length ys \<le> length xs \<Longrightarrow> wr_block xs i ys = Some (take i xs @ ys @ drop (i + length ys) xs)"
  by (simp add: wr_block_def)

lemma wr_block_length: "wr_block xs i ys = Some zs \<Longrightarrow> length zs = length xs"
  by (auto simp: wr_block_def split: if_splits)

lemma rd_block_wr_block: "wr_block xs i ys = Some zs \<Longrightarrow> rd_block zs i (length ys) = Some ys"
  by (auto simp: wr_block_def split: if_splits)

section \<open>Bits of machine words\<close>

text \<open>A disjunction of bit fields that do not overlap is a sum.\<close>

lemma or_is_add:
  fixes a b :: "'a :: len word"
  assumes "a AND b = 0"
  shows "a OR b = a + b"
  using disjunctive_add_eq_or [OF assms] by simp

lemma and_mask_field:
  fixes a :: "'a :: len word"
  assumes "unat a < 2 ^ n"
  shows "a AND push_bit n b = 0"
proof -
  have "take_bit n (unat a) = unat a"
    using assms by (simp add: take_bit_nat_eq_self)
  then have "k < n" if "bit a k" for k
  proof -
    have "bit (unat a) k" using that by (simp add: bit_unsigned_iff)
    then show ?thesis using \<open>take_bit n (unat a) = unat a\<close> by (metis bit_take_bit_iff)
  qed
  then show ?thesis
    by (intro bit_word_eqI) (auto simp: bit_simps dest!: leD)
qed

end
