(* ===== verification/Cutils_Bits.thy ===== *)
theory Cutils_Bits
  imports C_Memory
begin

text \<open>
  The inline functions of \<^verbatim>\<open>quickjs/cutils.h\<close>: minima and maxima, counting zero
  bits, little-endian access to byte arrays, byte swapping, surrogate pairs, hexadecimal
  digits and ASCII letters.  The host is little-endian, as \<open>is_be\<close> finds.
\<close>

section \<open>Minima and maxima\<close>

definition max_int :: "int \<Rightarrow> int \<Rightarrow> int" where
  "max_int a b = (if a > b then a else b)"

definition min_int :: "int \<Rightarrow> int \<Rightarrow> int" where
  "min_int a b = (if a < b then a else b)"

definition max_uint32 :: "u32 \<Rightarrow> u32 \<Rightarrow> u32" where
  "max_uint32 a b = (if a > b then a else b)"

definition min_uint32 :: "u32 \<Rightarrow> u32 \<Rightarrow> u32" where
  "min_uint32 a b = (if a < b then a else b)"

definition max_int64 :: "int \<Rightarrow> int \<Rightarrow> int" where
  "max_int64 a b = (if a > b then a else b)"

definition min_int64 :: "int \<Rightarrow> int \<Rightarrow> int" where
  "min_int64 a b = (if a < b then a else b)"

section \<open>Counting zero bits\<close>

text \<open>
  The compiler's builtins, undefined at zero: the number of zero bits above the highest,
  and below the lowest, bit that is set.
\<close>

definition clz32 :: "u32 \<Rightarrow> nat option" where
  "clz32 a = (if a = 0 then None else Some (length (takeWhile (\<lambda>k. \<not> bit a k) (rev [0..<32]))))"

definition clz64 :: "u64 \<Rightarrow> nat option" where
  "clz64 a = (if a = 0 then None else Some (length (takeWhile (\<lambda>k. \<not> bit a k) (rev [0..<64]))))"

definition ctz32 :: "u32 \<Rightarrow> nat option" where
  "ctz32 a = (if a = 0 then None else Some (length (takeWhile (\<lambda>k. \<not> bit a k) [0..<32])))"

definition ctz64 :: "u64 \<Rightarrow> nat option" where
  "ctz64 a = (if a = 0 then None else Some (length (takeWhile (\<lambda>k. \<not> bit a k) [0..<64])))"

section \<open>Little-endian access\<close>

text \<open>The object representation of an unsigned integer, lowest byte first.\<close>

fun le_bytes :: "nat \<Rightarrow> nat \<Rightarrow> u8 list" where
  "le_bytes 0 v = []"
| "le_bytes (Suc k) v = of_nat v # le_bytes k (v div 256)"

fun le_nat :: "u8 list \<Rightarrow> nat" where
  "le_nat [] = 0"
| "le_nat (b # bs) = unat b + 256 * le_nat bs"

definition get_u64 :: "u8 list \<Rightarrow> nat \<Rightarrow> u64 option" where
  "get_u64 tab i = map_option (\<lambda>bs. of_nat (le_nat bs)) (rd_block tab i 8)"

definition get_i64 :: "u8 list \<Rightarrow> nat \<Rightarrow> int option" where
  "get_i64 tab i = map_option (\<lambda>bs. sint (of_nat (le_nat bs) :: u64)) (rd_block tab i 8)"

definition put_u64 :: "u8 list \<Rightarrow> nat \<Rightarrow> u64 \<Rightarrow> u8 list option" where
  "put_u64 tab i v = wr_block tab i (le_bytes 8 (unat v))"

definition get_u32 :: "u8 list \<Rightarrow> nat \<Rightarrow> u32 option" where
  "get_u32 tab i = map_option (\<lambda>bs. of_nat (le_nat bs)) (rd_block tab i 4)"

definition get_i32 :: "u8 list \<Rightarrow> nat \<Rightarrow> int option" where
  "get_i32 tab i = map_option (\<lambda>bs. sint (of_nat (le_nat bs) :: u32)) (rd_block tab i 4)"

definition put_u32 :: "u8 list \<Rightarrow> nat \<Rightarrow> u32 \<Rightarrow> u8 list option" where
  "put_u32 tab i v = wr_block tab i (le_bytes 4 (unat v))"

definition get_u16 :: "u8 list \<Rightarrow> nat \<Rightarrow> u32 option" where
  "get_u16 tab i = map_option (\<lambda>bs. of_nat (le_nat bs)) (rd_block tab i 2)"

definition get_i16 :: "u8 list \<Rightarrow> nat \<Rightarrow> int option" where
  "get_i16 tab i = map_option (\<lambda>bs. sint (of_nat (le_nat bs) :: u16)) (rd_block tab i 2)"

definition put_u16 :: "u8 list \<Rightarrow> nat \<Rightarrow> u16 \<Rightarrow> u8 list option" where
  "put_u16 tab i v = wr_block tab i (le_bytes 2 (unat v))"

definition get_u8 :: "u8 list \<Rightarrow> nat \<Rightarrow> u32 option" where
  "get_u8 tab i = map_option ucast (rd tab i)"

definition get_i8 :: "u8 list \<Rightarrow> nat \<Rightarrow> int option" where
  "get_i8 tab i = map_option sint (rd tab i)"

definition put_u8 :: "u8 list \<Rightarrow> nat \<Rightarrow> u8 \<Rightarrow> u8 list option" where
  "put_u8 tab i v = wr tab i v"

lemma length_le_bytes [simp]: "length (le_bytes k v) = k"
  by (induction k arbitrary: v) auto

lemma le_nat_le_bytes: "le_nat (le_bytes k v) = v mod 256 ^ k"
proof (induction k arbitrary: v)
  case (Suc k)
  have "v mod (256 * 256 ^ k) = 256 * (v div 256 mod 256 ^ k) + v mod 256"
    by (rule mod_mult2_eq)
  with Suc show ?case by (simp add: unat_of_nat)
qed simp

lemma le_nat_bound: "le_nat bs < 256 ^ length bs"
proof (induction bs)
  case (Cons b bs)
  have "unat b < 256" using unsigned_less [of b] by simp
  then have "unat b + 256 * le_nat bs < 256 * (le_nat bs + 1)" by simp
  also have "\<dots> \<le> 256 * 256 ^ length bs"
    using Cons by (intro mult_le_mono2) simp
  finally show ?case by simp
qed simp

lemma le_bytes_le_nat: "le_bytes (length bs) (le_nat bs) = bs"
proof (induction bs)
  case (Cons b bs)
  have *: "unat b < 256" using unsigned_less [of b] by simp
  then have "(unat b + 256 * le_nat bs) div 256 = le_nat bs" by simp
  moreover have "(of_nat (unat b + 256 * le_nat bs) :: u8) = b"
    using * by (intro word_unat_eq_iff [THEN iffD2]) (simp only: unat_of_nat, simp)
  ultimately show ?case using Cons by simp
qed simp

section \<open>Byte swapping\<close>

definition bswap16 :: "u16 \<Rightarrow> u16" where
  "bswap16 x = drop_bit 8 x OR push_bit 8 x"

definition bswap32 :: "u32 \<Rightarrow> u32" where
  "bswap32 v =
     (drop_bit 24 (v AND 0xff000000) OR drop_bit 8 (v AND 0x00ff0000)) OR
     (push_bit 8 (v AND 0x0000ff00) OR push_bit 24 (v AND 0x000000ff))"

definition bswap64 :: "u64 \<Rightarrow> u64" where
  "bswap64 v =
     drop_bit (7 * 8) (v AND push_bit (7 * 8) 0xff) OR
     drop_bit (5 * 8) (v AND push_bit (6 * 8) 0xff) OR
     drop_bit (3 * 8) (v AND push_bit (5 * 8) 0xff) OR
     drop_bit (1 * 8) (v AND push_bit (4 * 8) 0xff) OR
     push_bit (1 * 8) (v AND push_bit (3 * 8) 0xff) OR
     push_bit (3 * 8) (v AND push_bit (2 * 8) 0xff) OR
     push_bit (5 * 8) (v AND push_bit (1 * 8) 0xff) OR
     push_bit (7 * 8) (v AND push_bit (0 * 8) 0xff)"

definition inplace_bswap16 :: "u8 list \<Rightarrow> nat \<Rightarrow> u8 list option" where
  "inplace_bswap16 tab i = do { v \<leftarrow> get_u16 tab i; put_u16 tab i (bswap16 (ucast v)) }"

definition inplace_bswap32 :: "u8 list \<Rightarrow> nat \<Rightarrow> u8 list option" where
  "inplace_bswap32 tab i = do { v \<leftarrow> get_u32 tab i; put_u32 tab i (bswap32 v) }"

section \<open>Half-precision floats by their bits\<close>

definition isfp16nan :: "u16 \<Rightarrow> bool" where
  "isfp16nan v \<longleftrightarrow> v AND 0x7FFF > 0x7C00"

definition isfp16zero :: "u16 \<Rightarrow> bool" where
  "isfp16zero v \<longleftrightarrow> v AND 0x7FFF = 0"

section \<open>Surrogates, digits and letters\<close>

definition is_surrogate :: "u32 \<Rightarrow> bool" where
  "is_surrogate c \<longleftrightarrow> drop_bit 11 c = drop_bit 11 0xD800"

definition is_hi_surrogate :: "u32 \<Rightarrow> bool" where
  "is_hi_surrogate c \<longleftrightarrow> drop_bit 10 c = drop_bit 10 0xD800"

definition is_lo_surrogate :: "u32 \<Rightarrow> bool" where
  "is_lo_surrogate c \<longleftrightarrow> drop_bit 10 c = drop_bit 10 0xDC00"

definition get_hi_surrogate :: "u32 \<Rightarrow> u32" where
  "get_hi_surrogate c = drop_bit 10 c - drop_bit 10 0x10000 + 0xD800"

definition get_lo_surrogate :: "u32 \<Rightarrow> u32" where
  "get_lo_surrogate c = (c AND 0x3FF) OR 0xDC00"

definition from_surrogate :: "u32 \<Rightarrow> u32 \<Rightarrow> u32" where
  "from_surrogate hi lo = 65536 + 1024 * (hi AND 1023) + (lo AND 1023)"

definition from_hex :: "int \<Rightarrow> int" where
  "from_hex c =
     (if 48 \<le> c \<and> c \<le> 57 then c - 48
      else if 65 \<le> c \<and> c \<le> 70 then c - 65 + 10
      else if 97 \<le> c \<and> c \<le> 102 then c - 97 + 10
      else - 1)"

definition is_upper_ascii :: "u8 \<Rightarrow> bool" where
  "is_upper_ascii c \<longleftrightarrow> 65 \<le> c \<and> c \<le> 90"

definition to_upper_ascii :: "u8 \<Rightarrow> u8" where
  "to_upper_ascii c = (if 97 \<le> c \<and> c \<le> 122 then c - 97 + 65 else c)"

section \<open>Lemmas\<close>

lemma le_bytes_Suc_word:
  fixes v :: "'a :: len word"
  shows "le_bytes (Suc k) (unat v) = ucast v # le_bytes k (unat (drop_bit 8 v))"
  unfolding unat_drop_bit_eq by (simp add: drop_bit_eq_div)

lemma le_bytes_numeral_word:
  fixes v :: "'a :: len word"
  shows "le_bytes (numeral n) (unat v) = ucast v # le_bytes (pred_numeral n) (unat (drop_bit 8 v))"
  using le_bytes_Suc_word [of "pred_numeral n"] by (simp only: numeral_eq_Suc [of n, symmetric])

lemma le_bytes_4:
  "le_bytes 4 (unat (v :: u32)) =
     [ucast v, ucast (drop_bit 8 v), ucast (drop_bit 16 v), ucast (drop_bit 24 v)]"
  by (simp add: le_bytes_numeral_word le_bytes_Suc_word drop_bit_drop_bit del: le_bytes.simps(2))

lemma bswap32_bytes: "le_bytes 4 (unat (bswap32 v)) = rev (le_bytes 4 (unat v))"
proof -
  have masks: "(0xff000000 :: u32) = push_bit 24 (mask 8)" "(0x00ff0000 :: u32) = push_bit 16 (mask 8)"
    "(0x0000ff00 :: u32) = push_bit 8 (mask 8)" "(0x000000ff :: u32) = mask 8"
    by (simp_all add: mask_eq_exp_minus_1)
  show ?thesis
    unfolding le_bytes_4 bswap32_def masks
    by (auto intro!: bit_word_eqI simp: bit_simps)
qed

lemma le_bytes_2:
  "le_bytes 2 (unat (v :: u16)) = [ucast v, ucast (drop_bit 8 v)]"
  by (simp add: le_bytes_numeral_word le_bytes_Suc_word drop_bit_drop_bit del: le_bytes.simps(2))

lemma le_bytes_8:
  "le_bytes 8 (unat (v :: u64)) =
     [ucast v, ucast (drop_bit 8 v), ucast (drop_bit 16 v), ucast (drop_bit 24 v),
      ucast (drop_bit 32 v), ucast (drop_bit 40 v), ucast (drop_bit 48 v), ucast (drop_bit 56 v)]"
  by (simp add: le_bytes_numeral_word le_bytes_Suc_word drop_bit_drop_bit del: le_bytes.simps(2))

lemma bswap16_bytes: "le_bytes 2 (unat (bswap16 v)) = rev (le_bytes 2 (unat v))"
  unfolding le_bytes_2 bswap16_def
  by (auto intro!: bit_word_eqI simp: bit_simps)

lemma bswap64_bytes: "le_bytes 8 (unat (bswap64 v)) = rev (le_bytes 8 (unat v))"
proof -
  have masks: "(0xff :: u64) = mask 8" by (simp add: mask_eq_exp_minus_1)
  show ?thesis
    unfolding le_bytes_8 bswap64_def masks
    by (auto intro!: bit_word_eqI simp: bit_simps)
qed

lemma word_of_le_bytes:
  fixes v :: "'a :: len word"
  assumes "LENGTH('a) = 8 * k"
  shows "of_nat (le_nat (le_bytes k (unat v))) = v"
proof -
  have "unat v < 256 ^ k"
    using unsigned_less [of v] assms by (simp add: power_mult)
  then show ?thesis by (simp add: le_nat_le_bytes)
qed

lemma get_put_u32: "put_u32 tab i v = Some tab' \<Longrightarrow> get_u32 tab' i = Some v"
  by (auto simp: put_u32_def get_u32_def word_of_le_bytes dest!: rd_block_wr_block)

lemma get_put_u64: "put_u64 tab i v = Some tab' \<Longrightarrow> get_u64 tab' i = Some v"
  by (auto simp: put_u64_def get_u64_def word_of_le_bytes dest!: rd_block_wr_block)

lemma get_put_u16: "put_u16 tab i v = Some tab' \<Longrightarrow> get_u16 tab' i = Some (ucast v)"
  using unsigned_less [where 'a = nat, of v]
  by (auto simp: put_u16_def get_u16_def le_nat_le_bytes dest!: rd_block_wr_block)

lemma get_u32_bytes:
  assumes "get_u32 tab i = Some v"
  shows "rd_block tab i 4 = Some (le_bytes 4 (unat v))"
proof -
  from assms obtain bs where bs: "rd_block tab i 4 = Some bs" and v: "v = of_nat (le_nat bs)"
    by (auto simp: get_u32_def)
  then have "length bs = 4" by (auto simp: rd_block_def split: if_splits)
  moreover from this have "le_nat bs < 2 ^ 32" using le_nat_bound [of bs] by simp
  ultimately show ?thesis
    using bs v le_bytes_le_nat [of bs] by (simp add: unat_of_nat)
qed

lemma inplace_bswap32_reverses:
  assumes "i + 4 \<le> length tab"
  shows "inplace_bswap32 tab i =
     Some (take i tab @ rev (take 4 (drop i tab)) @ drop (i + 4) tab)"
proof -
  obtain v where v: "get_u32 tab i = Some v" using assms by (simp add: get_u32_def)
  from get_u32_bytes [OF this] assms have "le_bytes 4 (unat v) = take 4 (drop i tab)"
    by simp
  with v assms show ?thesis
    by (simp add: inplace_bswap32_def put_u32_def bswap32_bytes)
qed

section \<open>Zero bits and the size of a number\<close>

lemma length_takeWhile_rev_upt:
  assumes "k < n" and "P k" and "\<And>j. k < j \<Longrightarrow> j < n \<Longrightarrow> \<not> P j"
  shows "length (takeWhile (\<lambda>j. \<not> P j) (rev [0..<n])) = n - 1 - k"
proof -
  have "[0..<n] = [0..<k] @ k # [Suc k..<n]"
    using assms(1) by (metis le_add_diff_inverse less_imp_le upt_add_eq_append upt_conv_Cons zero_le)
  then have "rev [0..<n] = rev [Suc k..<n] @ k # rev [0..<k]" by simp
  then have "takeWhile (\<lambda>j. \<not> P j) (rev [0..<n]) = rev [Suc k..<n]"
    using assms(2,3) by (simp add: takeWhile_append)
  then show ?thesis by simp
qed

lemma highest_bit:
  fixes a :: "'a :: len word"
  assumes "2 ^ k \<le> unat a" and "unat a < 2 ^ Suc k"
  shows "bit a k" and "\<And>j. k < j \<Longrightarrow> \<not> bit a j"
proof -
  have "unat a div 2 ^ k = 1"
    using assms by (simp add: div_nat_eqI)
  then have "bit (unat a) k" by (simp add: bit_iff_odd)
  then show "bit a k" by (simp add: bit_unsigned_iff)
  fix j assume "k < j"
  then have "unat a < 2 ^ j"
    using assms(2) by (meson Suc_leI less_le_trans one_le_numeral power_increasing)
  then have "\<not> bit (unat a) j" by (simp add: bit_iff_odd)
  then show "\<not> bit a j"
    using bit_imp_le_length by (fastforce simp: bit_unsigned_iff)
qed

lemma clz32_bounds:
  assumes "2 ^ k \<le> unat a" and "unat a < 2 ^ Suc k"
  shows "clz32 a = Some (31 - k)"
proof -
  note hi = highest_bit [OF assms]
  from hi(1) have "k < 32" by (auto dest: bit_imp_le_length)
  moreover from assms(1) have "a \<noteq> 0" by (auto simp: not_le)
  ultimately show ?thesis
    using length_takeWhile_rev_upt [of k 32 "bit a"] hi by (simp add: clz32_def)
qed

lemma clz64_bounds:
  assumes "2 ^ k \<le> unat a" and "unat a < 2 ^ Suc k"
  shows "clz64 a = Some (63 - k)"
proof -
  note hi = highest_bit [OF assms]
  from hi(1) have "k < 64" by (auto dest: bit_imp_le_length)
  moreover from assms(1) have "a \<noteq> 0" by (auto simp: not_le)
  ultimately show ?thesis
    using length_takeWhile_rev_upt [of k 64 "bit a"] hi by (simp add: clz64_def)
qed

section \<open>Surrogate pairs\<close>

lemma drop_bit_eq_iff:
  fixes c :: u32
  shows "drop_bit n c = d \<longleftrightarrow> unat c div 2 ^ n = unat d"
  by (metis drop_bit_eq_div unat_drop_bit_eq word_unat_eq_iff)

lemma is_hi_surrogate_range: "is_hi_surrogate c \<longleftrightarrow> 0xD800 \<le> c \<and> c \<le> 0xDBFF"
  by (auto simp: is_hi_surrogate_def drop_bit_eq_iff word_le_nat_alt)

lemma is_lo_surrogate_range: "is_lo_surrogate c \<longleftrightarrow> 0xDC00 \<le> c \<and> c \<le> 0xDFFF"
  by (auto simp: is_lo_surrogate_def drop_bit_eq_iff word_le_nat_alt)

lemma is_surrogate_range: "is_surrogate c \<longleftrightarrow> is_hi_surrogate c \<or> is_lo_surrogate c"
  unfolding is_hi_surrogate_range is_lo_surrogate_range
  by (auto simp: is_surrogate_def drop_bit_eq_iff word_le_nat_alt)

end
