(* ===== verification/Utf8.thy ===== *)
theory Utf8
  imports Cutils_Bits
begin

text \<open>
  The UTF-8 functions of \<^verbatim>\<open>quickjs/cutils.c\<close>: encoding and decoding of one code
  point, the scan that classifies a string, and the conversions between UTF-8 and arrays of
  8-bit or 16-bit units.  A pointer into the source is its index; a read behind the array
  that holds the source, or a write behind the destination, is \<open>None\<close>.
\<close>

section \<open>One code point\<close>

definition UTF8_CHAR_LEN_MAX :: nat where
  "UTF8_CHAR_LEN_MAX = 4"

definition utf8_encode_len :: "u32 \<Rightarrow> nat" where
  "utf8_encode_len c =
     (if c < 0x80 then 1
      else if c < 0x800 then 2
      else if c < 0x10000 then 3
      else if c < 0x110000 then 4
      else 3)"

text \<open>The bytes are stored from index \<open>j\<close> of the destination on.\<close>

definition utf8_encode :: "u8 list \<Rightarrow> nat \<Rightarrow> u32 \<Rightarrow> (u8 list \<times> nat) option" where
  "utf8_encode buf j c =
     (if c < 0x80 then do {
        buf \<leftarrow> wr buf j (ucast c);
        Some (buf, 1)
      }
      else if c < 0x800 then do {
        buf \<leftarrow> wr buf j (ucast (drop_bit 6 c OR 0xC0));
        buf \<leftarrow> wr buf (j + 1) (ucast ((c AND 0x3F) OR 0x80));
        Some (buf, 2)
      }
      else if c < 0x10000 then do {
        buf \<leftarrow> wr buf j (ucast (drop_bit 12 c OR 0xE0));
        buf \<leftarrow> wr buf (j + 1) (ucast ((drop_bit 6 c AND 0x3F) OR 0x80));
        buf \<leftarrow> wr buf (j + 2) (ucast ((c AND 0x3F) OR 0x80));
        Some (buf, 3)
      }
      else if c < 0x110000 then do {
        buf \<leftarrow> wr buf j (ucast (drop_bit 18 c OR 0xF0));
        buf \<leftarrow> wr buf (j + 1) (ucast ((drop_bit 12 c AND 0x3F) OR 0x80));
        buf \<leftarrow> wr buf (j + 2) (ucast ((drop_bit 6 c AND 0x3F) OR 0x80));
        buf \<leftarrow> wr buf (j + 3) (ucast ((c AND 0x3F) OR 0x80));
        Some (buf, 4)
      }
      else do {
        buf \<leftarrow> wr buf j (ucast (drop_bit 12 (0xFFFD :: u32) OR 0xE0));
        buf \<leftarrow> wr buf (j + 1) (ucast ((drop_bit 6 (0xFFFD :: u32) AND 0x3F) OR 0x80));
        buf \<leftarrow> wr buf (j + 2) (ucast (((0xFFFD :: u32) AND 0x3F) OR 0x80));
        Some (buf, 3)
      })"

text \<open>
  The decoder answers the code point and the index behind the bytes it consumed.  A test of
  several bytes reads the later ones only when the earlier ones are in their range.
\<close>

definition byte_between :: "u8 list \<Rightarrow> nat \<Rightarrow> u8 \<Rightarrow> u8 \<Rightarrow> bool option" where
  "byte_between bs i lower upper = do { b \<leftarrow> rd bs i; Some (b \<ge> lower \<and> b \<le> upper) }"

definition and_then :: "bool option \<Rightarrow> bool option \<Rightarrow> bool option" where
  "and_then x y = do { b \<leftarrow> x; if b then y else Some False }"

definition utf8_need1 :: "u8 list \<Rightarrow> u32 \<Rightarrow> nat \<Rightarrow> (u32 \<times> nat) option" where
  "utf8_need1 bs c p =
     do {
       ok \<leftarrow> byte_between bs p 0x80 0xBF;
       if ok then do {
         b \<leftarrow> rd bs p;
         Some (push_bit 6 (c - 0xC0) + (ucast b - 0x80), p + 1)
       }
       else Some (0xFFFD, p)
     }"

definition utf8_need2 :: "u8 list \<Rightarrow> u32 \<Rightarrow> nat \<Rightarrow> u8 \<Rightarrow> (u32 \<times> nat) option" where
  "utf8_need2 bs c p lower =
     do {
       ok \<leftarrow> and_then (byte_between bs p lower 0xBF) (byte_between bs (p + 1) 0x80 0xBF);
       if ok then do {
         b \<leftarrow> rd bs p;
         b1 \<leftarrow> rd bs (p + 1);
         Some (push_bit 12 (c - 0xE0) + push_bit 6 (ucast b - 0x80) + (ucast b1 - 0x80), p + 2)
       }
       else Some (0xFFFD, p)
     }"

definition utf8_need3 :: "u8 list \<Rightarrow> u32 \<Rightarrow> nat \<Rightarrow> u8 \<Rightarrow> u8 \<Rightarrow> (u32 \<times> nat) option" where
  "utf8_need3 bs c p lower upper =
     do {
       ok \<leftarrow> and_then (byte_between bs p lower upper)
              (and_then (byte_between bs (p + 1) 0x80 0xBF) (byte_between bs (p + 2) 0x80 0xBF));
       if ok then do {
         b \<leftarrow> rd bs p;
         b1 \<leftarrow> rd bs (p + 1);
         b2 \<leftarrow> rd bs (p + 2);
         Some (push_bit 18 (c - 0xF0) + push_bit 12 (ucast b - 0x80) +
               push_bit 6 (ucast b1 - 0x80) + (ucast b2 - 0x80), p + 3)
       }
       else Some (0xFFFD, p)
     }"

definition utf8_decode :: "u8 list \<Rightarrow> nat \<Rightarrow> (u32 \<times> nat) option" where
  "utf8_decode bs p =
     do {
       b \<leftarrow> rd bs p;
       let c = ucast b;
       let p = p + 1;
       if c < 0x80 then Some (c, p)
       else if 0xC2 \<le> c \<and> c \<le> 0xDF then utf8_need1 bs c p
       else if c = 0xE0 then utf8_need2 bs c p 0xA0
       else if 0xE1 \<le> c \<and> c \<le> 0xEF then utf8_need2 bs c p 0x80
       else if c = 0xF0 then utf8_need3 bs c p 0x90 0xBF
       else if c = 0xF4 then utf8_need3 bs c p 0x80 0x8F
       else if 0xF1 \<le> c \<and> c \<le> 0xF3 then utf8_need3 bs c p 0x80 0xBF
       else Some (0xFFFD, p)
     }"

definition utf8_decode_len :: "u8 list \<Rightarrow> nat \<Rightarrow> nat \<Rightarrow> (u32 \<times> nat) option" where
  "utf8_decode_len bs p max_len =
     (if max_len = 0 then Some (0xFFFD, p)
      else if max_len = 1 then do {
        b \<leftarrow> rd bs p;
        if b < 0x80 then utf8_decode bs p else Some (0xFFFD, p + 1)
      }
      else if max_len = 2 then do {
        b \<leftarrow> rd bs p;
        if b < 0xE0 then utf8_decode bs p else Some (0xFFFD, p + 1)
      }
      else if max_len = 3 then do {
        b \<leftarrow> rd bs p;
        if b < 0xF0 then utf8_decode bs p else Some (0xFFFD, p + 1)
      }
      else utf8_decode bs p)"

section \<open>Scanning\<close>

definition UTF8_PLAIN_ASCII :: "u32" where "UTF8_PLAIN_ASCII = 0"
definition UTF8_NON_ASCII :: "u32" where "UTF8_NON_ASCII = 1"
definition UTF8_HAS_16BIT :: "u32" where "UTF8_HAS_16BIT = 2"
definition UTF8_HAS_NON_BMP1 :: "u32" where "UTF8_HAS_NON_BMP1 = 4"
definition UTF8_HAS_ERRORS :: "u32" where "UTF8_HAS_ERRORS = 8"

lemmas utf8_kinds = UTF8_PLAIN_ASCII_def UTF8_NON_ASCII_def UTF8_HAS_16BIT_def
  UTF8_HAS_NON_BMP1_def UTF8_HAS_ERRORS_def

text \<open>The first loop: the disjunction of all bytes.\<close>

fun scan_cbits :: "u8 list \<Rightarrow> nat \<Rightarrow> nat \<Rightarrow> u8 \<Rightarrow> u8 option" where
  "scan_cbits bs i 0 cbits = Some cbits"
| "scan_cbits bs i (Suc n) cbits =
     do { b \<leftarrow> rd bs i; scan_cbits bs (i + 1) n (cbits OR b) }"

text \<open>One round of the second loop, and the loop from \<open>p\<close> to \<open>p_end\<close>.\<close>

definition scan_round :: "u8 list \<Rightarrow> nat \<Rightarrow> nat \<Rightarrow> nat \<Rightarrow> u32 \<Rightarrow> (nat \<times> nat \<times> u32) option" where
  "scan_round bs p_end p len kind =
     do {
       let len = len + 1;
       b \<leftarrow> rd bs p;
       let p = p + 1;
       if b \<ge> 0x80 then do {
         (c, p_next) \<leftarrow> utf8_decode_len bs (p - 1) (p_end - (p - 1));
         let kind = (if p_next = p then kind OR UTF8_HAS_ERRORS else kind);
         let p = p_next;
         if c > 0xFF then
           if c > 0xFFFF then Some (p, len + 1, (kind OR UTF8_HAS_16BIT) OR UTF8_HAS_NON_BMP1)
           else Some (p, len, kind OR UTF8_HAS_16BIT)
         else Some (p, len, kind)
       }
       else Some (p, len, kind)
     }"

text \<open>A fuel of the number of bytes is enough for the loop, as every round consumes one.\<close>

fun scan_loop :: "nat \<Rightarrow> u8 list \<Rightarrow> nat \<Rightarrow> nat \<Rightarrow> nat \<Rightarrow> u32 \<Rightarrow> (u32 \<times> nat) option" where
  "scan_loop fuel bs p_end p len kind =
     (if p < p_end then
        case fuel of
          0 \<Rightarrow> None
        | Suc fuel \<Rightarrow>
            do {
              (p, len, kind) \<leftarrow> scan_round bs p_end p len kind;
              scan_loop fuel bs p_end p len kind
            }
      else Some (kind, len))"

definition utf8_scan :: "u8 list \<Rightarrow> nat \<Rightarrow> (u32 \<times> nat) option" where
  "utf8_scan bs buf_len =
     do {
       cbits \<leftarrow> scan_cbits bs 0 buf_len 0;
       if cbits \<ge> 0x80 then scan_loop buf_len bs buf_len 0 0 UTF8_NON_ASCII
       else Some (UTF8_PLAIN_ASCII, buf_len)
     }"

section \<open>Decoding a string\<close>

text \<open>A store that happens only inside the first \<open>dest_len\<close> elements.\<close>

definition put_below :: "'a list \<Rightarrow> nat \<Rightarrow> nat \<Rightarrow> 'a \<Rightarrow> 'a list option" where
  "put_below dest dest_len i x = (if i < dest_len then wr dest i x else Some dest)"

fun decode_buf8_loop ::
    "nat \<Rightarrow> u8 list \<Rightarrow> nat \<Rightarrow> u8 list \<Rightarrow> nat \<Rightarrow> nat \<Rightarrow> nat \<Rightarrow> (u8 list \<times> nat) option" where
  "decode_buf8_loop fuel dest dest_len src p_end p i =
     (if p < p_end then
        case fuel of
          0 \<Rightarrow> None
        | Suc fuel \<Rightarrow>
            do {
              b \<leftarrow> rd src p;
              let c = (ucast b :: u32);
              (c, p) \<leftarrow> (if c \<ge> 0xC0 then do {
                           b1 \<leftarrow> rd src (p + 1);
                           Some (push_bit 6 c + ucast b1 - (push_bit 6 0xC0 + 0x80), p + 2)
                         }
                         else Some (c, p + 1));
              dest \<leftarrow> put_below dest dest_len i (ucast c);
              decode_buf8_loop fuel dest dest_len src p_end p (i + 1)
            }
      else Some (dest, i))"

definition utf8_decode_buf8 ::
    "u8 list \<Rightarrow> nat \<Rightarrow> u8 list \<Rightarrow> nat \<Rightarrow> (u8 list \<times> nat) option" where
  "utf8_decode_buf8 dest dest_len src src_len =
     do {
       (dest, i) \<leftarrow> decode_buf8_loop src_len dest dest_len src src_len 0 0;
       dest \<leftarrow> (if i < dest_len then wr dest i 0
               else if dest_len > 0 then wr dest (dest_len - 1) 0
               else Some dest);
       Some (dest, i)
     }"

definition decode_buf16_round ::
    "u16 list \<Rightarrow> nat \<Rightarrow> u8 list \<Rightarrow> nat \<Rightarrow> nat \<Rightarrow> nat \<Rightarrow> (u16 list \<times> nat \<times> nat) option" where
  "decode_buf16_round dest dest_len src p_end p i =
     do {
       b \<leftarrow> rd src p;
       let c = (ucast b :: u32);
       (c, p, dest, i) \<leftarrow>
         (if c \<ge> 0x80 then do {
            (c, p) \<leftarrow> utf8_decode_len src p (p_end - p);
            (if c > 0xFFFF then do {
               dest \<leftarrow> put_below dest dest_len i (ucast (get_hi_surrogate c));
               Some (get_lo_surrogate c, p, dest, i + 1)
             }
             else Some (c, p, dest, i))
          }
          else Some (c, p + 1, dest, i));
       dest \<leftarrow> put_below dest dest_len i (ucast c);
       Some (dest, p, i + 1)
     }"

fun decode_buf16_loop ::
    "nat \<Rightarrow> u16 list \<Rightarrow> nat \<Rightarrow> u8 list \<Rightarrow> nat \<Rightarrow> nat \<Rightarrow> nat \<Rightarrow> (u16 list \<times> nat) option" where
  "decode_buf16_loop fuel dest dest_len src p_end p i =
     (if p < p_end then
        case fuel of
          0 \<Rightarrow> None
        | Suc fuel \<Rightarrow>
            do {
              (dest, p, i) \<leftarrow> decode_buf16_round dest dest_len src p_end p i;
              decode_buf16_loop fuel dest dest_len src p_end p i
            }
      else Some (dest, i))"

definition utf8_decode_buf16 ::
    "u16 list \<Rightarrow> nat \<Rightarrow> u8 list \<Rightarrow> nat \<Rightarrow> (u16 list \<times> nat) option" where
  "utf8_decode_buf16 dest dest_len src src_len =
     decode_buf16_loop src_len dest dest_len src src_len 0 0"

section \<open>Encoding a string\<close>

text \<open>
  The loops either end with the string stored, or meet a character that does not fit and go
  on, from it, only counting the bytes.
\<close>

fun count_buf8 :: "u8 list \<Rightarrow> nat \<Rightarrow> nat \<Rightarrow> nat \<Rightarrow> nat option" where
  "count_buf8 src i 0 j = Some j"
| "count_buf8 src i (Suc n) j =
     do { b \<leftarrow> rd src i; count_buf8 src (i + 1) n (j + (1 + (if b \<ge> 0x80 then 1 else 0))) }"

text \<open>\<open>n\<close> is the number of source units that are left, \<open>src_len - i\<close>.\<close>

fun encode_buf8_loop ::
    "u8 list \<Rightarrow> nat \<Rightarrow> u8 list \<Rightarrow> nat \<Rightarrow> nat \<Rightarrow> nat \<Rightarrow> (u8 list \<times> nat \<times> nat \<times> bool) option" where
  "encode_buf8_loop dest dest_len src i 0 j = Some (dest, i, j, False)"
| "encode_buf8_loop dest dest_len src i (Suc n) j =
     do {
       b \<leftarrow> rd src i;
       let c = (ucast b :: u32);
       if c < 0x80 then
         if j + 1 \<ge> dest_len then Some (dest, i, j, True)
         else do {
           dest \<leftarrow> wr dest j (ucast c);
           encode_buf8_loop dest dest_len src (i + 1) n (j + 1)
         }
       else
         if j + 2 \<ge> dest_len then Some (dest, i, j, True)
         else do {
           dest \<leftarrow> wr dest j (ucast (drop_bit 6 c OR 0xC0));
           dest \<leftarrow> wr dest (j + 1) (ucast ((c AND 0x3F) OR 0x80));
           encode_buf8_loop dest dest_len src (i + 1) n (j + 2)
         }
     }"

definition utf8_encode_buf8 ::
    "u8 list \<Rightarrow> nat \<Rightarrow> u8 list \<Rightarrow> nat \<Rightarrow> (u8 list \<times> nat) option" where
  "utf8_encode_buf8 dest dest_len src src_len =
     do {
       (dest, i, j, overflow) \<leftarrow> encode_buf8_loop dest dest_len src 0 src_len 0;
       dest \<leftarrow> put_below dest dest_len j 0;
       if overflow then do { j \<leftarrow> count_buf8 src i (src_len - i) j; Some (dest, j) }
       else Some (dest, j)
     }"

text \<open>The code point at index \<open>i\<close>, a surrogate pair read as one, and the index behind it.\<close>

definition get_code_point :: "u16 list \<Rightarrow> nat \<Rightarrow> nat \<Rightarrow> (u32 \<times> nat) option" where
  "get_code_point src src_len i =
     do {
       w \<leftarrow> rd src i;
       let c = (ucast w :: u32);
       let i = i + 1;
       if is_hi_surrogate c \<and> i < src_len then do {
         w1 \<leftarrow> rd src i;
         if is_lo_surrogate (ucast w1) then Some (from_surrogate c (ucast w1), i + 1)
         else Some (c, i)
       }
       else Some (c, i)
     }"

fun count_buf16 :: "nat \<Rightarrow> u16 list \<Rightarrow> nat \<Rightarrow> nat \<Rightarrow> nat \<Rightarrow> nat option" where
  "count_buf16 fuel src src_len i j =
     (if i < src_len then
        case fuel of
          0 \<Rightarrow> None
        | Suc fuel \<Rightarrow>
            do {
              w \<leftarrow> rd src i;
              if w < 0x80 then count_buf16 fuel src src_len (i + 1) (j + 1)
              else do {
                (c, i) \<leftarrow> get_code_point src src_len i;
                count_buf16 fuel src src_len i (j + utf8_encode_len c)
              }
            }
      else Some j)"

fun encode_buf16_loop ::
    "nat \<Rightarrow> u8 list \<Rightarrow> nat \<Rightarrow> u16 list \<Rightarrow> nat \<Rightarrow> nat \<Rightarrow> nat \<Rightarrow> (u8 list \<times> nat \<times> nat \<times> bool) option" where
  "encode_buf16_loop fuel dest dest_len src src_len i j =
     (if i < src_len then
        case fuel of
          0 \<Rightarrow> None
        | Suc fuel \<Rightarrow>
            do {
              w \<leftarrow> rd src i;
              if w < 0x80 then
                if j + 1 \<ge> dest_len then Some (dest, (i + 1) - 1, j, True)
                else do {
                  dest \<leftarrow> wr dest j (ucast w);
                  encode_buf16_loop fuel dest dest_len src src_len (i + 1) (j + 1)
                }
              else do {
                (c, i) \<leftarrow> get_code_point src src_len i;
                if j + utf8_encode_len c \<ge> dest_len
                then Some (dest, i - (1 + (if c > 0xFFFF then 1 else 0)), j, True)
                else do {
                  (dest, n) \<leftarrow> utf8_encode dest j c;
                  encode_buf16_loop fuel dest dest_len src src_len i (j + n)
                }
              }
            }
      else Some (dest, i, j, False))"

definition utf8_encode_buf16 ::
    "u8 list \<Rightarrow> nat \<Rightarrow> u16 list \<Rightarrow> nat \<Rightarrow> (u8 list \<times> nat) option" where
  "utf8_encode_buf16 dest dest_len src src_len =
     do {
       (dest, i, j, overflow) \<leftarrow> encode_buf16_loop src_len dest dest_len src src_len 0 0;
       dest \<leftarrow> put_below dest dest_len j 0;
       if overflow then do { j \<leftarrow> count_buf16 (src_len - i) src src_len i j; Some (dest, j) }
       else Some (dest, j)
     }"

declare scan_loop.simps [simp del] decode_buf8_loop.simps [simp del]
  decode_buf16_loop.simps [simp del] count_buf16.simps [simp del] encode_buf16_loop.simps [simp del]

end
