(* ===== verification/Utf8_Code_Point.thy ===== *)
theory Utf8_Code_Point
  imports Utf8
begin

lemma ucast_of_nat: "unat x = k \<Longrightarrow> ucast x = of_nat k"
  by auto

lemma unat_take_bit: "unat (take_bit n c) = unat c mod 2 ^ n"
  by (simp only: unsigned_take_bit_eq take_bit_eq_mod [where 'a = nat])

lemma unat_and_63: "unat ((c :: u32) AND 0x3F) = unat c mod 64"
proof -
  have "(0x3F :: u32) = mask 6" by (simp add: mask_eq_exp_minus_1)
  then have "c AND 0x3F = take_bit 6 c" by (simp only: take_bit_eq_mask)
  then show ?thesis by (simp only: unat_take_bit) simp
qed

lemma unat_drop_bit_32: "unat (drop_bit n c) = unat c div 2 ^ n"
  by (simp only: unat_drop_bit_eq drop_bit_eq_div [where 'a = nat])

lemma unat_or_field:
  fixes c :: u32
  assumes "unat c < 2 ^ n" and "f = push_bit n g" and "unat c + unat f < 2 ^ 32"
  shows "unat (c OR f) = unat c + unat f"
proof -
  have "c OR f = c + f"
    using or_is_add [OF and_mask_field [OF assms(1), of g]] assms(2) by simp
  then show ?thesis using assms(3) by (simp add: unat_word_ariths)
qed

lemma field_80: "(ucast ((c AND 0x3F) OR (0x80 :: u32)) :: u8) = of_nat (128 + unat c mod 64)"
proof (rule ucast_of_nat)
  have "unat c mod 64 < 64" by simp
  then show "unat ((c AND 0x3F) OR (0x80 :: u32)) = 128 + unat c mod 64"
    using unat_or_field [where c = "c AND 0x3F" and n = 7 and f = "0x80" and g = 1] unfolding unat_and_63 by simp
qed

lemma lead_C0:
  assumes "unat c < 0x800"
  shows "(ucast (drop_bit 6 c OR (0xC0 :: u32)) :: u8) = of_nat (192 + unat c div 64)"
proof (rule ucast_of_nat)
  have "unat c div 64 < 32" using assms by simp
  then show "unat (drop_bit 6 c OR (0xC0 :: u32)) = 192 + unat c div 64"
    using unat_or_field [where c = "drop_bit 6 c" and n = 6 and f = "0xC0" and g = 3] unfolding unat_drop_bit_32 by simp
qed

lemma lead_E0:
  assumes "unat c < 0x10000"
  shows "(ucast (drop_bit 12 c OR (0xE0 :: u32)) :: u8) = of_nat (224 + unat c div 4096)"
proof (rule ucast_of_nat)
  have "unat c div 4096 < 16" using assms by simp
  then show "unat (drop_bit 12 c OR (0xE0 :: u32)) = 224 + unat c div 4096"
    using unat_or_field [where c = "drop_bit 12 c" and n = 5 and f = "0xE0" and g = 7] unfolding unat_drop_bit_32 by simp
qed

lemma lead_F0:
  assumes "unat c < 0x110000"
  shows "(ucast (drop_bit 18 c OR (0xF0 :: u32)) :: u8) = of_nat (240 + unat c div 262144)"
proof (rule ucast_of_nat)
  have "unat c div 262144 < 5" using assms by simp
  then show "unat (drop_bit 18 c OR (0xF0 :: u32)) = 240 + unat c div 262144"
    using unat_or_field [where c = "drop_bit 18 c" and n = 4 and f = "0xF0" and g = 15] unfolding unat_drop_bit_32 by simp
qed

text \<open>The encoding of a code point as a list of bytes, in plain arithmetic.\<close>

definition utf8_bytes :: "nat \<Rightarrow> u8 list" where
  "utf8_bytes n =
     (if n < 0x80 then [of_nat n]
      else if n < 0x800 then [of_nat (192 + n div 64), of_nat (128 + n mod 64)]
      else if n < 0x10000 then
        [of_nat (224 + n div 4096), of_nat (128 + n div 64 mod 64), of_nat (128 + n mod 64)]
      else
        [of_nat (240 + n div 262144), of_nat (128 + n div 4096 mod 64),
         of_nat (128 + n div 64 mod 64), of_nat (128 + n mod 64)])"

lemma length_utf8_bytes: "c < 0x110000 \<Longrightarrow> length (utf8_bytes (unat c)) = utf8_encode_len c"
  by (auto simp: utf8_bytes_def utf8_encode_len_def word_less_nat_alt)

lemma utf8_encode_len_bounds: "1 \<le> utf8_encode_len c" "utf8_encode_len c \<le> 4"
  by (auto simp: utf8_encode_len_def)

lemma wr_block_Cons:
  "wr_block xs j (y # ys) = do { xs' \<leftarrow> wr xs j y; wr_block xs' (j + 1) ys }"
proof (cases "j + length (y # ys) \<le> length xs")
  case True
  then have "j < length xs" by simp
  then have "take (j + 1) (xs[j := y]) = take j xs @ [y]"
    by (simp add: take_Suc_conv_app_nth)
  moreover have "drop (j + 1 + length ys) (xs[j := y]) = drop (j + length (y # ys)) xs"
    by simp
  ultimately show ?thesis using True \<open>j < length xs\<close> by (simp add: wr_block_def)
next
  case False
  then show ?thesis by (auto simp: wr_block_def wr_def)
qed

lemma wr_block_Nil: "j \<le> length xs \<Longrightarrow> wr_block xs j [] = Some xs"
  by (simp add: wr_block_def)

lemma wr_block_1: "wr_block xs j [a] = wr xs j a"
  by (cases "j < length xs") (simp_all add: wr_block_def wr_def upd_conv_take_nth_drop)

lemma wr_block_2: "wr_block xs j [a, b] = do { xs \<leftarrow> wr xs j a; wr xs (j + 1) b }"
  by (simp add: wr_block_Cons [of _ _ _ "[_]"] wr_block_1)

lemma wr_block_3: "wr_block xs j [a, b, c] = do { xs \<leftarrow> wr xs j a; xs \<leftarrow> wr xs (j + 1) b; wr xs (j + 2) c }"
  by (simp add: wr_block_Cons [of _ _ _ "[_, _]"] wr_block_2)

lemma wr_block_4:
  "wr_block xs j [a, b, c, d] =
     do { xs \<leftarrow> wr xs j a; xs \<leftarrow> wr xs (j + 1) b; xs \<leftarrow> wr xs (j + 2) c; wr xs (j + 3) d }"
  by (simp add: wr_block_Cons [of _ _ _ "[_, _, _]"] wr_block_3 eval_nat_numeral)

lemma pow6: "(2 :: nat) ^ 6 = 64" "(2 :: nat) ^ 12 = 4096"
  by simp_all

lemma map_option_wr: "map_option f (wr xs i a) = do { xs \<leftarrow> wr xs i a; Some (f xs) }"
  by (simp add: wr_def)

lemma utf8_encode_block:
  assumes "c < 0x110000"
  shows "utf8_encode buf j c =
     map_option (\<lambda>buf. (buf, utf8_encode_len c)) (wr_block buf j (utf8_bytes (unat c)))"
proof -
  consider "unat c < 0x80" | "\<not> unat c < 0x80" "unat c < 0x800" 
    | "\<not> unat c < 0x800" "unat c < 0x10000" | "\<not> unat c < 0x10000" "unat c < 0x110000"
    using assms by (fastforce simp: word_less_nat_alt)
  then show ?thesis
  proof cases
    case 1
    then have "c < 0x80" by (simp add: word_less_nat_alt)
    with 1 show ?thesis
      by (auto simp: utf8_encode_def utf8_bytes_def utf8_encode_len_def wr_block_1 wr_def)
  next
    case 2
    then have "\<not> c < 0x80" "c < 0x800" by (simp_all add: word_less_nat_alt)
    then have "utf8_encode buf j c = do {
        buf \<leftarrow> wr buf j (of_nat (192 + unat c div 64));
        buf \<leftarrow> wr buf (j + 1) (of_nat (128 + unat c mod 64));
        Some (buf, 2) }"
      by (simp only: utf8_encode_def if_True if_False lead_C0 [OF 2(2)] field_80 bind.bind_lunit)
    with 2 \<open>\<not> c < 0x80\<close> \<open>c < 0x800\<close> show ?thesis
      by (simp only: utf8_bytes_def utf8_encode_len_def wr_block_2 if_True if_False map_option_bind comp_def map_option_wr)
  next
    case 3
    then have c: "\<not> c < 0x80" "\<not> c < 0x800" "c < 0x10000" by (simp_all add: word_less_nat_alt)
    have n: "\<not> unat c < 0x80" using 3 by simp
    have "utf8_encode buf j c = do {
        buf \<leftarrow> wr buf j (of_nat (224 + unat c div 4096));
        buf \<leftarrow> wr buf (j + 1) (of_nat (128 + unat c div 64 mod 64));
        buf \<leftarrow> wr buf (j + 2) (of_nat (128 + unat c mod 64));
        Some (buf, 3) }"
      by (simp only: utf8_encode_def c if_True if_False lead_E0 [OF 3(2)] field_80 unat_drop_bit_32 pow6)
    with 3 c n show ?thesis
      by (simp only: utf8_bytes_def utf8_encode_len_def wr_block_3 if_True if_False map_option_bind
          comp_def map_option_wr)
  next
    case 4
    then have c: "\<not> c < 0x80" "\<not> c < 0x800" "\<not> c < 0x10000" by (simp_all add: word_less_nat_alt)
    have n: "\<not> unat c < 0x80" "\<not> unat c < 0x800" using 4 by simp_all
    have "utf8_encode buf j c = do {
        buf \<leftarrow> wr buf j (of_nat (240 + unat c div 262144));
        buf \<leftarrow> wr buf (j + 1) (of_nat (128 + unat c div 4096 mod 64));
        buf \<leftarrow> wr buf (j + 2) (of_nat (128 + unat c div 64 mod 64));
        buf \<leftarrow> wr buf (j + 3) (of_nat (128 + unat c mod 64));
        Some (buf, 4) }"
      by (simp only: utf8_encode_def c assms if_True if_False lead_F0 [OF 4(2)] field_80 unat_drop_bit_32 pow6)
    with 4 c n assms show ?thesis
      by (simp only: utf8_bytes_def utf8_encode_len_def wr_block_4 if_True if_False map_option_bind
          comp_def map_option_wr)
  qed
qed

section \<open>Decoding inverts encoding\<close>

text \<open>The value of a trailing byte, and the sums of fields that the decoder makes.\<close>

lemma unat_byte_minus:
  fixes b :: u8
  assumes "k \<le> unat b" and "k = unat (d :: u32)"
  shows "unat (ucast b - d) = unat b - k"
proof -
  have "unat b < 2 ^ 32" using unsigned_less [where 'a = nat, of b] by simp
  then have "unat (ucast b :: u32) = unat b"
    by (simp add: unsigned_ucast_eq take_bit_nat_eq_self)
  then show ?thesis using assms by (simp add: unat_sub word_le_nat_alt)
qed

lemma unat_shift_add:
  fixes x y :: u32
  assumes "unat x * 2 ^ n + unat y < 2 ^ 32"
  shows "unat (push_bit n x + y) = unat x * 2 ^ n + unat y"
proof -
  have "push_bit n x + y = of_nat (unat x * 2 ^ n + unat y)"
    by (simp add: push_bit_eq_mult)
  then show ?thesis using assms by (simp only: unat_of_nat) simp
qed

lemma unat_ucast_byte: "unat (ucast (b :: u8) :: u32) = unat b"
  using unsigned_less [where 'a = nat, of b] by (simp add: unsigned_ucast_eq take_bit_nat_eq_self)

lemma word_eqI_unat: "unat x = n \<Longrightarrow> n < 2 ^ 32 \<Longrightarrow> (x :: u32) = of_nat n"
  by auto

lemma byte_range: "(lo :: u8) \<le> b \<and> b \<le> hi \<longleftrightarrow> unat lo \<le> unat b \<and> unat b \<le> unat hi"
  by (simp add: word_le_nat_alt)

lemma utf8_need1_nat:
  fixes b0 :: u8
  assumes "192 \<le> unat b0" and "unat b0 \<le> 223"
  shows "utf8_need1 bs (ucast b0) p =
    do {
      b \<leftarrow> rd bs p;
      if 128 \<le> unat b \<and> unat b \<le> 191
      then Some (of_nat ((unat b0 - 192) * 64 + (unat b - 128)), p + 1)
      else Some (0xFFFD, p)
    }"
proof (cases "rd bs p")
  case (Some b)
  have "push_bit 6 (ucast b0 - 0xC0) + (ucast b - 0x80) =
      (of_nat ((unat b0 - 192) * 64 + (unat b - 128)) :: u32)"
    if "128 \<le> unat b" "unat b \<le> 191"
  proof (rule word_eqI_unat)
    note v = unat_byte_minus [OF assms(1), of "0xC0"] unat_byte_minus [OF that(1), of "0x80"]
    show "unat (push_bit 6 (ucast b0 - 0xC0) + (ucast b - 0x80) :: u32) = (unat b0 - 192) * 64 + (unat b - 128)"
      using v assms that by (subst unat_shift_add) simp_all
    show "(unat b0 - 192) * 64 + (unat b - 128) < 2 ^ 32" using assms that by simp
  qed
  then show ?thesis using Some
    by (auto simp: utf8_need1_def byte_between_def byte_range)
qed (simp add: utf8_need1_def byte_between_def)

lemma utf8_need2_nat:
  fixes b0 :: u8
  assumes "224 \<le> unat b0" and "unat b0 \<le> 239" and "128 \<le> unat lower"
  shows "utf8_need2 bs (ucast b0) p lower =
    do {
      b \<leftarrow> rd bs p;
      if unat lower \<le> unat b \<and> unat b \<le> 191
      then do {
        b1 \<leftarrow> rd bs (p + 1);
        if 128 \<le> unat b1 \<and> unat b1 \<le> 191
        then Some (of_nat ((unat b0 - 224) * 4096 + (unat b - 128) * 64 + (unat b1 - 128)), p + 2)
        else Some (0xFFFD, p)
      }
      else Some (0xFFFD, p)
    }"
proof (cases "rd bs p")
  case (Some b)
  show ?thesis
  proof (cases "rd bs (p + 1)")
    case None
    with Some show ?thesis by (simp add: utf8_need2_def byte_between_def and_then_def byte_range)
  next
    case b1: (Some b1)
    have "push_bit 12 (ucast b0 - 0xE0) + push_bit 6 (ucast b - 0x80) + (ucast b1 - 0x80) =
        (of_nat ((unat b0 - 224) * 4096 + (unat b - 128) * 64 + (unat b1 - 128)) :: u32)"
      if *: "unat lower \<le> unat b" "unat b \<le> 191" "128 \<le> unat b1" "unat b1 \<le> 191"
    proof (rule word_eqI_unat)
      have b: "128 \<le> unat b" using *(1) assms(3) by simp
      note v = unat_byte_minus [OF assms(1), of "0xE0"] unat_byte_minus [OF b, of "0x80"]
        unat_byte_minus [OF *(3), of "0x80"]
      show "unat (push_bit 12 (ucast b0 - 0xE0) + push_bit 6 (ucast b - 0x80) + (ucast b1 - 0x80) :: u32) =
          (unat b0 - 224) * 4096 + (unat b - 128) * 64 + (unat b1 - 128)"
        unfolding add.assoc using v assms * b by (simp add: unat_shift_add)
      show "(unat b0 - 224) * 4096 + (unat b - 128) * 64 + (unat b1 - 128) < 2 ^ 32"
        using assms * by simp
    qed
    then show ?thesis using Some b1
      by (auto simp: utf8_need2_def byte_between_def and_then_def byte_range)
  qed
qed (simp add: utf8_need2_def byte_between_def and_then_def)

lemma utf8_need3_nat:
  fixes b0 :: u8
  assumes "240 \<le> unat b0" and "unat b0 \<le> 244" and "128 \<le> unat lower" and "unat upper \<le> 191"
  shows "utf8_need3 bs (ucast b0) p lower upper =
    do {
      b \<leftarrow> rd bs p;
      if unat lower \<le> unat b \<and> unat b \<le> unat upper
      then do {
        b1 \<leftarrow> rd bs (p + 1);
        if 128 \<le> unat b1 \<and> unat b1 \<le> 191
        then do {
          b2 \<leftarrow> rd bs (p + 2);
          if 128 \<le> unat b2 \<and> unat b2 \<le> 191
          then Some (of_nat ((unat b0 - 240) * 262144 + (unat b - 128) * 4096 +
                             (unat b1 - 128) * 64 + (unat b2 - 128)), p + 3)
          else Some (0xFFFD, p)
        }
        else Some (0xFFFD, p)
      }
      else Some (0xFFFD, p)
    }"
proof (cases "rd bs p")
  case (Some b)
  show ?thesis
  proof (cases "rd bs (p + 1)")
    case None
    with Some show ?thesis by (simp add: utf8_need3_def byte_between_def and_then_def byte_range)
  next
    case b1: (Some b1)
    show ?thesis
    proof (cases "rd bs (p + 2)")
      case None
      with Some b1 show ?thesis by (simp add: utf8_need3_def byte_between_def and_then_def byte_range)
    next
      case b2: (Some b2)
      have "push_bit 18 (ucast b0 - 0xF0) + push_bit 12 (ucast b - 0x80) + push_bit 6 (ucast b1 - 0x80) +
            (ucast b2 - 0x80) =
          (of_nat ((unat b0 - 240) * 262144 + (unat b - 128) * 4096 + (unat b1 - 128) * 64 + (unat b2 - 128)) :: u32)"
        if *: "unat lower \<le> unat b" "unat b \<le> unat upper" "128 \<le> unat b1" "unat b1 \<le> 191"
          "128 \<le> unat b2" "unat b2 \<le> 191"
      proof (rule word_eqI_unat)
        have b: "128 \<le> unat b" "unat b \<le> 191" using *(1,2) assms(3,4) by simp_all
        note v = unat_byte_minus [OF assms(1), of "0xF0"] unat_byte_minus [OF b(1), of "0x80"]
          unat_byte_minus [OF *(3), of "0x80"] unat_byte_minus [OF *(5), of "0x80"]
        show "unat (push_bit 18 (ucast b0 - 0xF0) + push_bit 12 (ucast b - 0x80) +
              push_bit 6 (ucast b1 - 0x80) + (ucast b2 - 0x80) :: u32) =
            (unat b0 - 240) * 262144 + (unat b - 128) * 4096 + (unat b1 - 128) * 64 + (unat b2 - 128)"
          unfolding add.assoc using v assms * b by (simp add: unat_shift_add)
        show "(unat b0 - 240) * 262144 + (unat b - 128) * 4096 + (unat b1 - 128) * 64 + (unat b2 - 128) < 2 ^ 32"
          using assms * b by simp
      qed
      then show ?thesis using Some b1 b2
        by (auto simp: utf8_need3_def byte_between_def and_then_def byte_range)
    qed
  qed
qed (simp add: utf8_need3_def byte_between_def and_then_def)

lemma utf8_decode_nat:
  assumes "rd bs p = Some b"
  shows "utf8_decode bs p =
    (if unat b < 128 then Some (ucast b, p + 1)
     else if 194 \<le> unat b \<and> unat b \<le> 223 then utf8_need1 bs (ucast b) (p + 1)
     else if unat b = 224 then utf8_need2 bs (ucast b) (p + 1) 0xA0
     else if 225 \<le> unat b \<and> unat b \<le> 239 then utf8_need2 bs (ucast b) (p + 1) 0x80
     else if unat b = 240 then utf8_need3 bs (ucast b) (p + 1) 0x90 0xBF
     else if unat b = 244 then utf8_need3 bs (ucast b) (p + 1) 0x80 0x8F
     else if 241 \<le> unat b \<and> unat b \<le> 243 then utf8_need3 bs (ucast b) (p + 1) 0x80 0xBF
     else Some (0xFFFD, p + 1))"
  using assms
  by (simp add: utf8_decode_def word_less_nat_alt word_le_nat_alt word_unat_eq_iff unat_ucast_byte Let_def)

lemma take_drop_rd:
  "rd bs p = Some a \<Longrightarrow> take (Suc n) (drop p bs) = a # take n (drop (p + 1) bs)"
  by (auto simp: rd_eq_Some Cons_nth_drop_Suc [symmetric])

lemma take_drop_bytes:
  "rd bs p = Some a \<Longrightarrow> take 1 (drop p bs) = [a]"
  "rd bs p = Some a \<Longrightarrow> rd bs (p + 1) = Some b \<Longrightarrow> take 2 (drop p bs) = [a, b]"
  "rd bs p = Some a \<Longrightarrow> rd bs (p + 1) = Some b \<Longrightarrow> rd bs (p + 2) = Some c \<Longrightarrow>
     take 3 (drop p bs) = [a, b, c]"
  "rd bs p = Some a \<Longrightarrow> rd bs (p + 1) = Some b \<Longrightarrow> rd bs (p + 2) = Some c \<Longrightarrow> rd bs (p + 3) = Some d \<Longrightarrow>
     take 4 (drop p bs) = [a, b, c, d]"
  by (simp_all add: eval_nat_numeral take_drop_rd)

text \<open>The encoding of a number that is given by its six-bit digits.\<close>

lemma utf8_bytes_digits:
  assumes "a < 64" "b < 64" "c < 64" "d < 64"
  shows "2 \<le> a \<Longrightarrow> a < 32 \<Longrightarrow> utf8_bytes (a * 64 + b) = [of_nat (192 + a), of_nat (128 + b)]"
    and "a < 16 \<Longrightarrow> a = 0 \<Longrightarrow> 32 \<le> b \<Longrightarrow>
      utf8_bytes (a * 4096 + b * 64 + c) = [of_nat (224 + a), of_nat (128 + b), of_nat (128 + c)]"
    and "a < 16 \<Longrightarrow> 0 < a \<Longrightarrow>
      utf8_bytes (a * 4096 + b * 64 + c) = [of_nat (224 + a), of_nat (128 + b), of_nat (128 + c)]"
    and "0 < a \<or> 16 \<le> b \<Longrightarrow>
      utf8_bytes (a * 262144 + b * 4096 + c * 64 + d) =
        [of_nat (240 + a), of_nat (128 + b), of_nat (128 + c), of_nat (128 + d)]"
proof -
  show "utf8_bytes (a * 64 + b) = [of_nat (192 + a), of_nat (128 + b)]" if "2 \<le> a" "a < 32"
  proof -
    have "\<not> a * 64 + b < 0x80" "a * 64 + b < 0x800" "(a * 64 + b) div 64 = a" "(a * 64 + b) mod 64 = b"
      using assms that by auto
    then show ?thesis by (simp only: utf8_bytes_def if_True if_False)
  qed
  have "utf8_bytes (a * 4096 + b * 64 + c) = [of_nat (224 + a), of_nat (128 + b), of_nat (128 + c)]"
    if "a < 16" "32 \<le> b \<or> 0 < a"
  proof -
    have eq: "a * 4096 + b * 64 + c = (a * 64 + b) * 64 + c" by simp
    then have "(a * 4096 + b * 64 + c) div 64 = a * 64 + b" using assms by auto
    moreover have "(a * 4096 + b * 64 + c) mod 64 = c"
      using assms by (simp only: eq mod_mult_self3 mod_less)
    moreover have "(a * 64 + b) mod 64 = b" "(a * 4096 + b * 64 + c) div 4096 = a"
      using assms by auto
    moreover have "\<not> a * 4096 + b * 64 + c < 0x80" "\<not> a * 4096 + b * 64 + c < 0x800"
      "a * 4096 + b * 64 + c < 0x10000"
      using assms that by auto
    ultimately show ?thesis by (simp only: utf8_bytes_def if_True if_False)
  qed
  then show "a < 16 \<Longrightarrow> a = 0 \<Longrightarrow> 32 \<le> b \<Longrightarrow>
      utf8_bytes (a * 4096 + b * 64 + c) = [of_nat (224 + a), of_nat (128 + b), of_nat (128 + c)]"
    and "a < 16 \<Longrightarrow> 0 < a \<Longrightarrow>
      utf8_bytes (a * 4096 + b * 64 + c) = [of_nat (224 + a), of_nat (128 + b), of_nat (128 + c)]"
    by blast+
  show "utf8_bytes (a * 262144 + b * 4096 + c * 64 + d) =
      [of_nat (240 + a), of_nat (128 + b), of_nat (128 + c), of_nat (128 + d)]" if "0 < a \<or> 16 \<le> b"
  proof -
    let ?n = "a * 262144 + b * 4096 + c * 64 + d"
    have eq: "?n = (a * 4096 + b * 64 + c) * 64 + d" by simp
    then have "?n div 64 = a * 4096 + b * 64 + c" using assms by auto
    moreover have "?n mod 64 = d" using assms by (simp only: eq mod_mult_self3 mod_less)
    moreover have eq': "a * 4096 + b * 64 + c = (a * 64 + b) * 64 + c" by simp
    then have "(a * 4096 + b * 64 + c) mod 64 = c"
      using assms by (simp only: mod_mult_self3 mod_less)
    moreover have "?n = (a * 64 + b) * 4096 + (c * 64 + d)" "c * 64 + d < 4096" using assms by auto
    then have "?n div 4096 = a * 64 + b" by simp
    moreover have "(a * 64 + b) mod 64 = b" using assms by simp
    moreover have "?n div 262144 = a" using assms by simp
    moreover have "\<not> ?n < 0x80" "\<not> ?n < 0x800" "\<not> ?n < 0x10000" using assms that by auto
    ultimately show ?thesis by (simp only: utf8_bytes_def if_True if_False)
  qed
qed

lemma utf8_bytes_2:
  assumes "194 \<le> x" "x \<le> 223" "128 \<le> y" "y \<le> 191"
  shows "utf8_bytes ((x - 192) * 64 + (y - 128)) = [of_nat x, of_nat y]"
    and "(x - 192) * 64 + (y - 128) < 0x110000"
  using utf8_bytes_digits(1) [of "x - 192" "y - 128" 0 0] assms by simp_all

lemma utf8_bytes_3:
  assumes "224 \<le> x" "x \<le> 239" "128 \<le> y" "y \<le> 191" "128 \<le> z" "z \<le> 191" and "x = 224 \<Longrightarrow> 160 \<le> y"
  shows "utf8_bytes ((x - 224) * 4096 + (y - 128) * 64 + (z - 128)) = [of_nat x, of_nat y, of_nat z]"
    and "(x - 224) * 4096 + (y - 128) * 64 + (z - 128) < 0x110000"
  using utf8_bytes_digits(2,3) [of "x - 224" "y - 128" "z - 128" 0] assms
  by (cases "x = 224"; simp)+

lemma utf8_bytes_4:
  assumes "240 \<le> x" "x \<le> 244" "128 \<le> y" "y \<le> 191" "128 \<le> z" "z \<le> 191" "128 \<le> w" "w \<le> 191"
    and "x = 240 \<Longrightarrow> 144 \<le> y" and "x = 244 \<Longrightarrow> y \<le> 143"
  shows "utf8_bytes ((x - 240) * 262144 + (y - 128) * 4096 + (z - 128) * 64 + (w - 128)) =
      [of_nat x, of_nat y, of_nat z, of_nat w]"
    and "(x - 240) * 262144 + (y - 128) * 4096 + (z - 128) * 64 + (w - 128) < 0x110000"
  using utf8_bytes_digits(4) [of "x - 240" "y - 128" "z - 128" "w - 128"] assms
   apply (cases "x = 240"; simp)
  using assms apply (cases "x = 244"; simp)
  done

text \<open>The code point \<open>c\<close> stands, canonically encoded, in \<open>bs\<close> from \<open>p\<close> to \<open>q\<close>.\<close>

definition encoded_at :: "u8 list \<Rightarrow> nat \<Rightarrow> u32 \<Rightarrow> nat \<Rightarrow> bool" where
  "encoded_at bs p c q \<longleftrightarrow>
     c < 0x110000 \<and> p < q \<and> q \<le> length bs \<and> take (q - p) (drop p bs) = utf8_bytes (unat c)"

lemma encoded_at_word:
  assumes "utf8_bytes n = take k (drop p bs)" and "n < 0x110000" and "0 < k" and "p + k \<le> length bs"
  shows "encoded_at bs p (of_nat n) (p + k)"
  using assms by (simp add: encoded_at_def word_less_nat_alt unat_of_nat)

lemma encoded_atI:
  assumes "take k (drop p bs) = bytes" and "utf8_bytes n = bytes" and "n < 0x110000"
    and "k = length bytes" and "0 < k" and "q = p + k"
  shows "encoded_at bs p (of_nat n) q"
proof -
  have "length (take k (drop p bs)) = k" using assms(1,4) by simp
  then have "p + k \<le> length bs" using assms(5) by simp
  then show ?thesis
    using assms by (simp add: encoded_at_def word_less_nat_alt unat_of_nat)
qed

lemma byte_of_nat: "of_nat (unat (b :: u8)) = b"
  by simp

lemma utf8_need1_sound:
  assumes "utf8_need1 bs (ucast b) (p + 1) = Some (c, q)" and b: "rd bs p = Some b"
    and lead: "194 \<le> unat b" "unat b \<le> 223"
  shows "c = 0xFFFD \<and> q = p + 1 \<or> encoded_at bs p c q"
proof -
  from assms(1) obtain y where y: "rd bs (p + 1) = Some y" and
    *: "(if 128 \<le> unat y \<and> unat y \<le> 191 then Some (of_nat ((unat b - 192) * 64 + (unat y - 128)), p + 1 + 1)
        else Some (0xFFFD, p + 1)) = Some (c, q)"
    using lead by (subst (asm) utf8_need1_nat) (auto simp: bind_eq_Some_conv)
  show ?thesis
  proof (cases "128 \<le> unat y \<and> unat y \<le> 191")
    case True
    with * have "c = of_nat ((unat b - 192) * 64 + (unat y - 128))" "q = p + 2" by auto
    with encoded_atI [OF take_drop_bytes(2) [OF b y]
        utf8_bytes_2(1,2) [of "unat b" "unat y", unfolded byte_of_nat], of q]
    show ?thesis using lead True by simp
  qed (use * in auto)
qed

lemma utf8_need2_sound:
  assumes "utf8_need2 bs (ucast b) (p + 1) lower = Some (c, q)" and b: "rd bs p = Some b"
    and lead: "224 \<le> unat b" "unat b \<le> 239" and lower: "lower = (if unat b = 224 then 0xA0 else 0x80)"
  shows "c = 0xFFFD \<and> q = p + 1 \<or> encoded_at bs p c q"
proof -
  from assms(1) obtain y where y: "rd bs (p + 1) = Some y" and
    *: "(if unat lower \<le> unat y \<and> unat y \<le> 191 then do {
          z \<leftarrow> rd bs (p + 1 + 1);
          if 128 \<le> unat z \<and> unat z \<le> 191
          then Some (of_nat ((unat b - 224) * 4096 + (unat y - 128) * 64 + (unat z - 128)), p + 1 + 2)
          else Some (0xFFFD, p + 1) }
        else Some (0xFFFD, p + 1)) = Some (c, q)"
    using lead by (subst (asm) utf8_need2_nat) (auto simp: bind_eq_Some_conv lower)
  show ?thesis
  proof (cases "unat lower \<le> unat y \<and> unat y \<le> 191")
    case True
    with * obtain z where z: "rd bs (p + 2) = Some z" and
      **: "(if 128 \<le> unat z \<and> unat z \<le> 191
          then Some (of_nat ((unat b - 224) * 4096 + (unat y - 128) * 64 + (unat z - 128)), p + 1 + 2)
          else Some (0xFFFD, p + 1)) = Some (c, q)"
      by (auto simp: bind_eq_Some_conv)
    have yy: "128 \<le> unat y" "unat b = 224 \<Longrightarrow> 160 \<le> unat y"
      using True by (auto simp: lower split: if_splits)
    show ?thesis
    proof (cases "128 \<le> unat z \<and> unat z \<le> 191")
      case zz: True
      with ** have "c = of_nat ((unat b - 224) * 4096 + (unat y - 128) * 64 + (unat z - 128))" "q = p + 3"
        by auto
      then show ?thesis
        using encoded_atI [OF take_drop_bytes(3) [OF b y z]
            utf8_bytes_3(1,2) [of "unat b" "unat y" "unat z", unfolded byte_of_nat], of q] lead True yy zz
        by simp
    qed (use ** in auto)
  qed (use * in auto)
qed

lemma utf8_need3_sound:
  assumes "utf8_need3 bs (ucast b) (p + 1) lower upper = Some (c, q)" and b: "rd bs p = Some b"
    and lead: "240 \<le> unat b" "unat b \<le> 244" and lower: "lower = (if unat b = 240 then 0x90 else 0x80)"
    and upper: "upper = (if unat b = 244 then 0x8F else 0xBF)"
  shows "c = 0xFFFD \<and> q = p + 1 \<or> encoded_at bs p c q"
proof -
  have bnd: "128 \<le> unat lower" "unat upper \<le> 191" by (auto simp: lower upper)
  from assms(1) obtain y where y: "rd bs (p + 1) = Some y" and
    *: "(if unat lower \<le> unat y \<and> unat y \<le> unat upper then do {
          z \<leftarrow> rd bs (p + 1 + 1);
          if 128 \<le> unat z \<and> unat z \<le> 191 then do {
            w \<leftarrow> rd bs (p + 1 + 2);
            if 128 \<le> unat w \<and> unat w \<le> 191
            then Some (of_nat ((unat b - 240) * 262144 + (unat y - 128) * 4096 + (unat z - 128) * 64 +
                               (unat w - 128)), p + 1 + 3)
            else Some (0xFFFD, p + 1) }
          else Some (0xFFFD, p + 1) }
        else Some (0xFFFD, p + 1)) = Some (c, q)"
    using lead bnd by (subst (asm) utf8_need3_nat) (auto simp: bind_eq_Some_conv)
  have err: "(0xFFFD, p + 1) = (c, q) \<Longrightarrow> ?thesis" by simp
  show ?thesis
  proof (cases "unat lower \<le> unat y \<and> unat y \<le> unat upper")
    case y_ok: True
    with * obtain z where z: "rd bs (p + 2) = Some z" and
      **: "(if 128 \<le> unat z \<and> unat z \<le> 191 then do {
            w \<leftarrow> rd bs (p + 1 + 2);
            if 128 \<le> unat w \<and> unat w \<le> 191
            then Some (of_nat ((unat b - 240) * 262144 + (unat y - 128) * 4096 + (unat z - 128) * 64 +
                               (unat w - 128)), p + 1 + 3)
            else Some (0xFFFD, p + 1) }
          else Some (0xFFFD, p + 1)) = Some (c, q)"
      by (auto simp: bind_eq_Some_conv)
    show ?thesis
    proof (cases "128 \<le> unat z \<and> unat z \<le> 191")
      case True
      with ** obtain w where w: "rd bs (p + 3) = Some w" and
        ***: "(if 128 \<le> unat w \<and> unat w \<le> 191
            then Some (of_nat ((unat b - 240) * 262144 + (unat y - 128) * 4096 + (unat z - 128) * 64 +
                               (unat w - 128)), p + 1 + 3)
            else Some (0xFFFD, p + 1)) = Some (c, q)"
        by (auto simp: bind_eq_Some_conv eval_nat_numeral)
      have yy: "128 \<le> unat y" "unat y \<le> 191" "unat b = 240 \<Longrightarrow> 144 \<le> unat y" "unat b = 244 \<Longrightarrow> unat y \<le> 143"
        using y_ok by (auto simp: lower upper split: if_splits)
      show ?thesis
      proof (cases "128 \<le> unat w \<and> unat w \<le> 191")
        case ww: True
        with *** have "q = p + 4"
          "c = of_nat ((unat b - 240) * 262144 + (unat y - 128) * 4096 + (unat z - 128) * 64 + (unat w - 128))"
          by auto
        then show ?thesis
          using encoded_atI [OF take_drop_bytes(4) [OF b y z w]
              utf8_bytes_4(1,2) [of "unat b" "unat y" "unat z" "unat w", unfolded byte_of_nat], of q]
            lead True yy ww by simp
      qed (use *** err in auto)
    qed (use ** err in auto)
  qed (use * err in auto)
qed

text \<open>What the decoder reads is canonical: it answers the error value or inverts the encoding.\<close>

lemma utf8_decode_sound:
  assumes dec: "utf8_decode bs p = Some (c, q)"
  shows "c = 0xFFFD \<and> q = p + 1 \<and> p < length bs \<and> 0x80 \<le> unat (bs ! p) \<or> encoded_at bs p c q"
proof -
  from dec obtain b where b: "rd bs p = Some b"
    by (cases "rd bs p") (simp_all add: utf8_decode_def)
  then have p: "p < length bs" "bs ! p = b" by (auto simp: rd_eq_Some)
  note dec' = dec [unfolded utf8_decode_nat [OF b]]
  consider "unat b < 128" | "194 \<le> unat b" "unat b \<le> 223" | "224 \<le> unat b" "unat b \<le> 239"
    | "240 \<le> unat b" "unat b \<le> 244" | "128 \<le> unat b" "unat b < 194 \<or> 244 < unat b"
    by fastforce
  then show ?thesis
  proof cases
    case 1
    then have "utf8_bytes (unat b) = [b]" by (simp add: utf8_bytes_def)
    moreover have "c = of_nat (unat b)" "q = p + 1" using dec' 1 by simp_all
    ultimately show ?thesis
      using encoded_atI [OF take_drop_bytes(1) [OF b], of "unat b" q] 1 by simp
  next
    case 2
    then show ?thesis using dec' utf8_need1_sound [OF _ b, of c q] p by simp
  next
    case 3
    then show ?thesis
      using dec' utf8_need2_sound [OF _ b, of _ c q] p by (cases "unat b = 224") auto
  next
    case 4
    then show ?thesis
      using dec' utf8_need3_sound [OF _ b, of _ _ c q] p
      by (cases "unat b = 240"; cases "unat b = 244") auto
  next
    case 5
    then show ?thesis using dec' p by auto
  qed
qed

text \<open>And it reads back every encoding.\<close>

lemma rd_of_take:
  assumes "take k (drop p bs) = xs" and "i < length xs" and "length xs = k"
  shows "rd bs (p + i) = Some (xs ! i)"
proof -
  have "i < k" and "length (take k (drop p bs)) = k" using assms by simp_all
  then have "p + i < length bs" by simp
  then show ?thesis using assms(1) \<open>i < k\<close> by (auto simp: rd_def)
qed

lemma utf8_bytes_cases:
  assumes n: "n < 0x110000"
  obtains
    (one) b where "utf8_bytes n = [b]" and "unat b = n" and "n < 128"
  | (two) b y where "utf8_bytes n = [b, y]" and "n = (unat b - 192) * 64 + (unat y - 128)"
      and "194 \<le> unat b" "unat b \<le> 223" "128 \<le> unat y" "unat y \<le> 191"
  | (three) b y z where "utf8_bytes n = [b, y, z]"
      and "n = (unat b - 224) * 4096 + (unat y - 128) * 64 + (unat z - 128)"
      and "224 \<le> unat b" "unat b \<le> 239" "128 \<le> unat y" "unat y \<le> 191" "128 \<le> unat z" "unat z \<le> 191"
      and "unat b = 224 \<Longrightarrow> 160 \<le> unat y"
  | (four) b y z w where "utf8_bytes n = [b, y, z, w]"
      and "n = (unat b - 240) * 262144 + (unat y - 128) * 4096 + (unat z - 128) * 64 + (unat w - 128)"
      and "240 \<le> unat b" "unat b \<le> 244" "128 \<le> unat y" "unat y \<le> 191" "128 \<le> unat z" "unat z \<le> 191"
        "128 \<le> unat w" "unat w \<le> 191"
      and "unat b = 240 \<Longrightarrow> 144 \<le> unat y" and "unat b = 244 \<Longrightarrow> unat y \<le> 143"
proof -
  have u: "unat (of_nat k :: u8) = k" if "k < 256" for k using that by (simp add: unat_of_nat)
  have m: "k mod 64 < 64" for k :: nat by simp
  have d2: "n div 64 = n div 4096 * 64 + n div 64 mod 64" by (simp add: div_mult2_eq [of n 64 64, simplified])
  have d3: "n div 4096 = n div 262144 * 64 + n div 4096 mod 64"
    by (simp add: div_mult2_eq [of n 4096 64, simplified])
  have d1: "n = n div 64 * 64 + n mod 64" by simp
  consider "n < 0x80" | "0x80 \<le> n" "n < 0x800" | "0x800 \<le> n" "n < 0x10000" | "0x10000 \<le> n"
    by linarith
  then show thesis
  proof cases
    case 1
    then show thesis by (intro one [of "of_nat n"]) (simp_all add: utf8_bytes_def u)
  next
    case 2
    then have *: "\<not> n < 0x80" "n div 64 < 32" "2 \<le> n div 64" by auto
    define b y :: u8 where "b = of_nat (192 + n div 64)" and "y = of_nat (128 + n mod 64)"
    have v: "unat b = 192 + n div 64" "unat y = 128 + n mod 64"
      unfolding b_def y_def by (rule u, use * m [of n] in linarith)+
    have "utf8_bytes n = [b, y]" using 2 * by (simp only: utf8_bytes_def if_True if_False b_def y_def)
    then show thesis by (rule two; unfold v diff_add_inverse) (use d1 m [of n] * in linarith)+
  next
    case 3
    then have *: "\<not> n < 0x80" "\<not> n < 0x800" "n div 4096 < 16" "n div 4096 = 0 \<Longrightarrow> 32 \<le> n div 64 mod 64"
      using d2 by auto
    define b y z :: u8 where "b = of_nat (224 + n div 4096)" and "y = of_nat (128 + n div 64 mod 64)"
      and "z = of_nat (128 + n mod 64)"
    have v: "unat b = 224 + n div 4096" "unat y = 128 + n div 64 mod 64" "unat z = 128 + n mod 64"
      unfolding b_def y_def z_def by (rule u, use * m [of n] m [of "n div 64"] in linarith)+
    have "utf8_bytes n = [b, y, z]"
      using 3 * by (simp only: utf8_bytes_def if_True if_False b_def y_def z_def)
    then show thesis
      by (rule three; unfold v diff_add_inverse) (use d1 d2 m [of n] m [of "n div 64"] * in linarith)+
  next
    case 4
    then have *: "\<not> n < 0x80" "\<not> n < 0x800" "\<not> n < 0x10000" "n div 262144 < 5"
      "n div 262144 = 0 \<Longrightarrow> 16 \<le> n div 4096 mod 64" "n div 262144 = 4 \<Longrightarrow> n div 4096 mod 64 < 16"
      using d3 n by auto
    define b y z w :: u8 where "b = of_nat (240 + n div 262144)" and "y = of_nat (128 + n div 4096 mod 64)"
      and "z = of_nat (128 + n div 64 mod 64)" and "w = of_nat (128 + n mod 64)"
    have v: "unat b = 240 + n div 262144" "unat y = 128 + n div 4096 mod 64"
      "unat z = 128 + n div 64 mod 64" "unat w = 128 + n mod 64"
      unfolding b_def y_def z_def w_def
      by (rule u, use * m [of n] m [of "n div 64"] m [of "n div 4096"] in linarith)+
    have "utf8_bytes n = [b, y, z, w]"
      using 4 * by (simp only: utf8_bytes_def if_True if_False b_def y_def z_def w_def)
    then show thesis
      by (rule four; unfold v diff_add_inverse)
        (use d1 d2 d3 m [of n] m [of "n div 64"] m [of "n div 4096"] * in linarith)+
  qed
qed

lemma utf8_decode_encoded:
  assumes "encoded_at bs p c q"
  shows "utf8_decode bs p = Some (c, q)"
proof -
  define n where "n = unat c"
  have c: "c = of_nat n" and n: "n < 0x110000"
    using assms by (simp_all add: n_def encoded_at_def word_less_nat_alt)
  have tk: "take (q - p) (drop p bs) = utf8_bytes n" and pq: "p < q" "q \<le> length bs"
    using assms by (simp_all add: encoded_at_def n_def)
  then have len: "length (utf8_bytes n) = q - p"
    by (metis diff_le_mono length_drop length_take min.absorb2)
  note rd_i = rd_of_take [OF tk _ len]
  from n show ?thesis
  proof (cases rule: utf8_bytes_cases)
    case (one b)
    then have "rd bs p = Some b" "q = p + 1" using rd_i [of 0] len by auto
    moreover have "ucast b = c" using one c by auto
    ultimately show ?thesis using one by (simp add: utf8_decode_nat)
  next
    case (two b y)
    then have r: "rd bs p = Some b" "rd bs (p + 1) = Some y" "q = p + 2"
      using rd_i [of 0] rd_i [of 1] len by auto
    from two(2-) show ?thesis
      unfolding c utf8_decode_nat [OF r(1)] using r by (simp add: utf8_need1_nat)
  next
    case (three b y z)
    then have r: "rd bs p = Some b" "rd bs (p + 1) = Some y" "rd bs (p + 1 + 1) = Some z" "q = p + 3"
      using rd_i [of 0] rd_i [of 1] rd_i [of 2] len by auto
    have need: "utf8_need2 bs (ucast b) (p + 1) lower = Some (of_nat n, q)"
      if "128 \<le> unat lower" "unat lower \<le> unat y" for lower
      unfolding utf8_need2_nat [OF three(3,4) that(1)] r(2) bind.bind_lunit r(3)
      using three(2,5-8) that r(4) by simp
    show ?thesis
      unfolding c utf8_decode_nat [OF r(1)] using need [of "0xA0"] need [of "0x80"] three(3-9)
      by (cases "unat b = 224") simp_all
  next
    case (four b y z w)
    have r: "rd bs p = Some b" "rd bs (p + 1) = Some y" "rd bs (p + 1 + 1) = Some z"
      "rd bs (p + 1 + 2) = Some w" "q = p + 4"
      using rd_i [of 0] rd_i [of 1] rd_i [of 2] rd_i [of 3] len pq unfolding four(1)
      by (simp_all add: eval_nat_numeral)
    have need: "utf8_need3 bs (ucast b) (p + 1) lower upper = Some (of_nat n, q)"
      if "128 \<le> unat lower" "unat upper \<le> 191" "unat lower \<le> unat y" "unat y \<le> unat upper" for lower upper
      unfolding utf8_need3_nat [OF four(3,4) that(1,2)] r(2) bind.bind_lunit r(3) r(4) four(2) [symmetric]
      by (simp only: that four(7-10) simp_thms if_True r(5)) simp
    have n3: "\<not> unat b < 128" "\<not> (194 \<le> unat b \<and> unat b \<le> 223)" "unat b \<noteq> 224"
      "\<not> (225 \<le> unat b \<and> unat b \<le> 239)"
      using four(3) by linarith+
    consider "unat b = 240" | "unat b \<noteq> 240" "unat b = 244" | "unat b \<noteq> 240" "unat b \<noteq> 244" "241 \<le> unat b \<and> unat b \<le> 243"
      using four(3,4) by linarith
    then show ?thesis
    proof cases
      case 1
      then have "utf8_need3 bs (ucast b) (p + 1) 0x90 0xBF = Some (of_nat n, q)"
        using four(11,6) by (intro need) simp_all
      then show ?thesis
        unfolding c utf8_decode_nat [OF r(1)] if_not_P [OF n3(1)] if_not_P [OF n3(2)]
          if_not_P [OF n3(3)] if_not_P [OF n3(4)]
          if_P [OF 1] .
    next
      case 2
      then have "utf8_need3 bs (ucast b) (p + 1) 0x80 0x8F = Some (of_nat n, q)"
        using four(12,5) by (intro need) simp_all
      then show ?thesis
        unfolding c utf8_decode_nat [OF r(1)] if_not_P [OF n3(1)] if_not_P [OF n3(2)]
          if_not_P [OF n3(3)] if_not_P [OF n3(4)]
          if_not_P [OF 2(1)] if_P [OF 2(2)] .
    next
      case 3
      have "utf8_need3 bs (ucast b) (p + 1) 0x80 0xBF = Some (of_nat n, q)"
        using four(5,6) by (intro need) simp_all
      then show ?thesis
        unfolding c utf8_decode_nat [OF r(1)] if_not_P [OF n3(1)] if_not_P [OF n3(2)]
          if_not_P [OF n3(3)] if_not_P [OF n3(4)]
          if_not_P [OF 3(1)] if_not_P [OF 3(2)] if_P [OF 3(3)] .
    qed
  qed
qed

end
