(* ===== verification/Utf8_Scan.thy ===== *)
theory Utf8_Scan
  imports Utf8_Code_Point
begin

section \<open>Safety of the decoder\<close>

lemma byte_between_Some: "i < length bs \<Longrightarrow> \<exists>r. byte_between bs i lo hi = Some r"
  by (simp add: byte_between_def)

lemma utf8_need_Some:
  "p < length bs \<Longrightarrow> \<exists>c q. utf8_need1 bs b p = Some (c, q) \<and> p \<le> q \<and> q \<le> p + 1"
  "p + 1 < length bs \<Longrightarrow> \<exists>c q. utf8_need2 bs b p lo = Some (c, q) \<and> p \<le> q \<and> q \<le> p + 2"
  "p + 2 < length bs \<Longrightarrow> \<exists>c q. utf8_need3 bs b p lo hi = Some (c, q) \<and> p \<le> q \<and> q \<le> p + 3"
  by (auto simp: utf8_need1_def utf8_need2_def utf8_need3_def byte_between_def and_then_def)

lemma utf8_decode_Some:
  assumes p: "p < e" "e \<le> length bs"
    and room: "unat (bs ! p) \<ge> 0x80 \<Longrightarrow> p + 2 \<le> e" "unat (bs ! p) \<ge> 0xE0 \<Longrightarrow> p + 3 \<le> e"
      "unat (bs ! p) \<ge> 0xF0 \<Longrightarrow> p + 4 \<le> e"
  shows "\<exists>c q. utf8_decode bs p = Some (c, q) \<and> p < q \<and> q \<le> e"
proof -
  define b where "b = bs ! p"
  have b: "rd bs p = Some b" using p by (simp add: b_def)
  consider "unat b < 128 \<or> (128 \<le> unat b \<and> unat b < 194) \<or> 244 < unat b"
    | "194 \<le> unat b" "unat b \<le> 223" | "224 \<le> unat b" "unat b \<le> 239" | "240 \<le> unat b" "unat b \<le> 244"
    by linarith
  then show ?thesis
  proof cases
    case 1
    then show ?thesis using p by (auto simp: utf8_decode_nat [OF b])
  next
    case 2
    then have "p + 1 < e" using room(1) by (simp add: b_def)
    then have "p + 1 < length bs" using p by simp
    from utf8_need_Some(1) [OF this, of "ucast b"] show ?thesis
      using 2 \<open>p + 1 < e\<close> by (auto simp: utf8_decode_nat [OF b])
  next
    case 3
    then have e: "p + 1 + 1 < e" using room(2) by (simp add: b_def)
    then have "p + 1 + 1 < length bs" using p by simp
    from utf8_need_Some(2) [OF this, of "ucast b" "0xA0"] utf8_need_Some(2) [OF this, of "ucast b" "0x80"]
    show ?thesis using 3 e by (cases "unat b = 224") (auto simp: utf8_decode_nat [OF b])
  next
    case 4
    then have e: "p + 1 + 2 < e" using room(3) by (simp add: b_def)
    then have "p + 1 + 2 < length bs" using p by simp
    note n3 = utf8_need_Some(3) [OF this, of "ucast b"]
    show ?thesis
      using 4 e n3 [of "0x90" "0xBF"] n3 [of "0x80" "0x8F"] n3 [of "0x80" "0xBF"]
      by (cases "unat b = 240"; cases "unat b = 244") (auto simp: utf8_decode_nat [OF b])
  qed
qed

text \<open>Within \<open>p_end\<close> the bounded decoder never reads behind it, and it always consumes.\<close>

lemma utf8_decode_len_Some:
  assumes "p < e" and "e \<le> length bs"
  obtains c q where "utf8_decode_len bs p (e - p) = Some (c, q)" and "p < q" and "q \<le> e"
proof -
  have b: "rd bs p = Some (bs ! p)" using assms by simp
  have dec: "\<exists>c q. utf8_decode bs p = Some (c, q) \<and> p < q \<and> q \<le> e"
    if "e - p = 1 \<Longrightarrow> unat (bs ! p) < 0x80" "e - p = 2 \<Longrightarrow> unat (bs ! p) < 0xE0"
      "e - p = 3 \<Longrightarrow> unat (bs ! p) < 0xF0"
    using assms that by (intro utf8_decode_Some) linarith+
  consider "e - p = 1" | "e - p = 2" | "e - p = 3" | "e - p > 3" using assms by linarith
  then have "\<exists>c q. utf8_decode_len bs p (e - p) = Some (c, q) \<and> p < q \<and> q \<le> e"
    using dec assms by cases (auto simp: utf8_decode_len_def b word_less_nat_alt)
  with that show thesis by blast
qed

lemma utf8_decode_len_eq:
  assumes "utf8_decode_len bs p (e - p) = Some (c, q)" and "p < e"
  shows "utf8_decode bs p = Some (c, q) \<or> c = 0xFFFD \<and> q = p + 1"
  using assms by (auto simp: utf8_decode_len_def bind_eq_Some_conv split: if_splits)

lemma utf8_bytes_lead:
  assumes "n < 0x110000"
  shows "length (utf8_bytes n) \<le> 1 \<Longrightarrow> unat (utf8_bytes n ! 0) < 0x80"
    and "length (utf8_bytes n) \<le> 2 \<Longrightarrow> unat (utf8_bytes n ! 0) < 0xE0"
    and "length (utf8_bytes n) \<le> 3 \<Longrightarrow> unat (utf8_bytes n ! 0) < 0xF0"
proof -
  have "(length (utf8_bytes n) \<le> 1 \<longrightarrow> unat (utf8_bytes n ! 0) < 0x80) \<and>
      (length (utf8_bytes n) \<le> 2 \<longrightarrow> unat (utf8_bytes n ! 0) < 0xE0) \<and>
      (length (utf8_bytes n) \<le> 3 \<longrightarrow> unat (utf8_bytes n ! 0) < 0xF0)"
    using assms
  proof (cases rule: utf8_bytes_cases)
    case (one b)
    then show ?thesis unfolding one(1) using one(2,3) by simp
  next
    case (two b y)
    show ?thesis unfolding two(1) using two(4) by simp
  next
    case (three b y z)
    show ?thesis unfolding three(1) using three(4) by simp
  next
    case (four b y z w)
    show ?thesis unfolding four(1) by simp
  qed
  then show "length (utf8_bytes n) \<le> 1 \<Longrightarrow> unat (utf8_bytes n ! 0) < 0x80"
    and "length (utf8_bytes n) \<le> 2 \<Longrightarrow> unat (utf8_bytes n ! 0) < 0xE0"
    and "length (utf8_bytes n) \<le> 3 \<Longrightarrow> unat (utf8_bytes n ! 0) < 0xF0"
    by blast+
qed

text \<open>A code point that is encoded before \<open>p_end\<close> is read whatever the bound is.\<close>

lemma utf8_decode_len_encoded:
  assumes "encoded_at bs p c q" and "q \<le> e"
  shows "utf8_decode_len bs p (e - p) = Some (c, q)"
proof -
  have n: "unat c < 0x110000" and tk: "take (q - p) (drop p bs) = utf8_bytes (unat c)"
    and pq: "p < q" "q \<le> length bs"
    using assms by (simp_all add: encoded_at_def word_less_nat_alt)
  have len: "length (utf8_bytes (unat c)) = q - p"
    using tk pq by (metis diff_le_mono length_drop length_take min.absorb2)
  have b: "rd bs p = Some (utf8_bytes (unat c) ! 0)"
    using rd_of_take [OF tk _ len, of 0] pq len by simp
  have "utf8_decode bs p = Some (c, q)" by (rule utf8_decode_encoded [OF assms(1)])
  moreover have "e - p = 1 \<Longrightarrow> unat (utf8_bytes (unat c) ! 0) < 0x80"
    "e - p = 2 \<Longrightarrow> unat (utf8_bytes (unat c) ! 0) < 0xE0"
    "e - p = 3 \<Longrightarrow> unat (utf8_bytes (unat c) ! 0) < 0xF0"
    using utf8_bytes_lead [OF n] len assms(2) pq by simp_all
  moreover have "e - p \<noteq> 0" using assms(2) pq by simp
  ultimately show ?thesis using b by (auto simp: utf8_decode_len_def word_less_nat_alt)
qed

section \<open>The scan counts what the decoder stores\<close>

lemma scan_cbits_Some:
  assumes "i + n \<le> length bs"
  obtains cb where "scan_cbits bs i n c = Some cb"
    and "bit cb 7 \<longleftrightarrow> bit c 7 \<or> (\<exists>b \<in> set (take n (drop i bs)). bit b 7)"
  using assms
proof (induction n arbitrary: i c thesis)
  case (Suc n)
  from Suc.prems(2) have i: "i < length bs" and "i + 1 + n \<le> length bs" by simp_all
  from Suc.IH [OF _ this(2), of "c OR bs ! i"] obtain cb where "scan_cbits bs (i + 1) n (c OR bs ! i) = Some cb"
    and "bit cb 7 \<longleftrightarrow> bit (c OR bs ! i) 7 \<or> (\<exists>b \<in> set (take n (drop (i + 1) bs)). bit b 7)"
    by blast
  with i show ?case
    by (intro Suc.prems(1) [of cb]) (auto simp: bit_or_iff Cons_nth_drop_Suc [symmetric])
qed simp

lemma high_byte: "(b :: u8) \<ge> 0x80 \<longleftrightarrow> bit b 7"
proof -
  have "bit b 7 \<longleftrightarrow> bit (unat b) 7" by (simp add: bit_unsigned_iff)
  also have "\<dots> \<longleftrightarrow> odd (unat b div 128)" by (simp add: bit_iff_odd)
  also have "\<dots> \<longleftrightarrow> 128 \<le> unat b"
  proof -
    have "unat b div 128 < 2" using unsigned_less [where 'a = nat, of b] by simp
    then have "unat b div 128 = 0 \<or> unat b div 128 = 1" by linarith
    then show ?thesis by (auto simp: div_eq_0_iff)
  qed
  finally show ?thesis by (simp add: word_le_nat_alt)
qed

lemma put_below_Some:
  assumes "dl \<le> length dest"
  obtains dest' where "put_below dest dl i x = Some dest'" and "length dest' = length dest"
  using assms by (cases "i < dl") (auto simp: put_below_def)

lemma decoded_big:
  assumes "utf8_decode_len bs p (e - p) = Some (c, q)" and "p < e" and "c > 0xFFFF"
  shows "q = p + 4"
proof -
  have "c \<noteq> 0xFFFD" using assms(3) by auto
  with utf8_decode_len_eq [OF assms(1,2)] utf8_decode_sound have enc: "encoded_at bs p c q" by blast
  then have n: "unat c < 0x110000" and "\<not> unat c < 0x10000"
    and len: "length (utf8_bytes (unat c)) = q - p" "p < q"
    using assms(3) by (auto simp: encoded_at_def word_less_nat_alt) (metis diff_le_mono length_drop length_take min.absorb2)
  then have "length (utf8_bytes (unat c)) = 4" by (simp add: utf8_bytes_def)
  with len show ?thesis by simp
qed

lemma scan_decode_round:
  assumes "p < e" and "e \<le> length bs" and "dl \<le> length dest"
  obtains q len' kind' dest' where "scan_round bs e p len kind = Some (q, len', kind')"
    and "decode_buf16_round dest dl bs e p len = Some (dest', q, len')"
    and "p < q" and "q \<le> e" and "len' \<le> len + (q - p)" and "length dest' = length dest"
proof (cases "bs ! p \<ge> 0x80")
  case False
  obtain dest' where "put_below dest dl len (ucast (ucast (bs ! p) :: u32)) = Some dest'"
    and "length dest' = length dest"
    using put_below_Some [OF assms(3)] by blast
  moreover have "\<not> (ucast (bs ! p) :: u32) \<ge> 0x80"
    using False by (simp add: word_le_nat_alt unat_ucast_byte)
  ultimately show thesis
    using assms False by (intro that [of "p + 1" "len + 1" kind dest']) (auto simp: scan_round_def decode_buf16_round_def)
next
  case True
  then have hi: "(ucast (bs ! p) :: u32) \<ge> 0x80" by (simp add: word_le_nat_alt unat_ucast_byte)
  obtain c q where dec: "utf8_decode_len bs p (e - p) = Some (c, q)" and q: "p < q" "q \<le> e"
    using utf8_decode_len_Some [OF assms(1,2)] by blast
  show thesis
  proof (cases "c > 0xFFFF")
    case big: True
    obtain d1 where d1: "put_below dest dl len (ucast (get_hi_surrogate c)) = Some d1" "length d1 = length dest"
      using put_below_Some [OF assms(3)] by blast
    then obtain d2 where d2: "put_below d1 dl (len + 1) (ucast (get_lo_surrogate c)) = Some d2" "length d2 = length d1"
      using put_below_Some assms(3) by metis
    have "c > 0xFF" using big by (simp add: word_less_nat_alt)
    then show thesis
      using assms(1,2) True hi dec q d1 d2 big decoded_big [OF dec assms(1) big]
      by (intro that [of q "len + 1 + 1" _ d2]) (auto simp: scan_round_def decode_buf16_round_def)
  next
    case small: False
    obtain d1 where d1: "put_below dest dl len (ucast c) = Some d1" "length d1 = length dest"
      using put_below_Some [OF assms(3)] by blast
    show thesis
    proof (cases "c > 0xFF")
      case True
      then show thesis
        using assms(1,2) \<open>bs ! p \<ge> 0x80\<close> hi dec q d1 small
        by (intro that [of q "len + 1" _ d1]) (auto simp: scan_round_def decode_buf16_round_def)
    next
      case False
      then show thesis
        using assms(1,2) \<open>bs ! p \<ge> 0x80\<close> hi dec q d1 small
        by (intro that [of q "len + 1" _ d1]) (auto simp: scan_round_def decode_buf16_round_def)
    qed
  qed
qed

lemma scan_decode_lockstep:
  assumes "e - p \<le> fuel" and "e \<le> length bs" and "dl \<le> length dest" and "p \<le> e"
  obtains kind' dest' n where "scan_loop fuel bs e p len kind = Some (kind', n)"
    and "decode_buf16_loop fuel dest dl bs e p len = Some (dest', n)"
    and "length dest' = length dest" and "n \<le> len + (e - p)" 
  using assms
proof (induction fuel arbitrary: p len kind dest thesis)
  case 0
  then show ?case by (simp add: scan_loop.simps decode_buf16_loop.simps)
next
  case (Suc fuel)
  show ?case
  proof (cases "p < e")
    case False
    then show ?thesis using Suc.prems(1) by (auto simp: scan_loop.simps decode_buf16_loop.simps)
  next
    case True
    define b where "b = bs ! p"
    have b: "rd bs p = Some b" using True Suc.prems(3) by (simp add: b_def)
    obtain q len' kind' dest' where
      scan: "scan_round bs e p len kind = Some (q, len', kind')"
      and dec: "decode_buf16_round dest dl bs e p len = Some (dest', q, len')"
      and q: "p < q" "q \<le> e" and len': "len' \<le> len + (q - p)" and dest': "length dest' = length dest"
      by (rule scan_decode_round [OF True Suc.prems(3,4)])
    from q Suc.prems have "e - q \<le> fuel" "q \<le> e" by auto
    from this(1) Suc.prems(3) Suc.prems(4) [folded dest'] this(2)
    obtain kind'' dest'' n where "scan_loop fuel bs e q len' kind' = Some (kind'', n)"
      and "decode_buf16_loop fuel dest' dl bs e q len' = Some (dest'', n)"
      and "length dest'' = length dest'" and "n \<le> len' + (e - q)"
      by (rule Suc.IH [rotated])
    moreover have "scan_loop (Suc fuel) bs e p len kind = scan_loop fuel bs e q len' kind'"
      using True scan by (subst scan_loop.simps) simp
    moreover have "decode_buf16_loop (Suc fuel) dest dl bs e p len = decode_buf16_loop fuel dest' dl bs e q len'"
      using True dec by (subst decode_buf16_loop.simps) simp
    moreover have "len' + (e - q) \<le> len + (e - p)" using q len' by simp
    ultimately show ?thesis using dest' Suc.prems(1) [of kind'' n dest''] by simp
  qed
qed

text \<open>
  For any bytes, \<open>utf8_scan\<close> ends without reading behind the string, and the number of
  units that it answers is the one that \<open>utf8_decode_buf16\<close> then stores and answers.
\<close>

lemma utf8_ascii_loop:
  assumes "\<And>i. i < e \<Longrightarrow> \<not> bit (bs ! i) 7" and "e - p \<le> fuel" and "e \<le> length bs" and "p \<le> e"
  shows "\<exists>kind. scan_loop fuel bs e p len k = Some (kind, len + (e - p))"
  using assms
proof (induction fuel arbitrary: p len)
  case 0
  then show ?case by (auto simp: scan_loop.simps)
next
  case (Suc fuel)
  show ?case
  proof (cases "p < e")
    case True
    then have "scan_round bs e p len k = Some (p + 1, len + 1, k)"
      using Suc.prems(1) [of p] Suc.prems(3) high_byte [of "bs ! p"] by (simp add: scan_round_def)
    then have "scan_loop (Suc fuel) bs e p len k = scan_loop fuel bs e (p + 1) (len + 1) k"
      using True by (subst scan_loop.simps) simp
    moreover have "e - (p + 1) \<le> fuel" "p + 1 \<le> e" "len + 1 + (e - (p + 1)) = len + (e - p)"
      using Suc.prems(2) True by simp_all
    ultimately show ?thesis
      using Suc.IH [OF Suc.prems(1), of "p + 1" "len + 1"] Suc.prems(3) by simp
  qed (use Suc.prems in \<open>auto simp: scan_loop.simps\<close>)
qed

lemma utf8_scan_decode:
  assumes n: "n \<le> length bs" and dl: "dl \<le> length dest"
  obtains kind units dest' where "utf8_scan bs n = Some (kind, units)"
    and "utf8_decode_buf16 dest dl bs n = Some (dest', units)"
    and "units \<le> n" and "length dest' = length dest"
proof -
  obtain kind dest' units where scan: "scan_loop n bs n 0 0 UTF8_NON_ASCII = Some (kind, units)"
    and dec: "decode_buf16_loop n dest dl bs n 0 0 = Some (dest', units)"
    and len: "length dest' = length dest" "units \<le> n"
    by (rule scan_decode_lockstep [of n 0 n bs dl dest 0 UTF8_NON_ASCII]) (use n dl in auto)
  obtain cb where cb: "scan_cbits bs 0 n 0 = Some cb"
    and bits: "bit cb 7 \<longleftrightarrow> (\<exists>b \<in> set (take n bs). bit b 7)"
    using scan_cbits_Some [of 0 n bs 0] n by auto
  show thesis
  proof (cases "bit cb 7")
    case True
    then show thesis
      using that scan dec len cb by (simp add: utf8_scan_def utf8_decode_buf16_def high_byte)
  next
    case False
    then have "\<not> bit (bs ! i) 7" if "i < n" for i
    proof -
      have "bs ! i \<in> set (take n bs)" using that n by (auto simp: in_set_conv_nth intro!: exI [of _ i])
      then show ?thesis using bits False by blast
    qed
    then have "units = n" using utf8_ascii_loop [of n bs 0 n 0 UTF8_NON_ASCII] scan n by auto
    then show thesis
      using that dec len cb False by (simp add: utf8_scan_def utf8_decode_buf16_def high_byte)
  qed
qed

end
