(* ===== verification/Utf8_Encode.thy ===== *)
theory Utf8_Encode
  imports Utf8_Scan
begin

section \<open>The code points of an array of 16-bit units\<close>

fun u16_points :: "u16 list \<Rightarrow> u32 list" where
  "u16_points [] = []"
| "u16_points [w] = [ucast w]"
| "u16_points (w # w' # ws) =
     (if is_hi_surrogate (ucast w) \<and> is_lo_surrogate (ucast w')
      then from_surrogate (ucast w) (ucast w') # u16_points ws
      else ucast w # u16_points (w' # ws))"

definition utf16_units :: "u32 \<Rightarrow> u16 list" where
  "utf16_units c =
     (if c > 0xFFFF then [ucast (get_hi_surrogate c), ucast (get_lo_surrogate c)] else [ucast c])"

lemma unat_ucast_u16: "unat (ucast (w :: u16) :: u32) = unat w"
proof -
  have "unat w < 2 ^ 32" using unsigned_less [where 'a = nat, of w] by simp
  then show ?thesis by (simp add: unsigned_ucast_eq take_bit_nat_eq_self)
qed

lemma u16_small: "(ucast (w :: u16) :: u32) \<le> 0xFFFF"
  using unsigned_less [where 'a = nat, of w] by (simp add: word_le_nat_alt unat_ucast_u16)

lemma unat_and_1023: "unat ((c :: u32) AND 1023) = unat c mod 1024"
proof -
  have "(1023 :: u32) = mask 10" by (simp add: mask_eq_exp_minus_1)
  then have "c AND 1023 = take_bit 10 c" by (simp only: take_bit_eq_mask)
  then show ?thesis by (simp only: unat_take_bit) simp
qed

lemma unat_from_surrogate:
  "unat (from_surrogate hi lo) = 65536 + 1024 * (unat hi mod 1024) + unat lo mod 1024"
proof -
  have "from_surrogate hi lo = of_nat (65536 + 1024 * (unat hi mod 1024) + unat lo mod 1024)"
    unfolding from_surrogate_def by (simp flip: unat_and_1023)
  moreover have "unat hi mod 1024 < 1024" "unat lo mod 1024 < 1024" by simp_all
  then have "65536 + 1024 * (unat hi mod 1024) + unat lo mod 1024 < 2 ^ 32" by simp
  ultimately show ?thesis by (simp only: unat_of_nat) simp
qed

lemma surrogate_pair_units:
  assumes hi: "is_hi_surrogate (ucast (w :: u16))" and lo: "is_lo_surrogate (ucast (w' :: u16))"
  shows "utf16_units (from_surrogate (ucast w) (ucast w')) = [w, w']"
proof -
  define h l where "h = unat w mod 1024" and "l = unat w' mod 1024"
  have "unat w div 1024 = 54" "unat w' div 1024 = 55"
    using hi lo by (simp_all add: is_hi_surrogate_def is_lo_surrogate_def drop_bit_eq_iff unat_ucast_u16)
  then have w: "unat w = 55296 + h" "unat w' = 56320 + l"
    using div_mult_mod_eq [of "unat w" 1024] div_mult_mod_eq [of "unat w'" 1024]
    by (simp_all add: h_def l_def)
  have hl: "h < 1024" "l < 1024" by (simp_all add: h_def l_def)
  define c where "c = from_surrogate (ucast w) (ucast w')"
  have c: "unat c = 65536 + 1024 * h + l"
    by (simp add: c_def unat_from_surrogate unat_ucast_u16 h_def l_def)
  have big: "c > 0xFFFF" by (simp add: word_less_nat_alt c)
  have "unat (drop_bit 10 c) = 64 + h"
    using hl unfolding unat_drop_bit_32 c by simp
  then have "unat (drop_bit 10 c - 64 + 0xD800) = h + 55296"
    using hl by (simp add: unat_word_ariths unat_sub word_le_nat_alt)
  then have "unat (get_hi_surrogate c) = unat w" using w(1) by (simp add: get_hi_surrogate_def)
  then have "ucast (get_hi_surrogate c) = (of_nat (unat w) :: u16)" by (rule ucast_of_nat)
  then have 1: "ucast (get_hi_surrogate c) = w" by simp
  have "unat (c AND 0x3FF) = l" unfolding unat_and_1023 c
    using hl by (simp add: add.assoc [of 65536] mod_add_left_eq [symmetric])
  then have "unat (get_lo_surrogate c) = l + 56320"
    unfolding get_lo_surrogate_def
    using unat_or_field [of "c AND 0x3FF" 10 "0xDC00" 55] hl by simp
  then have "unat (get_lo_surrogate c) = unat w'" using w(2) by simp
  then have "ucast (get_lo_surrogate c) = (of_nat (unat w') :: u16)" by (rule ucast_of_nat)
  then have 2: "ucast (get_lo_surrogate c) = w'" by simp
  show ?thesis using big 1 2 by (simp add: utf16_units_def flip: c_def)
qed

lemma utf16_units_small: "utf16_units (ucast (w :: u16)) = [w]"
proof -
  have "(ucast (ucast w :: u32) :: u16) = of_nat (unat w)" by (rule ucast_of_nat) (rule unat_ucast_u16)
  then show ?thesis using u16_small [of w] by (simp add: utf16_units_def leD)
qed

lemma units_of_points: "concat (map utf16_units (u16_points ws)) = ws"
  by (induction ws rule: u16_points.induct) (auto simp: surrogate_pair_units utf16_units_small)

lemma from_surrogate_bound: "from_surrogate hi lo < 0x110000"
proof -
  have "unat hi mod 1024 < 1024" "unat lo mod 1024 < 1024" by simp_all
  then show ?thesis by (simp add: word_less_nat_alt unat_from_surrogate)
qed

lemma u16_points_bound: "c \<in> set (u16_points ws) \<Longrightarrow> c < 0x110000"
  using u16_small from_surrogate_bound
  by (induction ws rule: u16_points.induct)
     (auto split: if_splits intro: le_less_trans [of _ "0xFFFF"])

lemma get_code_point_points:
  assumes "i < n" and "n \<le> length src"
  obtains c i' where "get_code_point src n i = Some (c, i')" and "i < i'" and "i' \<le> n"
    and "u16_points (take (n - i) (drop i src)) = c # u16_points (take (n - i') (drop i' src))"
proof -
  define w where "w = src ! i"
  have w: "rd src i = Some w" and rest: "take (n - i) (drop i src) = w # take (n - (i + 1)) (drop (i + 1) src)"
    using assms by (simp_all add: w_def Cons_nth_drop_Suc [symmetric] take_Cons' )
  show thesis
  proof (cases "i + 1 < n")
    case False
    then have "take (n - (i + 1)) (drop (i + 1) src) = []" by simp
    then show thesis using w rest False assms
      by (intro that [of "ucast w" "i + 1"]) (auto simp: get_code_point_def)
  next
    case True
    define w' where "w' = src ! (i + 1)"
    have w': "rd src (i + 1) = Some w'"
      and rest': "take (n - (i + 1)) (drop (i + 1) src) = w' # take (n - (i + 2)) (drop (i + 2) src)"
      using assms True by (simp_all add: w'_def Cons_nth_drop_Suc [symmetric] take_Cons')
    show thesis
    proof (cases "is_hi_surrogate (ucast w) \<and> is_lo_surrogate (ucast w')")
      case pair: True
      then show thesis using w w' rest rest' True
        by (intro that [of "from_surrogate (ucast w) (ucast w')" "i + 2"]) (auto simp: get_code_point_def)
    next
      case False
      then show thesis using w w' rest rest' True
        by (intro that [of "ucast w" "i + 1"]) (auto simp: get_code_point_def Let_def)
    qed
  qed
qed

section \<open>Encoding an array\<close>

definition utf8_string :: "u32 list \<Rightarrow> u8 list" where
  "utf8_string cs = concat (map (\<lambda>c. utf8_bytes (unat c)) cs)"

text \<open>The longest prefix that leaves room for a terminating zero.\<close>

fun fit_prefix :: "nat \<Rightarrow> u32 list \<Rightarrow> u32 list" where
  "fit_prefix room [] = []"
| "fit_prefix room (c # cs) =
     (if utf8_encode_len c < room then c # fit_prefix (room - utf8_encode_len c) cs else [])"

lemma utf8_string_simps [simp]:
  "utf8_string [] = []"
  "utf8_string (c # cs) = utf8_bytes (unat c) @ utf8_string cs"
  by (simp_all add: utf8_string_def)

lemma length_utf8_string:
  "(\<And>c. c \<in> set cs \<Longrightarrow> c < 0x110000) \<Longrightarrow> length (utf8_string cs) = sum_list (map utf8_encode_len cs)"
  by (induction cs) (simp_all add: length_utf8_bytes)

lemma fit_prefix_subset: "set (fit_prefix room cs) \<subseteq> set cs"
  by (induction room cs rule: fit_prefix.induct) auto

lemma fit_prefix_fits: "0 < room \<Longrightarrow> sum_list (map utf8_encode_len (fit_prefix room cs)) < room"
  by (induction room cs rule: fit_prefix.induct) (auto simp: less_diff_conv2)

lemma fit_prefix_all: "sum_list (map utf8_encode_len cs) < room \<Longrightarrow> fit_prefix room cs = cs"
  by (induction room cs rule: fit_prefix.induct) auto

lemma fit_prefix_is_take: "\<exists>k \<le> length cs. fit_prefix room cs = take k cs"
proof (induction room cs rule: fit_prefix.induct)
  case (2 room c cs)
  then show ?case
    by (cases "utf8_encode_len c < room") (auto intro: exI [of _ "Suc _"] exI [of _ 0])
qed simp

lemma wr_block_append:
  "wr_block xs j (ys @ zs) = do { xs' \<leftarrow> wr_block xs j ys; wr_block xs' (j + length ys) zs }"
  by (auto simp: wr_block_def add_ac)

text \<open>A unit below 0x80 is a code point of its own.\<close>

lemma get_code_point_ascii:
  "rd src i = Some w \<Longrightarrow> w < 0x80 \<Longrightarrow> get_code_point src n i = Some (ucast w, i + 1)"
proof -
  assume "rd src i = Some w" and "w < 0x80"
  then have "\<not> is_hi_surrogate (ucast w)"
    by (simp add: is_hi_surrogate_range word_le_nat_alt word_less_nat_alt unat_ucast_u16)
  with \<open>rd src i = Some w\<close> show ?thesis by (simp add: get_code_point_def Let_def)
qed

lemma get_code_point_not_ascii:
  assumes "rd src i = Some w" and "\<not> w < 0x80" and "get_code_point src n i = Some (c, i')"
  shows "\<not> c < 0x80"
proof -
  have "\<not> unat w < 128" using assms(2) by (simp add: word_less_nat_alt)
  then show ?thesis
    using assms(1,3) unat_from_surrogate
    by (auto simp: get_code_point_def Let_def word_less_nat_alt unat_ucast_u16 bind_eq_Some_conv split: if_splits)
qed

lemma not_big_u16: "\<not> (ucast (w :: u16) :: u32) > 0xFFFF"
  using u16_small [of w] by (simp add: leD)

lemma from_surrogate_big: "from_surrogate hi lo > 0xFFFF"
  by (simp add: word_less_nat_alt unat_from_surrogate)

lemma get_code_point_size:
  "get_code_point src n i = Some (c, i') \<Longrightarrow> i' = i + (1 + (if c > 0xFFFF then 1 else 0))"
  by (auto simp: get_code_point_def Let_def bind_eq_Some_conv not_big_u16 from_surrogate_big
      split: if_splits)

text \<open>A round of the encoder, whichever branch it takes, in terms of the code point.\<close>

lemma encode_buf16_step:
  assumes i: "i < n" "n \<le> length src"
    and cp: "get_code_point src n i = Some (c, i')" and c: "c < 0x110000"
  shows "encode_buf16_loop (Suc fuel) dest dl src n i j =
    (if dl \<le> j + utf8_encode_len c then Some (dest, i, j, True)
     else do {
       dest' \<leftarrow> wr_block dest j (utf8_bytes (unat c));
       encode_buf16_loop fuel dest' dl src n i' (j + utf8_encode_len c)
     })"
proof -
  define w where "w = src ! i"
  have w: "rd src i = Some w" using i by (simp add: w_def)
  show ?thesis
  proof (cases "w < 0x80")
    case True
    then have c': "c = ucast w" "i' = i + 1" using get_code_point_ascii [OF w, of n] cp by auto
    have "unat w < 128" using True by (simp add: word_less_nat_alt)
    then have len: "utf8_encode_len c = 1" "utf8_bytes (unat c) = [ucast w]"
      by (simp_all add: c' utf8_encode_len_def utf8_bytes_def word_less_nat_alt unat_ucast_u16)
    show ?thesis
      using i(1) w True unfolding len c'(2) wr_block_1
      by (subst encode_buf16_loop.simps) simp
  next
    case False
    have start: "i' - (1 + (if c > 0xFFFF then 1 else 0)) = i"
      using get_code_point_size [OF cp] by simp
    have "encode_buf16_loop (Suc fuel) dest dl src n i j =
        (if j + utf8_encode_len c \<ge> dl
         then Some (dest, i' - (1 + (if c > 0xFFFF then 1 else 0)), j, True)
         else do {
           (dest, n') \<leftarrow> utf8_encode dest j c;
           encode_buf16_loop fuel dest dl src n i' (j + n')
         })"
      using i(1) w False cp by (subst encode_buf16_loop.simps) simp
    then show ?thesis
      unfolding start utf8_encode_block [OF c] by (simp add: bind_map_option comp_def)
  qed
qed

lemma count_buf16_step:
  assumes i: "i < n" "n \<le> length src" and cp: "get_code_point src n i = Some (c, i')"
  shows "count_buf16 (Suc fuel) src n i j = count_buf16 fuel src n i' (j + utf8_encode_len c)"
proof -
  define w where "w = src ! i"
  have w: "rd src i = Some w" using i by (simp add: w_def)
  show ?thesis
  proof (cases "w < 0x80")
    case True
    then have c': "c = ucast w" "i' = i + 1" using get_code_point_ascii [OF w, of n] cp by auto
    have "utf8_encode_len c = 1"
      using True by (simp add: c' utf8_encode_len_def word_less_nat_alt unat_ucast_u16)
    then show ?thesis using i(1) w True c' by (subst count_buf16.simps) simp
  next
    case False
    then show ?thesis using i(1) w cp by (subst count_buf16.simps) simp
  qed
qed

abbreviation points_from :: "u16 list \<Rightarrow> nat \<Rightarrow> nat \<Rightarrow> u32 list" where
  "points_from src n i \<equiv> u16_points (take (n - i) (drop i src))"

lemma count_buf16_total:
  assumes "n - i \<le> fuel" and "n \<le> length src" and "i \<le> n"
  shows "count_buf16 fuel src n i j = Some (j + sum_list (map utf8_encode_len (points_from src n i)))"
  using assms
proof (induction fuel arbitrary: i j)
  case 0
  then show ?case by (simp add: count_buf16.simps)
next
  case (Suc fuel)
  show ?case
  proof (cases "i < n")
    case True
    with Suc.prems obtain c i' where cp: "get_code_point src n i = Some (c, i')" "i < i'" "i' \<le> n"
      and pts: "points_from src n i = c # points_from src n i'"
      by (metis get_code_point_points)
    then show ?thesis
      using Suc.IH [of i' "j + utf8_encode_len c"] Suc.prems count_buf16_step [OF True Suc.prems(2) cp(1)]
      by simp
  qed (use Suc.prems in \<open>simp add: count_buf16.simps\<close>)
qed

lemma encode_buf16_loop_total:
  assumes "n - i \<le> fuel" and "n \<le> length src" and "i \<le> n" and "dl \<le> length dest" and "j \<le> length dest"
    and "fp = fit_prefix (dl - j) (points_from src n i)"
  shows "\<exists>dest' i'.
    encode_buf16_loop fuel dest dl src n i j =
      Some (dest', i', j + sum_list (map utf8_encode_len fp), fp \<noteq> points_from src n i) \<and>
    wr_block dest j (utf8_string fp) = Some dest' \<and> i' \<le> n \<and>
    points_from src n i = fp @ points_from src n i'"
  using assms
proof (induction fuel arbitrary: i j dest fp)
  case 0
  then show ?case by (simp add: encode_buf16_loop.simps wr_block_Nil exI [of _ n])
next
  case (Suc fuel)
  show ?case
  proof (cases "i < n")
    case False
    with Suc.prems show ?thesis by (simp add: encode_buf16_loop.simps wr_block_Nil exI [of _ n])
  next
    case True
    obtain c i' where cp: "get_code_point src n i = Some (c, i')" and i': "i < i'" "i' \<le> n"
      and pts: "points_from src n i = c # points_from src n i'"
      using get_code_point_points [OF True Suc.prems(2)] by blast
    have c: "c < 0x110000" using u16_points_bound [of c "take (n - i) (drop i src)"] pts by simp
    note step = encode_buf16_step [OF True Suc.prems(2) cp c, of fuel dest dl j]
    show ?thesis
    proof (cases "dl \<le> j + utf8_encode_len c")
      case full: True
      then have "fp = []" using Suc.prems(6) pts by simp
      then show ?thesis using step full pts Suc.prems(3,5) by (simp add: wr_block_Nil)
    next
      case False
      let ?len = "utf8_encode_len c"
      define fp' where "fp' = fit_prefix (dl - (j + ?len)) (points_from src n i')"
      have fp: "fp = c # fp'" using Suc.prems(6) pts False by (simp add: fp'_def)
      have bl: "length (utf8_bytes (unat c)) = ?len" by (rule length_utf8_bytes [OF c])
      then obtain dest1 where d1: "wr_block dest j (utf8_bytes (unat c)) = Some dest1"
        using False Suc.prems(4) by simp
      then have "length dest1 = length dest" by (rule wr_block_length)
      then have "n - i' \<le> fuel" "dl \<le> length dest1" "j + ?len \<le> length dest1"
        using i' Suc.prems(1,3,4) False by linarith+
      from Suc.IH [OF this(1) Suc.prems(2) i'(2) this(2,3) fp'_def] obtain dest' i'' where
        rest: "encode_buf16_loop fuel dest1 dl src n i' (j + ?len) =
            Some (dest', i'', j + ?len + sum_list (map utf8_encode_len fp'), fp' \<noteq> points_from src n i')"
          "wr_block dest1 (j + ?len) (utf8_string fp') = Some dest'" "i'' \<le> n"
          "points_from src n i' = fp' @ points_from src n i''"
        by blast
      have "encode_buf16_loop (Suc fuel) dest dl src n i j =
          Some (dest', i'', j + sum_list (map utf8_encode_len fp), fp \<noteq> points_from src n i)"
        unfolding step fp pts using False d1 rest(1) by (simp add: add.assoc)
      moreover have "wr_block dest j (utf8_string fp) = Some dest'"
        using rest(2) d1 bl by (simp add: fp wr_block_append)
      moreover have "points_from src n i = fp @ points_from src n i''"
        unfolding fp pts using rest(4) by simp
      ultimately show ?thesis using rest(3) by blast
    qed
  qed
qed

text \<open>
  The conversion to UTF-8 answers the length of the whole encoding whatever the room is, and
  stores the characters that fit, zero-terminated.
\<close>

lemma utf8_encode_buf16_total:
  assumes n: "n \<le> length src" and dl: "dl \<le> length dest"
  defines "cps \<equiv> u16_points (take n src)"
  shows "utf8_encode_buf16 dest dl src n =
    Some (if dl = 0 then dest
          else utf8_string (fit_prefix dl cps) @ [0] @ drop (length (utf8_string (fit_prefix dl cps)) + 1) dest,
          sum_list (map utf8_encode_len cps))"
proof -
  define fp where "fp = fit_prefix dl cps"
  have small: "c < 0x110000" if "c \<in> set fp" for c
    using that fit_prefix_subset [of dl cps] u16_points_bound [of c "take n src"] by (auto simp: fp_def cps_def)
  have len: "length (utf8_string fp) = sum_list (map utf8_encode_len fp)"
    by (rule length_utf8_string) (rule small)
  have cps: "points_from src n 0 = cps" and room: "fp = fit_prefix (dl - 0) (points_from src n 0)"
    by (simp_all add: cps_def fp_def)
  from encode_buf16_loop_total [OF _ n _ dl _ room, of n] obtain dest' i' where
    loop: "encode_buf16_loop n dest dl src n 0 0 =
        Some (dest', i', length (utf8_string fp), fp \<noteq> cps)"
    and w: "wr_block dest 0 (utf8_string fp) = Some dest'" and i': "i' \<le> n"
    and split: "cps = fp @ points_from src n i'"
    unfolding cps len by auto
  have total: "sum_list (map utf8_encode_len cps) =
      length (utf8_string fp) + sum_list (map utf8_encode_len (points_from src n i'))"
    using split len by simp
  have cnt: "count_buf16 (n - i') src n i' (length (utf8_string fp)) = Some (sum_list (map utf8_encode_len cps))"
    using count_buf16_total [OF order_refl n i'] total by simp
  have all: "length (utf8_string fp) = sum_list (map utf8_encode_len cps)" if "fp = cps"
    using that len by simp
  have dest': "length dest' = length dest" using w by (rule wr_block_length)
  show ?thesis
  proof (cases "dl = 0")
    case True
    then have "fp = []" by (cases cps) (auto simp: fp_def)
    then show ?thesis
      using True loop w cnt all by (auto simp: utf8_encode_buf16_def put_below_def wr_block_def fp_def [symmetric])
  next
    case False
    then have room: "length (utf8_string fp) < dl" using fit_prefix_fits [of dl cps] len by (simp add: fp_def)
    have "dest'[length (utf8_string fp) := 0] =
        utf8_string fp @ [0] @ drop (length (utf8_string fp) + 1) dest"
      using w room dl by (auto simp: wr_block_def list_update_append upd_conv_take_nth_drop split: if_splits)
    then show ?thesis
      using False loop cnt all room dl dest' unfolding fp_def [symmetric]
      by (cases "fp = cps") (auto simp: utf8_encode_buf16_def put_below_def)
  qed
qed

end
