(* ===== verification/Utf8_Decode.thy ===== *)
theory Utf8_Decode
  imports Utf8_Encode
begin

section \<open>Decoding what was encoded\<close>

lemma decode_buf16_round_encoded:
  assumes enc: "encoded_at bs p c q" and e: "q \<le> e" "e \<le> length bs"
    and fits: "i + length (utf16_units c) \<le> dl" "dl \<le> length dest"
  shows "decode_buf16_round dest dl bs e p i =
    map_option (\<lambda>dest'. (dest', q, i + length (utf16_units c))) (wr_block dest i (utf16_units c))"
proof -
  define b where "b = bs ! p"
  have p: "p < q" "q \<le> length bs" using enc by (simp_all add: encoded_at_def)
  then have b: "rd bs p = Some b" by (simp add: b_def)
  have dec: "utf8_decode bs p = Some (c, q)" by (rule utf8_decode_encoded [OF enc])
  have decl: "utf8_decode_len bs p (e - p) = Some (c, q)" by (rule utf8_decode_len_encoded [OF enc e(1)])
  show ?thesis
  proof (cases "(ucast b :: u32) \<ge> 0x80")
    case False
    then have "unat b < 128" by (simp add: word_le_nat_alt unat_ucast_byte)
    then have c: "c = ucast b" "q = p + 1" using dec by (auto simp: utf8_decode_nat [OF b])
    have "\<not> c > 0xFFFF" using \<open>unat b < 128\<close> by (simp add: c word_less_nat_alt unat_ucast_byte)
    then have u: "utf16_units c = [ucast c]" by (simp add: utf16_units_def)
    then show ?thesis
      using b False c fits by (simp add: decode_buf16_round_def put_below_def wr_block_1)
  next
    case True
    show ?thesis
    proof (cases "c > 0xFFFF")
      case big: True
      then have u: "utf16_units c = [ucast (get_hi_surrogate c), ucast (get_lo_surrogate c)]"
        by (simp add: utf16_units_def)
      then show ?thesis
        using b True decl big fits
        by (simp add: decode_buf16_round_def put_below_def wr_block_2)
    next
      case False
      then have u: "utf16_units c = [ucast c]" by (simp add: utf16_units_def)
      then show ?thesis
        using b True decl False fits by (simp add: decode_buf16_round_def put_below_def wr_block_1)
    qed
  qed
qed

lemma encoded_at_head:
  assumes tk: "take (e - p) (drop p bs) = utf8_string (c # cs)" and c: "c < 0x110000" and e: "e \<le> length bs"
  defines "q \<equiv> p + utf8_encode_len c"
  shows "encoded_at bs p c q" and "q \<le> e" and "take (e - q) (drop q bs) = utf8_string cs"
proof -
  have len: "length (utf8_bytes (unat c)) = utf8_encode_len c" by (rule length_utf8_bytes [OF c])
  have tk': "take (e - p) (drop p bs) = utf8_bytes (unat c) @ utf8_string cs" using tk by simp
  then have "length (take (e - p) (drop p bs)) = utf8_encode_len c + length (utf8_string cs)"
    using len by simp
  then have n: "utf8_encode_len c \<le> e - p" by simp
  moreover have "0 < utf8_encode_len c" using utf8_encode_len_bounds [of c] by simp
  ultimately show q: "q \<le> e" by (simp add: q_def)
  have "take (q - p) (drop p bs) = take (q - p) (take (e - p) (drop p bs))"
    using n by (simp add: q_def)
  also have "\<dots> = utf8_bytes (unat c)" unfolding tk' using len by (simp add: q_def)
  finally show "encoded_at bs p c q"
    using c q e \<open>0 < utf8_encode_len c\<close> by (simp add: encoded_at_def q_def)
  have "take (e - q) (drop q bs) = drop (q - p) (take (e - p) (drop p bs))"
    using n by (simp add: q_def drop_take add.commute)
  also have "\<dots> = utf8_string cs" unfolding tk' using len by (simp add: q_def)
  finally show "take (e - q) (drop q bs) = utf8_string cs" .
qed

lemma decode_buf16_loop_encoded:
  assumes "take (e - p) (drop p bs) = utf8_string cs" and "\<And>c. c \<in> set cs \<Longrightarrow> c < 0x110000"
    and "p \<le> e" and "e \<le> length bs" and "e - p \<le> fuel" and "dl \<le> length dest"
    and "i + length (concat (map utf16_units cs)) \<le> dl"
  shows "decode_buf16_loop fuel dest dl bs e p i =
    map_option (\<lambda>dest'. (dest', i + length (concat (map utf16_units cs))))
      (wr_block dest i (concat (map utf16_units cs)))"
  using assms
proof (induction cs arbitrary: p fuel dest i)
  case Nil
  then have "p = e" by (cases "e - p") auto
  then show ?case using Nil by (simp add: decode_buf16_loop.simps wr_block_Nil)
next
  case (Cons c cs)
  define q where "q = p + utf8_encode_len c"
  have c: "c < 0x110000" using Cons.prems(2) by simp
  note hd = encoded_at_head [OF Cons.prems(1) c Cons.prems(4), folded q_def]
  then have pq: "p < q" by (simp add: encoded_at_def)
  obtain fuel' where fuel: "fuel = Suc fuel'" using Cons.prems(5) pq hd(2) by (cases fuel) auto
  obtain dest1 where d1: "wr_block dest i (utf16_units c) = Some dest1"
    using Cons.prems(6,7) by simp
  then have len: "length dest1 = length dest" by (rule wr_block_length)
  have "decode_buf16_round dest dl bs e p i = Some (dest1, q, i + length (utf16_units c))"
    using decode_buf16_round_encoded [OF hd(1,2) Cons.prems(4) _ Cons.prems(6), of i] d1 Cons.prems(7) by simp
  then have "decode_buf16_loop fuel dest dl bs e p i =
      decode_buf16_loop fuel' dest1 dl bs e q (i + length (utf16_units c))"
    unfolding fuel using pq hd(2) by (subst decode_buf16_loop.simps) simp
  also have "\<dots> = map_option (\<lambda>dest'. (dest', i + length (utf16_units c) + length (concat (map utf16_units cs))))
      (wr_block dest1 (i + length (utf16_units c)) (concat (map utf16_units cs)))"
    using Cons.prems pq hd len fuel by (intro Cons.IH) simp_all
  also have "wr_block dest1 (i + length (utf16_units c)) (concat (map utf16_units cs)) =
      wr_block dest i (concat (map utf16_units (c # cs)))"
    using d1 by (simp add: wr_block_append)
  finally show ?case by (simp add: add.assoc)
qed

text \<open>Converting an array of 16-bit units to UTF-8 and back gives it again, lone surrogates included.\<close>

lemma utf8_buf16_round_trip:
  assumes enc: "utf8_encode_buf16 dest dl src n = Some (str, len)"
    and n: "n \<le> length src" and dl: "dl \<le> length dest" and fit: "len < dl"
    and dl2: "n \<le> dl2" "dl2 \<le> length dest2"
  shows "utf8_decode_buf16 dest2 dl2 str len = Some (take n src @ drop n dest2, n)"
proof -
  define cps where "cps = u16_points (take n src)"
  have small: "\<And>c. c \<in> set cps \<Longrightarrow> c < 0x110000" by (auto simp: cps_def dest: u16_points_bound)
  have total: "len = sum_list (map utf8_encode_len cps)" and
    str: "str = utf8_string (fit_prefix dl cps) @ [0] @ drop (length (utf8_string (fit_prefix dl cps)) + 1) dest"
    using enc utf8_encode_buf16_total [OF n dl] fit by (auto simp: cps_def)
  have "fit_prefix dl cps = cps" using fit total by (intro fit_prefix_all) simp
  then have str: "take len str = utf8_string cps" and "len \<le> length str"
    unfolding str using length_utf8_string [of cps] small total by auto
  moreover have units: "concat (map utf16_units cps) = take n src"
    unfolding cps_def by (rule units_of_points)
  ultimately show ?thesis
    using decode_buf16_loop_encoded [of len 0 str cps len dl2 dest2 0] small dl2 n
    by (simp add: utf8_decode_buf16_def)
qed

end
