(* ===== verification/Utf8_Claims.thy ===== *)
theory Utf8_Claims
  imports Utf8_Scan Utf8_Encode Utf8_Decode
begin

text \<open>
  The main theorems on the UTF-8 functions of \<^verbatim>\<open>quickjs/cutils.c\<close>, each with a
  concrete instance of its hypotheses.
\<close>

lemma take_drop_replaced:
  "i + length ys \<le> length xs \<Longrightarrow> take (length ys) (drop i (take i xs @ ys @ drop (i + length ys) xs)) = ys"
  by simp

text \<open>C21: What \<^verbatim>\<open>utf8_encode\<close> writes for a code point below \<open>0x110000\<close>,
  \<^verbatim>\<open>utf8_decode\<close> reads back as that code point, ending where the encoding ends; the
  encoding has the length that \<^verbatim>\<open>utf8_encode_len\<close> says and leaves the rest of the
  buffer as it was.\<close>

theorem utf8_code_point_round_trip:
  assumes c: "c < 0x110000" and room: "j + utf8_encode_len c \<le> length buf"
  shows "\<exists>buf'. utf8_encode buf j c = Some (buf', utf8_encode_len c) \<and>
    utf8_decode buf' j = Some (c, j + utf8_encode_len c) \<and>
    take j buf' = take j buf \<and> drop (j + utf8_encode_len c) buf' = drop (j + utf8_encode_len c) buf"
proof -
  let ?bs = "utf8_bytes (unat c)"
  let ?buf = "take j buf @ ?bs @ drop (j + length ?bs) buf"
  note len = length_utf8_bytes [OF c]
  have "utf8_encode buf j c = Some (?buf, utf8_encode_len c)"
    using room by (simp add: utf8_encode_block [OF c] len)
  moreover have "encoded_at ?buf j c (j + utf8_encode_len c)"
    using c room utf8_encode_len_bounds(1) [of c] by (auto simp: encoded_at_def len [symmetric] take_drop_replaced)
  ultimately show ?thesis using room by (intro exI [of _ ?buf]) (simp add: utf8_decode_encoded len)
qed

lemma utf8_code_point_round_trip_witness:
  "\<exists>buf'. utf8_encode [0, 0, 0, 0, 7] 1 0x20AC = Some (buf', 3) \<and> utf8_decode buf' 1 = Some (0x20AC, 4)"
proof -
  have "utf8_encode_len 0x20AC = 3" by (simp add: utf8_encode_len_def)
  then show ?thesis using utf8_code_point_round_trip [of "0x20AC" 1 "[0, 0, 0, 0, 7]"] by auto
qed

text \<open>C22: \<^verbatim>\<open>utf8_decode\<close> accepts canonical encodings only: when it does not return the
  code point of a canonical encoding that stands at its position, inside the input, it
  returns the replacement character for exactly one byte, and this byte is not ASCII.\<close>

theorem utf8_decode_canonical:
  assumes "utf8_decode bs p = Some (c, q)"
  shows "encoded_at bs p c q \<or> c = 0xFFFD \<and> q = p + 1 \<and> p < length bs \<and> 0x80 \<le> unat (bs ! p)"
  using utf8_decode_sound [OF assms] by blast

lemma utf8_decode_canonical_witness:
  "utf8_decode [0xC0, 0x80] 0 = Some (0xFFFD, 1) \<and>
   (encoded_at [0xC0, 0x80] 0 0xFFFD 1 \<or> 0x80 \<le> unat ((0xC0 :: u8)))"
proof -
  have run: "utf8_decode [0xC0, 0x80] 0 = Some (0xFFFD, 1)" by code_simp
  from utf8_decode_canonical [OF run] run show ?thesis by simp
qed

text \<open>C23: Encoding an array of 16-bit units and decoding the bytes gives the units back,
  surrogates without a partner included, when both destinations are large enough.\<close>

theorem utf8_units_round_trip:
  assumes "utf8_encode_buf16 dest dl src n = Some (str, len)"
    and "n \<le> length src" and "dl \<le> length dest" and "len < dl"
    and "n \<le> dl2" and "dl2 \<le> length dest2"
  shows "utf8_decode_buf16 dest2 dl2 str len = Some (take n src @ drop n dest2, n)"
  using utf8_buf16_round_trip [OF assms] .

lemma utf8_units_round_trip_witness:
  "\<exists>str. utf8_encode_buf16 (replicate 8 0) 8 [0x20AC, 0xD800, 0x41] 3 = Some (str, 7) \<and>
     utf8_decode_buf16 [0, 0, 0, 0] 4 str 7 = Some ([0x20AC, 0xD800, 0x41, 0], 3)"
proof -
  have run: "utf8_encode_buf16 (replicate 8 0) 8 [0x20AC, 0xD800, 0x41] 3 =
      Some ([0xE2, 0x82, 0xAC, 0xED, 0xA0, 0x80, 0x41, 0], 7)"
    by code_simp
  show ?thesis
    using utf8_units_round_trip [OF run, of 4 "[0, 0, 0, 0]"] run by simp
qed

text \<open>C24: The scan announces what the decoder does: for every input, valid or not,
  \<^verbatim>\<open>utf8_scan\<close> and \<^verbatim>\<open>utf8_decode_buf16\<close> both end inside their
  arrays and agree on the number of 16-bit units, which is at most the number of bytes; a
  buffer of that many units is large enough.\<close>

theorem utf8_scan_announces:
  assumes "n \<le> length bs" and "dl \<le> length dest"
  shows "\<exists>kind units dest'. utf8_scan bs n = Some (kind, units) \<and>
    utf8_decode_buf16 dest dl bs n = Some (dest', units) \<and> units \<le> n \<and> length dest' = length dest"
  using utf8_scan_decode [OF assms] by metis

lemma utf8_scan_announces_witness:
  "\<exists>kind units dest'. utf8_scan [0x41, 0xFF, 0xF0, 0x9F, 0x98, 0x80] 6 = Some (kind, units) \<and>
     utf8_decode_buf16 [0, 0] 2 [0x41, 0xFF, 0xF0, 0x9F, 0x98, 0x80] 6 = Some (dest', units) \<and> units \<le> 6"
  using utf8_scan_announces [of 6 "[0x41, 0xFF, 0xF0, 0x9F, 0x98, 0x80]" 2 "[0, 0]"] by simp blast

text \<open>C25: \<^verbatim>\<open>utf8_encode_buf16\<close> never writes outside its destination, returns the full
  length of the encoding of all units, whatever the room, and stores the longest prefix of
  code points that fits together with a zero byte.\<close>

theorem utf8_encode_buf16_fits:
  assumes "n \<le> length src" and "dl \<le> length dest"
  shows "utf8_encode_buf16 dest dl src n =
    Some (if dl = 0 then dest
          else utf8_string (fit_prefix dl (u16_points (take n src))) @ [0] @
            drop (length (utf8_string (fit_prefix dl (u16_points (take n src)))) + 1) dest,
          sum_list (map utf8_encode_len (u16_points (take n src))))"
  using utf8_encode_buf16_total [OF assms] .

lemma utf8_encode_buf16_fits_witness:
  "utf8_encode_buf16 [9, 9, 9] 3 [0x41, 0x20AC] 2 = Some ([0x41, 0, 9], 4)"
proof -
  have "utf8_string (fit_prefix 3 (u16_points (take 2 [0x41, 0x20AC]))) = [0x41]"
    and "sum_list (map utf8_encode_len (u16_points (take 2 [0x41, 0x20AC]))) = 4"
    by code_simp+
  then show ?thesis using utf8_encode_buf16_fits [of 2 "[0x41, 0x20AC]" 3 "[9, 9, 9]"] by simp
qed

end
