(* ===== verification/Cutils_String.thy ===== *)
theory Cutils_String
  imports C_Memory
begin

text \<open>
  The string helpers of \<^verbatim>\<open>quickjs/cutils.c\<close>: bounded copy and concatenation, prefix
  and suffix tests.  A string is an array of bytes with a zero byte in it; a pointer is the
  array and an index.
\<close>

definition has_nul :: "u8 list \<Rightarrow> nat \<Rightarrow> bool" where
  "has_nul s i \<longleftrightarrow> 0 \<in> set (drop i s)"

definition str_at :: "u8 list \<Rightarrow> nat \<Rightarrow> u8 list" where
  "str_at s i = takeWhile (\<lambda>c. c \<noteq> 0) (drop i s)"

definition c_strlen8 :: "u8 list \<Rightarrow> nat \<Rightarrow> nat option" where
  "c_strlen8 s i = (if has_nul s i then Some (length (str_at s i)) else None)"

section \<open>Operations\<close>

function pstrcpy_loop :: "u8 list \<Rightarrow> nat \<Rightarrow> u8 list \<Rightarrow> nat \<Rightarrow> nat \<Rightarrow> (u8 list \<times> nat) option" where
  "pstrcpy_loop buf limit str i q =
     do {
       c \<leftarrow> rd str i;
       if c = 0 \<or> q \<ge> limit then Some (buf, q)
       else do { buf \<leftarrow> wr buf q c; pstrcpy_loop buf limit str (i + 1) (q + 1) }
     }"
  by pat_completeness auto
termination
  by (relation "measure (\<lambda>(buf, limit, str, i, q). length str - i)") (auto simp: rd_eq_Some)

declare pstrcpy_loop.simps [simp del]

text \<open>\<open>js__pstrcpy\<close> into \<open>buf\<close> from index \<open>at\<close> on; \<open>buf_size\<close> counts from there.\<close>

definition js__pstrcpy :: "u8 list \<Rightarrow> nat \<Rightarrow> int \<Rightarrow> u8 list \<Rightarrow> nat \<Rightarrow> u8 list option" where
  "js__pstrcpy buf at buf_size str i =
     (if buf_size \<le> 0 then Some buf
      else do {
        (buf, q) \<leftarrow> pstrcpy_loop buf (at + nat buf_size - 1) str i at;
        wr buf q 0
      })"

definition js__pstrcat :: "u8 list \<Rightarrow> int \<Rightarrow> u8 list \<Rightarrow> nat \<Rightarrow> u8 list option" where
  "js__pstrcat buf buf_size s i =
     do {
       len \<leftarrow> c_strlen8 buf 0;
       if int len < buf_size then js__pstrcpy buf len (buf_size - int len) s i else Some buf
     }"

text \<open>The result is whether \<open>val\<close> is a prefix, and where it ends.\<close>

function js__strstart :: "u8 list \<Rightarrow> nat \<Rightarrow> u8 list \<Rightarrow> nat \<Rightarrow> nat option option" where
  "js__strstart str p val q =
     do {
       c \<leftarrow> rd val q;
       if c \<noteq> 0 then do {
         d \<leftarrow> rd str p;
         if d \<noteq> c then Some None else js__strstart str (p + 1) val (q + 1)
       }
       else Some (Some p)
     }"
  by pat_completeness auto
termination
  by (relation "measure (\<lambda>(str, p, val, q). length val - q)") (auto simp: rd_eq_Some)

declare js__strstart.simps [simp del]

definition js__has_suffix :: "u8 list \<Rightarrow> u8 list \<Rightarrow> bool option" where
  "js__has_suffix str suffix =
     do {
       len \<leftarrow> c_strlen8 str 0;
       slen \<leftarrow> c_strlen8 suffix 0;
       if len \<ge> slen then do {
         a \<leftarrow> rd_block str (len - slen) slen;
         b \<leftarrow> rd_block suffix 0 slen;
         Some (a = b)
       }
       else Some False
     }"

section \<open>What they compute\<close>

lemma has_nulD: "has_nul s i \<Longrightarrow> i < length s"
  by (cases "i < length s") (auto simp: has_nul_def)

lemma str_at_step:
  assumes "has_nul s i"
  shows "s ! i = 0 \<Longrightarrow> str_at s i = []"
    and "s ! i \<noteq> 0 \<Longrightarrow> str_at s i = s ! i # str_at s (i + 1) \<and> has_nul s (i + 1)"
  using has_nulD [OF assms] assms
  by (auto simp: str_at_def has_nul_def Cons_nth_drop_Suc [symmetric])

lemma wr_block_snoc:
  "wr buf q c = Some buf' \<Longrightarrow> wr_block buf' (q + 1) cs = wr_block buf q (c # cs)"
  by (auto simp: wr_eq_Some wr_block_def take_Suc_conv_app_nth)

lemma pstrcpy_loop_stores:
  assumes "has_nul str i" and "q \<le> limit" and "limit < length buf"
  shows "\<exists>buf'. pstrcpy_loop buf limit str i q =
      Some (buf', q + length (take (limit - q) (str_at str i))) \<and>
    wr_block buf q (take (limit - q) (str_at str i)) = Some buf'"
  using assms
proof (induction buf limit str i q rule: pstrcpy_loop.induct)
  case (1 buf limit str i q)
  have c: "rd str i = Some (str ! i)" using has_nulD [OF 1(2)] by simp
  show ?case
  proof (cases "str ! i = 0 \<or> q \<ge> limit")
    case True
    then have "take (limit - q) (str_at str i) = []" using str_at_step(1) [OF 1(2)] by auto
    then show ?thesis
      using c True 1(3,4) by (subst pstrcpy_loop.simps) (auto simp: wr_block_def)
  next
    case False
    then have w: "wr buf q (str ! i) = Some (buf[q := str ! i])" using 1(4) by simp
    have at: "str_at str i = str ! i # str_at str (i + 1)" and nul: "has_nul str (i + 1)"
      using str_at_step(2) [OF 1(2)] False by auto
    have "limit - q = Suc (limit - (q + 1))" using False by (simp add: Suc_diff_Suc)
    then have tk: "take (limit - q) (str_at str i) = str ! i # take (limit - (q + 1)) (str_at str (i + 1))"
      by (simp add: at)
    from 1(1) [OF c False w nul] False 1(4) obtain buf' where
      "pstrcpy_loop (buf[q := str ! i]) limit str (i + 1) (q + 1) =
        Some (buf', q + 1 + length (take (limit - (q + 1)) (str_at str (i + 1))))"
      "wr_block (buf[q := str ! i]) (q + 1) (take (limit - (q + 1)) (str_at str (i + 1))) = Some buf'"
      by auto
    then show ?thesis
      unfolding tk wr_block_snoc [OF w] using c False w by (subst pstrcpy_loop.simps) auto
  qed
qed

text \<open>The copy is the string, cut to the size of the buffer, and always terminated.\<close>

lemma js__pstrcpy_correct:
  assumes "has_nul str i" and "0 < buf_size" and "at + nat buf_size \<le> length buf"
  shows "js__pstrcpy buf at buf_size str i =
    wr_block buf at (take (nat buf_size - 1) (str_at str i) @ [0])"
proof -
  define limit where "limit = at + nat buf_size - 1"
  have l: "at \<le> limit" "limit < length buf" "limit - at = nat buf_size - 1"
    using assms(2,3) by (auto simp: limit_def)
  define cs where "cs = take (nat buf_size - 1) (str_at str i)"
  obtain buf' where loop: "pstrcpy_loop buf limit str i at = Some (buf', at + length cs)"
    and w: "wr_block buf at cs = Some buf'"
    using pstrcpy_loop_stores [OF assms(1) l(1,2)] by (auto simp: l(3) cs_def)
  have "length cs \<le> nat buf_size - 1" by (simp add: cs_def)
  then have "at + length cs < length buf" using l by linarith
  moreover have "length buf' = length buf" using w by (rule wr_block_length)
  ultimately have "wr buf' (at + length cs) 0 = wr_block buf at (cs @ [0])"
    using w by (auto simp: wr_block_def wr_def list_update_append upd_conv_take_nth_drop split: if_splits)
  then show ?thesis
    using assms(2) loop by (simp add: js__pstrcpy_def limit_def cs_def)
qed

lemma str_at_written:
  assumes "wr_block buf at (cs @ [0]) = Some buf'" and "0 \<notin> set cs"
  shows "str_at buf' at = cs" and "take at buf' = take at buf" and "has_nul buf' at"
  using assms by (auto simp: str_at_def has_nul_def wr_block_def takeWhile_tail split: if_splits)

lemma nul_free_str_at: "0 \<notin> set (str_at s i)"
  by (auto simp: str_at_def dest: set_takeWhileD)

text \<open>The concatenation is the two strings, cut to the size of the buffer.\<close>

lemma js__pstrcat_correct:
  assumes buf: "has_nul buf 0" and s: "has_nul s i" and size: "nat buf_size \<le> length buf"
    and room: "int (length (str_at buf 0)) < buf_size"
  obtains buf' where "js__pstrcat buf buf_size s i = Some buf'" and "length buf' = length buf"
    and "str_at buf' 0 = take (nat buf_size - 1) (str_at buf 0 @ str_at s i)"
proof -
  define len where "len = length (str_at buf 0)"
  define cs where "cs = take (nat (buf_size - int len) - 1) (str_at s i)"
  have size': "0 < buf_size - int len" "len + nat (buf_size - int len) \<le> length buf"
    using room size by (auto simp: len_def)
  have "length cs \<le> nat (buf_size - int len) - 1" by (simp add: cs_def)
  then have "len + length (cs @ [0]) \<le> length buf" using size' by simp
  from wr_block_Some [OF this] obtain buf' where w: "wr_block buf len (cs @ [0]) = Some buf'"
    by blast
  have "js__pstrcat buf buf_size s i = Some buf'"
    using buf room js__pstrcpy_correct [OF s size'] w
    by (simp add: js__pstrcat_def c_strlen8_def cs_def len_def)
  moreover have "length buf' = length buf" using w by (rule wr_block_length)
  moreover have "str_at buf' 0 = str_at buf 0 @ cs"
  proof -
    have "0 \<notin> set cs" using nul_free_str_at [of s i] by (auto simp: cs_def dest: in_set_takeD)
    note wr = str_at_written [OF w this]
    have tk: "take len buf = str_at buf 0" by (simp add: len_def str_at_def takeWhile_eq_take [symmetric])
    have "buf' = str_at buf 0 @ drop len buf'" using wr(2) tk by (metis append_take_drop_id)
    then have "str_at buf' 0 = takeWhile (\<lambda>c. c \<noteq> 0) (str_at buf 0 @ drop len buf')"
      by (metis drop0 str_at_def)
    also have "\<dots> = str_at buf 0 @ str_at buf' len"
      using nul_free_str_at [of buf 0] by (subst takeWhile_append2) (auto simp: str_at_def)
    finally show ?thesis using wr(1) by simp
  qed
  moreover have "take (nat buf_size - 1) (str_at buf 0 @ str_at s i) = str_at buf 0 @ cs"
    using room by (auto simp: cs_def len_def nat_diff_distrib)
  ultimately show thesis using that by simp
qed

lemma js__strstart_correct:
  assumes "has_nul str p" and "has_nul val q"
  shows "js__strstart str p val q =
    Some (if take (length (str_at val q)) (str_at str p) = str_at val q
          then Some (p + length (str_at val q)) else None)"
  using assms
proof (induction str p val q rule: js__strstart.induct)
  case (1 str p val q)
  have v: "rd val q = Some (val ! q)" and s: "rd str p = Some (str ! p)"
    using has_nulD 1(2,3) by simp_all
  show ?case
  proof (cases "val ! q = 0")
    case True
    then show ?thesis using v str_at_step(1) [OF 1(3)] by (subst js__strstart.simps) simp
  next
    case False
    note v_at = str_at_step(2) [OF 1(3) False]
    show ?thesis
    proof (cases "str ! p = val ! q")
      case eq: True
      with False have s_at: "str_at str p = str ! p # str_at str (p + 1)" "has_nul str (p + 1)"
        using str_at_step(2) [OF 1(2)] by auto
      have "js__strstart str p val q = js__strstart str (p + 1) val (q + 1)"
        using v s False eq by (subst js__strstart.simps) simp
      with 1(1) [OF v False s _ s_at(2)] v_at s_at eq show ?thesis by auto
    next
      case neq: False
      have "take (length (str_at val q)) (str_at str p) \<noteq> str_at val q"
        using v_at str_at_step [OF 1(2)] neq False by (cases "str ! p = 0") auto
      then show ?thesis using v s False neq by (subst js__strstart.simps) simp
    qed
  qed
qed

lemma str_at_take: "str_at s 0 = take (length (str_at s 0)) s"
  by (simp add: str_at_def takeWhile_eq_take [symmetric])

lemma js__has_suffix_correct:
  assumes "has_nul str 0" and "has_nul suffix 0"
  shows "js__has_suffix str suffix = Some (\<exists>pre. str_at str 0 = pre @ str_at suffix 0)"
proof -
  let ?s = "str_at str 0" and ?t = "str_at suffix 0"
  have le: "length ?s \<le> length str" "length ?t \<le> length suffix"
    by (simp_all add: str_at_def length_takeWhile_le)
  show ?thesis
  proof (cases "length ?t \<le> length ?s")
    case True
    have "take (length ?t) (drop (length ?s - length ?t) str) = drop (length ?s - length ?t) ?s"
      using True by (subst (3) str_at_take) (simp add: drop_take)
    moreover have "drop (length ?s - length ?t) ?s = ?t \<longleftrightarrow> (\<exists>pre. ?s = pre @ ?t)"
      by (metis append_eq_conv_conj append_take_drop_id length_append add_diff_cancel_right')
    ultimately show ?thesis
      using True le assms str_at_take [of suffix] by (simp add: js__has_suffix_def c_strlen8_def)
  next
    case False
    then have "\<not> (\<exists>pre. ?s = pre @ ?t)" by auto
    then show ?thesis using False assms by (simp add: js__has_suffix_def c_strlen8_def)
  qed
qed

end
