(* ===== verification/Dyn_Buf.thy ===== *)
theory Dyn_Buf
  imports Cutils_Bits
begin

text \<open>
  The growing byte buffers of \<^verbatim>\<open>quickjs/cutils.c\<close>.  A \<open>DynBuf\<close> has its block, the
  number of bytes in use, the size of the block, a flag that an allocation has failed, and
  the reallocation function with its own state.  Sizes are \<open>size_t\<close>: sums wrap at
  \<open>2 ^ 64\<close>.  The reallocation function is a parameter of the model.
\<close>

section \<open>The buffer\<close>

text \<open>
  A reallocation function takes its state, the old block (\<open>None\<close> for
  \<^verbatim>\<open>NULL\<close>) and the new size, and answers the new block, or \<open>None\<close> when it has
  no memory, and its new state.
\<close>

type_synonym 'o realloc = "'o \<Rightarrow> u8 list option \<Rightarrow> nat \<Rightarrow> u8 list option \<times> 'o"

record 'o DynBuf =
  db_buf :: "u8 list option"
  db_size :: nat
  db_allocated :: nat
  db_error :: bool
  db_realloc :: "'o realloc option"
  db_opaque :: 'o

text \<open>What the C library promises of \<^verbatim>\<open>realloc\<close>: a block of the asked size that keeps
  the old bytes.\<close>

definition keeps_bytes :: "'o realloc \<Rightarrow> bool" where
  "keeps_bytes ra \<longleftrightarrow>
     (\<forall>h p n q h'. ra h p n = (Some q, h') \<longrightarrow>
        length q = n \<and> (\<forall>old. p = Some old \<longrightarrow> take (min n (length old)) q = take (min n (length old)) old))"

lemma keeps_bytesD:
  assumes "keeps_bytes ra" and "ra h p n = (Some q, h')"
  shows "length q = n"
    and "p = Some old \<Longrightarrow> take (min n (length old)) q = take (min n (length old)) old"
  using assms unfolding keeps_bytes_def by blast+

definition size_sum :: "nat \<Rightarrow> nat \<Rightarrow> nat" where
  "size_sum a b = (a + b) mod 2 ^ 64"

section \<open>Operations\<close>

definition dbuf_default_realloc :: "'o realloc \<Rightarrow> 'o realloc" where
  "dbuf_default_realloc libc_realloc h p n =
     (if n = 0 then (None, snd (libc_realloc h p 0)) else libc_realloc h p n)"

definition dbuf_init2 :: "'o realloc \<Rightarrow> 'o \<Rightarrow> 'o realloc option \<Rightarrow> 'o DynBuf" where
  "dbuf_init2 libc_realloc h ra =
     \<lparr>db_buf = None, db_size = 0, db_allocated = 0, db_error = False,
      db_realloc = Some (case ra of None \<Rightarrow> dbuf_default_realloc libc_realloc | Some f \<Rightarrow> f),
      db_opaque = h\<rparr>"

definition dbuf_init :: "'o realloc \<Rightarrow> 'o \<Rightarrow> 'o DynBuf" where
  "dbuf_init libc_realloc h = dbuf_init2 libc_realloc h None"

definition dbuf_realloc :: "'o DynBuf \<Rightarrow> nat \<Rightarrow> (int \<times> 'o DynBuf) option" where
  "dbuf_realloc s new_size =
     (if new_size > db_allocated s then
        if db_error s then Some (- 1, s)
        else
          let sz = (db_allocated s * 3) mod 2 ^ 64 div 2;
              n = (if sz > new_size then sz else new_size)
          in do {
            f \<leftarrow> db_realloc s;
            (case f (db_opaque s) (db_buf s) n of
               (None, h) \<Rightarrow> Some (- 1, s\<lparr>db_error := True, db_opaque := h\<rparr>)
             | (Some q, h) \<Rightarrow> Some (0, s\<lparr>db_buf := Some q, db_allocated := n, db_opaque := h\<rparr>))
          }
      else Some (0, s))"

text \<open>\<^verbatim>\<open>memcpy\<close> into the block; nothing is accessed when there is nothing to copy.\<close>

definition dbuf_copy :: "'o DynBuf \<Rightarrow> nat \<Rightarrow> u8 list \<Rightarrow> 'o DynBuf option" where
  "dbuf_copy s offset bs =
     (case db_buf s of
        None \<Rightarrow> if bs = [] then Some s else None
      | Some b \<Rightarrow> map_option (\<lambda>b'. s\<lparr>db_buf := Some b'\<rparr>) (wr_block b offset bs))"

definition dbuf_write :: "'o DynBuf \<Rightarrow> nat \<Rightarrow> u8 list \<Rightarrow> (int \<times> 'o DynBuf) option" where
  "dbuf_write s offset data =
     (let end_pos = size_sum offset (length data) in
      do {
        (r, s) \<leftarrow> dbuf_realloc s end_pos;
        if r \<noteq> 0 then Some (- 1, s)
        else do {
          s \<leftarrow> dbuf_copy s offset data;
          Some (0, if end_pos > db_size s then s\<lparr>db_size := end_pos\<rparr> else s)
        }
      })"

definition dbuf_reserve :: "'o DynBuf \<Rightarrow> nat \<Rightarrow> (int \<times> 'o DynBuf) option" where
  "dbuf_reserve s len =
     (if size_sum (db_size s) len > db_allocated s
      then dbuf_realloc s (size_sum (db_size s) len) else Some (0, s))"

definition dbuf_put :: "'o DynBuf \<Rightarrow> u8 list \<Rightarrow> (int \<times> 'o DynBuf) option" where
  "dbuf_put s data =
     do {
       (r, s) \<leftarrow> dbuf_reserve s (length data);
       if r \<noteq> 0 then Some (- 1, s)
       else if length data > 0 then do {
         s \<leftarrow> dbuf_copy s (db_size s) data;
         Some (0, s\<lparr>db_size := size_sum (db_size s) (length data)\<rparr>)
       }
       else Some (0, s)
     }"

text \<open>
  Copying a part of the buffer to its end: \<^verbatim>\<open>memcpy\<close> of blocks that overlap is undefined.
\<close>

definition dbuf_put_self :: "'o DynBuf \<Rightarrow> nat \<Rightarrow> nat \<Rightarrow> (int \<times> 'o DynBuf) option" where
  "dbuf_put_self s offset len =
     do {
       (r, s) \<leftarrow> dbuf_reserve s len;
       if r \<noteq> 0 then Some (- 1, s)
       else if len = 0 then Some (0, s)
       else do {
         b \<leftarrow> db_buf s;
         bs \<leftarrow> (if db_size s < offset + len \<and> offset < db_size s + len then None
               else rd_block b offset len);
         s \<leftarrow> dbuf_copy s (db_size s) bs;
         Some (0, s\<lparr>db_size := size_sum (db_size s) len\<rparr>)
       }
     }"

definition dbuf_putc :: "'o DynBuf \<Rightarrow> u8 \<Rightarrow> (int \<times> 'o DynBuf) option" where
  "dbuf_putc s c = dbuf_put s [c]"

text \<open>A string is given by its bytes before the terminating zero.\<close>

definition dbuf_putstr :: "'o DynBuf \<Rightarrow> u8 list \<Rightarrow> (int \<times> 'o DynBuf) option" where
  "dbuf_putstr s str = dbuf_put s str"

definition dbuf_put_u16 :: "'o DynBuf \<Rightarrow> u16 \<Rightarrow> (int \<times> 'o DynBuf) option" where
  "dbuf_put_u16 s v = dbuf_put s (le_bytes 2 (unat v))"

definition dbuf_put_u32 :: "'o DynBuf \<Rightarrow> u32 \<Rightarrow> (int \<times> 'o DynBuf) option" where
  "dbuf_put_u32 s v = dbuf_put s (le_bytes 4 (unat v))"

definition dbuf_put_u64 :: "'o DynBuf \<Rightarrow> u64 \<Rightarrow> (int \<times> 'o DynBuf) option" where
  "dbuf_put_u64 s v = dbuf_put s (le_bytes 8 (unat v))"

text \<open>
  Formatted output, given the text that the format and the arguments make (fewer than
  \<open>2 ^ 31\<close> bytes): \<^verbatim>\<open>vsnprintf\<close> stores as much of it as fits before a
  terminating zero.
\<close>

definition vsnprintf :: "nat \<Rightarrow> u8 list \<Rightarrow> u8 list" where
  "vsnprintf n txt = (if n = 0 then [] else take (n - 1) txt @ [0])"

definition dbuf_printf :: "'o DynBuf \<Rightarrow> u8 list \<Rightarrow> (int \<times> 'o DynBuf) option" where
  "dbuf_printf s txt =
     (let len = length txt in
      if len < 128 then dbuf_put s (take len (vsnprintf 128 txt))
      else
        do {
          (r, s) \<leftarrow> dbuf_realloc s (size_sum (size_sum (db_size s) len) 1);
          if r \<noteq> 0 then Some (- 1, s)
          else do {
            s \<leftarrow> dbuf_copy s (db_size s) (vsnprintf (db_allocated s - db_size s) txt);
            Some (0, s\<lparr>db_size := size_sum (db_size s) len\<rparr>)
          }
        })"

definition dbuf_free :: "'o DynBuf \<Rightarrow> 'o DynBuf option" where
  "dbuf_free s =
     do {
       h \<leftarrow> (case db_buf s of
              None \<Rightarrow> Some (db_opaque s)
            | Some b \<Rightarrow> do { f \<leftarrow> db_realloc s; Some (snd (f (db_opaque s) (Some b) 0)) });
       Some \<lparr>db_buf = None, db_size = 0, db_allocated = 0, db_error = False,
             db_realloc = None, db_opaque = h\<rparr>
     }"

definition dbuf_error :: "'o DynBuf \<Rightarrow> bool" where
  "dbuf_error s = db_error s"

definition dbuf_set_error :: "'o DynBuf \<Rightarrow> 'o DynBuf" where
  "dbuf_set_error s = s\<lparr>db_error := True\<rparr>"

section \<open>Well-formed buffers and what they hold\<close>

definition dbuf_wf :: "'o DynBuf \<Rightarrow> bool" where
  "dbuf_wf s \<longleftrightarrow>
     length (case db_buf s of None \<Rightarrow> [] | Some b \<Rightarrow> b) = db_allocated s \<and>
     db_size s \<le> db_allocated s \<and> db_allocated s < 2 ^ 64 \<and>
     (\<exists>f. db_realloc s = Some f \<and> keeps_bytes f)"

definition db_contents :: "'o DynBuf \<Rightarrow> u8 list" where
  "db_contents s = (case db_buf s of None \<Rightarrow> [] | Some b \<Rightarrow> take (db_size s) b)"

lemma size_sum_exact: "a + b < 2 ^ 64 \<Longrightarrow> size_sum a b = a + b"
  by (simp add: size_sum_def)

lemma length_contents: "dbuf_wf s \<Longrightarrow> length (db_contents s) = db_size s"
  by (auto simp: dbuf_wf_def db_contents_def split: option.splits)

lemma dbuf_realloc_cases:
  assumes wf: "dbuf_wf s" and n: "n < 2 ^ 64"
  obtains
    (grown) s' where "dbuf_realloc s n = Some (0, s')" and "dbuf_wf s'" and "n \<le> db_allocated s'"
      and "db_contents s' = db_contents s" and "db_size s' = db_size s" and "db_error s' = db_error s"
      and "db_realloc s' = db_realloc s" and "db_allocated s \<le> db_allocated s'"
  | (failed) s' where "dbuf_realloc s n = Some (- 1, s')" and "dbuf_wf s'" and "db_error s'"
      and "db_contents s' = db_contents s" and "db_size s' = db_size s" and "db_allocated s < n"
      and "db_buf s' = db_buf s" and "db_allocated s' = db_allocated s"
proof (cases "db_allocated s < n")
  case False
  then show ?thesis using wf by (intro grown [of s]) (auto simp: dbuf_realloc_def)
next
  case True
  obtain f where f: "db_realloc s = Some f" and keeps: "keeps_bytes f"
    using wf by (auto simp: dbuf_wf_def)
  show ?thesis
  proof (cases "db_error s")
    case True
    with wf \<open>db_allocated s < n\<close> show ?thesis
      by (intro failed [of s]) (auto simp: dbuf_realloc_def)
  next
    case False
    define sz where "sz = (db_allocated s * 3) mod 2 ^ 64 div 2"
    define m where "m = (if sz > n then sz else n)"
    have "sz < 2 ^ 64" unfolding sz_def by (rule le_less_trans [OF div_le_dividend]) simp
    then have m: "n \<le> m" "m < 2 ^ 64" using n by (auto simp: m_def)
    obtain p h where fp: "f (db_opaque s) (db_buf s) m = (p, h)" by (cases "f (db_opaque s) (db_buf s) m")
    have eq: "dbuf_realloc s n =
        (case (p, h) of
           (None, h) \<Rightarrow> Some (- 1, s\<lparr>db_error := True, db_opaque := h\<rparr>)
         | (Some q, h) \<Rightarrow> Some (0, s\<lparr>db_buf := Some q, db_allocated := m, db_opaque := h\<rparr>))"
      by (simp only: dbuf_realloc_def Let_def sz_def [symmetric] m_def [symmetric] True False f fp
          if_True if_False bind.bind_lunit)
    show ?thesis
    proof (cases p)
      case None
      with eq wf True show ?thesis
        by (intro failed [of "s\<lparr>db_error := True, db_opaque := h\<rparr>"])
           (auto simp: dbuf_wf_def db_contents_def split: option.splits)
    next
      case (Some q)
      have len: "length q = m"
        using keeps_bytesD(1) [OF keeps] fp Some by simp
      have keep: "take (min m (length b)) q = take (min m (length b)) b" if "db_buf s = Some b" for b
        using keeps_bytesD(2) [OF keeps _ that] fp Some by simp
      have "db_contents (s\<lparr>db_buf := Some q, db_allocated := m, db_opaque := h\<rparr>) = db_contents s"
      proof (cases "db_buf s")
        case None
        then show ?thesis using wf by (auto simp: db_contents_def dbuf_wf_def)
      next
        case (Some b)
        then have "length b = db_allocated s" "db_size s \<le> length b"
          using wf by (auto simp: dbuf_wf_def)
        then have "min m (length b) = length b" using True m(1) by simp
        with keep [OF Some] have "take (length b) q = b" by simp
        then have "take (db_size s) q = take (db_size s) b"
          using \<open>db_size s \<le> length b\<close> by (metis min.absorb1 take_take)
        then show ?thesis using Some by (simp add: db_contents_def)
      qed
      then show ?thesis
        using eq wf True False len m Some f keeps
        by (intro grown [of "s\<lparr>db_buf := Some q, db_allocated := m, db_opaque := h\<rparr>"])
           (auto simp: dbuf_wf_def)
    qed
  qed
qed

lemma dbuf_reserve_realloc:
  assumes "dbuf_wf s" and "db_size s + n < 2 ^ 64"
  shows "dbuf_reserve s n = dbuf_realloc s (db_size s + n)"
  using assms by (simp add: dbuf_reserve_def size_sum_exact dbuf_realloc_def)

text \<open>Copying the bytes to the end of the contents and counting them.\<close>

lemma dbuf_copy_end:
  assumes wf: "dbuf_wf s" and fits: "db_size s + length bs \<le> db_allocated s"
  obtains s' where "dbuf_copy s (db_size s) bs = Some s'"
    and "\<And>n. n \<le> length bs \<Longrightarrow> dbuf_wf (s'\<lparr>db_size := db_size s + n\<rparr>)"
    and "\<And>n. n \<le> length bs \<Longrightarrow> db_contents (s'\<lparr>db_size := db_size s + n\<rparr>) = db_contents s @ take n bs"
    and "db_size s' = db_size s" and "db_error s' = db_error s" and "dbuf_wf s'"
    and "db_contents s' = db_contents s"
proof (cases "db_buf s")
  case None
  with wf fits have *: "bs = []" "db_size s = 0" by (auto simp: dbuf_wf_def)
  show ?thesis using None wf *
    by (intro that [of s]) (auto simp: dbuf_copy_def db_contents_def dbuf_wf_def)
next
  case (Some b)
  with wf have len: "length b = db_allocated s" by (auto simp: dbuf_wf_def)
  define b' where "b' = take (db_size s) b @ bs @ drop (db_size s + length bs) b"
  have w: "dbuf_copy s (db_size s) bs = Some (s\<lparr>db_buf := Some b'\<rparr>)"
    using Some fits len by (simp add: dbuf_copy_def b'_def)
  show ?thesis using Some wf len fits
    by (intro that [OF w]) (auto simp: db_contents_def dbuf_wf_def b'_def)
qed

text \<open>What appending \<open>bs\<close> to a buffer does: all of it, or nothing and an error that stays.\<close>

definition appended :: "'o DynBuf \<Rightarrow> u8 list \<Rightarrow> int \<times> 'o DynBuf \<Rightarrow> bool" where
  "appended s bs r \<longleftrightarrow>
     (case r of (code, s') \<Rightarrow>
        dbuf_wf s' \<and>
        (code = 0 \<and> db_contents s' = db_contents s @ bs \<and> db_error s' = db_error s \<or>
         code = - 1 \<and> db_contents s' = db_contents s \<and> db_error s'))"

lemma dbuf_put_appended:
  assumes wf: "dbuf_wf s" and n: "db_size s + length bs < 2 ^ 64"
  obtains r where "dbuf_put s bs = Some r" and "appended s bs r"
  using wf n
proof (cases rule: dbuf_realloc_cases)
  case (failed s')
  then show ?thesis
    using n wf by (intro that [of "(- 1, s')"]) (auto simp: dbuf_put_def dbuf_reserve_realloc appended_def)
next
  case (grown s')
  from \<open>dbuf_wf s'\<close> obtain t where t: "dbuf_copy s' (db_size s') bs = Some t"
    and fin: "dbuf_wf (t\<lparr>db_size := db_size s' + length bs\<rparr>)"
      "db_contents (t\<lparr>db_size := db_size s' + length bs\<rparr>) = db_contents s' @ bs"
    and err: "db_size t = db_size s'" "db_error t = db_error s'"
    by (rule dbuf_copy_end [of s' bs]) (use grown in auto)
  show ?thesis
  proof (cases "bs = []")
    case True
    with grown n wf show ?thesis
      by (intro that [of "(0, s')"]) (auto simp: dbuf_put_def dbuf_reserve_realloc appended_def)
  next
    case False
    with grown n wf t fin err show ?thesis
      by (intro that [of "(0, t\<lparr>db_size := db_size s' + length bs\<rparr>)"])
         (auto simp: dbuf_put_def dbuf_reserve_realloc appended_def size_sum_exact)
  qed
qed

lemma dbuf_printf_appended:
  assumes wf: "dbuf_wf s" and n: "db_size s + length txt + 1 < 2 ^ 64"
  obtains r where "dbuf_printf s txt = Some r" and "appended s txt r"
proof (cases "length txt < 128")
  case True
  then have "take (length txt) (vsnprintf 128 txt) = txt" by (simp add: vsnprintf_def)
  with True have "dbuf_printf s txt = dbuf_put s txt" by (simp add: dbuf_printf_def)
  moreover have "db_size s + length txt < 2 ^ 64" using n by simp
  ultimately show ?thesis using wf that by (metis dbuf_put_appended)
next
  case False
  have sum: "size_sum (size_sum (db_size s) (length txt)) 1 = db_size s + length txt + 1"
    using n by (simp add: size_sum_def)
  from wf n show ?thesis
  proof (cases rule: dbuf_realloc_cases)
    case (failed s')
    with False sum show ?thesis
      by (intro that [of "(- 1, s')"]) (auto simp: dbuf_printf_def appended_def)
  next
    case (grown s')
    define out where "out = vsnprintf (db_allocated s' - db_size s') txt"
    have out: "length txt \<le> length out" "take (length txt) out = txt"
        "db_size s' + length out \<le> db_allocated s'"
      using grown by (auto simp: out_def vsnprintf_def)
    from \<open>dbuf_wf s'\<close> out(3) obtain t where t: "dbuf_copy s' (db_size s') out = Some t"
      and fin: "dbuf_wf (t\<lparr>db_size := db_size s' + length txt\<rparr>)"
        "db_contents (t\<lparr>db_size := db_size s' + length txt\<rparr>) = db_contents s' @ txt"
      and err: "db_size t = db_size s'" "db_error t = db_error s'"
      by (rule dbuf_copy_end [of s' out]) (use out in auto)
    with grown n False sum show ?thesis
      by (intro that [of "(0, t\<lparr>db_size := db_size s' + length txt\<rparr>)"])
         (auto simp: dbuf_printf_def appended_def size_sum_exact out_def)
  qed
qed

end
