(* ===== verification/Cutils_Sort.thy ===== *)
theory Cutils_Sort
  imports C_Memory
begin

text \<open>
  Sorting in \<^verbatim>\<open>quickjs/cutils.c\<close>: the exchange functions on bytes, the heap sort and
  the quick sort with its explicit stack.  The exchange functions work on the bytes of
  memory.  The sorts are given on the array of elements, an element being the block of
  \<^verbatim>\<open>size\<close> bytes that the exchange functions move: pointers into the array are element
  indices, and the comparison is a function of two elements (and of the opaque argument,
  which is part of it).
\<close>

section \<open>Exchanging blocks of bytes\<close>

text \<open>
  One exchange of two units of \<open>w\<close> bytes: \<^verbatim>\<open>t = *ap; *ap = *bp; *bp = t\<close>.
\<close>

definition exchange_unit :: "nat \<Rightarrow> u8 list \<Rightarrow> nat \<Rightarrow> nat \<Rightarrow> u8 list option" where
  "exchange_unit w mem a b =
     do {
       t \<leftarrow> rd_block mem a w;
       s \<leftarrow> rd_block mem b w;
       mem \<leftarrow> wr_block mem a s;
       wr_block mem b t
     }"

fun exchange_units :: "nat \<Rightarrow> u8 list \<Rightarrow> nat \<Rightarrow> nat \<Rightarrow> nat \<Rightarrow> u8 list option" where
  "exchange_units w mem a b 0 = Some mem"
| "exchange_units w mem a b (Suc n) =
     do { mem \<leftarrow> exchange_unit w mem a b; exchange_units w mem (a + w) (b + w) n }"

type_synonym exchange_f = "u8 list \<Rightarrow> nat \<Rightarrow> nat \<Rightarrow> nat \<Rightarrow> u8 list option"

definition exchange_bytes :: exchange_f where
  "exchange_bytes mem a b size_arg = exchange_units 1 mem a b size_arg"

definition exchange_one_byte :: exchange_f where
  "exchange_one_byte mem a b size_arg = exchange_unit 1 mem a b"

definition exchange_int16s :: exchange_f where
  "exchange_int16s mem a b size_arg = exchange_units 2 mem a b (size_arg div 2)"

definition exchange_one_int16 :: exchange_f where
  "exchange_one_int16 mem a b size_arg = exchange_unit 2 mem a b"

definition exchange_int32s :: exchange_f where
  "exchange_int32s mem a b size_arg = exchange_units 4 mem a b (size_arg div 4)"

definition exchange_one_int32 :: exchange_f where
  "exchange_one_int32 mem a b size_arg = exchange_unit 4 mem a b"

definition exchange_int64s :: exchange_f where
  "exchange_int64s mem a b size_arg = exchange_units 8 mem a b (size_arg div 8)"

definition exchange_one_int64 :: exchange_f where
  "exchange_one_int64 mem a b size_arg = exchange_unit 8 mem a b"

text \<open>The 128-bit exchange reads and writes its unit as two 64-bit halves.\<close>

definition exchange_unit128 :: "u8 list \<Rightarrow> nat \<Rightarrow> nat \<Rightarrow> u8 list option" where
  "exchange_unit128 mem a b =
     do {
       t \<leftarrow> rd_block mem a 8;
       u \<leftarrow> rd_block mem (a + 8) 8;
       b0 \<leftarrow> rd_block mem b 8;
       mem \<leftarrow> wr_block mem a b0;
       b1 \<leftarrow> rd_block mem (b + 8) 8;
       mem \<leftarrow> wr_block mem (a + 8) b1;
       mem \<leftarrow> wr_block mem b t;
       wr_block mem (b + 8) u
     }"

fun exchange_units128 :: "u8 list \<Rightarrow> nat \<Rightarrow> nat \<Rightarrow> nat \<Rightarrow> u8 list option" where
  "exchange_units128 mem a b 0 = Some mem"
| "exchange_units128 mem a b (Suc n) =
     do { mem \<leftarrow> exchange_unit128 mem a b; exchange_units128 mem (a + 16) (b + 16) n }"

definition exchange_int128s :: exchange_f where
  "exchange_int128s mem a b size_arg = exchange_units128 mem a b (size_arg div 16)"

definition exchange_one_int128 :: exchange_f where
  "exchange_one_int128 mem a b size_arg = exchange_unit128 mem a b"

definition exchange_func :: "nat \<Rightarrow> nat \<Rightarrow> exchange_f" where
  "exchange_func base size_arg =
     (let k = (base OR size_arg) AND 15 in
      if k = 0 then if size_arg = 16 then exchange_one_int128 else exchange_int128s
      else if k = 8 then if size_arg = 8 then exchange_one_int64 else exchange_int64s
      else if k = 4 \<or> k = 12 then if size_arg = 4 then exchange_one_int32 else exchange_int32s
      else if k = 2 \<or> k = 6 \<or> k = 10 \<or> k = 14 then
        if size_arg = 2 then exchange_one_int16 else exchange_int16s
      else if size_arg = 1 then exchange_one_byte else exchange_bytes)"

section \<open>Exchanging elements\<close>

definition swap_elems :: "'a list \<Rightarrow> nat \<Rightarrow> nat \<Rightarrow> 'a list option" where
  "swap_elems xs i j =
     do { a \<leftarrow> rd xs i; b \<leftarrow> rd xs j; xs \<leftarrow> wr xs i b; wr xs j a }"

fun swap_block :: "'a list \<Rightarrow> nat \<Rightarrow> nat \<Rightarrow> nat \<Rightarrow> 'a list option" where
  "swap_block xs i j 0 = Some xs"
| "swap_block xs i j (Suc n) = do { xs \<leftarrow> swap_elems xs i j; swap_block xs (i + 1) (j + 1) n }"

text \<open>The comparison of the elements at two indices.\<close>

definition cmp_at :: "('a \<Rightarrow> 'a \<Rightarrow> int) \<Rightarrow> 'a list \<Rightarrow> nat \<Rightarrow> nat \<Rightarrow> int option" where
  "cmp_at cmp xs i j = do { a \<leftarrow> rd xs i; b \<leftarrow> rd xs j; Some (cmp a b) }"

section \<open>Heap sort\<close>

text \<open>
  The loop that moves the element at \<open>r\<close> down, in the heap of the \<open>n\<close> elements from
  \<open>base\<close> on; indices are relative to \<open>base\<close>.
\<close>

function sift_down :: "('a \<Rightarrow> 'a \<Rightarrow> int) \<Rightarrow> nat \<Rightarrow> nat \<Rightarrow> nat \<Rightarrow> 'a list \<Rightarrow> 'a list option" where
  "sift_down cmp base n r xs =
     (let c = r * 2 + 1 in
      if c < n then do {
        c \<leftarrow> (if c < n - 1 then do {
                v \<leftarrow> cmp_at cmp xs (base + c) (base + c + 1);
                Some (if v \<le> 0 then c + 1 else c)
              }
              else Some c);
        v \<leftarrow> cmp_at cmp xs (base + r) (base + c);
        if v > 0 then Some xs
        else do {
          xs \<leftarrow> swap_elems xs (base + r) (base + c);
          sift_down cmp base n c xs
        }
      }
      else Some xs)"
  by pat_completeness auto
termination
  by (relation "measure (\<lambda>(cmp, base, n, r, xs). n - r)")
     (auto split: if_splits simp: bind_eq_Some_conv)

declare sift_down.simps [simp del]

text \<open>The two loops: building the heap, from \<open>i\<close> down to 0, and taking the maxima off it.\<close>

fun heap_build :: "('a \<Rightarrow> 'a \<Rightarrow> int) \<Rightarrow> nat \<Rightarrow> nat \<Rightarrow> nat \<Rightarrow> 'a list \<Rightarrow> 'a list option" where
  "heap_build cmp base n 0 xs = Some xs"
| "heap_build cmp base n (Suc i) xs =
     do { xs \<leftarrow> sift_down cmp base n i xs; heap_build cmp base n i xs }"

fun heap_extract :: "('a \<Rightarrow> 'a \<Rightarrow> int) \<Rightarrow> nat \<Rightarrow> nat \<Rightarrow> 'a list \<Rightarrow> 'a list option" where
  "heap_extract cmp base 0 xs = Some xs"
| "heap_extract cmp base (Suc i) xs =
     do {
       xs \<leftarrow> swap_elems xs base (base + Suc i);
       xs \<leftarrow> sift_down cmp base (Suc i) 0 xs;
       heap_extract cmp base i xs
     }"

definition heapsortx :: "('a \<Rightarrow> 'a \<Rightarrow> int) \<Rightarrow> nat \<Rightarrow> nat \<Rightarrow> 'a list \<Rightarrow> 'a list option" where
  "heapsortx cmp base nmemb xs =
     (if nmemb > 1 then do {
        xs \<leftarrow> heap_build cmp base nmemb (nmemb div 2) xs;
        heap_extract cmp base (nmemb - 1) xs
      }
      else Some xs)"

section \<open>Quick sort\<close>

definition med3 :: "('a \<Rightarrow> 'a \<Rightarrow> int) \<Rightarrow> 'a list \<Rightarrow> nat \<Rightarrow> nat \<Rightarrow> nat \<Rightarrow> nat option" where
  "med3 cmp xs a b c =
     do {
       ab \<leftarrow> cmp_at cmp xs a b;
       if ab < 0 then do {
         bc \<leftarrow> cmp_at cmp xs b c;
         if bc < 0 then Some b
         else do { ac \<leftarrow> cmp_at cmp xs a c; Some (if ac < 0 then c else a) }
       }
       else do {
         bc \<leftarrow> cmp_at cmp xs b c;
         if bc > 0 then Some b
         else do { ac \<leftarrow> cmp_at cmp xs a c; Some (if ac < 0 then a else c) }
       }
     }"

text \<open>
  The partition: \<open>ptr\<close> is the pivot, the other indices are those of the pointers
  \<^verbatim>\<open>plt\<close>, \<^verbatim>\<open>pi\<close>, \<^verbatim>\<open>pj\<close>, \<^verbatim>\<open>pgt\<close> (the
  counters \<^verbatim>\<open>lt\<close>, \<^verbatim>\<open>i\<close>, \<^verbatim>\<open>gt\<close> of the code
  are their distances from \<open>ptr\<close>).
\<close>

function scan_up :: "('a \<Rightarrow> 'a \<Rightarrow> int) \<Rightarrow> nat \<Rightarrow> 'a list \<Rightarrow> nat \<Rightarrow> nat \<Rightarrow> nat \<Rightarrow> ('a list \<times> nat \<times> nat) option" where
  "scan_up cmp ptr xs plt pi pj =
     (if pi < pj then do {
        c \<leftarrow> cmp_at cmp xs ptr pi;
        if c \<ge> 0 then
          if c = 0 then do {
            xs \<leftarrow> swap_elems xs plt pi;
            scan_up cmp ptr xs (plt + 1) (pi + 1) pj
          }
          else scan_up cmp ptr xs plt (pi + 1) pj
        else Some (xs, plt, pi)
      }
      else Some (xs, plt, pi))"
  by pat_completeness auto
termination
  by (relation "measure (\<lambda>(cmp, ptr, xs, plt, pi, pj). pj - pi)") auto

function scan_down :: "('a \<Rightarrow> 'a \<Rightarrow> int) \<Rightarrow> nat \<Rightarrow> 'a list \<Rightarrow> nat \<Rightarrow> nat \<Rightarrow> nat \<Rightarrow> ('a list \<times> nat \<times> nat) option" where
  "scan_down cmp ptr xs pi pj pgt =
     (let pj = pj - 1 in
      if pi < pj then do {
        c \<leftarrow> cmp_at cmp xs ptr pj;
        if c \<le> 0 then
          if c = 0 then do {
            xs \<leftarrow> swap_elems xs (pgt - 1) pj;
            scan_down cmp ptr xs pi pj (pgt - 1)
          }
          else scan_down cmp ptr xs pi pj pgt
        else Some (xs, pj, pgt)
      }
      else Some (xs, pj, pgt))"
  by pat_completeness auto
termination
  by (relation "measure (\<lambda>(cmp, ptr, xs, pi, pj, pgt). pj)") auto

declare scan_up.simps [simp del] scan_down.simps [simp del]

lemma scan_up_mono: "scan_up cmp ptr xs plt pi pj = Some (xs', plt', pi') \<Longrightarrow> pi \<le> pi'"
proof (induction cmp ptr xs plt pi pj rule: scan_up.induct)
  case (1 cmp ptr xs plt pi pj)
  from 1(3) show ?case
    by (subst (asm) scan_up.simps)
       (use 1(1,2) in \<open>fastforce simp: bind_eq_Some_conv split: if_splits dest: Suc_leD\<close>)
qed

lemma scan_down_mono: "scan_down cmp ptr xs pi pj pgt = Some (xs', pj', pgt') \<Longrightarrow> pj' \<le> pj - 1"
proof (induction cmp ptr xs pi pj pgt rule: scan_down.induct)
  case (1 cmp ptr xs pi pj pgt)
  have "pj' \<le> pj - 1 - 1 \<Longrightarrow> pj' \<le> pj - 1" by simp
  with 1(3) show ?case
    by (subst (asm) scan_down.simps)
       (use 1(1,2) [OF refl] in \<open>fastforce simp: Let_def bind_eq_Some_conv split: if_splits\<close>)
qed

function part_loop ::
    "('a \<Rightarrow> 'a \<Rightarrow> int) \<Rightarrow> nat \<Rightarrow> 'a list \<Rightarrow> nat \<Rightarrow> nat \<Rightarrow> nat \<Rightarrow> nat \<Rightarrow> ('a list \<times> nat \<times> nat \<times> nat) option" where
  "part_loop cmp ptr xs plt pi pj pgt =
     do {
       (xs, plt, pi) \<leftarrow> scan_up cmp ptr xs plt pi pj;
       (xs, pj, pgt) \<leftarrow> scan_down cmp ptr xs pi pj pgt;
       if pi \<ge> pj then Some (xs, plt, pi, pgt)
       else do {
         xs \<leftarrow> swap_elems xs pi pj;
         part_loop cmp ptr xs plt (pi + 1) pj pgt
       }
     }"
  by pat_completeness auto
termination
  by (relation "measure (\<lambda>(cmp, ptr, xs, plt, pi, pj, pgt). pj - pi)")
     (auto dest!: scan_up_mono scan_down_mono)

declare part_loop.simps [simp del]

text \<open>
  One partition of the \<open>nmemb\<close> elements from \<open>ptr\<close> on: the pivot is chosen and moved to
  the front, the elements are split, and those equal to the pivot are moved to the middle.
  The result is the array and the counts \<^verbatim>\<open>lt\<close> and \<^verbatim>\<open>gt\<close>.
\<close>

definition rq_partition ::
    "('a \<Rightarrow> 'a \<Rightarrow> int) \<Rightarrow> nat \<Rightarrow> nat \<Rightarrow> 'a list \<Rightarrow> ('a list \<times> nat \<times> nat) option" where
  "rq_partition cmp ptr nmemb xs =
     do {
       let m4 = nmemb div 4;
       m \<leftarrow> med3 cmp xs (ptr + m4) (ptr + 2 * m4) (ptr + 3 * m4);
       xs \<leftarrow> swap_elems xs ptr m;
       let pend = ptr + nmemb;
       (xs, plt, pi, pgt) \<leftarrow> part_loop cmp ptr xs (ptr + 1) (ptr + 1) pend pend;
       let span = plt - ptr;
       let span2 = pi - plt;
       let lt = pi - plt;
       let span = (if span > span2 then span2 else span);
       xs \<leftarrow> swap_block xs ptr (pi - span) span;
       let span = pend - pgt;
       let span2 = pgt - pi;
       let gt = nmemb - (pgt - pi);
       let span = (if span > span2 then span2 else span);
       xs \<leftarrow> swap_block xs pi (pend - span) span;
       Some (xs, lt, gt)
     }"

text \<open>The insertion sort of the elements from \<open>ptr\<close> to \<open>pend\<close>.\<close>

fun insert_back :: "('a \<Rightarrow> 'a \<Rightarrow> int) \<Rightarrow> nat \<Rightarrow> nat \<Rightarrow> 'a list \<Rightarrow> 'a list option" where
  "insert_back cmp ptr pj xs =
     (if pj > ptr then do {
        c \<leftarrow> cmp_at cmp xs (pj - 1) pj;
        if c > 0 then do { xs \<leftarrow> swap_elems xs pj (pj - 1); insert_back cmp ptr (pj - 1) xs }
        else Some xs
      }
      else Some xs)"

function insertion_loop :: "('a \<Rightarrow> 'a \<Rightarrow> int) \<Rightarrow> nat \<Rightarrow> nat \<Rightarrow> nat \<Rightarrow> 'a list \<Rightarrow> 'a list option" where
  "insertion_loop cmp ptr pi pend xs =
     (if pi < pend then do { xs \<leftarrow> insert_back cmp ptr pi xs; insertion_loop cmp ptr (pi + 1) pend xs }
      else Some xs)"
  by pat_completeness auto
termination
  by (relation "measure (\<lambda>(cmp, ptr, pi, pend, xs). pend - pi)") auto

declare insert_back.simps [simp del] insertion_loop.simps [simp del]

text \<open>
  The stack of segments that wait to be sorted, each with its depth.  It has room for 50; a
  push behind its end is \<open>None\<close>.
\<close>

type_synonym segment = "nat \<times> nat \<times> nat"

definition push_segment :: "segment list \<Rightarrow> segment \<Rightarrow> segment list option" where
  "push_segment st s = (if length st < 50 then Some (s # st) else None)"

text \<open>
  The inner loop: while the segment has more than 6 elements, it is partitioned, the larger
  part is pushed and the smaller is gone on with.  The result is the segment that is left
  for the insertion sort, the stack and the array.
\<close>

text \<open>The partition leaves at least the pivot out of both parts.\<close>

function rq_inner ::
    "('a \<Rightarrow> 'a \<Rightarrow> int) \<Rightarrow> nat \<Rightarrow> nat \<Rightarrow> nat \<Rightarrow> segment list \<Rightarrow> 'a list \<Rightarrow>
     (nat \<times> nat \<times> segment list \<times> 'a list) option" where
  "rq_inner cmp ptr nmemb depth st xs =
     (if nmemb > 6 then
        let depth = depth + 1 in
        if depth > 50 then do {
          xs \<leftarrow> heapsortx cmp ptr nmemb xs;
          Some (ptr, 0, st, xs)
        }
        else do {
          (xs, lt, gt) \<leftarrow> rq_partition cmp ptr nmemb xs;
          if lt > nmemb - gt then do {
            st \<leftarrow> push_segment st (ptr, lt, depth);
            rq_inner cmp (ptr + gt) (nmemb - gt) depth st xs
          }
          else do {
            st \<leftarrow> push_segment st (ptr + gt, nmemb - gt, depth);
            rq_inner cmp ptr lt depth st xs
          }
        }
      else Some (ptr, nmemb, st, xs))"
  by pat_completeness auto
termination
  by (relation "measure (\<lambda>(cmp, ptr, nmemb, depth, st, xs). 50 - depth)") auto

declare rq_inner.simps [simp del]

text \<open>Where the pointers of the partition may go, whatever the comparison answers.\<close>

lemma scan_up_bounds:
  "scan_up cmp ptr xs plt pi pj = Some (xs', plt', pi') \<Longrightarrow> plt \<le> pi \<Longrightarrow> pi \<le> pj \<Longrightarrow>
     plt \<le> plt' \<and> plt' \<le> pi' \<and> pi' \<le> pj"
proof (induction cmp ptr xs plt pi pj rule: scan_up.induct)
  case (1 cmp ptr xs plt pi pj)
  from 1(3-) show ?case
    by (subst (asm) scan_up.simps)
       (use 1(1,2) in \<open>fastforce simp: bind_eq_Some_conv split: if_splits dest: Suc_leD\<close>)
qed

lemma scan_down_bounds:
  "scan_down cmp ptr xs pi pj pgt = Some (xs', pj', pgt') \<Longrightarrow> pi \<le> pj \<Longrightarrow> pj \<le> pgt \<Longrightarrow> 0 < pi \<Longrightarrow>
     pi - 1 \<le> pj' \<and> pj' \<le> pgt' \<and> pi \<le> pgt' \<and> pgt' \<le> pgt"
proof (induction cmp ptr xs pi pj pgt rule: scan_down.induct)
  case (1 cmp ptr xs pi pj pgt)
  show ?case
  proof (cases "pi < pj - 1")
    case False
    then show ?thesis using 1(3-) by (subst (asm) scan_down.simps) (auto simp: Let_def)
  next
    case True
    with 1(3) obtain c where c: "cmp_at cmp xs ptr (pj - 1) = Some c"
      by (subst (asm) scan_down.simps) (auto simp: Let_def bind_eq_Some_conv)
    consider "c > 0" | "c < 0" | "c = 0" by linarith
    then show ?thesis
    proof cases
      case 1
      then show ?thesis
        using \<open>scan_down cmp ptr xs pi pj pgt = _\<close> True c \<open>pi \<le> pj\<close> \<open>pj \<le> pgt\<close>
        by (subst (asm) scan_down.simps) (auto simp: Let_def)
    next
      case 2
      then have "scan_down cmp ptr xs pi (pj - 1) pgt = Some (xs', pj', pgt')"
        using 1(3) True c by (subst (asm) scan_down.simps) (simp add: Let_def)
      then show ?thesis using 1(2) [OF refl True c] 1(4-) True 2 by simp
    next
      case 3
      then obtain xs1 where "swap_elems xs (pgt - 1) (pj - 1) = Some xs1"
        and "scan_down cmp ptr xs1 pi (pj - 1) (pgt - 1) = Some (xs', pj', pgt')"
        using 1(3) True c by (subst (asm) scan_down.simps) (auto simp: Let_def bind_eq_Some_conv)
      then show ?thesis using 1(1) [OF refl True c] 1(4-) True 3 by fastforce
    qed
  qed
qed

lemma part_loop_bounds:
  "part_loop cmp ptr xs plt pi pj pgt = Some (xs', plt', pi', pgt') \<Longrightarrow>
     0 < plt \<Longrightarrow> plt \<le> pi \<Longrightarrow> pi \<le> pj \<Longrightarrow> pj \<le> pgt \<Longrightarrow>
     plt \<le> plt' \<and> plt' \<le> pi' \<and> pi' \<le> pgt' \<and> pgt' \<le> pgt"
proof (induction cmp ptr xs plt pi pj pgt rule: part_loop.induct)
  case (1 cmp ptr xs plt pi pj pgt)
  from 1(2) obtain xs1 plt1 pi1 xs2 pj2 pgt2 where
    up: "scan_up cmp ptr xs plt pi pj = Some (xs1, plt1, pi1)" and
    down: "scan_down cmp ptr xs1 pi1 pj pgt = Some (xs2, pj2, pgt2)" and
    rest: "(if pi1 \<ge> pj2 then Some (xs2, plt1, pi1, pgt2)
      else do { xs \<leftarrow> swap_elems xs2 pi1 pj2; part_loop cmp ptr xs plt1 (pi1 + 1) pj2 pgt2 }) =
      Some (xs', plt', pi', pgt')"
    by (subst (asm) part_loop.simps) (auto simp: bind_eq_Some_conv)
  from scan_up_bounds [OF up] 1(4,5) have u: "plt \<le> plt1" "plt1 \<le> pi1" "pi1 \<le> pj" by simp_all
  from scan_down_bounds [OF down] u 1(3,6) have d: "pj2 \<le> pgt2" "pi1 \<le> pgt2" "pgt2 \<le> pgt" by simp_all
  show ?case
  proof (cases "pi1 \<ge> pj2")
    case True
    then show ?thesis using rest u d by simp
  next
    case False
    with rest obtain xs3 where "swap_elems xs2 pi1 pj2 = Some xs3"
      and "part_loop cmp ptr xs3 plt1 (pi1 + 1) pj2 pgt2 = Some (xs', plt', pi', pgt')"
      by (auto simp: bind_eq_Some_conv)
    from 1(1) [OF up refl refl down refl refl False this] u d 1(3) False show ?thesis by simp
  qed
qed

lemma rq_partition_bounds:
  assumes "rq_partition cmp ptr nmemb xs = Some (xs', lt, gt)" and "0 < nmemb"
  shows "lt + (nmemb - gt) < nmemb" and "gt \<le> nmemb" and "lt < gt"
proof -
  from assms(1) obtain xs1 xs2 plt pi pgt where
    part: "part_loop cmp ptr xs1 (ptr + 1) (ptr + 1) (ptr + nmemb) (ptr + nmemb) = Some (xs2, plt, pi, pgt)"
    and lt: "lt = pi - plt" and gt: "gt = nmemb - (pgt - pi)"
    by (auto simp: rq_partition_def Let_def bind_eq_Some_conv)
  from part_loop_bounds [OF part] assms(2)
  have b: "ptr + 1 \<le> plt" "plt \<le> pi" "pi \<le> pgt" "pgt \<le> ptr + nmemb" by simp_all
  then show "lt + (nmemb - gt) < nmemb" "gt \<le> nmemb" "lt < gt"
    using lt gt by linarith+
qed

definition segment_weight :: "segment list \<Rightarrow> nat" where
  "segment_weight st = sum_list (map (\<lambda>(ptr, n, depth). 2 * n + 1) st)"

lemma segment_weight_simps [simp]:
  "segment_weight [] = 0"
  "segment_weight ((ptr, n, d) # st) = 2 * n + 1 + segment_weight st"
  by (simp_all add: segment_weight_def)

lemma rq_inner_weight:
  "rq_inner cmp ptr nmemb depth st xs = Some (ptr', n', st', xs') \<Longrightarrow>
     segment_weight st' + 2 * n' \<le> segment_weight st + 2 * nmemb"
proof (induction cmp ptr nmemb depth st xs rule: rq_inner.induct)
  case (1 cmp ptr nmemb depth st xs)
  show ?case
  proof (cases "nmemb > 6 \<and> \<not> depth + 1 > 50")
    case False
    then show ?thesis
      using 1(3) by (subst (asm) rq_inner.simps) (auto simp: Let_def bind_eq_Some_conv split: if_splits)
  next
    case True
    with 1(3) obtain xs1 lt gt where part: "rq_partition cmp ptr nmemb xs = Some (xs1, lt, gt)"
      by (subst (asm) rq_inner.simps) (auto simp: Let_def bind_eq_Some_conv split: if_splits)
    note w = rq_partition_bounds [OF part]
    from True have c: "nmemb > 6" "\<not> depth + 1 > 50" by simp_all
    show ?thesis
    proof (cases "lt > nmemb - gt")
      case lt: True
      with 1(3) True part obtain st1 where p: "push_segment st (ptr, lt, depth + 1) = Some st1"
        and "rq_inner cmp (ptr + gt) (nmemb - gt) (depth + 1) st1 xs1 = Some (ptr', n', st', xs')"
        by (subst (asm) rq_inner.simps) (auto simp: Let_def bind_eq_Some_conv split: if_splits)
      from 1(1) [OF c(1) refl c(2) part refl refl lt this]
      have "segment_weight st' + 2 * n' \<le> segment_weight st1 + 2 * (nmemb - gt)" .
      moreover have "segment_weight st1 = 2 * lt + 1 + segment_weight st"
        using p by (auto simp: push_segment_def split: if_splits)
      ultimately show ?thesis using w(1) c(1) by linarith
    next
      case False
      with 1(3) True part obtain st1 where p: "push_segment st (ptr + gt, nmemb - gt, depth + 1) = Some st1"
        and "rq_inner cmp ptr lt (depth + 1) st1 xs1 = Some (ptr', n', st', xs')"
        by (subst (asm) rq_inner.simps) (auto simp: Let_def bind_eq_Some_conv split: if_splits)
      from 1(2) [OF c(1) refl c(2) part refl refl False this]
      have "segment_weight st' + 2 * n' \<le> segment_weight st1 + 2 * lt" .
      moreover have "segment_weight st1 = 2 * (nmemb - gt) + 1 + segment_weight st"
        using p by (auto simp: push_segment_def split: if_splits)
      ultimately show ?thesis using w(1) c(1) by linarith
    qed
  qed
qed

text \<open>The outer loop takes segments off the stack until it is empty.\<close>

function rq_outer :: "('a \<Rightarrow> 'a \<Rightarrow> int) \<Rightarrow> segment list \<Rightarrow> 'a list \<Rightarrow> 'a list option" where
  "rq_outer cmp [] xs = Some xs"
| "rq_outer cmp ((ptr, nmemb, depth) # st) xs =
     do {
       (ptr, nmemb, st, xs) \<leftarrow> rq_inner cmp ptr nmemb depth st xs;
       xs \<leftarrow> insertion_loop cmp ptr (ptr + 1) (ptr + nmemb) xs;
       rq_outer cmp st xs
     }"
  by pat_completeness auto
termination
  by (relation "measure (\<lambda>(cmp, st, xs). segment_weight st)") (auto dest!: rq_inner_weight)

definition rqsort :: "('a \<Rightarrow> 'a \<Rightarrow> int) \<Rightarrow> nat \<Rightarrow> 'a list \<Rightarrow> 'a list option" where
  "rqsort cmp nmemb xs =
     (if nmemb < 2 then Some xs
      else do { st \<leftarrow> push_segment [] (0, nmemb, 0); rq_outer cmp st xs })"

end
