(* ===== verification/Sort_Basics.thy ===== *)
theory Sort_Basics
  imports Cutils_Sort
begin

text \<open>
  What the sorting proofs share: the laws of a comparison function, arrays that differ by a
  permutation inside a range, and the exchange of blocks of elements.
\<close>

section \<open>Comparison functions\<close>

text \<open>What a sort expects of the comparison that it calls: a consistent sign and transitivity.\<close>

locale comparator =
  fixes cmp :: "'a \<Rightarrow> 'a \<Rightarrow> int"
  assumes sign: "0 < cmp a b \<longleftrightarrow> cmp b a < 0"
    and trans: "cmp a b \<le> 0 \<Longrightarrow> cmp b c \<le> 0 \<Longrightarrow> cmp a c \<le> 0"
begin

lemma refl_zero: "cmp a a = 0"
  using sign [of a a] by linarith

lemma not_pos: "\<not> 0 < cmp a b \<longleftrightarrow> cmp a b \<le> 0"
  by linarith

lemma neg_le: "cmp b a < 0 \<longleftrightarrow> 0 < cmp a b"
  by (simp add: sign)

lemma pos_le: "0 < cmp a b \<Longrightarrow> cmp b a \<le> 0"
  using sign [of a b] by simp

lemma zero_sym: "cmp a b = 0 \<Longrightarrow> cmp b a = 0"
  using sign [of a b] sign [of b a] by linarith

lemma total: "cmp a b \<le> 0 \<or> cmp b a \<le> 0"
  using sign [of a b] by linarith

end

section \<open>Permutations inside a range\<close>

definition permuted :: "nat \<Rightarrow> nat \<Rightarrow> 'a list \<Rightarrow> 'a list \<Rightarrow> bool" where
  "permuted b n xs ys \<longleftrightarrow>
     length ys = length xs \<and> mset ys = mset xs \<and>
     (\<forall>p < length xs. p < b \<or> b + n \<le> p \<longrightarrow> ys ! p = xs ! p)"

lemma permuted_refl [simp, intro]: "permuted b n xs xs"
  by (simp add: permuted_def)

lemma permuted_trans [trans]: "permuted b n xs ys \<Longrightarrow> permuted b n ys zs \<Longrightarrow> permuted b n xs zs"
  by (simp add: permuted_def)

lemma permuted_widen:
  "permuted b n xs ys \<Longrightarrow> c \<le> b \<Longrightarrow> b + n \<le> c + m \<Longrightarrow> permuted c m xs ys"
  by (auto simp: permuted_def)

lemma permuted_length: "permuted b n xs ys \<Longrightarrow> length ys = length xs"
  by (simp add: permuted_def)

lemma permuted_outside:
  "permuted b n xs ys \<Longrightarrow> p < length xs \<Longrightarrow> p < b \<or> b + n \<le> p \<Longrightarrow> ys ! p = xs ! p"
  by (auto simp: permuted_def)

lemma permuted_source:
  assumes perm: "permuted b n xs ys" and p: "b \<le> p" "p < b + n" "p < length xs"
  obtains p' where "b \<le> p'" and "p' < b + n" and "p' < length xs" and "ys ! p = xs ! p'"
proof -
  have len: "length ys = length xs" and ms: "mset ys = mset xs"
    using perm by (simp_all add: permuted_def)
  have l: "take b ys = take b xs"
    using perm by (intro nth_equalityI) (auto simp: permuted_def)
  have r: "drop (b + n) ys = drop (b + n) xs"
    using perm by (intro nth_equalityI) (auto simp: permuted_def)
  have split: "zs = take b zs @ take n (drop b zs) @ drop (b + n) zs" for zs :: "'a list"
    by (metis append_take_drop_id drop_drop add.commute)
  have "mset (take b ys) + mset (take n (drop b ys)) + mset (drop (b + n) ys) =
      mset (take b xs) + mset (take n (drop b xs)) + mset (drop (b + n) xs)"
    using ms split [of xs] split [of ys] by (metis mset_append add.assoc)
  then have "mset (take n (drop b ys)) = mset (take n (drop b xs))" by (simp add: l r)
  then have "set (take n (drop b ys)) = set (take n (drop b xs))" by (rule mset_eq_setD)
  moreover have "ys ! p \<in> set (take n (drop b ys))"
    using p len by (auto simp: in_set_conv_nth intro!: exI [of _ "p - b"])
  ultimately obtain k where "k < n" "k < length xs - b" "xs ! (b + k) = ys ! p"
    by (auto simp: in_set_conv_nth)
  then show thesis by (intro that [of "b + k"]) auto
qed

lemma swap_elems_Some:
  "i < length xs \<Longrightarrow> j < length xs \<Longrightarrow> swap_elems xs i j = Some (xs[i := xs ! j, j := xs ! i])"
  by (simp add: swap_elems_def)

lemma swapped_nth:
  "i < length xs \<Longrightarrow> j < length xs \<Longrightarrow> p < length xs \<Longrightarrow>
     xs[i := xs ! j, j := xs ! i] ! p = (if p = j then xs ! i else if p = i then xs ! j else xs ! p)"
  by (simp add: nth_list_update)

lemma permuted_swap:
  assumes "i < length xs" and "j < length xs" and "b \<le> i" "i < b + n" "b \<le> j" "j < b + n"
  shows "permuted b n xs (xs[i := xs ! j, j := xs ! i])"
  using assms by (auto simp: permuted_def swapped_nth mset_swap)

lemma cmp_at_Some [simp]:
  "i < length xs \<Longrightarrow> j < length xs \<Longrightarrow> cmp_at cmp xs i j = Some (cmp (xs ! i) (xs ! j))"
  by (simp add: cmp_at_def)

lemma swap_block_Some:
  assumes "i + n \<le> j" and "j + n \<le> length xs"
  obtains ys where "swap_block xs i j n = Some ys" and "length ys = length xs" and "mset ys = mset xs"
    and "\<And>p. p < length xs \<Longrightarrow> ys ! p =
      (if i \<le> p \<and> p < i + n then xs ! (j + (p - i))
       else if j \<le> p \<and> p < j + n then xs ! (i + (p - j)) else xs ! p)"
  using assms
proof (induction n arbitrary: xs i j thesis)
  case 0
  show ?case by (rule 0(1)) (auto split: if_splits)
next
  case (Suc n)
  define zs where "zs = xs[i := xs ! j, j := xs ! i]"
  have ij: "i < length xs" "j < length xs" "i < j" using Suc.prems(2,3) by simp_all
  have sw: "swap_elems xs i j = Some zs" using ij by (simp add: zs_def swap_elems_Some)
  have len: "length zs = length xs" by (simp add: zs_def)
  have "i + 1 + n \<le> j + 1" "j + 1 + n \<le> length zs" using Suc.prems(2,3) len by simp_all
  then obtain ys where ys: "swap_block zs (i + 1) (j + 1) n = Some ys" "length ys = length zs" "mset ys = mset zs"
    and nth: "\<And>p. p < length zs \<Longrightarrow> ys ! p =
      (if i + 1 \<le> p \<and> p < i + 1 + n then zs ! (j + 1 + (p - (i + 1)))
       else if j + 1 \<le> p \<and> p < j + 1 + n then zs ! (i + 1 + (p - (j + 1))) else zs ! p)"
    using Suc.IH [of zs "i + 1" "j + 1"] by blast
  show ?case
  proof (rule Suc.prems(1))
    show "swap_block xs i j (Suc n) = Some ys" using sw ys(1) by simp
    show "length ys = length xs" using ys(2) len by simp
    show "mset ys = mset xs" using ys(3) ij by (simp add: zs_def mset_swap)
    fix p assume p: "p < length xs"
    have zs: "zs ! k = (if k = j then xs ! i else if k = i then xs ! j else xs ! k)" if "k < length xs" for k
      using that ij by (simp add: zs_def swapped_nth)
    show "ys ! p =
      (if i \<le> p \<and> p < i + Suc n then xs ! (j + (p - i))
       else if j \<le> p \<and> p < j + Suc n then xs ! (i + (p - j)) else xs ! p)"
    proof -
      consider "p = i" | "p = j" | "i < p" "p < i + Suc n" | "j < p" "p < j + Suc n"
        | "p \<noteq> i" "p \<noteq> j" "\<not> (i \<le> p \<and> p < i + Suc n)" "\<not> (j \<le> p \<and> p < j + Suc n)"
        by linarith
      then show ?thesis
      proof cases
        case 3
        then have "j + 1 + (p - (i + 1)) = j + (p - i)" "j + (p - i) < length xs" "j + (p - i) \<noteq> j"
          "j + (p - i) \<noteq> i"
          using Suc.prems(2,3) by linarith+
        then show ?thesis using 3 p len nth [of p] zs [of "j + (p - i)"] by simp
      next
        case 4
        then have "i + 1 + (p - (j + 1)) = i + (p - j)" "i + (p - j) < length xs" "i + (p - j) \<noteq> j"
          "i + (p - j) \<noteq> i" "\<not> p < i + Suc n"
          using Suc.prems(2,3) by linarith+
        then show ?thesis using 4 p len nth [of p] zs [of "i + (p - j)"] by simp
      qed (use Suc.prems(2,3) p ij len nth [of p] zs [of p] in auto)
    qed
  qed
qed

end
