(* ===== verification/Sort_Exchange.thy ===== *)
theory Sort_Exchange
  imports Sort_Basics
begin

text \<open>
  The exchange functions on bytes: whichever one \<open>exchange_func\<close> selects, it exchanges two
  blocks byte by byte.
\<close>

definition blocks_ok :: "nat \<Rightarrow> nat \<Rightarrow> nat \<Rightarrow> 'a list \<Rightarrow> bool" where
  "blocks_ok a b n mem \<longleftrightarrow>
     a + n \<le> length mem \<and> b + n \<le> length mem \<and> (a + n \<le> b \<or> b + n \<le> a \<or> a = b)"

lemma swap_elems_commute:
  "i < length xs \<Longrightarrow> j < length xs \<Longrightarrow> swap_elems xs i j = swap_elems xs j i"
  by (cases "i = j") (simp_all add: swap_elems_Some list_update_swap)

lemma swap_block_commute:
  "i + n \<le> length xs \<Longrightarrow> j + n \<le> length xs \<Longrightarrow> swap_block xs i j n = swap_block xs j i n"
proof (induction n arbitrary: xs i j)
  case (Suc n)
  have "swap_elems xs i j = swap_elems xs j i" using Suc.prems by (intro swap_elems_commute) simp_all
  moreover have "swap_elems xs j i = Some (xs[j := xs ! i, i := xs ! j])"
    using Suc.prems by (intro swap_elems_Some) simp_all
  ultimately show ?case using Suc.IH [of "i + 1" "xs[j := xs ! i, i := xs ! j]" "j + 1"] Suc.prems by simp
qed simp

lemma swap_block_same: "i + n \<le> length xs \<Longrightarrow> swap_block xs i i n = Some xs"
  by (induction n arbitrary: i) (simp_all add: swap_elems_Some)

lemma swap_block_add:
  "swap_block xs i j (m + n) = do { ys \<leftarrow> swap_block xs i j m; swap_block ys (i + m) (j + m) n }"
proof (induction m arbitrary: xs i j)
  case (Suc m)
  show ?case by (cases "swap_elems xs i j") (simp_all add: Suc)
qed simp

lemma swap_block_length: "swap_block xs i j n = Some ys \<Longrightarrow> length ys = length xs"
proof (induction n arbitrary: xs i j)
  case (Suc n)
  then show ?case by (auto simp: swap_elems_def bind_eq_Some_conv wr_eq_Some)
qed simp

text \<open>One unit, in whichever order the blocks lie.\<close>

lemma wr_block_nth:
  assumes "i + length ys \<le> length xs"
  obtains zs where "wr_block xs i ys = Some zs" and "length zs = length xs"
    and "\<And>p. p < length xs \<Longrightarrow> zs ! p = (if i \<le> p \<and> p < i + length ys then ys ! (p - i) else xs ! p)"
  using assms by (intro that [of "take i xs @ ys @ drop (i + length ys) xs"]) (auto simp: nth_append)

lemma rd_block_nth: "i + w \<le> length xs \<Longrightarrow> k < w \<Longrightarrow> take w (drop i xs) ! k = xs ! (i + k)"
  by simp

lemma exchange_unit_nth:
  assumes "a + w \<le> length mem" and "b + w \<le> length mem"
  obtains zs where "exchange_unit w mem a b = Some zs" and "length zs = length mem"
    and "\<And>p. p < length mem \<Longrightarrow> zs ! p =
      (if b \<le> p \<and> p < b + w then mem ! (a + (p - b))
       else if a \<le> p \<and> p < a + w then mem ! (b + (p - a)) else mem ! p)"
proof -
  let ?t = "take w (drop a mem)" and ?s = "take w (drop b mem)"
  have l: "length ?t = w" "length ?s = w" using assms by simp_all
  obtain m1 where m1: "wr_block mem a ?s = Some m1" "length m1 = length mem"
    and n1: "\<And>p. p < length mem \<Longrightarrow> m1 ! p = (if a \<le> p \<and> p < a + w then ?s ! (p - a) else mem ! p)"
    using wr_block_nth [of a ?s mem] assms l by auto
  obtain m2 where m2: "wr_block m1 b ?t = Some m2" "length m2 = length m1"
    and n2: "\<And>p. p < length m1 \<Longrightarrow> m2 ! p = (if b \<le> p \<and> p < b + w then ?t ! (p - b) else m1 ! p)"
    using wr_block_nth [of b ?t m1] assms l m1(2) by auto
  show thesis
  proof (rule that)
    show "exchange_unit w mem a b = Some m2" using assms m1 m2 by (simp add: exchange_unit_def)
    show "length m2 = length mem" using m1 m2 by simp
    fix p assume p: "p < length mem"
    show "m2 ! p = (if b \<le> p \<and> p < b + w then mem ! (a + (p - b))
       else if a \<le> p \<and> p < a + w then mem ! (b + (p - a)) else mem ! p)"
      using n1 [OF p] n2 [of p] p m1(2) assms by auto
  qed
qed

lemma swap_block_nth:
  assumes "blocks_ok a b w mem"
  obtains ys where "swap_block mem a b w = Some ys" and "length ys = length mem"
    and "\<And>p. p < length mem \<Longrightarrow> ys ! p =
      (if b \<le> p \<and> p < b + w then mem ! (a + (p - b))
       else if a \<le> p \<and> p < a + w then mem ! (b + (p - a)) else mem ! p)"
proof -
  from assms have len: "a + w \<le> length mem" "b + w \<le> length mem"
    and "a + w \<le> b \<or> b + w \<le> a \<or> a = b" by (auto simp: blocks_ok_def)
  from this(3) show thesis
  proof (elim disjE)
    assume *: "a + w \<le> b"
    obtain ys where "swap_block mem a b w = Some ys" "length ys = length mem"
      "\<And>p. p < length mem \<Longrightarrow> ys ! p =
        (if a \<le> p \<and> p < a + w then mem ! (b + (p - a))
         else if b \<le> p \<and> p < b + w then mem ! (a + (p - b)) else mem ! p)"
      using swap_block_Some [OF * len(2)] by metis
    then show thesis using * by (intro that [of ys]) auto
  next
    assume *: "b + w \<le> a"
    have eq: "swap_block mem a b w = swap_block mem b a w" by (rule swap_block_commute [OF len])
    obtain ys where "swap_block mem b a w = Some ys" "length ys = length mem"
      "\<And>p. p < length mem \<Longrightarrow> ys ! p =
        (if b \<le> p \<and> p < b + w then mem ! (a + (p - b))
         else if a \<le> p \<and> p < a + w then mem ! (b + (p - a)) else mem ! p)"
      using swap_block_Some [OF * len(1)] by metis
    then show thesis using * eq by (intro that [of ys]) auto
  next
    assume "a = b"
    then show thesis using swap_block_same [OF len(1)] by (intro that [of mem]) auto
  qed
qed

lemma exchange_unit_swap:
  assumes "blocks_ok a b w mem"
  shows "exchange_unit w mem a b = swap_block mem a b w"
proof -
  have "a + w \<le> length mem" "b + w \<le> length mem" using assms by (simp_all add: blocks_ok_def)
  then obtain zs where "exchange_unit w mem a b = Some zs" "length zs = length mem"
    "\<And>p. p < length mem \<Longrightarrow> zs ! p =
      (if b \<le> p \<and> p < b + w then mem ! (a + (p - b))
       else if a \<le> p \<and> p < a + w then mem ! (b + (p - a)) else mem ! p)"
    using exchange_unit_nth by blast
  moreover obtain ys where "swap_block mem a b w = Some ys" "length ys = length mem"
    "\<And>p. p < length mem \<Longrightarrow> ys ! p =
      (if b \<le> p \<and> p < b + w then mem ! (a + (p - b))
       else if a \<le> p \<and> p < a + w then mem ! (b + (p - a)) else mem ! p)"
    using swap_block_nth [OF assms] by blast
  ultimately show ?thesis by (simp add: list_eq_iff_nth_eq)
qed

text \<open>Two 64-bit halves make one unit of 16 bytes, also when the blocks are the same.\<close>

lemma exchange_unit128_swap:
  assumes ok: "blocks_ok a b 16 mem"
  shows "exchange_unit128 mem a b = swap_block mem a b 16"
proof -
  have len: "a + 16 \<le> length mem" "b + 16 \<le> length mem" and sep: "a + 16 \<le> b \<or> b + 16 \<le> a \<or> a = b"
    using ok by (simp_all add: blocks_ok_def)
  define t u where "t = take 8 (drop a mem)" and "u = take 8 (drop (a + 8) mem)"
  define b0 where "b0 = take 8 (drop b mem)"
  have l: "length t = 8" "length u = 8" "length b0 = 8" using len by (simp_all add: t_def u_def b0_def)
  obtain m1 where m1: "wr_block mem a b0 = Some m1" "length m1 = length mem"
    and n1: "\<And>p. p < length mem \<Longrightarrow> m1 ! p = (if a \<le> p \<and> p < a + 8 then b0 ! (p - a) else mem ! p)"
    using wr_block_nth [of a b0 mem] len l by auto
  define b1 where "b1 = take 8 (drop (b + 8) m1)"
  have l1: "length b1 = 8" using len m1(2) by (simp add: b1_def)
  obtain m2 where m2: "wr_block m1 (a + 8) b1 = Some m2" "length m2 = length m1"
    and n2: "\<And>p. p < length m1 \<Longrightarrow> m2 ! p = (if a + 8 \<le> p \<and> p < a + 8 + 8 then b1 ! (p - (a + 8)) else m1 ! p)"
    using wr_block_nth [of "a + 8" b1 m1] len l1 m1(2) by auto
  obtain m3 where m3: "wr_block m2 b t = Some m3" "length m3 = length m2"
    and n3: "\<And>p. p < length m2 \<Longrightarrow> m3 ! p = (if b \<le> p \<and> p < b + 8 then t ! (p - b) else m2 ! p)"
    using wr_block_nth [of b t m2] len l m1(2) m2(2) by auto
  obtain m4 where m4: "wr_block m3 (b + 8) u = Some m4" "length m4 = length m3"
    and n4: "\<And>p. p < length m3 \<Longrightarrow> m4 ! p = (if b + 8 \<le> p \<and> p < b + 8 + 8 then u ! (p - (b + 8)) else m3 ! p)"
    using wr_block_nth [of "b + 8" u m3] len l m1(2) m2(2) m3(2) by auto
  have L: "length m4 = length mem" "length m3 = length mem" "length m2 = length mem"
    using m1(2) m2(2) m3(2) m4(2) by simp_all
  have run: "exchange_unit128 mem a b = Some m4"
    using len m1 m2 m3 m4 by (simp add: exchange_unit128_def t_def u_def b0_def b1_def)
  obtain ys where ys: "swap_block mem a b 16 = Some ys" "length ys = length mem"
    and ny: "\<And>p. p < length mem \<Longrightarrow> ys ! p =
      (if b \<le> p \<and> p < b + 16 then mem ! (a + (p - b))
       else if a \<le> p \<and> p < a + 16 then mem ! (b + (p - a)) else mem ! p)"
    using swap_block_nth [OF ok] by blast
  have b1: "b1 ! k = mem ! (b + 8 + k)" if "k < 8" for k
    using that len m1(2) n1 [of "b + 8 + k"] sep by (auto simp: b1_def b0_def)
  have "m4 ! p = ys ! p" if p: "p < length mem" for p
  proof -
    have "m4 ! p = (if b + 8 \<le> p \<and> p < b + 16 then mem ! (a + (p - b))
        else if b \<le> p \<and> p < b + 8 then mem ! (a + (p - b)) else m2 ! p)"
      using n4 [of p] n3 [of p] p L len by (auto simp: u_def t_def)
    moreover have "m2 ! p = (if a + 8 \<le> p \<and> p < a + 16 then mem ! (b + (p - a))
        else if a \<le> p \<and> p < a + 8 then mem ! (b + (p - a)) else mem ! p)"
      using n2 [of p] n1 [OF p] b1 [of "p - (a + 8)"] p L m1(2) len by (auto simp: b0_def)
    ultimately show ?thesis using ny [OF p] by auto
  qed
  then have "m4 = ys" using L(1) ys(2) by (simp add: list_eq_iff_nth_eq)
  then show ?thesis using run ys(1) by simp
qed

section \<open>Whole blocks\<close>

lemma blocks_ok_split:
  assumes "blocks_ok a b (w + m) mem"
  shows "blocks_ok a b w mem" and "length mem' = length mem \<Longrightarrow> blocks_ok (a + w) (b + w) m mem'"
  using assms by (auto simp: blocks_ok_def)

lemma exchange_units_swap:
  "blocks_ok a b (w * n) mem \<Longrightarrow> exchange_units w mem a b n = swap_block mem a b (w * n)"
proof (induction n arbitrary: mem a b)
  case (Suc n)
  have ok: "blocks_ok a b (w + w * n) mem" using Suc.prems by simp
  note unit = exchange_unit_swap [OF blocks_ok_split(1) [OF ok]]
  show ?case
  proof (cases "swap_block mem a b w")
    case None
    then show ?thesis using unit by (simp add: swap_block_add)
  next
    case (Some ys)
    then have "blocks_ok (a + w) (b + w) (w * n) ys"
      using blocks_ok_split(2) [OF ok] swap_block_length by blast
    then show ?thesis using Some unit Suc.IH by (simp add: swap_block_add)
  qed
qed simp

lemma exchange_units128_swap:
  "blocks_ok a b (16 * n) mem \<Longrightarrow> exchange_units128 mem a b n = swap_block mem a b (16 * n)"
proof (induction n arbitrary: mem a b)
  case (Suc n)
  have ok: "blocks_ok a b (16 + 16 * n) mem" using Suc.prems by simp
  note unit = exchange_unit128_swap [OF blocks_ok_split(1) [OF ok]]
  show ?case
  proof (cases "swap_block mem a b 16")
    case None
    then show ?thesis using unit swap_block_add [of mem a b 16 "16 * n"] by simp
  next
    case (Some ys)
    then have "blocks_ok (a + 16) (b + 16) (16 * n) ys"
      using blocks_ok_split(2) [OF ok] swap_block_length by blast
    then show ?thesis using Some unit Suc.IH swap_block_add [of mem a b 16 "16 * n"] by simp
  qed
qed simp

text \<open>The low bits of the address and the size say which unit divides the size.\<close>

lemma low_bits_divide:
  assumes "k = (base OR n) AND (15 :: nat)" and "k mod 2 ^ j = 0" and "j \<le> 4"
  shows "2 ^ j dvd n"
proof -
  have "(15 :: nat) = mask 4" by (simp add: mask_eq_exp_minus_1)
  then have k: "k = take_bit 4 (base OR n)" using assms(1) by (simp add: take_bit_eq_mask)
  have "take_bit j k = 0" using assms(2) by (simp add: take_bit_eq_mod)
  then have "take_bit j (base OR n) = 0" using assms(3) by (simp add: k min_def)
  then have "take_bit j n = 0"
    by (simp add: bit_eq_iff bit_simps)
  then show ?thesis by (simp add: take_bit_eq_mod dvd_eq_mod_eq_0)
qed

text \<open>
  For a block of \<open>n\<close> bytes that is as divisible by two as the size selected for.
\<close>

lemma exchange_func_swap:
  assumes ok: "blocks_ok a b n mem" and n: "\<And>j. j \<le> 4 \<Longrightarrow> 2 ^ j dvd sz \<Longrightarrow> 2 ^ j dvd n"
    and one: "n = sz \<or> 16 < sz"
  shows "exchange_func base sz mem a b n = swap_block mem a b n"
proof -
  define k where "k = (base OR sz) AND 15"
  have k: "k < 16"
  proof -
    have "k = take_bit 4 (base OR sz)" by (simp add: k_def take_bit_eq_mask mask_eq_exp_minus_1)
    then show ?thesis by (simp add: take_bit_eq_mod)
  qed
  have dvd: "2 ^ j dvd n" if "k mod 2 ^ j = 0" "j \<le> 4" for j
    using low_bits_divide [OF k_def that] n that(2) by blast
  have units: "exchange_units w mem a b (n div w) = swap_block mem a b n" if "w dvd n" for w
    using exchange_units_swap [of a b w "n div w" mem] that ok by simp
  have units128: "exchange_units128 mem a b (n div 16) = swap_block mem a b n" if "16 dvd n"
    using exchange_units128_swap [of a b "n div 16" mem] that ok by simp
  have unit: "exchange_unit n mem a b = swap_block mem a b n" by (rule exchange_unit_swap [OF ok])
  have "k = 0 \<or> k = 8 \<or> (k = 4 \<or> k = 12) \<or> (k = 2 \<or> k = 6 \<or> k = 10 \<or> k = 14) \<or> odd k"
    using k by presburger
  then consider "k = 0" | "k = 8" | "k = 4 \<or> k = 12" | "k = 2 \<or> k = 6 \<or> k = 10 \<or> k = 14" | "odd k"
    by blast
  then show ?thesis
  proof cases
    case 1
    then have "16 dvd n" using dvd [of 4] by simp
    then show ?thesis using 1 one units128 exchange_unit128_swap [of a b mem] ok
      by (auto simp: exchange_func_def Let_def k_def [symmetric] exchange_one_int128_def exchange_int128s_def)
  next
    case 2
    then have "8 dvd n" using dvd [of 3] by simp
    then show ?thesis using 2 one units [of 8] unit
      by (auto simp: exchange_func_def Let_def k_def [symmetric] exchange_one_int64_def exchange_int64s_def)
  next
    case 3
    then have "4 dvd n" using dvd [of 2] by auto
    then show ?thesis using 3 one units [of 4] unit
      by (auto simp: exchange_func_def Let_def k_def [symmetric] exchange_one_int32_def exchange_int32s_def)
  next
    case 4
    then have "2 dvd n" using dvd [of 1] by auto
    then show ?thesis using 4 one units [of 2] unit
      by (auto simp: exchange_func_def Let_def k_def [symmetric] exchange_one_int16_def exchange_int16s_def)
  next
    case 5
    then have ks: "k \<noteq> 0" "k \<noteq> 8" "\<not> (k = 4 \<or> k = 12)" "\<not> (k = 2 \<or> k = 6 \<or> k = 10 \<or> k = 14)" by presburger+
    then show ?thesis using one units [of 1] unit
      by (auto simp: exchange_func_def Let_def k_def [symmetric] exchange_one_byte_def exchange_bytes_def)
  qed
qed

text \<open>One element, and the blocks of several elements that the quick sort exchanges.\<close>

lemma exchange_element:
  "blocks_ok a b sz mem \<Longrightarrow> exchange_func base sz mem a b sz = swap_block mem a b sz"
  by (rule exchange_func_swap) simp_all

lemma dvd_or_128:
  assumes "j \<le> 4" and "2 ^ j dvd (sz OR 128 :: nat)"
  shows "2 ^ j dvd sz"
proof -
  have "take_bit j (sz OR 128) = 0" using assms(2) by (simp add: take_bit_eq_mod dvd_eq_mod_eq_0)
  then have "take_bit j sz = 0" by (simp add: bit_eq_iff bit_simps)
  then show ?thesis by (simp add: take_bit_eq_mod dvd_eq_mod_eq_0)
qed

lemma exchange_elements:
  assumes "blocks_ok a b n mem" and "sz dvd n"
  shows "exchange_func base (sz OR 128) mem a b n = swap_block mem a b n"
proof (rule exchange_func_swap [OF assms(1)])
  show "2 ^ j dvd n" if "j \<le> 4" "2 ^ j dvd sz OR 128" for j
    using dvd_or_128 [OF that] assms(2) by (rule dvd_trans)
  have "bit (128 :: nat) 7" by (simp add: bit_iff_odd)
  then have "bit (sz OR 128) 7" by (simp add: bit_or_iff)
  then have "odd ((sz OR 128) div 128)" by (simp add: bit_iff_odd)
  then have "(sz OR 128) div 128 \<noteq> 0" by (intro notI) simp
  then have "128 \<le> sz OR 128" by (simp add: div_eq_0_iff)
  then show "n = sz OR 128 \<or> 16 < sz OR 128" by linarith
qed

end
