(* ===== verification/Char_Range.thy ===== *)
theory Char_Range
  imports Cutils_Bits Cutils_Sort
begin

text \<open>
  The character ranges of \<^verbatim>\<open>quickjs/libunicode.c\<close>: a growing array of points, an
  even number of them in increasing order, that delimit half-open intervals.  The
  reallocation function is a parameter, as in the byte buffers; an access outside an array,
  or an overflow of an \<^verbatim>\<open>int\<close>, is \<open>None\<close>.
\<close>

section \<open>The array of points\<close>

text \<open>The block of points has \<open>cr_size\<close> elements; a null pointer is the empty list.\<close>

type_synonym 'o cr_realloc_func = "'o \<Rightarrow> u32 list \<Rightarrow> nat \<Rightarrow> u32 list option \<times> 'o"

record 'o CharRange =
  cr_len :: nat
  cr_size :: nat
  cr_points :: "u32 list"
  cr_mem :: 'o
  cr_alloc :: "'o cr_realloc_func"

definition cr_default_realloc :: "'o cr_realloc_func \<Rightarrow> 'o cr_realloc_func" where
  "cr_default_realloc libc_realloc h p n = libc_realloc h p n"

definition cr_init :: "'o cr_realloc_func \<Rightarrow> 'o \<Rightarrow> 'o cr_realloc_func option \<Rightarrow> 'o CharRange" where
  "cr_init libc_realloc mem_opaque ra =
     \<lparr>cr_len = 0, cr_size = 0, cr_points = [], cr_mem = mem_opaque,
      cr_alloc = (case ra of None \<Rightarrow> cr_default_realloc libc_realloc | Some f \<Rightarrow> f)\<rparr>"

definition cr_free :: "'o CharRange \<Rightarrow> 'o" where
  "cr_free cr = snd (cr_alloc cr (cr_mem cr) (cr_points cr) 0)"

definition cr_realloc :: "'o CharRange \<Rightarrow> nat \<Rightarrow> (int \<times> 'o CharRange) option" where
  "cr_realloc cr n =
     (if n > cr_size cr then
        if cr_size cr * 3 \<ge> 2 ^ 31 then None
        else
          let new_size = nat (max_int (int n) (int (cr_size cr * 3 div 2))) in
          case cr_alloc cr (cr_mem cr) (cr_points cr) new_size of
            (None, h) \<Rightarrow> Some (- 1, cr\<lparr>cr_mem := h\<rparr>)
          | (Some q, h) \<Rightarrow> Some (0, cr\<lparr>cr_points := q, cr_size := new_size, cr_mem := h\<rparr>)
      else Some (0, cr))"

definition cr_copy :: "'o CharRange \<Rightarrow> 'o CharRange \<Rightarrow> (int \<times> 'o CharRange) option" where
  "cr_copy cr cr1 =
     do {
       (r, cr) \<leftarrow> cr_realloc cr (cr_len cr1);
       if r \<noteq> 0 then Some (- 1, cr)
       else do {
         src \<leftarrow> rd_block (cr_points cr1) 0 (cr_len cr1);
         pts \<leftarrow> wr_block (cr_points cr) 0 src;
         Some (0, cr\<lparr>cr_points := pts, cr_len := cr_len cr1\<rparr>)
       }
     }"

definition cr_add_point :: "'o CharRange \<Rightarrow> u32 \<Rightarrow> (int \<times> 'o CharRange) option" where
  "cr_add_point cr v =
     do {
       (r, cr) \<leftarrow> (if cr_len cr \<ge> cr_size cr then cr_realloc cr (cr_len cr + 1) else Some (0, cr));
       if r \<noteq> 0 then Some (- 1, cr)
       else do {
         pts \<leftarrow> wr (cr_points cr) (cr_len cr) v;
         Some (0, cr\<lparr>cr_points := pts, cr_len := cr_len cr + 1\<rparr>)
       }
     }"

definition cr_add_interval :: "'o CharRange \<Rightarrow> u32 \<Rightarrow> u32 \<Rightarrow> (int \<times> 'o CharRange) option" where
  "cr_add_interval cr c1 c2 =
     do {
       (r, cr) \<leftarrow> (if cr_len cr + 2 > cr_size cr then cr_realloc cr (cr_len cr + 2) else Some (0, cr));
       if r \<noteq> 0 then Some (- 1, cr)
       else do {
         pts \<leftarrow> wr (cr_points cr) (cr_len cr) c1;
         pts \<leftarrow> wr pts (cr_len cr + 1) c2;
         Some (0, cr\<lparr>cr_points := pts, cr_len := cr_len cr + 2\<rparr>)
       }
     }"

section \<open>Merging intervals\<close>

text \<open>
  \<open>cr_compress\<close>: the inner loop looks for the end of a run of intervals that touch; the
  outer loop skips empty intervals and writes every run back to \<open>k\<close>.
\<close>

function compress_run :: "u32 list \<Rightarrow> nat \<Rightarrow> nat \<Rightarrow> nat option" where
  "compress_run pt len j =
     (if j + 3 < len then do {
        x \<leftarrow> rd pt (j + 1);
        y \<leftarrow> rd pt (j + 2);
        if x = y then compress_run pt len (j + 2) else Some j
      }
      else Some j)"
  by pat_completeness auto
termination
  by (relation "measure (\<lambda>(pt, len, j). len - j)") auto

declare compress_run.simps [simp del]

lemma compress_run_ge: "compress_run pt len i = Some j \<Longrightarrow> i \<le> j"
proof (induction pt len i rule: compress_run.induct)
  case (1 pt len j')
  from 1(2) show ?case
    by (subst (asm) compress_run.simps)
       (use 1(1) in \<open>fastforce simp: bind_eq_Some_conv split: if_splits\<close>)
qed

function compress_loop :: "u32 list \<Rightarrow> nat \<Rightarrow> nat \<Rightarrow> nat \<Rightarrow> (u32 list \<times> nat) option" where
  "compress_loop pt len i k =
     (if i + 1 < len then do {
        x \<leftarrow> rd pt i;
        y \<leftarrow> rd pt (i + 1);
        if x = y then compress_loop pt len (i + 2) k
        else do {
          j \<leftarrow> compress_run pt len i;
          a \<leftarrow> rd pt i;
          pt \<leftarrow> wr pt k a;
          b \<leftarrow> rd pt (j + 1);
          pt \<leftarrow> wr pt (k + 1) b;
          compress_loop pt len (j + 2) (k + 2)
        }
      }
      else Some (pt, k))"
  by pat_completeness auto
termination
  by (relation "measure (\<lambda>(pt, len, i, k). len - i)") (auto dest: compress_run_ge)

declare compress_loop.simps [simp del]

definition cr_compress :: "'o CharRange \<Rightarrow> 'o CharRange option" where
  "cr_compress cr =
     do {
       (pt, k) \<leftarrow> compress_loop (cr_points cr) (cr_len cr) 0 0;
       Some (cr\<lparr>cr_points := pt, cr_len := k\<rparr>)
     }"

section \<open>Union, intersection and symmetric difference\<close>

datatype CharRangeOp = CR_OP_UNION | CR_OP_INTER | CR_OP_XOR

text \<open>Whether a point is inside the result, given whether it is inside the operands.\<close>

definition op_in :: "CharRangeOp \<Rightarrow> nat \<Rightarrow> nat \<Rightarrow> nat" where
  "op_in op a b =
     (case op of
        CR_OP_UNION \<Rightarrow> (a AND 1) OR (b AND 1)
      | CR_OP_INTER \<Rightarrow> (a AND 1) AND (b AND 1)
      | CR_OP_XOR \<Rightarrow> (a AND 1) XOR (b AND 1))"

text \<open>The next point in increasing order, \<open>None\<close> behind the last, and the indices behind it.\<close>

definition next_point ::
    "u32 list \<Rightarrow> nat \<Rightarrow> u32 list \<Rightarrow> nat \<Rightarrow> nat \<Rightarrow> nat \<Rightarrow> (u32 \<times> nat \<times> nat) option option" where
  "next_point a_pt a_len b_pt b_len a_idx b_idx =
     (if a_idx < a_len \<and> b_idx < b_len then do {
        x \<leftarrow> rd a_pt a_idx;
        y \<leftarrow> rd b_pt b_idx;
        if x < y then Some (Some (x, a_idx + 1, b_idx))
        else if x = y then Some (Some (x, a_idx + 1, b_idx + 1))
        else Some (Some (y, a_idx, b_idx + 1))
      }
      else if a_idx < a_len then do {
        x \<leftarrow> rd a_pt a_idx;
        Some (Some (x, a_idx + 1, b_idx))
      }
      else if b_idx < b_len then do {
        y \<leftarrow> rd b_pt b_idx;
        Some (Some (y, a_idx, b_idx + 1))
      }
      else Some None)"

lemma next_point_progress:
  "next_point a_pt a_len b_pt b_len a_idx b_idx = Some (Some (v, a', b')) \<Longrightarrow>
     (a_len - a') + (b_len - b') < (a_len - a_idx) + (b_len - b_idx)"
  by (auto simp: next_point_def bind_eq_Some_conv split: if_splits)

function cr_op_loop ::
    "CharRangeOp \<Rightarrow> u32 list \<Rightarrow> nat \<Rightarrow> u32 list \<Rightarrow> nat \<Rightarrow> nat \<Rightarrow> nat \<Rightarrow> 'o CharRange \<Rightarrow>
     (int \<times> 'o CharRange) option" where
  "cr_op_loop op a_pt a_len b_pt b_len a_idx b_idx cr =
     do {
       nxt \<leftarrow> next_point a_pt a_len b_pt b_len a_idx b_idx;
       (case nxt of
          None \<Rightarrow> Some (0, cr)
        | Some (v, a_idx, b_idx) \<Rightarrow>
            let is_in = op_in op a_idx b_idx in
            if is_in \<noteq> cr_len cr AND 1 then do {
              (r, cr) \<leftarrow> cr_add_point cr v;
              if r \<noteq> 0 then Some (- 1, cr)
              else cr_op_loop op a_pt a_len b_pt b_len a_idx b_idx cr
            }
            else cr_op_loop op a_pt a_len b_pt b_len a_idx b_idx cr)
     }"
  by pat_completeness auto
termination
  by (relation "measure (\<lambda>(op, a_pt, a_len, b_pt, b_len, a_idx, b_idx, cr).
        (a_len - a_idx) + (b_len - b_idx))") (auto dest: next_point_progress)

declare cr_op_loop.simps [simp del]

definition cr_op ::
    "'o CharRange \<Rightarrow> u32 list \<Rightarrow> nat \<Rightarrow> u32 list \<Rightarrow> nat \<Rightarrow> CharRangeOp \<Rightarrow> (int \<times> 'o CharRange) option" where
  "cr_op cr a_pt a_len b_pt b_len op =
     do {
       (r, cr) \<leftarrow> cr_op_loop op a_pt a_len b_pt b_len 0 0 cr;
       if r \<noteq> 0 then Some (- 1, cr)
       else do { cr \<leftarrow> cr_compress cr; Some (0, cr) }
     }"

definition cr_union1 :: "'o CharRange \<Rightarrow> u32 list \<Rightarrow> nat \<Rightarrow> (int \<times> 'o CharRange) option" where
  "cr_union1 cr b_pt b_len =
     do {
       let a = cr;
       (ret, cr) \<leftarrow> cr_op (cr\<lparr>cr_len := 0, cr_size := 0, cr_points := []\<rparr>)
                      (cr_points a) (cr_len a) b_pt b_len CR_OP_UNION;
       let h = cr_free (a\<lparr>cr_mem := cr_mem cr\<rparr>);
       Some (ret, cr\<lparr>cr_mem := h\<rparr>)
     }"

definition cr_union_interval :: "'o CharRange \<Rightarrow> u32 \<Rightarrow> u32 \<Rightarrow> (int \<times> 'o CharRange) option" where
  "cr_union_interval cr c1 c2 = cr_union1 cr [c1, c2 + 1] 2"

definition cr_invert :: "'o CharRange \<Rightarrow> (int \<times> 'o CharRange) option" where
  "cr_invert cr =
     do {
       let len = cr_len cr;
       (r, cr) \<leftarrow> cr_realloc cr (len + 2);
       if r \<noteq> 0 then Some (- 1, cr)
       else do {
         old \<leftarrow> rd_block (cr_points cr) 0 len;
         pts \<leftarrow> wr_block (cr_points cr) 1 old;
         pts \<leftarrow> wr pts 0 0;
         pts \<leftarrow> wr pts (len + 1) 0xFFFFFFFF;
         cr \<leftarrow> cr_compress (cr\<lparr>cr_points := pts, cr_len := len + 2\<rparr>);
         Some (0, cr)
       }
     }"

section \<open>Sorting intervals\<close>

text \<open>The array of points as the array of intervals that \<open>rqsort\<close> is called on.\<close>

fun pairs_of :: "u32 list \<Rightarrow> (u32 \<times> u32) list" where
  "pairs_of (a # b # pts) = (a, b) # pairs_of pts"
| "pairs_of _ = []"

fun points_of :: "(u32 \<times> u32) list \<Rightarrow> u32 list" where
  "points_of [] = []"
| "points_of ((a, b) # ps) = a # b # points_of ps"

definition point_cmp :: "u32 \<times> u32 \<Rightarrow> u32 \<times> u32 \<Rightarrow> int" where
  "point_cmp p1 p2 = of_bool (fst p1 > fst p2) - of_bool (fst p1 < fst p2)"

text \<open>The intervals that start inside the current one, which grows with them.\<close>

function overlap_run :: "u32 list \<Rightarrow> nat \<Rightarrow> nat \<Rightarrow> u32 \<Rightarrow> (nat \<times> u32) option" where
  "overlap_run pt len i end_pt =
     (if i < len then do {
        start1 \<leftarrow> rd pt i;
        end1 \<leftarrow> rd pt (i + 1);
        if start1 > end_pt then Some (i, end_pt)
        else if end1 \<le> end_pt then overlap_run pt len (i + 2) end_pt
        else overlap_run pt len (i + 2) end1
      }
      else Some (i, end_pt))"
  by pat_completeness auto
termination
  by (relation "measure (\<lambda>(pt, len, i, end_pt). len - i)") auto

declare overlap_run.simps [simp del]

lemma overlap_run_ge: "overlap_run pt len i e = Some (i', e') \<Longrightarrow> i \<le> i'"
proof (induction pt len i e rule: overlap_run.induct)
  case (1 pt len i e)
  from 1(3) show ?case
    by (subst (asm) overlap_run.simps)
       (use 1(1,2) in \<open>fastforce simp: bind_eq_Some_conv split: if_splits\<close>)
qed

function overlap_loop :: "u32 list \<Rightarrow> nat \<Rightarrow> nat \<Rightarrow> nat \<Rightarrow> (u32 list \<times> nat) option" where
  "overlap_loop pt len i j =
     (if i < len then do {
        start \<leftarrow> rd pt i;
        end_pt \<leftarrow> rd pt (i + 1);
        (i, end_pt) \<leftarrow> overlap_run pt len (i + 2) end_pt;
        pt \<leftarrow> wr pt j start;
        pt \<leftarrow> wr pt (j + 1) end_pt;
        overlap_loop pt len i (j + 2)
      }
      else Some (pt, j))"
  by pat_completeness auto
termination
  by (relation "measure (\<lambda>(pt, len, i, j). len - i)") (auto dest: overlap_run_ge)

declare overlap_loop.simps [simp del]

definition cr_sort_and_remove_overlap :: "'o CharRange \<Rightarrow> 'o CharRange option" where
  "cr_sort_and_remove_overlap cr =
     do {
       used \<leftarrow> rd_block (cr_points cr) 0 (2 * (cr_len cr div 2));
       ps \<leftarrow> rqsort point_cmp (cr_len cr div 2) (pairs_of used);
       pt \<leftarrow> wr_block (cr_points cr) 0 (points_of ps);
       (pt, j) \<leftarrow> overlap_loop pt (cr_len cr) 0 0;
       Some (cr\<lparr>cr_points := pt, cr_len := j\<rparr>)
     }"

end
