(* ===== verification/Char_Range_Sets.thy ===== *)
theory Char_Range_Sets
  imports Char_Range
begin

text \<open>
  The character ranges as sets: a code point is in the set when an odd number of points do
  not exceed it.  Merging, compressing and inverting ranges are the operations on sets.
\<close>

section \<open>Counting points\<close>

definition below :: "u32 list \<Rightarrow> u32 \<Rightarrow> nat" where
  "below pts c = length (filter (\<lambda>p. p \<le> c) pts)"

definition cr_member :: "u32 list \<Rightarrow> u32 \<Rightarrow> bool" where
  "cr_member pts c \<longleftrightarrow> odd (below pts c)"

lemma below_simps [simp]:
  "below [] c = 0"
  "below (p # pts) c = (if p \<le> c then 1 else 0) + below pts c"
  "below (pts @ qts) c = below pts c + below qts c"
  by (simp_all add: below_def)

lemma below_none: "(\<And>p. p \<in> set pts \<Longrightarrow> c < p) \<Longrightarrow> below pts c = 0"
  by (auto simp: below_def filter_empty_conv not_le)

lemma below_all: "(\<And>p. p \<in> set pts \<Longrightarrow> p \<le> c) \<Longrightarrow> below pts c = length pts"
  by (simp add: below_def)

section \<open>Well-formed ranges\<close>

definition cr_keeps :: "'o cr_realloc_func \<Rightarrow> bool" where
  "cr_keeps ra \<longleftrightarrow>
     (\<forall>h p n q h'. ra h p n = (Some q, h') \<longrightarrow>
        length q = n \<and> take (min n (length p)) q = take (min n (length p)) p)"

definition cr_wf :: "'o CharRange \<Rightarrow> bool" where
  "cr_wf cr \<longleftrightarrow> length (cr_points cr) = cr_size cr \<and> cr_len cr \<le> cr_size cr \<and> cr_keeps (cr_alloc cr)"

definition cr_used :: "'o CharRange \<Rightarrow> u32 list" where
  "cr_used cr = take (cr_len cr) (cr_points cr)"

lemma length_cr_used: "cr_wf cr \<Longrightarrow> length (cr_used cr) = cr_len cr"
  by (simp add: cr_wf_def cr_used_def)

lemma cr_keepsD:
  assumes "cr_keeps ra" and "ra h p n = (Some q, h')"
  shows "length q = n" and "take (min n (length p)) q = take (min n (length p)) p"
  using assms unfolding cr_keeps_def by blast+

lemma cr_realloc_cases:
  assumes wf: "cr_wf cr" and n: "n \<le> 2 ^ 29"
  obtains
    (ok) cr' where "cr_realloc cr n = Some (0, cr')" and "cr_wf cr'" and "n \<le> cr_size cr'"
      and "cr_len cr' = cr_len cr" and "take (cr_size cr) (cr_points cr') = cr_points cr"
      and "cr_size cr \<le> cr_size cr'" and "cr_used cr' = cr_used cr" and "cr_alloc cr' = cr_alloc cr"
  | (failed) cr' where "cr_realloc cr n = Some (- 1, cr')" and "cr_wf cr'" and "cr_used cr' = cr_used cr"
proof (cases "n > cr_size cr")
  case False
  then show ?thesis using wf by (intro ok [of cr]) (auto simp: cr_realloc_def cr_wf_def)
next
  case True
  then have small: "\<not> cr_size cr * 3 \<ge> 2 ^ 31" using n by simp
  define m where "m = nat (max_int (int n) (int (cr_size cr * 3 div 2)))"
  have m: "n \<le> m" by (auto simp: m_def max_int_def)
  obtain p h where fp: "cr_alloc cr (cr_mem cr) (cr_points cr) m = (p, h)" by fastforce
  have eq: "cr_realloc cr n = (case (p, h) of
      (None, h) \<Rightarrow> Some (- 1, cr\<lparr>cr_mem := h\<rparr>)
    | (Some q, h) \<Rightarrow> Some (0, cr\<lparr>cr_points := q, cr_size := m, cr_mem := h\<rparr>))"
    using True small by (simp only: cr_realloc_def Let_def m_def [symmetric] fp if_True if_False)
  show ?thesis
  proof (cases p)
    case None
    with eq wf show ?thesis by (intro failed [of "cr\<lparr>cr_mem := h\<rparr>"]) (auto simp: cr_wf_def cr_used_def)
  next
    case (Some q)
    have keeps: "cr_keeps (cr_alloc cr)" and len: "length (cr_points cr) = cr_size cr" "cr_len cr \<le> cr_size cr"
      using wf by (simp_all add: cr_wf_def)
    have q: "length q = m" "take (min m (length (cr_points cr))) q = take (min m (length (cr_points cr))) (cr_points cr)"
      using cr_keepsD [OF keeps] fp Some by simp_all
    have "min m (length (cr_points cr)) = cr_size cr" using True m len by simp
    with q(2) len have q': "take (cr_size cr) q = cr_points cr" by simp
    then have "take (cr_len cr) q = take (cr_len cr) (cr_points cr)"
      using len(2) by (metis min.absorb1 take_take)
    then show ?thesis
      using eq Some q(1) q' m len True keeps
      by (intro ok [of "cr\<lparr>cr_points := q, cr_size := m, cr_mem := h\<rparr>"]) (auto simp: cr_wf_def cr_used_def)
  qed
qed

lemma cr_add_point_cases:
  assumes wf: "cr_wf cr" and n: "cr_len cr + 1 \<le> 2 ^ 29"
  obtains
    (ok) cr' where "cr_add_point cr v = Some (0, cr')" and "cr_wf cr'" and "cr_used cr' = cr_used cr @ [v]"
      and "cr_len cr' = cr_len cr + 1"
  | (failed) cr' where "cr_add_point cr v = Some (- 1, cr')" and "cr_wf cr'"
proof -
  have store: thesis
    if r: "(if cr_len cr \<ge> cr_size cr then cr_realloc cr (cr_len cr + 1) else Some (0, cr)) = Some (0, cr1)"
      and wf1: "cr_wf cr1" and room: "cr_len cr < cr_size cr1" and len: "cr_len cr1 = cr_len cr"
      and used: "cr_used cr1 = cr_used cr" for cr1
  proof -
    define cr' where "cr' = cr1\<lparr>cr_points := (cr_points cr1)[cr_len cr1 := v], cr_len := cr_len cr1 + 1\<rparr>"
    have "cr_add_point cr v = Some (0, cr')"
      using wf1 room len unfolding cr_add_point_def r by (simp add: cr'_def cr_wf_def)
    moreover have "cr_wf cr'" using wf1 room len by (simp add: cr'_def cr_wf_def)
    moreover have "cr_used cr' = cr_used cr @ [v]"
      using wf1 room len used by (simp add: cr'_def cr_wf_def cr_used_def take_Suc_conv_app_nth)
    ultimately show thesis using len ok by (simp add: cr'_def)
  qed
  show thesis
  proof (cases "cr_len cr \<ge> cr_size cr")
    case False
    then show thesis using wf by (intro store [of cr]) auto
  next
    case True
    from wf n show thesis
    proof (cases rule: cr_realloc_cases)
      case (ok cr1)
      then show thesis using True by (intro store [of cr1]) simp_all
    next
      case (failed cr1)
      then show thesis using True \<open>\<And>cr'. cr_add_point cr v = Some (- 1, cr') \<Longrightarrow> cr_wf cr' \<Longrightarrow> thesis\<close>
        by (simp add: cr_add_point_def)
    qed
  qed
qed

section \<open>The merge\<close>

definition op_bool :: "CharRangeOp \<Rightarrow> bool \<Rightarrow> bool \<Rightarrow> bool" where
  "op_bool op a b = (case op of CR_OP_UNION \<Rightarrow> a \<or> b | CR_OP_INTER \<Rightarrow> a \<and> b | CR_OP_XOR \<Rightarrow> a \<noteq> b)"

lemma op_in_bool: "op_in op a b = of_bool (op_bool op (odd a) (odd b))"
  by (cases "odd a"; cases "odd b"; cases op)
     (simp_all add: op_in_def op_bool_def and_one_eq odd_iff_mod_2_eq_one)

lemma op_bool_False [simp]: "\<not> op_bool op False False"
  by (cases op) (simp_all add: op_bool_def)

lemma and_1_odd: "(n :: nat) AND 1 = of_bool (odd n)"
  by (simp add: and_one_eq odd_iff_mod_2_eq_one)

abbreviation rest_of :: "u32 list \<Rightarrow> nat \<Rightarrow> nat \<Rightarrow> u32 list" where
  "rest_of pt len i \<equiv> drop i (take len pt)"

lemma rest_of_Cons:
  "i < len \<Longrightarrow> len \<le> length pt \<Longrightarrow> rest_of pt len i = pt ! i # rest_of pt len (i + 1)"
  by (simp add: Cons_nth_drop_Suc [symmetric])

text \<open>The next point is the least one, and is taken off the operands that it came from.\<close>

lemma next_point_cases:
  assumes len: "al \<le> length a" "bl \<le> length b"
    and sorted: "sorted (rest_of a al ai)" "sorted (rest_of b bl bi)"
  obtains
    (stop) "next_point a al b bl ai bi = Some None" and "rest_of a al ai = []" and "rest_of b bl bi = []"
  | (point) v ai' bi' where "next_point a al b bl ai bi = Some (Some (v, ai', bi'))"
      and "v \<in> set (rest_of a al ai) \<union> set (rest_of b bl bi)"
      and "\<And>p. p \<in> set (rest_of a al ai) \<union> set (rest_of b bl bi) \<Longrightarrow> v \<le> p"
      and "\<And>c. v \<le> c \<Longrightarrow> ai + below (rest_of a al ai) c = ai' + below (rest_of a al ai') c"
      and "\<And>c. v \<le> c \<Longrightarrow> bi + below (rest_of b bl bi) c = bi' + below (rest_of b bl bi') c"
      and "set (rest_of a al ai') \<subseteq> set (rest_of a al ai)" and "set (rest_of b bl bi') \<subseteq> set (rest_of b bl bi)"
      and "sorted (rest_of a al ai')" and "sorted (rest_of b bl bi')"
      and "(al - ai') + (bl - bi') < (al - ai) + (bl - bi)"
proof -
  have A: "rest_of a al ai = a ! ai # rest_of a al (ai + 1)" if "ai < al"
    by (rule rest_of_Cons [OF that len(1)])
  have B: "rest_of b bl bi = b ! bi # rest_of b bl (bi + 1)" if "bi < bl"
    by (rule rest_of_Cons [OF that len(2)])
  consider "\<not> ai < al" "\<not> bi < bl" | "ai < al" "\<not> bi < bl \<or> bi < bl \<and> a ! ai < b ! bi"
    | "bi < bl" "\<not> ai < al \<or> ai < al \<and> b ! bi < a ! ai" | "ai < al" "bi < bl" "a ! ai = b ! bi"
    using linorder_less_linear [of "a ! ai" "b ! bi"] by blast
  then show thesis
  proof cases
    case 1
    then show thesis by (intro stop) (simp_all add: next_point_def)
  next
    case 2
    then have Bge: "\<And>p. p \<in> set (rest_of b bl bi) \<Longrightarrow> a ! ai < p" using B sorted(2) by fastforce
    show thesis
    proof (rule point [of "a ! ai" "ai + 1" bi])
      show "next_point a al b bl ai bi = Some (Some (a ! ai, ai + 1, bi))"
        using 2 len by (auto simp: next_point_def)
    qed (use 2 A [OF 2(1)] Bge [THEN less_imp_le] sorted in auto)
  next
    case 3
    then have Age: "\<And>p. p \<in> set (rest_of a al ai) \<Longrightarrow> b ! bi < p" using A sorted(1) by fastforce
    show thesis
    proof (rule point [of "b ! bi" ai "bi + 1"])
      show "next_point a al b bl ai bi = Some (Some (b ! bi, ai, bi + 1))"
        using 3 len by (auto simp: next_point_def)
    qed (use 3 B [OF 3(1)] Age [THEN less_imp_le] sorted in auto)
  next
    case 4
    show thesis
    proof (rule point [of "a ! ai" "ai + 1" "bi + 1"])
      show "next_point a al b bl ai bi = Some (Some (a ! ai, ai + 1, bi + 1))"
        using 4 len by (auto simp: next_point_def)
    qed (use 4 A [OF 4(1)] B [OF 4(2)] sorted in auto)
  qed
qed

text \<open>
  The loop adds a list of points after which the number of points that do not exceed a code
  point is odd exactly when the operation holds of the operands there.
\<close>

definition merged ::
    "CharRangeOp \<Rightarrow> u32 list \<Rightarrow> nat \<Rightarrow> u32 list \<Rightarrow> nat \<Rightarrow> nat \<Rightarrow> u32 list \<Rightarrow> bool" where
  "merged op A ai B bi n ext \<longleftrightarrow>
     sorted ext \<and> set ext \<subseteq> set A \<union> set B \<and> length ext \<le> length A + length B \<and>
     (\<forall>c. odd (n + below ext c) \<longleftrightarrow> op_bool op (odd (ai + below A c)) (odd (bi + below B c)))"

lemma mergedI:
  assumes par: "odd n \<longleftrightarrow> op_bool op (odd ai) (odd bi)"
    and least: "\<And>p. p \<in> set A \<union> set B \<Longrightarrow> v \<le> p" and v: "v \<in> set A \<union> set B"
    and A: "\<And>c. v \<le> c \<Longrightarrow> ai + below A c = ai' + below A' c" "set A' \<subseteq> set A"
    and B: "\<And>c. v \<le> c \<Longrightarrow> bi + below B c = bi' + below B' c" "set B' \<subseteq> set B"
    and len: "length A' + length B' < length A + length B"
    and rest: "merged op A' ai' B' bi' n' ext"
    and new: "ext' = ext \<and> n' = n \<or> ext' = v # ext \<and> n' = Suc n"
  shows "merged op A ai B bi n ext'"
  unfolding merged_def
proof (intro conjI allI)
  have ge: "v \<le> p" if "p \<in> set ext" for p
    using rest that least A(2) B(2) by (auto simp: merged_def)
  show "sorted ext'" using rest new ge by (auto simp: merged_def)
  show "set ext' \<subseteq> set A \<union> set B" using rest new v A(2) B(2) by (auto simp: merged_def)
  show "length ext' \<le> length A + length B" using rest new len by (auto simp: merged_def)
  fix c
  show "odd (n + below ext' c) \<longleftrightarrow> op_bool op (odd (ai + below A c)) (odd (bi + below B c))"
  proof (cases "v \<le> c")
    case True
    then have "odd (n' + below ext c) \<longleftrightarrow> op_bool op (odd (ai + below A c)) (odd (bi + below B c))"
      using rest A(1) B(1) by (simp add: merged_def)
    moreover have "n + below ext' c = n' + below ext c" using new True by auto
    ultimately show ?thesis by simp
  next
    case False
    then have "below A c = 0" "below B c = 0" "below ext' c = 0"
      using least ge new by (auto intro!: below_none) fastforce+
    then show ?thesis using par by simp
  qed
qed

lemma length_rest_of: "len \<le> length pt \<Longrightarrow> length (rest_of pt len i) = len - i"
  by simp

lemma cr_op_loop_merges:
  assumes "cr_wf cr" and "al \<le> length a" and "bl \<le> length b"
    and "sorted (rest_of a al ai)" and "sorted (rest_of b bl bi)"
    and "odd (cr_len cr) \<longleftrightarrow> op_bool op (odd ai) (odd bi)"
    and "cr_len cr + ((al - ai) + (bl - bi)) \<le> 2 ^ 29"
  shows "(\<exists>cr' ext. cr_op_loop op a al b bl ai bi cr = Some (0, cr') \<and> cr_wf cr' \<and>
      cr_used cr' = cr_used cr @ ext \<and>
      merged op (rest_of a al ai) ai (rest_of b bl bi) bi (cr_len cr) ext) \<or>
    (\<exists>cr'. cr_op_loop op a al b bl ai bi cr = Some (- 1, cr') \<and> cr_wf cr')"
  using assms
proof (induction "(al - ai) + (bl - bi)" arbitrary: ai bi cr rule: less_induct)
  case less
  from less.prems(2-5) show ?case
  proof (cases rule: next_point_cases)
    case stop
    then show ?thesis
      using less.prems(1,6) by (subst cr_op_loop.simps) (simp add: merged_def cr_op_loop.simps)
  next
    case (point v ai' bi')
    have lenA: "length (rest_of a al ai') + length (rest_of b bl bi') < length (rest_of a al ai) + length (rest_of b bl bi)"
      using point(10) less.prems(2,3) by (simp add: length_rest_of)
    note mI = mergedI [OF less.prems(6) point(3,2,4,6,5,7) lenA]
    show ?thesis
    proof (cases "op_in op ai' bi' \<noteq> cr_len cr AND 1")
      case False
      then have par: "odd (cr_len cr) \<longleftrightarrow> op_bool op (odd ai') (odd bi')"
        by (simp only: op_in_bool and_1_odd of_bool_eq_iff not_not)
      have step: "cr_op_loop op a al b bl ai bi cr = cr_op_loop op a al b bl ai' bi' cr"
        using point(1) False by (subst cr_op_loop.simps) (simp add: Let_def)
      have "cr_len cr + ((al - ai') + (bl - bi')) \<le> 2 ^ 29" using less.prems(7) point(10) by linarith
      from less.hyps [OF point(10) less.prems(1-3) point(8,9) par this] show ?thesis
        unfolding step using mI by blast
    next
      case True
      then have par: "odd (cr_len cr + 1) \<longleftrightarrow> op_bool op (odd ai') (odd bi')"
        by (simp only: op_in_bool and_1_odd of_bool_eq_iff) simp
      have "cr_len cr + 1 \<le> 2 ^ 29" using less.prems(7) point(10) by linarith
      with less.prems(1) show ?thesis
      proof (cases rule: cr_add_point_cases [where v = v])
        case (failed cr')
        then show ?thesis using point(1) True by (subst (1 2) cr_op_loop.simps) (auto simp: Let_def)
      next
        case (ok cr1)
        have step: "cr_op_loop op a al b bl ai bi cr = cr_op_loop op a al b bl ai' bi' cr1"
          using point(1) True ok(1) by (subst cr_op_loop.simps) (simp add: Let_def)
        have "cr_len cr1 + ((al - ai') + (bl - bi')) \<le> 2 ^ 29" using less.prems(7) point(10) ok(4) by linarith
        from less.hyps [OF point(10) ok(2) less.prems(2,3) point(8,9) _ this] par ok(4)
        have "(\<exists>cr' ext. cr_op_loop op a al b bl ai' bi' cr1 = Some (0, cr') \<and> cr_wf cr' \<and>
            cr_used cr' = cr_used cr1 @ ext \<and>
            merged op (rest_of a al ai') ai' (rest_of b bl bi') bi' (Suc (cr_len cr)) ext) \<or>
          (\<exists>cr'. cr_op_loop op a al b bl ai' bi' cr1 = Some (- 1, cr') \<and> cr_wf cr')"
          by simp
        then show ?thesis
        proof (elim disjE exE conjE)
          fix cr' ext
          assume "cr_op_loop op a al b bl ai' bi' cr1 = Some (0, cr')" "cr_wf cr'"
            "cr_used cr' = cr_used cr1 @ ext"
            "merged op (rest_of a al ai') ai' (rest_of b bl bi') bi' (Suc (cr_len cr)) ext"
          then show ?thesis
            unfolding step ok(3) using mI [of "Suc (cr_len cr)" ext "v # ext"] by auto
        qed (simp_all add: step)
      qed
    qed
  qed
qed

end
