(* ===== verification/Sort_Heap.thy ===== *)
theory Sort_Heap
  imports Sort_Basics
begin

text \<open>The heap sort sorts: the heap property of its two loops.\<close>

section \<open>The heap property\<close>

definition child_of :: "nat \<Rightarrow> nat \<Rightarrow> bool" where
  "child_of c k \<longleftrightarrow> c = 2 * k + 1 \<or> c = 2 * k + 2"

definition heap_at :: "('a \<Rightarrow> 'a \<Rightarrow> int) \<Rightarrow> nat \<Rightarrow> nat \<Rightarrow> 'a list \<Rightarrow> nat \<Rightarrow> bool" where
  "heap_at cmp base n xs k \<longleftrightarrow>
     (\<forall>c. child_of c k \<and> c < n \<longrightarrow> cmp (xs ! (base + c)) (xs ! (base + k)) \<le> 0)"

text \<open>The elements of a range are in order.\<close>

definition sorted_range :: "('a \<Rightarrow> 'a \<Rightarrow> int) \<Rightarrow> nat \<Rightarrow> nat \<Rightarrow> 'a list \<Rightarrow> bool" where
  "sorted_range cmp b n xs \<longleftrightarrow> (\<forall>p q. b \<le> p \<and> p < q \<and> q < b + n \<longrightarrow> cmp (xs ! p) (xs ! q) \<le> 0)"

lemma heap_at_leaf: "n \<le> 2 * k + 1 \<Longrightarrow> heap_at cmp base n xs k"
  by (auto simp: heap_at_def child_of_def)

context comparator
begin

text \<open>
  Before the loop every node from \<open>lo\<close> on, the node \<open>r\<close> apart, has the heap property,
  and the children of \<open>r\<close> do not exceed its parent; afterwards every node has it.
\<close>

definition sifting :: "nat \<Rightarrow> nat \<Rightarrow> nat \<Rightarrow> nat \<Rightarrow> 'a list \<Rightarrow> bool" where
  "sifting base n lo r xs \<longleftrightarrow>
     (\<forall>k \<ge> lo. k \<noteq> r \<longrightarrow> heap_at cmp base n xs k) \<and>
     (\<forall>k \<ge> lo. child_of r k \<longrightarrow> (\<forall>c. child_of c r \<and> c < n \<longrightarrow> cmp (xs ! (base + c)) (xs ! (base + k)) \<le> 0))"

lemma sifting_done:
  assumes "sifting base n lo r xs" and "heap_at cmp base n xs r"
  shows "\<forall>k \<ge> lo. heap_at cmp base n xs k"
  using assms by (auto simp: sifting_def)

lemma sifting_swap:
  assumes sift: "sifting base n lo r xs" and lo: "lo \<le> r" and len: "base + n \<le> length xs"
    and c: "child_of c r" "c < n"
    and biggest: "\<And>d. child_of d r \<Longrightarrow> d < n \<Longrightarrow> cmp (xs ! (base + d)) (xs ! (base + c)) \<le> 0"
    and up: "cmp (xs ! (base + r)) (xs ! (base + c)) \<le> 0"
  defines "ys \<equiv> xs[base + r := xs ! (base + c), base + c := xs ! (base + r)]"
  shows "sifting base n lo c ys"
proof -
  have rc: "r < c" using c(1) by (auto simp: child_of_def)
  have ys: "ys ! (base + k) = (if k = c then xs ! (base + r) else if k = r then xs ! (base + c) else xs ! (base + k))"
    if "k < n" for k
    using that len c(2) rc by (simp add: ys_def swapped_nth)
  have heap: "cmp (xs ! (base + d)) (xs ! (base + k)) \<le> 0" if "lo \<le> k" "k \<noteq> r" "child_of d k" "d < n" for d k
    using sift that by (auto simp: sifting_def heap_at_def)
  have above: "cmp (xs ! (base + d)) (xs ! (base + k)) \<le> 0" if "lo \<le> k" "child_of r k" "child_of d r" "d < n" for d k
    using sift that by (auto simp: sifting_def)
  have lt: "k < d" if "child_of d k" for d k using that by (auto simp: child_of_def)
  have uniq: "k = k'" if "child_of d k" "child_of d k'" for d k k'
    using that by (auto simp: child_of_def)
  have "cmp (ys ! (base + d)) (ys ! (base + k)) \<le> 0"
    if "lo \<le> k" "k \<noteq> c" "child_of d k" "d < n" for d k
  proof -
    have "k < n" using lt [OF that(3)] that(4) by simp
    consider "k = r" | "d = r" "k \<noteq> r" | "k \<noteq> r" "d \<noteq> r" by blast
    then show ?thesis
    proof cases
      case 1
      then show ?thesis
        using that ys [OF \<open>k < n\<close>] ys [OF that(4)] biggest [of d] up lt [OF that(3)] by (auto simp: refl_zero)
    next
      case 2
      then have "ys ! (base + d) = xs ! (base + c)" using ys [OF that(4)] rc by simp
      moreover have "ys ! (base + k) = xs ! (base + k)" using ys [OF \<open>k < n\<close>] that 2 by simp
      ultimately show ?thesis using above [of k c] that 2 c by simp
    next
      case 3
      then have "d \<noteq> c" using uniq that(3) c(1) by blast
      then show ?thesis using 3 that ys [OF \<open>k < n\<close>] ys [OF that(4)] heap by simp
    qed
  qed
  moreover have "cmp (ys ! (base + d)) (ys ! (base + k)) \<le> 0"
    if "child_of c k" "child_of d c" "d < n" for d k
  proof -
    have "k = r" by (rule uniq [OF that(1) c(1)])
    moreover have "d \<noteq> c" "d \<noteq> r" "r \<noteq> c" using lt [OF that(2)] rc by simp_all
    moreover have "cmp (xs ! (base + d)) (xs ! (base + c)) \<le> 0"
      using heap [of c d] that lo rc by simp
    ultimately show ?thesis using ys [OF that(3)] ys [of r] c(2) rc by simp
  qed
  ultimately show ?thesis by (auto simp: sifting_def heap_at_def)
qed

lemma sift_down_heap:
  assumes "sifting base n lo r xs" and "lo \<le> r" and "base + n \<le> length xs" and "r < n"
  shows "\<exists>ys. sift_down cmp base n r xs = Some ys \<and> permuted base n xs ys \<and>
    (\<forall>k \<ge> lo. heap_at cmp base n ys k)"
  using assms
proof (induction "n - r" arbitrary: r xs rule: less_induct)
  case less
  show ?case
  proof (cases "r * 2 + 1 < n")
    case False
    then have "heap_at cmp base n xs r" by (intro heap_at_leaf) simp
    with sifting_done [OF less.prems(1)] False show ?thesis
      by (subst sift_down.simps) auto
  next
    case True
    define c where "c = (if r * 2 + 1 < n - 1 \<and> cmp (xs ! (base + (r * 2 + 1))) (xs ! (base + (r * 2 + 1) + 1)) \<le> 0
      then r * 2 + 1 + 1 else r * 2 + 1)"
    have c: "child_of c r" "c < n" using True by (auto simp: c_def child_of_def)
    then have rc: "r < c" by (auto simp: child_of_def)
    have biggest: "cmp (xs ! (base + d)) (xs ! (base + c)) \<le> 0" if "child_of d r" "d < n" for d
    proof (cases "d = c")
      case False
      have "2 * r + 1 = r * 2 + 1" "2 * r + 2 = r * 2 + 1 + 1" "base + (r * 2 + 1) + 1 = base + (r * 2 + 1 + 1)"
        by simp_all
      then show ?thesis
        using that False pos_le [of "xs ! (base + (r * 2 + 1))" "xs ! (base + (r * 2 + 1 + 1))"]
        by (auto simp: c_def child_of_def mult.commute [of 2] split: if_splits)
    qed (simp add: refl_zero)
    have in_range: "base + (r * 2 + 1) < length xs" "base + r < length xs" "base + c < length xs"
      using True less.prems(3,4) c(2) by simp_all
    have step: "sift_down cmp base n r xs =
        (if cmp (xs ! (base + r)) (xs ! (base + c)) > 0 then Some xs
         else do { xs \<leftarrow> swap_elems xs (base + r) (base + c); sift_down cmp base n c xs })"
    proof (cases "r * 2 + 1 < n - 1")
      case inner: True
      then have "base + (r * 2 + 1) + 1 < length xs" using less.prems(3) by simp
      then show ?thesis
        using True inner in_range by (subst sift_down.simps) (auto simp: Let_def c_def)
    next
      case False
      then show ?thesis using True in_range by (subst sift_down.simps) (auto simp: Let_def c_def)
    qed
    show ?thesis
    proof (cases "cmp (xs ! (base + r)) (xs ! (base + c)) > 0")
      case big: True
      have "heap_at cmp base n xs r"
        unfolding heap_at_def using biggest trans pos_le [OF big] by blast
      with sifting_done [OF less.prems(1)] step big show ?thesis by auto
    next
      case False
      then have up: "cmp (xs ! (base + r)) (xs ! (base + c)) \<le> 0" by simp
      define ys where "ys = xs[base + r := xs ! (base + c), base + c := xs ! (base + r)]"
      have sift: "sifting base n lo c ys"
        unfolding ys_def by (rule sifting_swap [OF less.prems(1,2,3) c biggest up])
      have perm: "permuted base n xs ys"
        unfolding ys_def using in_range c(2) less.prems(4) by (intro permuted_swap) simp_all
      have "n - c < n - r" "lo \<le> c" "base + n \<le> length ys"
        using rc c(2) less.prems(2,3) by (simp_all add: ys_def)
      from less.hyps [OF this(1) sift this(2,3) c(2)] obtain zs where
        "sift_down cmp base n c ys = Some zs" "permuted base n ys zs" "\<forall>k \<ge> lo. heap_at cmp base n zs k"
        by blast
      then show ?thesis
        using step False in_range permuted_trans [OF perm]
        by (auto simp: swap_elems_Some ys_def)
    qed
  qed
qed

section \<open>Building the heap\<close>

lemma sifting_start:
  assumes "\<forall>k \<ge> Suc r. heap_at cmp base n xs k"
  shows "sifting base n r r xs"
  using assms by (auto simp: sifting_def child_of_def)

lemma heap_build_heap:
  assumes "\<forall>k \<ge> i. heap_at cmp base n xs k" and "i \<le> n" and "base + n \<le> length xs"
  shows "\<exists>ys. heap_build cmp base n i xs = Some ys \<and> permuted base n xs ys \<and> (\<forall>k. heap_at cmp base n ys k)"
  using assms
proof (induction i arbitrary: xs)
  case (Suc i)
  from sift_down_heap [OF sifting_start [OF Suc.prems(1)] order_refl Suc.prems(3)] Suc.prems(2)
  obtain ys where ys: "sift_down cmp base n i xs = Some ys" "permuted base n xs ys" "\<forall>k \<ge> i. heap_at cmp base n ys k"
    by auto
  then have "base + n \<le> length ys" using Suc.prems(3) by (simp add: permuted_length)
  with Suc.IH [OF ys(3)] Suc.prems(2) obtain zs where
    "heap_build cmp base n i ys = Some zs" "permuted base n ys zs" "\<forall>k. heap_at cmp base n zs k"
    by auto
  then show ?case using ys permuted_trans by auto
qed auto

section \<open>Taking the maxima off the heap\<close>

lemma heap_root_max:
  assumes "\<forall>k. heap_at cmp base n xs k" and "p < n"
  shows "cmp (xs ! (base + p)) (xs ! (base + 0)) \<le> 0"
  using assms(2)
proof (induction p rule: less_induct)
  case (less p)
  show ?case
  proof (cases "p = 0")
    case False
    define k where "k = (p - 1) div 2"
    have "child_of p k" "k < p" using False by (auto simp: k_def child_of_def)
    then have "cmp (xs ! (base + p)) (xs ! (base + k)) \<le> 0" "cmp (xs ! (base + k)) (xs ! (base + 0)) \<le> 0"
      using assms(1) less by (auto simp: heap_at_def)
    then show ?thesis by (rule trans)
  qed (simp add: refl_zero)
qed

lemma heap_extract_sorts:
  assumes heap: "\<forall>k. heap_at cmp base (Suc i) xs k" and i: "i < n" and len: "base + n \<le> length xs"
    and tail: "\<And>p q. p < q \<Longrightarrow> i < q \<Longrightarrow> q < n \<Longrightarrow> cmp (xs ! (base + p)) (xs ! (base + q)) \<le> 0"
  shows "\<exists>ys. heap_extract cmp base i xs = Some ys \<and> permuted base n xs ys \<and> sorted_range cmp base n ys"
  using assms
proof (induction i arbitrary: xs)
  case 0
  have "sorted_range cmp base n xs"
    unfolding sorted_range_def
  proof (intro allI impI)
    fix p q assume *: "base \<le> p \<and> p < q \<and> q < base + n"
    then have "cmp (xs ! (base + (p - base))) (xs ! (base + (q - base))) \<le> 0" by (intro 0(4)) auto
    then show "cmp (xs ! p) (xs ! q) \<le> 0" using * by simp
  qed
  then show ?case by auto
next
  case (Suc i)
  define ys where "ys = xs[base := xs ! (base + Suc i), base + Suc i := xs ! base]"
  have in_range: "base < length xs" "base + Suc i < length xs" using Suc.prems(2,3) by simp_all
  have sw: "swap_elems xs base (base + Suc i) = Some ys"
    using in_range by (simp add: ys_def swap_elems_Some)
  have ys: "ys ! (base + p) = (if p = Suc i then xs ! base else if p = 0 then xs ! (base + Suc i) else xs ! (base + p))"
    if "p < n" for p
    using that Suc.prems(3) in_range by (simp add: ys_def swapped_nth)
  have perm1: "permuted base (Suc (Suc i)) xs ys"
    unfolding ys_def using in_range by (intro permuted_swap) simp_all
  have "heap_at cmp base (Suc i) ys k" if "k \<noteq> 0" for k
    unfolding heap_at_def
  proof (intro allI impI)
    fix c assume c: "child_of c k \<and> c < Suc i"
    then have "k < c" "c < n" "c \<noteq> 0" using Suc.prems(2) by (auto simp: child_of_def)
    then have "ys ! (base + c) = xs ! (base + c)" "ys ! (base + k) = xs ! (base + k)"
      using ys [of c] ys [of k] c that by simp_all
    moreover have "cmp (xs ! (base + c)) (xs ! (base + k)) \<le> 0"
      using Suc.prems(1) c by (auto simp: heap_at_def)
    ultimately show "cmp (ys ! (base + c)) (ys ! (base + k)) \<le> 0" by simp
  qed
  then have "sifting base (Suc i) 0 0 ys" by (intro sifting_start) auto
  moreover have "base + Suc i \<le> length ys" using in_range by (simp add: ys_def)
  ultimately obtain zs where zs: "sift_down cmp base (Suc i) 0 ys = Some zs" "permuted base (Suc i) ys zs"
      "\<forall>k. heap_at cmp base (Suc i) zs k"
    using sift_down_heap [of base "Suc i" 0 0 ys] by auto
  have "permuted base n xs ys" by (rule permuted_widen [OF perm1]) (use Suc.prems(2) in simp_all)
  also have "permuted base n ys zs" by (rule permuted_widen [OF zs(2)]) (use Suc.prems(2) in simp_all)
  finally have perm: "permuted base n xs zs" .
  have "cmp (zs ! (base + p)) (zs ! (base + q)) \<le> 0" if pq: "p < q" "i < q" "q < n" for p q
  proof -
    have len: "length zs = length xs" "length ys = length xs"
      using perm by (simp_all add: permuted_length ys_def)
    have zq: "zs ! (base + q) = ys ! (base + q)"
      using permuted_outside [OF zs(2), of "base + q"] pq len Suc.prems(3) by simp
    obtain p' where p': "p' < q" "zs ! (base + p) = ys ! (base + p')"
    proof (cases "p < Suc i")
      case True
      then obtain k where "base \<le> k" "k < base + Suc i" "zs ! (base + p) = ys ! k"
        using permuted_source [OF zs(2), of "base + p"] pq len Suc.prems(3) by auto
      then show thesis using pq by (intro that [of "k - base"]) auto
    next
      case False
      then show thesis
        using permuted_outside [OF zs(2), of "base + p"] pq len Suc.prems(3) by (intro that [of p]) auto
    qed
    show ?thesis
    proof (cases "q = Suc i")
      case True
      then have "ys ! (base + q) = xs ! (base + 0)" using ys [OF pq(3)] by simp
      moreover obtain p'' where "p'' < Suc (Suc i)" "ys ! (base + p') = xs ! (base + p'')"
        by (rule that [of "if p' = 0 then Suc i else p'"]) (use ys [of p'] p'(1) pq True in auto)
      ultimately show ?thesis using heap_root_max [OF Suc.prems(1)] p'(2) zq by simp
    next
      case False
      then have q: "Suc i < q" "ys ! (base + q) = xs ! (base + q)" using ys [of q] pq by auto
      moreover obtain p'' where "p'' < q" "ys ! (base + p') = xs ! (base + p'')"
        by (rule that [of "if p' = Suc i then 0 else if p' = 0 then Suc i else p'"])
          (use ys [of p'] p'(1) pq q(1) in auto)
      ultimately show ?thesis using Suc.prems(4) [of p'' q] p'(2) zq pq by simp
    qed
  qed
  from Suc.IH [OF zs(3) _ _ this] Suc.prems(2,3) perm obtain ws where
    "heap_extract cmp base i zs = Some ws" "permuted base n zs ws" "sorted_range cmp base n ws"
    by (auto simp: permuted_length)
  then show ?case using sw zs(1) permuted_trans [OF perm] by auto
qed

lemma heapsortx_sorts:
  assumes len: "base + n \<le> length xs"
  shows "\<exists>ys. heapsortx cmp base n xs = Some ys \<and> permuted base n xs ys \<and> sorted_range cmp base n ys"
proof (cases "n > 1")
  case False
  then show ?thesis by (auto simp: heapsortx_def sorted_range_def)
next
  case True
  have "\<forall>k \<ge> n div 2. heap_at cmp base n xs k" by (auto intro!: heap_at_leaf)
  from heap_build_heap [OF this _ len] obtain ys where
    ys: "heap_build cmp base n (n div 2) xs = Some ys" "permuted base n xs ys" "\<forall>k. heap_at cmp base n ys k"
    by auto
  have "\<forall>k. heap_at cmp base (Suc (n - 1)) ys k" using ys(3) True by simp
  moreover have "\<And>p q. p < q \<Longrightarrow> n - 1 < q \<Longrightarrow> q < n \<Longrightarrow> cmp (ys ! (base + p)) (ys ! (base + q)) \<le> 0"
    by simp
  moreover have "n - 1 < n" "base + n \<le> length ys" using True len ys(2) by (simp_all add: permuted_length)
  ultimately obtain zs where
    "heap_extract cmp base (n - 1) ys = Some zs" "permuted base n ys zs" "sorted_range cmp base n zs"
    using heap_extract_sorts [of base "n - 1" ys n] by blast
  then show ?thesis using True ys(1) permuted_trans [OF ys(2)] by (auto simp: heapsortx_def)
qed

end

end
