(* ===== verification/Sort_Quick.thy ===== *)
theory Sort_Quick
  imports Sort_Heap
begin

text \<open>
  The quick sort sorts: the insertion sort of small segments, the partition, and the loops
  over the stack of segments, which never overflow it.
\<close>

context comparator
begin

section \<open>Insertion sort\<close>

text \<open>
  The element at \<open>pj\<close> is on its way down: the other elements up to \<open>pi\<close> are in
  order, and those above it are not less.
\<close>

definition inserting :: "nat \<Rightarrow> nat \<Rightarrow> nat \<Rightarrow> 'a list \<Rightarrow> bool" where
  "inserting ptr pj pi xs \<longleftrightarrow>
     (\<forall>p q. ptr \<le> p \<and> p < q \<and> q \<le> pi \<and> q \<noteq> pj \<longrightarrow> cmp (xs ! p) (xs ! q) \<le> 0)"

lemma insert_back_sorts:
  assumes "inserting ptr pj pi xs" and "ptr \<le> pj" and "pj \<le> pi" and "pi < length xs"
  shows "\<exists>ys. insert_back cmp ptr pj xs = Some ys \<and> permuted ptr (Suc pi - ptr) xs ys \<and>
    sorted_range cmp ptr (Suc pi - ptr) ys"
  using assms
proof (induction pj arbitrary: xs rule: less_induct)
  case (less pj)
  have finish: "sorted_range cmp ptr (Suc pi - ptr) xs"
    if "\<And>p. ptr \<le> p \<Longrightarrow> p < pj \<Longrightarrow> cmp (xs ! p) (xs ! pj) \<le> 0"
    unfolding sorted_range_def
  proof (intro allI impI)
    fix p q assume *: "ptr \<le> p \<and> p < q \<and> q < ptr + (Suc pi - ptr)"
    then have "q \<le> pi" using less.prems(2,3) by linarith
    then show "cmp (xs ! p) (xs ! q) \<le> 0"
      using less.prems(1) that * by (cases "q = pj") (auto simp: inserting_def)
  qed
  show ?case
  proof (cases "pj > ptr")
    case False
    then show ?thesis using finish by (subst insert_back.simps) auto
  next
    case True
    have in_range: "pj - 1 < length xs" "pj < length xs" using less.prems(3,4) by simp_all
    show ?thesis
    proof (cases "cmp (xs ! (pj - 1)) (xs ! pj) > 0")
      case False
      have "cmp (xs ! p) (xs ! pj) \<le> 0" if "ptr \<le> p" "p < pj" for p
      proof (cases "p = pj - 1")
        case other: False
        then have "p < pj - 1" "pj - 1 \<le> pi" "pj - 1 \<noteq> pj"
          using that True less.prems(3) by linarith+
        then have "cmp (xs ! p) (xs ! (pj - 1)) \<le> 0"
          using less.prems(1) that(1) unfolding inserting_def by blast
        then show ?thesis using False trans [of "xs ! p" "xs ! (pj - 1)" "xs ! pj"] by simp
      qed (use False in simp)
      then show ?thesis using finish True False in_range by (subst insert_back.simps) auto
    next
      case gt: True
      define ys where "ys = xs[pj := xs ! (pj - 1), pj - 1 := xs ! pj]"
      have ys: "ys ! k = (if k = pj - 1 then xs ! pj else if k = pj then xs ! (pj - 1) else xs ! k)"
        if "k < length xs" for k
        using that in_range by (simp add: ys_def swapped_nth)
      have "inserting ptr (pj - 1) pi ys"
        unfolding inserting_def
      proof (intro allI impI)
        fix p q assume *: "ptr \<le> p \<and> p < q \<and> q \<le> pi \<and> q \<noteq> pj - 1"
        then have pq: "ys ! p = (if p = pj - 1 then xs ! pj else if p = pj then xs ! (pj - 1) else xs ! p)"
          "ys ! q = (if q = pj then xs ! (pj - 1) else xs ! q)"
          using ys [of p] ys [of q] less.prems(4) by simp_all
        have le: "cmp (xs ! p') (xs ! q') \<le> 0" if "ptr \<le> p'" "p' < q'" "q' \<le> pi" "q' \<noteq> pj" for p' q'
          using less.prems(1) that by (auto simp: inserting_def)
        show "cmp (ys ! p) (ys ! q) \<le> 0"
        proof (cases "q = pj")
          case True
          then show ?thesis
            using * pq le [of p "pj - 1"] pos_le [OF gt] less.prems(3) by (cases "p = pj - 1") auto
        next
          case False
          then show ?thesis
            using * pq le [of p q] le [of pj q] le [of "pj - 1" q] True by auto
        qed
      qed
      moreover have "pj - 1 < pj" "ptr \<le> pj - 1" "pj - 1 \<le> pi" "pi < length ys"
        using True less.prems(3,4) by (simp_all add: ys_def)
      ultimately obtain zs where
        "insert_back cmp ptr (pj - 1) ys = Some zs" "permuted ptr (Suc pi - ptr) ys zs"
        "sorted_range cmp ptr (Suc pi - ptr) zs"
        using less.IH [of "pj - 1" ys] by blast
      moreover have "permuted ptr (Suc pi - ptr) xs ys"
        unfolding ys_def using in_range True less.prems(3) by (intro permuted_swap) simp_all
      ultimately show ?thesis
        using True gt in_range permuted_trans
        by (subst insert_back.simps) (auto simp: swap_elems_Some ys_def)
    qed
  qed
qed

lemma insertion_loop_sorts:
  assumes "sorted_range cmp ptr (pi - ptr) xs" and "ptr < pi" and "pi \<le> pend" and "pend \<le> length xs"
  shows "\<exists>ys. insertion_loop cmp ptr pi pend xs = Some ys \<and> permuted ptr (pend - ptr) xs ys \<and>
    sorted_range cmp ptr (pend - ptr) ys"
  using assms
proof (induction "pend - pi" arbitrary: pi xs rule: less_induct)
  case less
  show ?case
  proof (cases "pi < pend")
    case False
    then show ?thesis using less.prems by (subst insertion_loop.simps) auto
  next
    case True
    have "inserting ptr pi pi xs"
      using less.prems(1) by (auto simp: inserting_def sorted_range_def)
    with insert_back_sorts [of ptr pi pi xs] True less.prems(2,4) obtain ys where
      ys: "insert_back cmp ptr pi xs = Some ys" "permuted ptr (Suc pi - ptr) xs ys"
        "sorted_range cmp ptr (pi + 1 - ptr) ys"
      by auto
    have perm: "permuted ptr (pend - ptr) xs ys"
      by (rule permuted_widen [OF ys(2)]) (use True less.prems(2) in simp_all)
    have "pend - (pi + 1) < pend - pi" using True by linarith
    with perm less.hyps [of "pi + 1" ys] ys(3) True less.prems(2,4) obtain zs where
      "insertion_loop cmp ptr (pi + 1) pend ys = Some zs" "permuted ptr (pend - ptr) ys zs"
      "sorted_range cmp ptr (pend - ptr) zs"
      by (auto simp: permuted_length)
    then show ?thesis
      using True ys(1) permuted_trans [OF perm] by (subst insertion_loop.simps) auto
  qed
qed

section \<open>The partition\<close>

text \<open>
  The four parts of the array while it is partitioned by the pivot \<open>pv\<close>, with the
  elements from \<open>pi\<close> to \<open>pj\<close> still to look at.
\<close>

definition parting ::
    "'a \<Rightarrow> nat \<Rightarrow> nat \<Rightarrow> nat \<Rightarrow> nat \<Rightarrow> nat \<Rightarrow> nat \<Rightarrow> 'a list \<Rightarrow> bool" where
  "parting pv ptr pend plt pi pj pgt xs \<longleftrightarrow>
     ptr < plt \<and> plt \<le> pi \<and> pi \<le> pj \<and> pj \<le> pgt \<and> pgt \<le> pend \<and> pend \<le> length xs \<and> xs ! ptr = pv \<and>
     (\<forall>k. ptr \<le> k \<and> k < plt \<longrightarrow> cmp pv (xs ! k) = 0) \<and>
     (\<forall>k. plt \<le> k \<and> k < pi \<longrightarrow> cmp pv (xs ! k) > 0) \<and>
     (\<forall>k. pj \<le> k \<and> k < pgt \<longrightarrow> cmp pv (xs ! k) < 0) \<and>
     (\<forall>k. pgt \<le> k \<and> k < pend \<longrightarrow> cmp pv (xs ! k) = 0)"

lemma scan_up_parts:
  assumes "parting pv ptr pend plt pi pj pgt xs"
  shows "\<exists>ys plt' pi'. scan_up cmp ptr xs plt pi pj = Some (ys, plt', pi') \<and>
    permuted ptr (pend - ptr) xs ys \<and> parting pv ptr pend plt' pi' pj pgt ys \<and> pi \<le> pi' \<and>
    (pi' < pj \<longrightarrow> cmp pv (ys ! pi') < 0)"
  using assms
proof (induction "pj - pi" arbitrary: plt pi xs rule: less_induct)
  case less
  note P = less.prems [unfolded parting_def]
  show ?case
  proof (cases "pi < pj")
    case False
    then show ?thesis using less.prems by (subst scan_up.simps) auto
  next
    case True
    have pv: "xs ! ptr = pv" and in_range: "ptr < length xs" "pi < length xs" "plt < length xs"
      using P True by auto
    consider "cmp pv (xs ! pi) < 0" | "cmp pv (xs ! pi) = 0" | "cmp pv (xs ! pi) > 0" by linarith
    then show ?thesis
    proof cases
      case 1
      then show ?thesis using True in_range pv less.prems by (subst scan_up.simps) auto
    next
      case 2
      define ys where "ys = xs[plt := xs ! pi, pi := xs ! plt]"
      have ys: "ys ! k = (if k = pi then xs ! plt else if k = plt then xs ! pi else xs ! k)" if "k < length xs" for k
        using that in_range by (simp add: ys_def swapped_nth)
      have "parting pv ptr pend (plt + 1) (pi + 1) pj pgt ys"
        using P True 2 in_range unfolding parting_def
        by (auto simp: ys_def swapped_nth less_Suc_eq)
      moreover have "pj - (pi + 1) < pj - pi" using True by linarith
      ultimately obtain zs plt' pi' where
        "scan_up cmp ptr ys (plt + 1) (pi + 1) pj = Some (zs, plt', pi')"
        "permuted ptr (pend - ptr) ys zs" "parting pv ptr pend plt' pi' pj pgt zs" "pi + 1 \<le> pi'"
        "pi' < pj \<longrightarrow> cmp pv (zs ! pi') < 0"
        using less.hyps [of "pi + 1" "plt + 1" ys] by blast
      moreover have "permuted ptr (pend - ptr) xs ys"
        unfolding ys_def using in_range P True by (intro permuted_swap) auto
      ultimately show ?thesis
        using True in_range pv 2 permuted_trans
        by (subst scan_up.simps) (auto simp: swap_elems_Some ys_def)
    next
      case 3
      have "parting pv ptr pend plt (pi + 1) pj pgt xs"
        using P True 3 unfolding parting_def by (auto simp: less_Suc_eq)
      moreover have "pj - (pi + 1) < pj - pi" using True by linarith
      ultimately obtain zs plt' pi' where
        "scan_up cmp ptr xs plt (pi + 1) pj = Some (zs, plt', pi')"
        "permuted ptr (pend - ptr) xs zs" "parting pv ptr pend plt' pi' pj pgt zs" "pi + 1 \<le> pi'"
        "pi' < pj \<longrightarrow> cmp pv (zs ! pi') < 0"
        using less.hyps [of "pi + 1" plt xs] by blast
      then show ?thesis
        using True in_range pv 3 by (subst scan_up.simps) auto
    qed
  qed
qed

lemma scan_down_parts:
  assumes "parting pv ptr pend plt pi pj pgt xs" and "pi < pj \<longrightarrow> cmp pv (xs ! pi) < 0"
  shows "\<exists>ys pj' pgt'. scan_down cmp ptr xs pi pj pgt = Some (ys, pj', pgt') \<and>
    permuted ptr (pend - ptr) xs ys \<and>
    (pj' \<le> pi \<and> parting pv ptr pend plt pi pi pgt' ys \<or>
     pi < pj' \<and> pj' < pj \<and> parting pv ptr pend plt pi (pj' + 1) pgt' ys \<and>
     cmp pv (ys ! pj') > 0 \<and> cmp pv (ys ! pi) < 0)"
  using assms
proof (induction pj arbitrary: pgt xs rule: less_induct)
  case (less pj)
  note P = less.prems(1) [unfolded parting_def]
  show ?case
  proof (cases "pi < pj - 1")
    case False
    have "parting pv ptr pend plt pi pi pgt xs"
    proof (cases "pi = pj")
      case False
      then have pj: "pj = pi + 1" using \<open>\<not> pi < pj - 1\<close> P by linarith
      then have "cmp pv (xs ! k) < 0" if "pi \<le> k" "k < pgt" for k
        using P less.prems(2) that by (cases "k = pi") auto
      then show ?thesis using P pj unfolding parting_def by auto
    qed (use less.prems(1) in simp)
    then show ?thesis using False by (subst scan_down.simps) (auto simp: Let_def)
  next
    case True
    have pv: "xs ! ptr = pv" and in_range: "ptr < length xs" "pj - 1 < length xs" "pgt - 1 < length xs"
      and order: "pi < pj - 1" "pj - 1 < pj" "pj - 1 + 1 = pj" "pj \<le> pgt"
      using P True by linarith+
    have pi_neg: "cmp pv (xs ! pi) < 0" using less.prems(2) order by simp
    consider "cmp pv (xs ! (pj - 1)) > 0" | "cmp pv (xs ! (pj - 1)) = 0" | "cmp pv (xs ! (pj - 1)) < 0"
      by linarith
    then show ?thesis
    proof cases
      case 1
      then show ?thesis
        using True in_range pv less.prems(1) pi_neg order by (subst scan_down.simps) (auto simp: Let_def)
    next
      case 2
      define ys where "ys = xs[pgt - 1 := xs ! (pj - 1), pj - 1 := xs ! (pgt - 1)]"
      have ys: "ys ! k = (if k = pj - 1 then xs ! (pgt - 1) else if k = pgt - 1 then xs ! (pj - 1) else xs ! k)"
        if "k < length xs" for k
        using that in_range by (simp add: ys_def swapped_nth)
      have part: "parting pv ptr pend plt pi (pj - 1) (pgt - 1) ys"
        unfolding parting_def
      proof (intro conjI allI impI)
        fix k
        show "cmp pv (ys ! k) = 0" if "ptr \<le> k \<and> k < plt" using P that ys [of k] order by auto
        show "0 < cmp pv (ys ! k)" if "plt \<le> k \<and> k < pi" using P that ys [of k] order by auto
        show "cmp pv (ys ! k) < 0" if k: "pj - 1 \<le> k \<and> k < pgt - 1"
        proof (cases "k = pj - 1")
          case True
          then have "pj \<le> pgt - 1" "pgt - 1 < pgt" "k < length xs" using k P by linarith+
          then show ?thesis using P ys [of k] True by simp
        next
          case False
          then have "pj \<le> k" "k < pgt" "k < length xs" "k \<noteq> pgt - 1" using k P by linarith+
          then show ?thesis using P ys [of k] False by simp
        qed
        show "cmp pv (ys ! k) = 0" if "pgt - 1 \<le> k \<and> k < pend"
          using P that ys [of k] order 2 by auto
      qed (use P order ys [of ptr] in \<open>auto simp: ys_def\<close>)
      have "cmp pv (ys ! pi) < 0" using ys [of pi] order in_range pi_neg P by auto
      then obtain zs pj' pgt' where
        "scan_down cmp ptr ys pi (pj - 1) (pgt - 1) = Some (zs, pj', pgt')"
        "permuted ptr (pend - ptr) ys zs"
        "pj' \<le> pi \<and> parting pv ptr pend plt pi pi pgt' zs \<or>
         pi < pj' \<and> pj' < pj - 1 \<and> parting pv ptr pend plt pi (pj' + 1) pgt' zs \<and>
         cmp pv (zs ! pj') > 0 \<and> cmp pv (zs ! pi) < 0"
        using less.IH [OF order(2) part] by blast
      moreover have "permuted ptr (pend - ptr) xs ys"
        unfolding ys_def using in_range P order by (intro permuted_swap) linarith+
      ultimately show ?thesis
        using True in_range pv 2 permuted_trans
        by (subst scan_down.simps) (auto simp: swap_elems_Some ys_def Let_def)
    next
      case 3
      have part: "parting pv ptr pend plt pi (pj - 1) pgt xs"
        unfolding parting_def
      proof (intro conjI allI impI)
        fix k
        show "cmp pv (xs ! k) < 0" if "pj - 1 \<le> k \<and> k < pgt"
          using P that 3 order by (cases "k = pj - 1") auto
      qed (use P order in auto)
      then obtain zs pj' pgt' where
        "scan_down cmp ptr xs pi (pj - 1) pgt = Some (zs, pj', pgt')"
        "permuted ptr (pend - ptr) xs zs"
        "pj' \<le> pi \<and> parting pv ptr pend plt pi pi pgt' zs \<or>
         pi < pj' \<and> pj' < pj - 1 \<and> parting pv ptr pend plt pi (pj' + 1) pgt' zs \<and>
         cmp pv (zs ! pj') > 0 \<and> cmp pv (zs ! pi) < 0"
        using less.IH [OF order(2) part] pi_neg by blast
      then show ?thesis
        using True in_range pv 3 by (subst scan_down.simps) (auto simp: Let_def)
    qed
  qed
qed

lemma part_loop_parts:
  assumes "parting pv ptr pend plt pi pj pgt xs"
  shows "\<exists>ys plt' pi' pgt'. part_loop cmp ptr xs plt pi pj pgt = Some (ys, plt', pi', pgt') \<and>
    permuted ptr (pend - ptr) xs ys \<and> parting pv ptr pend plt' pi' pi' pgt' ys"
  using assms
proof (induction "pj - pi" arbitrary: plt pi pj pgt xs rule: less_induct)
  case less
  obtain xs1 plt1 pi1 where up: "scan_up cmp ptr xs plt pi pj = Some (xs1, plt1, pi1)"
    and perm1: "permuted ptr (pend - ptr) xs xs1" and part1: "parting pv ptr pend plt1 pi1 pj pgt xs1"
    and mono: "pi \<le> pi1" and stop: "pi1 < pj \<longrightarrow> cmp pv (xs1 ! pi1) < 0"
    using scan_up_parts [OF less.prems] by blast
  obtain xs2 pj2 pgt2 where down: "scan_down cmp ptr xs1 pi1 pj pgt = Some (xs2, pj2, pgt2)"
    and perm2: "permuted ptr (pend - ptr) xs1 xs2"
    and cases: "pj2 \<le> pi1 \<and> parting pv ptr pend plt1 pi1 pi1 pgt2 xs2 \<or>
      pi1 < pj2 \<and> pj2 < pj \<and> parting pv ptr pend plt1 pi1 (pj2 + 1) pgt2 xs2 \<and>
      cmp pv (xs2 ! pj2) > 0 \<and> cmp pv (xs2 ! pi1) < 0"
    using scan_down_parts [OF part1 stop] by blast
  note perm = permuted_trans [OF perm1 perm2]
  from cases show ?case
  proof (elim disjE conjE)
    assume "pj2 \<le> pi1" and "parting pv ptr pend plt1 pi1 pi1 pgt2 xs2"
    then show ?thesis using up down perm by (subst part_loop.simps) auto
  next
    assume lt: "pi1 < pj2" "pj2 < pj" and part2: "parting pv ptr pend plt1 pi1 (pj2 + 1) pgt2 xs2"
      and sgn: "cmp pv (xs2 ! pj2) > 0" "cmp pv (xs2 ! pi1) < 0"
    note P = part2 [unfolded parting_def]
    define ys where "ys = xs2[pi1 := xs2 ! pj2, pj2 := xs2 ! pi1]"
    have in_range: "pi1 < length xs2" "pj2 < length xs2" using P lt by linarith+
    have ys: "ys ! k = (if k = pj2 then xs2 ! pi1 else if k = pi1 then xs2 ! pj2 else xs2 ! k)"
      if "k < length xs2" for k
      using that in_range by (simp add: ys_def swapped_nth)
    have "parting pv ptr pend plt1 (pi1 + 1) pj2 pgt2 ys"
      unfolding parting_def
    proof (intro conjI allI impI)
      fix k
      show "cmp pv (ys ! k) = 0" if "ptr \<le> k \<and> k < plt1" using P that ys [of k] lt by auto
      show "0 < cmp pv (ys ! k)" if "plt1 \<le> k \<and> k < pi1 + 1"
        using P that ys [of k] lt sgn in_range by auto
      show "cmp pv (ys ! k) < 0" if "pj2 \<le> k \<and> k < pgt2" using P that ys [of k] lt sgn by auto
      show "cmp pv (ys ! k) = 0" if "pgt2 \<le> k \<and> k < pend" using P that ys [of k] lt by auto
    qed (use P lt ys [of ptr] in \<open>auto simp: ys_def\<close>)
    moreover have "pj2 - (pi1 + 1) < pj - pi" using lt mono by linarith
    ultimately obtain zs plt' pi' pgt' where
      "part_loop cmp ptr ys plt1 (pi1 + 1) pj2 pgt2 = Some (zs, plt', pi', pgt')"
      "permuted ptr (pend - ptr) ys zs" "parting pv ptr pend plt' pi' pi' pgt' zs"
      using less.hyps [of pj2 "pi1 + 1" plt1 pgt2 ys] by blast
    moreover have "permuted ptr (pend - ptr) xs ys"
    proof (rule permuted_trans [OF perm])
      show "permuted ptr (pend - ptr) xs2 ys"
        unfolding ys_def using in_range P lt by (intro permuted_swap) linarith+
    qed
    ultimately show ?thesis
      using up down lt in_range permuted_trans
      by (subst part_loop.simps) (auto simp: swap_elems_Some ys_def)
  qed
qed

end

end
