(* ===== verification/Sort_Main.thy ===== *)
theory Sort_Main
  imports Sort_Quick
begin

text \<open>
  The quick sort as a whole: one partition, and the loops over the stack of segments, which
  end, never overflow the stack, and leave the array sorted.
\<close>

section \<open>Moving a part of a range to its end\<close>

text \<open>
  The range from \<open>a\<close> to \<open>c\<close> has its elements with \<open>P\<close> before those with
  \<open>Q\<close>; exchanging as many as the shorter part has puts them the other way round.
\<close>

lemma swap_block_parts:
  assumes P: "\<And>k. a \<le> k \<Longrightarrow> k < b \<Longrightarrow> P (xs ! k)" and Q: "\<And>k. b \<le> k \<Longrightarrow> k < c \<Longrightarrow> Q (xs ! k)"
    and order: "a \<le> b" "b \<le> c" "c \<le> length xs"
    and span: "span = (if b - a > c - b then c - b else b - a)"
  shows "\<exists>ys. swap_block xs a (c - span) span = Some ys \<and> permuted a (c - a) xs ys \<and>
    (\<forall>k. a \<le> k \<and> k < a + (c - b) \<longrightarrow> Q (ys ! k)) \<and>
    (\<forall>k. a + (c - b) \<le> k \<and> k < c \<longrightarrow> P (ys ! k))"
proof -
  have s: "span \<le> b - a" "span \<le> c - b" "span = b - a \<or> span = c - b" using span by auto
  have "a + span \<le> c - span" "c - span + span \<le> length xs" using s order by linarith+
  then obtain ys where ys: "swap_block xs a (c - span) span = Some ys" "length ys = length xs" "mset ys = mset xs"
    and nth: "\<And>k. k < length xs \<Longrightarrow> ys ! k =
      (if a \<le> k \<and> k < a + span then xs ! (c - span + (k - a))
       else if c - span \<le> k \<and> k < c - span + span then xs ! (a + (k - (c - span))) else xs ! k)"
    using swap_block_Some [of a span "c - span" xs] by metis
  have "permuted a (c - a) xs ys"
    unfolding permuted_def
  proof (intro conjI allI impI)
    fix p assume "p < length xs" and "p < a \<or> a + (c - a) \<le> p"
    then have "\<not> (a \<le> p \<and> p < a + span)" "\<not> (c - span \<le> p \<and> p < c - span + span)"
      using s order by linarith+
    then show "ys ! p = xs ! p" using nth [OF \<open>p < length xs\<close>] by (simp only: if_False)
  qed (use ys in simp_all)
  moreover have "Q (ys ! k)" if k: "a \<le> k \<and> k < a + (c - b)" for k
  proof (cases "k < a + span")
    case True
    then have "ys ! k = xs ! (c - span + (k - a))" using nth [of k] k order by auto
    moreover have "b \<le> c - span + (k - a)" "c - span + (k - a) < c" using s order k True by linarith+
    ultimately show ?thesis using Q by simp
  next
    case False
    then have "span = b - a" "b \<le> k" "k < c" "\<not> (c - span \<le> k)" using s k order by linarith+
    then show ?thesis using nth [of k] Q [of k] False order by simp
  qed
  moreover have "P (ys ! k)" if k: "a + (c - b) \<le> k \<and> k < c" for k
  proof (cases "c - span \<le> k")
    case True
    then have "ys ! k = xs ! (a + (k - (c - span)))" using nth [of k] k order s by auto
    moreover have "a \<le> a + (k - (c - span))" "a + (k - (c - span)) < b" using s order k True by linarith+
    ultimately show ?thesis using P by simp
  next
    case False
    then have "span = c - b" "a \<le> k" "k < b" "\<not> (k < a + span)" using s k order by linarith+
    then show ?thesis using nth [of k] P [of k] False order by simp
  qed
  ultimately show ?thesis using ys(1) by blast
qed

lemma med3_Some:
  assumes "a < length xs" "b < length xs" "c < length xs"
  shows "\<exists>m. med3 cmp xs a b c = Some m \<and> m \<in> {a, b, c}"
  using assms by (auto simp: med3_def)

context comparator
begin

lemma rq_partition_parts:
  assumes n: "0 < n" and len: "ptr + n \<le> length xs"
  shows "\<exists>ys lt gt pv. rq_partition cmp ptr n xs = Some (ys, lt, gt) \<and> permuted ptr n xs ys \<and>
    (\<forall>k. ptr \<le> k \<and> k < ptr + lt \<longrightarrow> cmp pv (ys ! k) > 0) \<and>
    (\<forall>k. ptr + lt \<le> k \<and> k < ptr + gt \<longrightarrow> cmp pv (ys ! k) = 0) \<and>
    (\<forall>k. ptr + gt \<le> k \<and> k < ptr + n \<longrightarrow> cmp pv (ys ! k) < 0)"
proof -
  have m4: "ptr + n div 4 < ptr + n" "ptr + 2 * (n div 4) < ptr + n" "ptr + 3 * (n div 4) < ptr + n"
    using n by linarith+
  then obtain m where m: "med3 cmp xs (ptr + n div 4) (ptr + 2 * (n div 4)) (ptr + 3 * (n div 4)) = Some m"
    and m_in: "ptr \<le> m" "m < ptr + n"
    using med3_Some [of "ptr + n div 4" xs "ptr + 2 * (n div 4)" "ptr + 3 * (n div 4)" cmp] len by fastforce
  define xs1 where "xs1 = xs[ptr := xs ! m, m := xs ! ptr]"
  have in_range: "ptr < length xs" "m < length xs" using n len m_in by simp_all
  have sw: "swap_elems xs ptr m = Some xs1" using in_range by (simp add: swap_elems_Some xs1_def)
  have perm1: "permuted ptr n xs xs1"
    unfolding xs1_def using in_range n m_in by (intro permuted_swap) simp_all
  define pv where "pv = xs1 ! ptr"
  have "parting pv ptr (ptr + n) (ptr + 1) (ptr + 1) (ptr + n) (ptr + n) xs1"
    using n len by (auto simp: parting_def pv_def xs1_def refl_zero less_Suc_eq)
  from part_loop_parts [OF this] obtain xs2 plt pi pgt where
    loop: "part_loop cmp ptr xs1 (ptr + 1) (ptr + 1) (ptr + n) (ptr + n) = Some (xs2, plt, pi, pgt)"
    and perm2: "permuted ptr n xs1 xs2" and part: "parting pv ptr (ptr + n) plt pi pi pgt xs2"
    by auto
  have P: "ptr < plt" "plt \<le> pi" "pi \<le> pgt" "pgt \<le> ptr + n" "ptr + n \<le> length xs2"
    "\<And>k. ptr \<le> k \<Longrightarrow> k < plt \<Longrightarrow> cmp pv (xs2 ! k) = 0" "\<And>k. plt \<le> k \<Longrightarrow> k < pi \<Longrightarrow> cmp pv (xs2 ! k) > 0"
    "\<And>k. pi \<le> k \<Longrightarrow> k < pgt \<Longrightarrow> cmp pv (xs2 ! k) < 0" "\<And>k. pgt \<le> k \<Longrightarrow> k < ptr + n \<Longrightarrow> cmp pv (xs2 ! k) = 0"
    using part by (auto simp: parting_def)
  define span1 where "span1 = (if plt - ptr > pi - plt then pi - plt else plt - ptr)"
  have "ptr \<le> plt" "pi \<le> length xs2" using P(1,3,4,5) by linarith+
  from swap_block_parts [where P = "\<lambda>x. cmp pv x = 0" and Q = "\<lambda>x. cmp pv x > 0", OF P(6,7) this(1) P(2) this(2) span1_def]
  obtain xs3 where b1: "swap_block xs2 ptr (pi - span1) span1 = Some xs3" "permuted ptr (pi - ptr) xs2 xs3"
    and less: "\<forall>k. ptr \<le> k \<and> k < ptr + (pi - plt) \<longrightarrow> cmp pv (xs3 ! k) > 0"
    and equal: "\<forall>k. ptr + (pi - plt) \<le> k \<and> k < pi \<longrightarrow> cmp pv (xs3 ! k) = 0"
    by blast
  have keep: "xs3 ! k = xs2 ! k" if "pi \<le> k" "k < ptr + n" for k
    using permuted_outside [OF b1(2), of k] that P(1,2,5) by simp
  define span2 where "span2 = (if ptr + n - pgt > pgt - pi then pgt - pi else ptr + n - pgt)"
  have span2': "span2 = (if pgt - pi > ptr + n - pgt then ptr + n - pgt else pgt - pi)"
    by (simp add: span2_def)
  have len3: "ptr + n \<le> length xs3" using P(5) b1(2) by (simp add: permuted_length)
  have P3: "\<And>k. pi \<le> k \<Longrightarrow> k < pgt \<Longrightarrow> cmp pv (xs3 ! k) < 0" "\<And>k. pgt \<le> k \<Longrightarrow> k < ptr + n \<Longrightarrow> cmp pv (xs3 ! k) = 0"
    using P(3,4,8,9) keep by simp_all
  from swap_block_parts [where P = "\<lambda>x. cmp pv x < 0" and Q = "\<lambda>x. cmp pv x = 0", OF P3 P(3,4) len3 span2']
  obtain xs4 where b2: "swap_block xs3 pi (ptr + n - span2) span2 = Some xs4"
      "permuted pi (ptr + n - pi) xs3 xs4"
    and equal2: "\<forall>k. pi \<le> k \<and> k < pi + (ptr + n - pgt) \<longrightarrow> cmp pv (xs4 ! k) = 0"
    and greater: "\<forall>k. pi + (ptr + n - pgt) \<le> k \<and> k < ptr + n \<longrightarrow> cmp pv (xs4 ! k) < 0"
    by blast
  have keep2: "xs4 ! k = xs3 ! k" if "k < pi" for k
    using permuted_outside [OF b2(2), of k] that P(3,4) len3 by simp
  have gt: "ptr + (n - (pgt - pi)) = pi + (ptr + n - pgt)" using P(1-4) by linarith
  have "rq_partition cmp ptr n xs = Some (xs4, pi - plt, n - (pgt - pi))"
    using m sw loop b1(1) b2(1) by (simp add: rq_partition_def span1_def span2_def)
  moreover have "permuted ptr n xs xs4"
  proof -
    have "permuted ptr n xs2 xs3" by (rule permuted_widen [OF b1(2)]) (use P(1-4) in linarith)+
    moreover have "permuted ptr n xs3 xs4" by (rule permuted_widen [OF b2(2)]) (use P(1-4) in linarith)+
    ultimately show ?thesis using perm1 perm2 permuted_trans by blast
  qed
  moreover have "cmp pv (xs4 ! k) > 0" if "ptr \<le> k \<and> k < ptr + (pi - plt)" for k
  proof -
    have "k < pi" using that P(1,2) by linarith
    then show ?thesis using less keep2 that by simp
  qed
  moreover have "cmp pv (xs4 ! k) = 0" if "ptr + (pi - plt) \<le> k \<and> k < ptr + (n - (pgt - pi))" for k
    using equal equal2 keep2 that gt by (cases "k < pi") auto
  moreover have "cmp pv (xs4 ! k) < 0" if "ptr + (n - (pgt - pi)) \<le> k \<and> k < ptr + n" for k
    using greater that unfolding gt by blast
  ultimately show ?thesis by blast
qed

section \<open>Segments that wait\<close>

definition in_segment :: "nat \<Rightarrow> segment \<Rightarrow> bool" where
  "in_segment p s \<longleftrightarrow> (case s of (b, n, d) \<Rightarrow> b \<le> p \<and> p < b + n)"

definition apart :: "segment \<Rightarrow> segment \<Rightarrow> bool" where
  "apart s t \<longleftrightarrow> (\<forall>p. \<not> (in_segment p s \<and> in_segment p t))"

text \<open>All elements are in order, those of one waiting segment apart.\<close>

definition pending :: "nat \<Rightarrow> segment list \<Rightarrow> 'a list \<Rightarrow> bool" where
  "pending N st xs \<longleftrightarrow>
     N \<le> length xs \<and> (\<forall>s \<in> set st. \<forall>p. in_segment p s \<longrightarrow> p < N) \<and> sorted_wrt apart st \<and>
     (\<forall>p q. p < q \<and> q < N \<longrightarrow>
        (\<exists>s \<in> set st. in_segment p s \<and> in_segment q s) \<or> cmp (xs ! p) (xs ! q) \<le> 0)"

lemma pending_replace:
  assumes pend: "pending N ((b, n, d) # st) xs" and perm: "permuted b n xs ys"
    and inside: "\<And>s p. s \<in> set new \<Longrightarrow> in_segment p s \<Longrightarrow> b \<le> p \<and> p < b + n" and disj: "sorted_wrt apart new"
    and order: "\<And>p q. b \<le> p \<Longrightarrow> p < q \<Longrightarrow> q < b + n \<Longrightarrow>
      (\<exists>s \<in> set new. in_segment p s \<and> in_segment q s) \<or> cmp (ys ! p) (ys ! q) \<le> 0"
  shows "pending N (new @ st) ys"
proof -
  have N: "N \<le> length xs" and bound: "\<And>s p. s \<in> insert (b, n, d) (set st) \<Longrightarrow> in_segment p s \<Longrightarrow> p < N"
    and sep: "\<And>s. s \<in> set st \<Longrightarrow> apart (b, n, d) s" "sorted_wrt apart st"
    and old: "\<And>p q. p < q \<Longrightarrow> q < N \<Longrightarrow> (\<exists>s \<in> insert (b, n, d) (set st). in_segment p s \<and> in_segment q s) \<or>
      cmp (xs ! p) (xs ! q) \<le> 0"
    using pend by (auto simp: pending_def)
  have len: "length ys = length xs" using perm by (rule permuted_length)
  have in_b: "in_segment p (b, n, d) \<longleftrightarrow> b \<le> p \<and> p < b + n" for p by (simp add: in_segment_def)
  have not_other: "\<not> in_segment p s" if "b \<le> p" "p < b + n" "s \<in> set st" for p s
    using sep(1) [OF that(3)] that(1,2) in_b by (auto simp: apart_def)
  have sep_new: "apart s t" if "s \<in> set new" "t \<in> set st" for s t
    using inside [OF that(1)] not_other that(2) by (auto simp: apart_def)
  have "(\<exists>s \<in> set (new @ st). in_segment p s \<and> in_segment q s) \<or> cmp (ys ! p) (ys ! q) \<le> 0"
    if pq: "p < q" "q < N" for p q
  proof (cases "b \<le> p \<and> q < b + n")
    case True
    then show ?thesis using order [of p q] pq by auto
  next
    case False
    have src: "\<exists>p'. ys ! p = xs ! p' \<and> p' < length xs \<and> (p' = p \<or> b \<le> p \<and> p < b + n \<and> b \<le> p' \<and> p' < b + n)"
      if "p < length xs" for p
    proof (cases "b \<le> p \<and> p < b + n")
      case True
      then show ?thesis using permuted_source [OF perm, of p] that by metis
    next
      case False
      then show ?thesis using permuted_outside [OF perm, of p] that by auto
    qed
    obtain p' where p': "ys ! p = xs ! p'" "p' = p \<or> b \<le> p \<and> p < b + n \<and> b \<le> p' \<and> p' < b + n"
      using src [of p] pq N by auto
    obtain q' where q': "ys ! q = xs ! q'" "q' < length xs" "q' = q \<or> b \<le> q \<and> q < b + n \<and> b \<le> q' \<and> q' < b + n"
      using src [of q] pq N by auto
    have lt: "p' < q'" using p'(2) q'(3) pq False by auto
    have qN: "q' < N" using q'(3) pq bound [of "(b, n, d)" q'] in_b [of q'] by auto
    from old [OF lt qN] show ?thesis
    proof (elim disjE bexE conjE)
      fix s assume s: "s \<in> insert (b, n, d) (set st)" "in_segment p' s" "in_segment q' s"
      have "s \<noteq> (b, n, d)" using s(2,3) in_b p'(2) q'(3) False by auto
      then have "s \<in> set st" using s(1) by simp
      then have "p' = p" "q' = q"
        using p'(2) q'(3) s(2,3) not_other [of p' s] not_other [of q' s] by blast+
      then show ?thesis using \<open>s \<in> set st\<close> s(2,3) by auto
    next
      assume "cmp (xs ! p') (xs ! q') \<le> 0"
      then show ?thesis using p'(1) q'(1) by simp
    qed
  qed
  moreover have "p < N" if "s \<in> set (new @ st)" "in_segment p s" for s p
    using that inside [of s p] bound [of s p] bound [of "(b, n, d)" p] in_b [of p] by auto
  ultimately show ?thesis
    using N len disj sep(2) sep_new by (auto simp: pending_def sorted_wrt_append)
qed

text \<open>The depth of a segment is at least the number of segments below it: the stack never overflows.\<close>

fun depth_ok :: "segment list \<Rightarrow> bool" where
  "depth_ok [] \<longleftrightarrow> True"
| "depth_ok ((b, n, d) # st) \<longleftrightarrow> length st \<le> d \<and> d \<le> 50 \<and> depth_ok st"

lemma pending_depth: "pending N ((b, n, d) # st) xs \<Longrightarrow> pending N ((b, n, e) # st) xs"
  by (auto simp: pending_def in_segment_def apart_def)

lemma pending_whole: "N \<le> length xs \<Longrightarrow> pending N [(0, N, d)] xs"
  by (auto simp: pending_def in_segment_def)

lemma pending_Nil: "pending N [] xs \<Longrightarrow> sorted_range cmp 0 N xs"
  by (auto simp: pending_def sorted_range_def)

lemma pending_range:
  assumes "pending N ((b, n, d) # st) xs" and "0 < n"
  shows "b + n \<le> N" and "N \<le> length xs"
proof -
  have "in_segment (b + n - 1) (b, n, d)" using assms(2) by (simp add: in_segment_def)
  then have "b + n - 1 < N" using assms(1) by (auto simp: pending_def)
  then show "b + n \<le> N" by linarith
  show "N \<le> length xs" using assms(1) by (simp add: pending_def)
qed

section \<open>The loops\<close>

lemma rq_inner_pending:
  assumes "pending N ((ptr, n, e) # st) xs" and "length st \<le> d" and "d \<le> 50" and "depth_ok st"
  shows "\<exists>ptr' n' st' ys. rq_inner cmp ptr n d st xs = Some (ptr', n', st', ys) \<and> n' \<le> 6 \<and>
    pending N ((ptr', n', e) # st') ys \<and> depth_ok st' \<and> permuted 0 N xs ys"
  using assms
proof (induction "50 - d" arbitrary: ptr n d st xs rule: less_induct)
  case less
  show ?case
  proof (cases "n > 6")
    case False
    then show ?thesis using less.prems by (subst rq_inner.simps) auto
  next
    case True
    have range: "ptr + n \<le> N" "N \<le> length xs" "0 < n" using pending_range [OF less.prems(1)] True by simp_all
    then have len: "ptr + n \<le> length xs" by simp
    show ?thesis
    proof (cases "d + 1 > 50")
      case deep: True
      obtain ys where ys: "heapsortx cmp ptr n xs = Some ys" "permuted ptr n xs ys" "sorted_range cmp ptr n ys"
        using heapsortx_sorts [OF len] by blast
      have "pending N ([(ptr, 0, e)] @ st) ys"
      proof (rule pending_replace [OF less.prems(1) ys(2)])
        fix p q assume "ptr \<le> p" "p < q" "q < ptr + n"
        then show "(\<exists>s \<in> set [(ptr, 0, e)]. in_segment p s \<and> in_segment q s) \<or> cmp (ys ! p) (ys ! q) \<le> 0"
          using ys(3) by (auto simp: sorted_range_def)
      qed (auto simp: in_segment_def)
      moreover have "permuted 0 N xs ys" by (rule permuted_widen [OF ys(2)]) (use range in simp_all)
      ultimately show ?thesis
        using True deep ys(1) less.prems(4) by (subst rq_inner.simps) (auto simp: Let_def)
    next
      case False
      obtain ys lt gt pv where part: "rq_partition cmp ptr n xs = Some (ys, lt, gt)" and perm: "permuted ptr n xs ys"
        and below: "\<And>k. ptr \<le> k \<Longrightarrow> k < ptr + lt \<Longrightarrow> cmp pv (ys ! k) > 0"
        and middle: "\<And>k. ptr + lt \<le> k \<Longrightarrow> k < ptr + gt \<Longrightarrow> cmp pv (ys ! k) = 0"
        and above: "\<And>k. ptr + gt \<le> k \<Longrightarrow> k < ptr + n \<Longrightarrow> cmp pv (ys ! k) < 0"
        using rq_partition_parts [OF range(3) len] by blast
      note bnd = rq_partition_bounds [OF part range(3)]
      have le: "cmp (ys ! p) pv \<le> 0" if "ptr \<le> p" "p < ptr + gt" for p
        using below [of p] middle [of p] pos_le zero_sym that by (cases "p < ptr + lt") auto
      have ge: "cmp pv (ys ! p) \<le> 0" if "ptr + lt \<le> p" "p < ptr + n" for p
        using middle [of p] above [of p] that by (cases "p < ptr + gt") auto
      have order: "p < ptr + lt \<and> q < ptr + lt \<or> ptr + gt \<le> p \<and> ptr + gt \<le> q \<or> cmp (ys ! p) (ys ! q) \<le> 0"
        if "ptr \<le> p" "p < q" "q < ptr + n" for p q
        using trans [OF le [of p] ge [of q]] that by linarith
      let ?l = "(ptr, lt, d + 1)" and ?r = "(ptr + gt, n - gt, d + 1)"
      have pend: "pending N ([s, t] @ st) ys" if "(s, t) = (?r, ?l) \<or> (s, t) = (?l, ?r)" for s t
      proof (rule pending_replace [OF less.prems(1) perm])
        show "ptr \<le> p \<and> p < ptr + n" if "u \<in> set [s, t]" "in_segment p u" for u p
          using that \<open>(s, t) = (?r, ?l) \<or> (s, t) = (?l, ?r)\<close> bnd by (auto simp: in_segment_def)
        show "sorted_wrt apart [s, t]"
          using that bnd by (auto simp: apart_def in_segment_def)
        fix p q assume pq: "ptr \<le> p" "p < q" "q < ptr + n"
        show "(\<exists>u \<in> set [s, t]. in_segment p u \<and> in_segment q u) \<or> cmp (ys ! p) (ys ! q) \<le> 0"
          using order [OF pq] pq that bnd by (auto simp: in_segment_def)
      qed
      have wide: "permuted 0 N xs ys" by (rule permuted_widen [OF perm]) (use range in simp_all)
      have room: "length st < 50" "50 - (d + 1) < 50 - d" "d + 1 \<le> 50" using False less.prems(2) by linarith+
      have step: ?thesis
        if small: "(ptr1, n1, d + 1) \<in> {?l, ?r}" and large: "s \<in> {?l, ?r}" and two: "(ptr1, n1, d + 1) = ?r \<and> s = ?l \<or> (ptr1, n1, d + 1) = ?l \<and> s = ?r"
          and eq: "rq_inner cmp ptr n d st xs = rq_inner cmp ptr1 n1 (d + 1) (s # st) ys" for ptr1 n1 s
      proof -
        have "pending N ([(ptr1, n1, d + 1), s] @ st) ys" using two by (intro pend) auto
        then have "pending N ((ptr1, n1, e) # s # st) ys" using pending_depth by simp
        moreover have "length (s # st) \<le> d + 1" using less.prems(2) by simp
        moreover have "depth_ok (s # st)" using large less.prems(2,4) room(3) by auto
        ultimately obtain ptr' n' st' zs where
          "rq_inner cmp ptr1 n1 (d + 1) (s # st) ys = Some (ptr', n', st', zs)" "n' \<le> 6"
          "pending N ((ptr', n', e) # st') zs" "depth_ok st'" "permuted 0 N ys zs"
          using less.hyps [OF room(2), of ptr1 n1 "s # st" ys] room(3) by blast
        then show ?thesis using eq permuted_trans [OF wide] by metis
      qed
      show ?thesis
      proof (cases "lt > n - gt")
        case lt: True
        then have "rq_inner cmp ptr n d st xs = rq_inner cmp (ptr + gt) (n - gt) (d + 1) (?l # st) ys"
          using True False part room(1) by (subst rq_inner.simps) (simp add: Let_def push_segment_def)
        then show ?thesis by (intro step [of "ptr + gt" "n - gt" ?l]) auto
      next
        case ge: False
        then have "rq_inner cmp ptr n d st xs = rq_inner cmp ptr lt (d + 1) (?r # st) ys"
          using True False part room(1) by (subst rq_inner.simps) (simp add: Let_def push_segment_def)
        then show ?thesis by (intro step [of ptr lt ?r]) auto
      qed
    qed
  qed
qed

lemma rq_outer_sorts:
  assumes "pending N st xs" and "depth_ok st"
  shows "\<exists>ys. rq_outer cmp st xs = Some ys \<and> permuted 0 N xs ys \<and> sorted_range cmp 0 N ys"
  using assms
proof (induction "segment_weight st" arbitrary: st xs rule: less_induct)
  case less
  show ?case
  proof (cases st)
    case Nil
    then show ?thesis using less.prems pending_Nil by auto
  next
    case (Cons s st1)
    obtain ptr n d where s: "s = (ptr, n, d)" by (cases s)
    then obtain ptr' n' st' ys where inner: "rq_inner cmp ptr n d st1 xs = Some (ptr', n', st', ys)"
      and pend: "pending N ((ptr', n', d) # st') ys" and depth: "depth_ok st'" and perm: "permuted 0 N xs ys"
      using rq_inner_pending [of N ptr n d st1 xs d] less.prems Cons by auto
    have weight: "segment_weight st' < segment_weight st"
      using rq_inner_weight [OF inner] Cons s by simp
    obtain zs where ins: "insertion_loop cmp ptr' (ptr' + 1) (ptr' + n') ys = Some zs"
      and perm': "permuted ptr' n' ys zs" and sorted: "sorted_range cmp ptr' n' zs"
    proof (cases "n' = 0")
      case True
      then show thesis by (intro that [of ys]) (auto simp: insertion_loop.simps sorted_range_def)
    next
      case False
      then have "ptr' + n' \<le> N" "N \<le> length ys" using pending_range [OF pend] by simp_all
      moreover have "sorted_range cmp ptr' (ptr' + 1 - ptr') ys" by (simp add: sorted_range_def)
      ultimately show thesis
        using insertion_loop_sorts [of ptr' "ptr' + 1" ys "ptr' + n'"] False that by auto
    qed
    have "pending N ([] @ st') zs"
      by (rule pending_replace [OF pend perm']) (use sorted in \<open>auto simp: sorted_range_def\<close>)
    then obtain ws where ws: "rq_outer cmp st' zs = Some ws" "permuted 0 N zs ws" "sorted_range cmp 0 N ws"
      using less.hyps [OF weight] depth by auto
    have "permuted 0 N ys zs"
    proof (cases "n' = 0")
      case True
      have "zs ! p = ys ! p" if "p < length ys" for p
        using permuted_outside [OF perm' that] True by linarith
      then have "zs = ys" using permuted_length [OF perm'] by (intro nth_equalityI) auto
      then show ?thesis by simp
    next
      case False
      then show ?thesis using pending_range [OF pend] by (intro permuted_widen [OF perm']) simp_all
    qed
    then have "permuted 0 N xs ws" using perm ws(2) permuted_trans by blast
    then show ?thesis using Cons s inner ins ws by auto
  qed
qed

theorem rqsort_sorts:
  assumes "n \<le> length xs"
  obtains ys where "rqsort cmp n xs = Some ys" and "permuted 0 n xs ys" and "sorted_range cmp 0 n ys"
proof (cases "n < 2")
  case True
  then show thesis by (intro that [of xs]) (auto simp: rqsort_def sorted_range_def)
next
  case False
  have "push_segment [] (0, n, 0) = Some [(0, n, 0)]" by (simp add: push_segment_def)
  moreover obtain ys where "rq_outer cmp [(0, n, 0)] xs = Some ys" "permuted 0 n xs ys" "sorted_range cmp 0 n ys"
    using rq_outer_sorts [OF pending_whole [OF assms]] by auto
  ultimately show thesis using False that by (simp add: rqsort_def)
qed

end

end
