(* ===== verification/Char_Range_Ops.thy ===== *)
theory Char_Range_Ops
  imports Char_Range_Sets Sort_Main
begin

text \<open>
  Compressing ranges in place, and the operations on ranges as operations on sets: merging two
  ranges, inverting a range, and sorting intervals that may overlap.
\<close>

section \<open>Compressing a list of points\<close>

text \<open>The reference: runs of touching intervals become one, empty intervals are dropped.\<close>

fun skip_touching :: "u32 \<Rightarrow> u32 list \<Rightarrow> u32 \<times> u32 list" where
  "skip_touching b (c # d # r) = (if b = c then skip_touching d r else (b, c # d # r))"
| "skip_touching b r = (b, r)"

lemma skip_touching_length: "skip_touching b r = (e, r') \<Longrightarrow> length r' \<le> length r"
  by (induction b r arbitrary: e r' rule: skip_touching.induct) (fastforce split: if_splits)+

function compress_list :: "u32 list \<Rightarrow> u32 list" where
  "compress_list (a # b # r) =
     (if a = b then compress_list r
      else (case skip_touching b r of (e, r') \<Rightarrow> a # e # compress_list r'))"
| "compress_list [a] = []"
| "compress_list [] = []"
  by pat_completeness auto
termination
  by (relation "measure length") (auto dest: skip_touching_length [OF sym] simp: less_Suc_eq_le)

lemma skip_touching_below:
  "skip_touching b r = (e, r') \<Longrightarrow> even (below (b # r) c) \<longleftrightarrow> even (below (e # r') c)"
  by (induction b r arbitrary: e r' rule: skip_touching.induct) (fastforce split: if_splits)+

lemma skip_touching_parity: "skip_touching b r = (e, r') \<Longrightarrow> even (length r) \<longleftrightarrow> even (length r')"
  by (induction b r arbitrary: e r' rule: skip_touching.induct) (fastforce split: if_splits)+

lemma compress_list_below: "even (length pts) \<Longrightarrow> even (below (compress_list pts) c) \<longleftrightarrow> even (below pts c)"
proof (induction pts rule: compress_list.induct)
  case (1 a b r)
  show ?case
  proof (cases "a = b")
    case False
    obtain e r' where sk: "skip_touching b r = (e, r')" by fastforce
    with False 1 show ?thesis
      using skip_touching_below [OF sk, of c] skip_touching_parity [OF sk] by auto
  qed (use 1 in simp)
qed simp_all

lemma compress_list_even: "even (length (compress_list pts))"
  by (induction pts rule: compress_list.induct) (auto split: prod.splits)

lemma skip_touching_set: "skip_touching b r = (e, r') \<Longrightarrow> set (e # r') \<subseteq> set (b # r)"
  by (induction b r arbitrary: e r' rule: skip_touching.induct) (fastforce split: if_splits)+

lemma skip_touching_sorted: "skip_touching b r = (e, r') \<Longrightarrow> sorted (b # r) \<Longrightarrow> sorted (e # r')"
  by (induction b r arbitrary: e r' rule: skip_touching.induct) (fastforce split: if_splits)+

lemma compress_list_set: "set (compress_list pts) \<subseteq> set pts"
proof (induction pts rule: compress_list.induct)
  case (1 a b r)
  obtain e r' where sk: "skip_touching b r = (e, r')" by fastforce
  show ?case using 1 sk skip_touching_set [OF sk] by auto
qed simp_all

text \<open>The compressed points of a sorted list strictly increase.\<close>

lemma skip_touching_gap:
  "skip_touching b r = (e, r') \<Longrightarrow> sorted (b # r) \<Longrightarrow> even (length r) \<Longrightarrow> r' = [] \<or> e < hd r'"
  by (induction b r arbitrary: e r' rule: skip_touching.induct) (auto split: if_splits)

lemma compress_list_strict:
  assumes "sorted pts" and "even (length pts)"
  shows "sorted_wrt (<) (compress_list pts)"
  using assms
proof (induction pts rule: compress_list.induct)
  case (1 a b r)
  obtain e r' where sk: "skip_touching b r = (e, r')" by fastforce
  show ?case
  proof (cases "a = b")
    case False
    have srt: "sorted (b # r)" "even (length r)" using 1(3,4) by simp_all
    have e: "sorted (e # r')" "even (length r')" "r' = [] \<or> e < hd r'"
      using skip_touching_sorted [OF sk srt(1)] skip_touching_parity [OF sk] srt(2) skip_touching_gap [OF sk srt] by auto
    have "e \<in> set (b # r)" using skip_touching_set [OF sk] by simp
    then have ae: "a < e" using 1(3) False by auto
    have "e < x" if "x \<in> set r'" for x using e(1,3) that by (cases r') auto
    then have "e < x" if "x \<in> set (compress_list r')" for x
      using compress_list_set [of r'] that by auto
    then show ?thesis using 1 False sk e ae by fastforce
  qed (use 1 in simp)
qed simp_all

section \<open>In place\<close>

abbreviation used_from :: "u32 list \<Rightarrow> nat \<Rightarrow> nat \<Rightarrow> u32 list" where
  "used_from pt len i \<equiv> drop i (take len pt)"

lemma used_from_Cons2:
  "i + 1 < len \<Longrightarrow> len \<le> length pt \<Longrightarrow> used_from pt len i = pt ! i # pt ! (i + 1) # used_from pt len (i + 2)"
  by (simp add: Cons_nth_drop_Suc [symmetric])

lemma compress_run_skip:
  assumes "len \<le> length pt" and "i + 1 < len"
  shows "\<exists>j. compress_run pt len i = Some j \<and> i \<le> j \<and> j + 1 < len \<and>
    skip_touching (pt ! (i + 1)) (used_from pt len (i + 2)) = (pt ! (j + 1), used_from pt len (j + 2))"
  using assms
proof (induction pt len i rule: compress_run.induct)
  case (1 pt len i)
  show ?case
  proof (cases "i + 3 < len")
    case True
    then have split: "used_from pt len (i + 2) = pt ! (i + 2) # pt ! (i + 3) # used_from pt len (i + 4)"
      using used_from_Cons2 [of "i + 2" len pt] "1.prems" by (simp add: eval_nat_numeral)
    have rd: "rd pt (i + 1) = Some (pt ! (i + 1))" "rd pt (i + 2) = Some (pt ! (i + 2))"
      using True "1.prems" by simp_all
    show ?thesis
    proof (cases "pt ! (i + 1) = pt ! (i + 2)")
      case False
      then have "compress_run pt len i = Some i"
        using True rd by (subst compress_run.simps) simp
      then show ?thesis using False split "1.prems" by simp
    next
      case eq: True
      have "i + 2 + 1 < len" using True by simp
      from "1.IH" [OF True rd eq "1.prems"(1) this] obtain j where j: "compress_run pt len (i + 2) = Some j" "i + 2 \<le> j" "j + 1 < len"
        "skip_touching (pt ! (i + 2 + 1)) (used_from pt len (i + 2 + 2)) = (pt ! (j + 1), used_from pt len (j + 2))"
        by blast
      have "compress_run pt len i = compress_run pt len (i + 2)"
        using True rd eq by (subst compress_run.simps) simp
      then show ?thesis using j split eq by (intro exI [of _ j]) (simp add: eval_nat_numeral)
    qed
  next
    case False
    then have "compress_run pt len i = Some i" by (subst compress_run.simps) simp
    moreover have "length (used_from pt len (i + 2)) \<le> 1" using False "1.prems"(1) by simp
    then have "skip_touching (pt ! (i + 1)) (used_from pt len (i + 2)) = (pt ! (i + 1), used_from pt len (i + 2))"
      by (cases "used_from pt len (i + 2)"; cases "tl (used_from pt len (i + 2))") auto
    ultimately show ?thesis using "1.prems" by simp
  qed
qed

lemma compress_loop_list:
  assumes "k \<le> i" and "i \<le> len" and "len \<le> length pt"
  shows "\<exists>pt' k'. compress_loop pt len i k = Some (pt', k') \<and> length pt' = length pt \<and> k' \<le> len \<and>
    take k' pt' = take k pt @ compress_list (used_from pt len i)"
  using assms
proof (induction "len - i" arbitrary: pt i k rule: less_induct)
  case less
  show ?case
  proof (cases "i + 1 < len")
    case False
    then have "length (used_from pt len i) \<le> 1" using less.prems by simp
    then have "compress_list (used_from pt len i) = []"
      by (cases "used_from pt len i"; cases "tl (used_from pt len i)") auto
    then show ?thesis using False less.prems by (subst compress_loop.simps) simp
  next
    case True
    note split = used_from_Cons2 [OF True less.prems(3)]
    have rd: "rd pt i = Some (pt ! i)" "rd pt (i + 1) = Some (pt ! (i + 1))" using True less.prems by simp_all
    show ?thesis
    proof (cases "pt ! i = pt ! (i + 1)")
      case eq: True
      have "compress_loop pt len i k = compress_loop pt len (i + 2) k"
        using True rd eq by (subst compress_loop.simps) simp
      then show ?thesis
        using less.hyps [of "i + 2" k pt] less.prems True split eq by simp
    next
      case False
      obtain j where j: "compress_run pt len i = Some j" "i \<le> j" "j + 1 < len"
        and skip: "skip_touching (pt ! (i + 1)) (used_from pt len (i + 2)) = (pt ! (j + 1), used_from pt len (j + 2))"
        using compress_run_skip [OF less.prems(3) True] by blast
      define pt1 where "pt1 = pt[k := pt ! i]"
      define pt2 where "pt2 = pt1[k + 1 := pt1 ! (j + 1)]"
      have len: "length pt1 = length pt" "length pt2 = length pt" by (simp_all add: pt1_def pt2_def)
      have b: "pt1 ! (j + 1) = pt ! (j + 1)" using less.prems(1) j(2) by (simp add: pt1_def)
      have step: "compress_loop pt len i k = compress_loop pt2 len (j + 2) (k + 2)"
        using True rd False j less.prems len
        by (subst compress_loop.simps) (simp add: pt1_def pt2_def)
      have rest: "used_from pt2 len (j + 2) = used_from pt len (j + 2)"
        using less.prems(1) j(2) by (simp add: pt1_def pt2_def take_update_swap)
      have written: "take (k + 2) pt2 = take k pt @ [pt ! i, pt ! (j + 1)]"
        using less.prems(1,3) j(2,3) b
        by (intro nth_equalityI) (auto simp: pt1_def pt2_def nth_list_update nth_append less_Suc_eq)
      have "\<exists>pt' k'. compress_loop pt2 len (j + 2) (k + 2) = Some (pt', k') \<and> length pt' = length pt2 \<and> k' \<le> len \<and>
          take k' pt' = take (k + 2) pt2 @ compress_list (used_from pt2 len (j + 2))"
        using j less.prems len by (intro less.hyps) simp_all
      moreover have "compress_list (used_from pt len i) = pt ! i # pt ! (j + 1) # compress_list (used_from pt len (j + 2))"
        using False by (simp only: split compress_list.simps skip if_False prod.case)
      ultimately show ?thesis
        by (simp only: step rest written len append_assoc append_Cons append_Nil)
    qed
  qed
qed

lemma cr_compress_list:
  assumes "cr_wf cr"
  shows "\<exists>cr'. cr_compress cr = Some cr' \<and> cr_wf cr' \<and> cr_used cr' = compress_list (cr_used cr) \<and> cr_alloc cr' = cr_alloc cr"
proof -
  have len: "cr_len cr \<le> length (cr_points cr)" using assms by (simp add: cr_wf_def)
  from compress_loop_list [OF le0 le0 this] obtain pt k where
    "compress_loop (cr_points cr) (cr_len cr) 0 0 = Some (pt, k)" "length pt = length (cr_points cr)" "k \<le> cr_len cr"
    "take k pt = compress_list (cr_used cr)"
    by (auto simp: cr_used_def)
  then show ?thesis
    using assms by (intro exI [of _ "cr\<lparr>cr_points := pt, cr_len := k\<rparr>"]) (simp add: cr_compress_def cr_wf_def cr_used_def)
qed

section \<open>Ranges as sets\<close>

text \<open>A range is an even number of points in increasing order.\<close>

definition range_points :: "u32 list \<Rightarrow> bool" where
  "range_points pts \<longleftrightarrow> sorted pts \<and> even (length pts)"

definition strict_range :: "u32 list \<Rightarrow> bool" where
  "strict_range pts \<longleftrightarrow> sorted_wrt (<) pts \<and> even (length pts)"

lemma compress_list_range:
  "range_points pts \<Longrightarrow> strict_range (compress_list pts) \<and> cr_member (compress_list pts) = cr_member pts"
  by (auto simp: range_points_def strict_range_def compress_list_strict compress_list_even cr_member_def
      compress_list_below fun_eq_iff)

lemma below_max: "below pts (- 1) = length pts"
  by (rule below_all) simp

text \<open>
  \<open>cr_op\<close> on an empty destination either fails for want of memory or leaves a strict range
  that is the union, intersection or symmetric difference of the operands.
\<close>

lemma cr_op_sets:
  assumes wf: "cr_wf cr" and empty: "cr_len cr = 0" and len: "al \<le> length a" "bl \<le> length b"
    and A: "range_points (take al a)" and B: "range_points (take bl b)" and small: "al + bl \<le> 2 ^ 29"
  shows "(\<exists>cr'. cr_op cr a al b bl op = Some (0, cr') \<and> cr_wf cr' \<and> strict_range (cr_used cr') \<and>
      (\<forall>c. cr_member (cr_used cr') c \<longleftrightarrow> op_bool op (cr_member (take al a) c) (cr_member (take bl b) c))) \<or>
    (\<exists>cr'. cr_op cr a al b bl op = Some (- 1, cr') \<and> cr_wf cr')"
proof -
  have rest: "rest_of a al 0 = take al a" "rest_of b bl 0 = take bl b" by simp_all
  consider (ok) cr1 ext where "cr_op_loop op a al b bl 0 0 cr = Some (0, cr1)" "cr_wf cr1"
      "cr_used cr1 = cr_used cr @ ext" "merged op (take al a) 0 (take bl b) 0 0 ext"
    | (failed) cr1 where "cr_op_loop op a al b bl 0 0 cr = Some (- 1, cr1)" "cr_wf cr1"
    using cr_op_loop_merges [OF wf len, of 0 0 op] A B empty small rest by (auto simp: range_points_def)
  then show ?thesis
  proof cases
    case failed
    then show ?thesis by (simp add: cr_op_def)
  next
    case ok
    have used: "cr_used cr1 = ext" using ok(3) empty by (simp add: cr_used_def)
    have mem: "odd (below ext c) \<longleftrightarrow> op_bool op (cr_member (take al a) c) (cr_member (take bl b) c)" for c
      using ok(4) by (simp add: merged_def cr_member_def)
    have "even (length ext)"
      using mem [of "- 1"] A B len by (simp add: below_max cr_member_def range_points_def)
    then have rp: "range_points ext" using ok(4) by (simp add: merged_def range_points_def)
    obtain cr' where "cr_compress cr1 = Some cr'" "cr_wf cr'" "cr_used cr' = compress_list ext"
      using cr_compress_list [OF ok(2)] used by auto
    then show ?thesis
      using ok(1) compress_list_range [OF rp] mem
      by (intro disjI1 exI [of _ cr']) (simp add: cr_op_def cr_member_def)
  qed
qed

lemma le_max_word: "x \<le> (0xFFFFFFFF :: u32)"
  using unsigned_less [where 'a = nat, of x] by (simp add: word_le_nat_alt)

text \<open>Inverting: the complement, within the code points below \<^verbatim>\<open>UINT32_MAX\<close>.\<close>

lemma cr_invert_set:
  assumes wf: "cr_wf cr" and R: "range_points (cr_used cr)" and small: "cr_len cr + 2 \<le> 2 ^ 29"
  shows "(\<exists>cr'. cr_invert cr = Some (0, cr') \<and> cr_wf cr' \<and> strict_range (cr_used cr') \<and>
      (\<forall>c < 0xFFFFFFFF. cr_member (cr_used cr') c \<longleftrightarrow> \<not> cr_member (cr_used cr) c)) \<or>
    (\<exists>cr'. cr_invert cr = Some (- 1, cr') \<and> cr_used cr' = cr_used cr)"
  using wf small
proof (cases rule: cr_realloc_cases)
  case (failed cr')
  then show ?thesis by (simp add: cr_invert_def Let_def)
next
  case (ok cr1)
  let ?n = "cr_len cr" and ?old = "cr_used cr"
  have len: "length (cr_points cr1) = cr_size cr1" using ok(2) by (simp add: cr_wf_def)
  have old: "take ?n (cr_points cr1) = ?old" "length ?old = ?n"
    using ok(4,7) length_cr_used [OF wf] by (simp_all add: cr_used_def)
  define pts where "pts = ((take 1 (cr_points cr1) @ ?old @ drop (1 + ?n) (cr_points cr1))[0 := 0])[?n + 1 := 0xFFFFFFFF]"
  have pts_len: "length pts = cr_size cr1" using ok(3) len old(2) by (simp add: pts_def)
  have new: "take (?n + 2) pts = 0 # ?old @ [0xFFFFFFFF]"
    using ok(3) len old(2) by (cases "cr_points cr1")
      (auto simp: pts_def take_Suc_conv_app_nth list_update_append nth_append)
  define cr2 where "cr2 = cr1\<lparr>cr_points := pts, cr_len := ?n + 2\<rparr>"
  have wf2: "cr_wf cr2" using ok(2,3) pts_len by (simp add: cr2_def cr_wf_def)
  have used2: "cr_used cr2 = 0 # ?old @ [0xFFFFFFFF]" using new by (simp add: cr2_def cr_used_def)
  have run: "cr_invert cr = (case cr_compress cr2 of None \<Rightarrow> None | Some cr' \<Rightarrow> Some (0, cr'))"
    using ok(1,3) len old by (simp add: cr_invert_def Let_def pts_def cr2_def split: option.split)
  have "range_points (cr_used cr2)"
    using R by (auto simp: used2 range_points_def sorted_append le_max_word)
  note comp = compress_list_range [OF this]
  obtain cr' where cr': "cr_compress cr2 = Some cr'" "cr_wf cr'" "cr_used cr' = compress_list (cr_used cr2)"
    using cr_compress_list [OF wf2] by blast
  have "cr_member (cr_used cr2) c \<longleftrightarrow> \<not> cr_member ?old c" if "c < 0xFFFFFFFF" for c
    using that by (auto simp: used2 cr_member_def)
  then show ?thesis using run cr' comp by auto
qed

end
