(* ===== verification/Char_Range_Sort.thy ===== *)
theory Char_Range_Sort
  imports Char_Range_Ops
begin

text \<open>
  Sorting the intervals of a range and merging those that overlap leaves the union of the
  intervals.  The order of the intervals is an instance of the comparison interface of the
  sort.
\<close>

interpretation points: comparator point_cmp
  by unfold_locales (auto simp: point_cmp_def split: if_splits)

section \<open>The reference\<close>

fun absorb :: "u32 \<Rightarrow> (u32 \<times> u32) list \<Rightarrow> u32 \<times> (u32 \<times> u32) list" where
  "absorb e ((s1, e1) # r) =
     (if s1 > e then (e, (s1, e1) # r) else if e1 \<le> e then absorb e r else absorb e1 r)"
| "absorb e [] = (e, [])"

lemma absorb_length: "absorb e r = (e', r') \<Longrightarrow> length r' \<le> length r"
  by (induction e r arbitrary: e' r' rule: absorb.induct) (fastforce split: if_splits)+

function merge_intervals :: "(u32 \<times> u32) list \<Rightarrow> (u32 \<times> u32) list" where
  "merge_intervals ((s, e) # r) = (case absorb e r of (e', r') \<Rightarrow> (s, e') # merge_intervals r')"
| "merge_intervals [] = []"
  by pat_completeness auto
termination
  by (relation "measure length") (auto dest: absorb_length [OF sym] simp: less_Suc_eq_le)

definition in_intervals :: "(u32 \<times> u32) list \<Rightarrow> u32 \<Rightarrow> bool" where
  "in_intervals ps c \<longleftrightarrow> (\<exists>(a, b) \<in> set ps. a \<le> c \<and> c < b)"

lemma in_intervals_simps [simp]:
  "\<not> in_intervals [] c"
  "in_intervals ((a, b) # ps) c \<longleftrightarrow> a \<le> c \<and> c < b \<or> in_intervals ps c"
  by (auto simp: in_intervals_def)

definition by_start :: "(u32 \<times> u32) list \<Rightarrow> bool" where
  "by_start ps \<longleftrightarrow> sorted (map fst ps)"

lemma absorb_set:
  "absorb e r = (e', r') \<Longrightarrow> \<forall>p \<in> set r. s \<le> fst p \<Longrightarrow>
     s \<le> c \<and> c < e' \<or> in_intervals r' c \<longleftrightarrow> s \<le> c \<and> c < e \<or> in_intervals r c"
proof (induction e r arbitrary: e' r' rule: absorb.induct)
  case (1 e s1 e1 r)
  have "s \<le> s1" using "1.prems"(2) by simp
  then show ?case using 1 by (force split: if_splits)
qed simp

lemma absorb_rest: "absorb e r = (e', r') \<Longrightarrow> \<exists>q. r = q @ r'"
proof (induction e r arbitrary: e' r' rule: absorb.induct)
  case (1 e s1 e1 r)
  show ?case
  proof (cases "s1 > e")
    case False
    then obtain q where "r = q @ r'" using 1 by (auto split: if_splits)
    then show ?thesis by (intro exI [of _ "(s1, e1) # q"]) simp
  qed (use 1 in auto)
qed simp

lemma absorb_gap: "absorb e r = (e', r') \<Longrightarrow> r' = [] \<or> e' < fst (hd r')"
  by (induction e r arbitrary: e' r' rule: absorb.induct) (auto split: if_splits)

lemma merge_intervals_set: "by_start ps \<Longrightarrow> in_intervals (merge_intervals ps) c \<longleftrightarrow> in_intervals ps c"
proof (induction ps rule: merge_intervals.induct)
  case (1 s e r)
  obtain e' r' where ab: "absorb e r = (e', r')" by fastforce
  have "by_start r'" using absorb_rest [OF ab] "1.prems" by (auto simp: by_start_def sorted_append)
  then show ?case using 1 ab absorb_set [OF ab, of s c] by (auto simp: by_start_def)
qed simp

text \<open>The merged intervals are apart from each other.\<close>

fun intervals_apart :: "(u32 \<times> u32) list \<Rightarrow> bool" where
  "intervals_apart ((s, e) # (s1, e1) # r) \<longleftrightarrow> e < s1 \<and> intervals_apart ((s1, e1) # r)"
| "intervals_apart _ \<longleftrightarrow> True"

lemma merge_intervals_apart: "intervals_apart (merge_intervals ps)"
proof (induction ps rule: merge_intervals.induct)
  case (1 s e r)
  obtain e' r' where ab: "absorb e r = (e', r')" by fastforce
  show ?case
  proof (cases r')
    case (Cons p r'')
    obtain s1 e1 where p: "p = (s1, e1)" by fastforce
    then show ?thesis using 1 ab Cons absorb_gap [OF ab] by (auto split: prod.splits)
  qed (use ab in simp)
qed simp

section \<open>The loop on the array\<close>

lemma pairs_of_length: "length (pairs_of pts) = length pts div 2"
  by (induction pts rule: pairs_of.induct) simp_all

lemma points_of_pairs: "even (length pts) \<Longrightarrow> points_of (pairs_of pts) = pts"
  by (induction pts rule: pairs_of.induct) simp_all

lemma pairs_of_points: "pairs_of (points_of ps) = ps"
  by (induction ps rule: points_of.induct) simp_all

lemma length_points_of: "length (points_of ps) = 2 * length ps"
  by (induction ps rule: points_of.induct) simp_all

lemma used_even:
  "even len \<Longrightarrow> even i \<Longrightarrow> i < len \<Longrightarrow> len \<le> length pt \<Longrightarrow>
     i + 1 < len \<and> pairs_of (used_from pt len i) = (pt ! i, pt ! (i + 1)) # pairs_of (used_from pt len (i + 2))"
proof
  assume a: "even len" "even i" "i < len" "len \<le> length pt"
  then show i: "i + 1 < len" by presburger
  show "pairs_of (used_from pt len i) = (pt ! i, pt ! (i + 1)) # pairs_of (used_from pt len (i + 2))"
    using used_from_Cons2 [OF i a(4)] by simp
qed

lemma overlap_run_absorb:
  assumes "even len" and "even i" and "i \<le> len" and "len \<le> length pt"
  shows "\<exists>i' e'. overlap_run pt len i e = Some (i', e') \<and> even i' \<and> i \<le> i' \<and> i' \<le> len \<and>
    absorb e (pairs_of (used_from pt len i)) = (e', pairs_of (used_from pt len i'))"
  using assms
proof (induction "len - i" arbitrary: i e rule: less_induct)
  case less
  show ?case
  proof (cases "i < len")
    case False
    then show ?thesis using less.prems by (subst overlap_run.simps) simp
  next
    case True
    note split = used_even [OF less.prems(1,2) True less.prems(4)]
    have rd: "rd pt i = Some (pt ! i)" "rd pt (i + 1) = Some (pt ! (i + 1))" using True split less.prems by simp_all
    have IH: "\<exists>i' e'. overlap_run pt len (i + 2) f = Some (i', e') \<and> even i' \<and> i + 2 \<le> i' \<and> i' \<le> len \<and>
        absorb f (pairs_of (used_from pt len (i + 2))) = (e', pairs_of (used_from pt len i'))" for f
    proof (rule less.hyps)
      show "len - (i + 2) < len - i" using True by linarith
    qed (use less.prems split in auto)
    show ?thesis
    proof (cases "pt ! i > e")
      case True
      then show ?thesis using \<open>i < len\<close> rd less.prems split by (subst overlap_run.simps) simp
    next
      case False
      then have "overlap_run pt len i e = overlap_run pt len (i + 2) (if pt ! (i + 1) \<le> e then e else pt ! (i + 1))"
        using \<open>i < len\<close> rd by (subst overlap_run.simps) simp
      moreover have "absorb e (pairs_of (used_from pt len i)) =
          absorb (if pt ! (i + 1) \<le> e then e else pt ! (i + 1)) (pairs_of (used_from pt len (i + 2)))"
        using False split by simp
      ultimately show ?thesis
        using IH [of "if pt ! (i + 1) \<le> e then e else pt ! (i + 1)"] by (metis add_leD1)
    qed
  qed
qed

lemma overlap_loop_merge:
  assumes "even len" and "even i" and "j \<le> i" and "i \<le> len" and "len \<le> length pt"
  shows "\<exists>pt' j'. overlap_loop pt len i j = Some (pt', j') \<and> length pt' = length pt \<and> j' \<le> len \<and>
    take j' pt' = take j pt @ points_of (merge_intervals (pairs_of (used_from pt len i)))"
  using assms
proof (induction "len - i" arbitrary: pt i j rule: less_induct)
  case less
  show ?case
  proof (cases "i < len")
    case False
    then show ?thesis using less.prems by (subst overlap_loop.simps) simp
  next
    case True
    note split = used_even [OF less.prems(1,2) True less.prems(5)]
    have rd: "rd pt i = Some (pt ! i)" "rd pt (i + 1) = Some (pt ! (i + 1))" using True split less.prems by simp_all
    have "even (i + 2)" "i + 2 \<le> len" using less.prems(2) split by simp_all
    from overlap_run_absorb [OF less.prems(1) this less.prems(5), of "pt ! (i + 1)"]
    obtain i' e' where run: "overlap_run pt len (i + 2) (pt ! (i + 1)) = Some (i', e')"
      and i': "even i'" "i + 2 \<le> i'" "i' \<le> len"
      and ab: "absorb (pt ! (i + 1)) (pairs_of (used_from pt len (i + 2))) = (e', pairs_of (used_from pt len i'))"
      by blast
    define pt2 where "pt2 = pt[j := pt ! i, j + 1 := e']"
    have len: "length pt2 = length pt" by (simp add: pt2_def)
    have step: "overlap_loop pt len i j = overlap_loop pt2 len i' (j + 2)"
      using True rd run less.prems split by (subst overlap_loop.simps) (simp add: pt2_def)
    have rest: "used_from pt2 len i' = used_from pt len i'"
      using less.prems(3) i'(2) by (simp add: pt2_def take_update_swap)
    have written: "take (j + 2) pt2 = take j pt @ [pt ! i, e']"
      using less.prems(3,5) split
      by (intro nth_equalityI) (auto simp: pt2_def nth_list_update nth_append less_Suc_eq)
    have "\<exists>pt' j'. overlap_loop pt2 len i' (j + 2) = Some (pt', j') \<and> length pt' = length pt2 \<and> j' \<le> len \<and>
        take j' pt' = take (j + 2) pt2 @ points_of (merge_intervals (pairs_of (used_from pt2 len i')))"
      using i' less.prems len True by (intro less.hyps) simp_all
    moreover have "merge_intervals (pairs_of (used_from pt len i)) =
        (pt ! i, e') # merge_intervals (pairs_of (used_from pt len i'))"
      using split ab by simp
    ultimately show ?thesis
      by (simp only: step rest written len points_of.simps append_assoc append_Cons append_Nil)
  qed
qed

lemma cr_sort_merges:
  assumes wf: "cr_wf cr" and ev: "even (cr_len cr)"
  shows "\<exists>cr'. cr_sort_and_remove_overlap cr = Some cr' \<and> cr_wf cr' \<and> intervals_apart (pairs_of (cr_used cr')) \<and>
    (\<forall>c. in_intervals (pairs_of (cr_used cr')) c \<longleftrightarrow> in_intervals (pairs_of (cr_used cr)) c)"
proof -
  let ?n = "cr_len cr div 2" and ?ps = "pairs_of (cr_used cr)"
  have len: "length (cr_used cr) = cr_len cr" "cr_len cr \<le> length (cr_points cr)"
    using length_cr_used [OF wf] wf by (simp_all add: cr_wf_def)
  then have n: "?n = length ?ps" by (simp add: pairs_of_length)
  obtain qs where qs: "rqsort point_cmp ?n ?ps = Some qs" "permuted 0 ?n ?ps qs" "sorted_range point_cmp 0 ?n qs"
    using points.rqsort_sorts [of ?n ?ps] n by auto
  have same: "length qs = length ?ps" "mset qs = mset ?ps" using qs(2) by (simp_all add: permuted_def)
  have "fst (qs ! p) \<le> fst (qs ! q)" if "p < q" "q < length qs" for p q
  proof -
    have "point_cmp (qs ! p) (qs ! q) \<le> 0" using qs(3) that same n by (simp add: sorted_range_def)
    then show ?thesis by (auto simp: point_cmp_def split: if_splits)
  qed
  then have srt: "by_start qs" by (simp add: by_start_def sorted_iff_nth_mono_less)
  have two: "2 * ?n = cr_len cr" using ev by simp
  define pt where "pt = points_of qs @ drop (cr_len cr) (cr_points cr)"
  have used: "take (cr_len cr) pt = points_of qs" "length pt = length (cr_points cr)"
    using same(1) n two len(2) by (simp_all add: pt_def length_points_of)
  obtain pt' j where loop: "overlap_loop pt (cr_len cr) 0 0 = Some (pt', j)" "length pt' = length pt" "j \<le> cr_len cr"
      "take j pt' = points_of (merge_intervals qs)"
    using overlap_loop_merge [of "cr_len cr" 0 0 pt] ev used len(2) by (auto simp: pairs_of_points)
  define cr' where "cr' = cr\<lparr>cr_points := pt', cr_len := j\<rparr>"
  have "cr_sort_and_remove_overlap cr = Some cr'"
    using qs(1) loop(1) len two same(1) n
    by (simp add: cr_sort_and_remove_overlap_def cr_used_def pt_def cr'_def length_points_of)
  moreover have "cr_wf cr'" using wf loop(2,3) used(2) by (simp add: cr_wf_def cr'_def)
  moreover have "pairs_of (cr_used cr') = merge_intervals qs"
    using loop(4) by (simp add: cr_used_def cr'_def pairs_of_points)
  moreover have "in_intervals qs c = in_intervals ?ps c" for c
    using mset_eq_setD [OF same(2)] by (simp add: in_intervals_def)
  ultimately show ?thesis using merge_intervals_set [OF srt] merge_intervals_apart by auto
qed

end
