(* ===== verification/Cutils_Claims.thy ===== *)
theory Cutils_Claims
  imports Cutils_String Dyn_Buf Sort_Exchange Char_Range_Sort
begin

text \<open>
  The main theorems on the buffers, sorts and byte functions of
  \<^verbatim>\<open>quickjs/cutils.c\<close>, each with a concrete instance of its hypotheses.
\<close>

section \<open>Growing buffers\<close>

text \<open>A caller that appends piece after piece and looks at the error flag only at the end, as
  the users of these buffers do.\<close>

fun put_all :: "'o DynBuf \<Rightarrow> u8 list list \<Rightarrow> 'o DynBuf option" where
  "put_all s [] = Some s"
| "put_all s (b # bs) = do { (code, s) \<leftarrow> dbuf_put s b; put_all s bs }"

text \<open>A buffer with an error reserves nothing, so what is appended either fits or is refused;
  the error stays.\<close>

lemma appended_cases:
  assumes "appended s bs (code, s')"
  obtains "dbuf_wf s'" and "db_contents s' = db_contents s @ bs" and "db_error s' = db_error s"
  | "dbuf_wf s'" and "db_contents s' = db_contents s" and "db_error s'"
  using assms by (auto simp: appended_def)

lemma put_all_appends:
  "dbuf_wf s \<Longrightarrow> db_size s + length (concat bs) < 2 ^ 64 \<Longrightarrow>
     \<exists>s'. put_all s bs = Some s' \<and> dbuf_wf s' \<and> (db_error s \<longrightarrow> db_error s') \<and>
       (\<not> db_error s' \<longrightarrow> db_contents s' = db_contents s @ concat bs)"
proof (induction bs arbitrary: s)
  case Nil
  then show ?case by simp
next
  case (Cons b bs)
  then have "db_size s + length b < 2 ^ 64" by simp
  with Cons.prems(1) obtain r where r: "dbuf_put s b = Some r" "appended s b r" by (rule dbuf_put_appended)
  obtain code t where "r = (code, t)" by (cases r)
  with r have run: "dbuf_put s b = Some (code, t)" and app: "appended s b (code, t)" by simp_all
  have size: "db_size t + length (concat bs) < 2 ^ 64" if "db_contents t = db_contents s @ b \<or> db_contents t = db_contents s"
      "dbuf_wf t"
  proof -
    have "db_size t = length (db_contents t)" "db_size s = length (db_contents s)"
      using that(2) Cons.prems(1) by (simp_all add: length_contents)
    then show ?thesis using that(1) Cons.prems(2) by auto
  qed
  from app show ?case
  proof (cases rule: appended_cases)
    case 1
    with Cons.IH [OF 1(1)] size show ?thesis by (auto simp: run)
  next
    case 2
    with Cons.IH [OF 2(1)] size show ?thesis by (auto simp: run)
  qed
qed

definition libc_example :: "unit realloc" where
  "libc_example h p n = (Some (take n ((case p of None \<Rightarrow> [] | Some b \<Rightarrow> b) @ replicate n 0)), h)"

definition no_memory :: "unit realloc" where
  "no_memory h p n = (None, h)"

lemma keeps_bytes_example: "keeps_bytes libc_example" "keeps_bytes no_memory"
  by (auto simp: keeps_bytes_def libc_example_def no_memory_def)

lemma dbuf_wf_fresh: "keeps_bytes f \<Longrightarrow> dbuf_wf (dbuf_init2 libc h (Some f))"
  by (simp add: dbuf_wf_def dbuf_init2_def)

text \<open>C26: Appending to a buffer never writes outside its block, even when the reallocation
  function has no memory; an error that has happened stays, and without an error at the end
  the buffer holds exactly the old contents and all pieces in their order.\<close>

theorem dbuf_put_sequence:
  assumes "dbuf_wf s" and "db_size s + length (concat pieces) < 2 ^ 64"
  shows "\<exists>s'. put_all s pieces = Some s' \<and> dbuf_wf s' \<and> (dbuf_error s \<longrightarrow> dbuf_error s') \<and>
    (\<not> dbuf_error s' \<longrightarrow> db_contents s' = db_contents s @ concat pieces)"
  using put_all_appends [OF assms] by (simp only: dbuf_error_def)

lemma dbuf_put_sequence_witness:
  "\<exists>s'. put_all (dbuf_init2 libc_example () (Some libc_example)) [[1, 2], [], [3]] = Some s' \<and>
     (\<not> dbuf_error s' \<longrightarrow> db_contents s' = [1, 2, 3])"
proof -
  let ?s = "dbuf_init2 libc_example () (Some libc_example)"
  have "dbuf_wf ?s" by (simp add: dbuf_wf_fresh keeps_bytes_example)
  moreover have "db_size ?s + length (concat [[1, 2], [], [3 :: u8]]) < 2 ^ 64"
    by (simp add: dbuf_init2_def)
  ultimately have "\<exists>s'. put_all ?s [[1, 2], [], [3]] = Some s' \<and> dbuf_wf s' \<and>
      (dbuf_error ?s \<longrightarrow> dbuf_error s') \<and>
      (\<not> dbuf_error s' \<longrightarrow> db_contents s' = db_contents ?s @ concat [[1, 2], [], [3]])"
    by (rule dbuf_put_sequence)
  moreover have "db_contents ?s = []" by (simp add: dbuf_init2_def db_contents_def)
  ultimately show ?thesis by auto
qed

section \<open>Sorting\<close>

text \<open>C27: With a comparison that has consistent signs and is transitive, \<^verbatim>\<open>rqsort\<close>
  ends for every array, its stack of segments never overflows, and it leaves a sorted
  permutation of the elements.\<close>

theorem rqsort_correct:
  assumes sign: "\<And>a b. 0 < cmp a b \<longleftrightarrow> cmp b a < (0 :: int)"
    and trans: "\<And>a b c. cmp a b \<le> 0 \<Longrightarrow> cmp b c \<le> 0 \<Longrightarrow> cmp a c \<le> 0"
    and n: "n \<le> length xs"
  shows "\<exists>ys. rqsort cmp n xs = Some ys \<and> mset ys = mset xs \<and> drop n ys = drop n xs \<and>
    (\<forall>i j. i < j \<and> j < n \<longrightarrow> cmp (ys ! i) (ys ! j) \<le> 0)"
proof -
  have "comparator cmp" by (rule comparator.intro) (use sign trans in blast)+
  from comparator.rqsort_sorts [OF this n] obtain ys
    where ys: "rqsort cmp n xs = Some ys" "permuted 0 n xs ys" "sorted_range cmp 0 n ys" .
  from ys(2) have "drop n ys = drop n xs" by (intro nth_equalityI) (auto simp: permuted_def)
  with ys show ?thesis by (auto simp: permuted_def sorted_range_def)
qed

lemma rqsort_correct_witness:
  "\<exists>ys. rqsort point_cmp 3 [(5, 6), (3, 9), (4, 4)] = Some ys \<and> mset ys = mset [(5, 6), (3, 9), (4, 4)]"
proof -
  have "\<exists>ys. rqsort point_cmp 3 [(5, 6), (3, 9), (4, 4)] = Some ys \<and>
      mset ys = mset [(5, 6), (3, 9), (4, 4)] \<and> drop 3 ys = drop 3 [(5, 6), (3, 9), (4, 4)] \<and>
      (\<forall>i j. i < j \<and> j < 3 \<longrightarrow> point_cmp (ys ! i) (ys ! j) \<le> 0)"
  proof (rule rqsort_correct)
    show "0 < point_cmp a b \<longleftrightarrow> point_cmp b a < 0" for a b by (rule points.sign)
    show "point_cmp a b \<le> 0 \<Longrightarrow> point_cmp b c \<le> 0 \<Longrightarrow> point_cmp a c \<le> 0" for a b c by (rule points.trans)
  qed simp
  then show ?thesis by blast
qed

text \<open>C28: Whatever exchange function \<^verbatim>\<open>exchange_func\<close> selects for the alignment of
  the array and the size of an element, it swaps the bytes of the two blocks and nothing else:
  for one element, and, selected with the size \<^verbatim>\<open>size | 128\<close>, for a run of
  elements.\<close>

theorem exchange_func_swaps:
  assumes "blocks_ok a b n mem" and "sz dvd n" and "sel = sz OR 128 \<or> sel = sz \<and> n = sz"
  shows "\<exists>ys. exchange_func base sel mem a b n = Some ys \<and> length ys = length mem \<and>
    (\<forall>p < length mem. ys ! p =
       (if b \<le> p \<and> p < b + n then mem ! (a + (p - b))
        else if a \<le> p \<and> p < a + n then mem ! (b + (p - a)) else mem ! p))"
proof -
  have "exchange_func base sel mem a b n = swap_block mem a b n"
    using assms exchange_element exchange_elements by metis
  then show ?thesis using swap_block_nth [OF assms(1)] by metis
qed

lemma exchange_func_swaps_witness:
  "\<exists>ys. exchange_func 64 (4 OR 128) [1, 2, 3, 4, 5, 6, 7, 8, 11, 12, 13, 14, 15, 16, 17, 18] 0 8 8 = Some ys \<and>
     length ys = 16"
proof -
  have "blocks_ok 0 8 8 [1, 2, 3, 4, 5, 6, 7, 8, 11, 12, 13, 14, 15, 16, 17, 18 :: u8]"
    by (simp add: blocks_ok_def)
  from exchange_func_swaps [OF this, of 4 "4 OR 128" 64] show ?thesis by auto
qed

section \<open>Strings and bytes\<close>

text \<open>C29: \<^verbatim>\<open>js__pstrcat\<close> keeps its result inside the buffer and terminated: it is
  the concatenation of the two strings, cut to the size of the buffer less one.\<close>

theorem js__pstrcat_truncates:
  assumes "has_nul buf 0" and "has_nul s i" and "nat buf_size \<le> length buf"
    and "int (length (str_at buf 0)) < buf_size"
  shows "\<exists>buf'. js__pstrcat buf buf_size s i = Some buf' \<and> length buf' = length buf \<and>
    str_at buf' 0 = take (nat buf_size - 1) (str_at buf 0 @ str_at s i)"
  using js__pstrcat_correct [OF assms] by metis

lemma js__pstrcat_truncates_witness:
  "\<exists>buf'. js__pstrcat [104, 105, 0, 9] 4 [33, 63, 0] 0 = Some buf' \<and> str_at buf' 0 = [104, 105, 33]"
proof -
  have "has_nul [104, 105, 0, 9] 0" "has_nul [33, 63, 0] 0" "str_at [104, 105, 0, 9] 0 = [104, 105]"
      "str_at [33, 63, 0] 0 = [33, 63]"
    by (simp_all add: has_nul_def str_at_def)
  with js__pstrcat_truncates [of "[104, 105, 0, 9]" "[33, 63, 0]" 0 4] show ?thesis by auto
qed

text \<open>\<^verbatim>\<open>js__strstart\<close> decides whether the second string is a prefix of the first
  and returns the position behind it; \<^verbatim>\<open>js__has_suffix\<close> decides whether it is a
  suffix.\<close>

theorem js__string_tests:
  assumes s: "has_nul str 0" and v: "has_nul val 0"
  shows "js__strstart str 0 val 0 =
      Some (if \<exists>rest. str_at str 0 = str_at val 0 @ rest then Some (length (str_at val 0)) else None) \<and>
    js__has_suffix str val = Some (\<exists>pre. str_at str 0 = pre @ str_at val 0)"
proof -
  have "take (length (str_at val 0)) (str_at str 0) = str_at val 0 \<longleftrightarrow>
      (\<exists>rest. str_at str 0 = str_at val 0 @ rest)"
    by (metis append_eq_conv_conj append_take_drop_id)
  then show ?thesis
    using js__strstart_correct [OF s v] js__has_suffix_correct [OF s v] by simp
qed

lemma js__string_tests_witness:
  "js__strstart [97, 98, 99, 0] 0 [97, 98, 0] 0 = Some (Some 2) \<and> js__has_suffix [97, 98, 99, 0] [97, 98, 0] = Some False"
proof -
  have "has_nul [97, 98, 99, 0] 0" "has_nul [97, 98, 0] 0" "str_at [97, 98, 99, 0] 0 = [97, 98, 99]"
      "str_at [97, 98, 0] 0 = [97, 98]"
    by (simp_all add: has_nul_def str_at_def)
  with js__string_tests [of "[97, 98, 99, 0]" "[97, 98, 0]"] show ?thesis by (auto simp: append_eq_Cons_conv Cons_eq_append_conv)
qed

text \<open>A 32-bit value that \<^verbatim>\<open>put_u32\<close> stores, \<^verbatim>\<open>get_u32\<close> loads
  again, and after \<^verbatim>\<open>inplace_bswap32\<close> it loads the value that
  \<^verbatim>\<open>bswap32\<close> computes, whose bytes are those of the value in reverse order.\<close>

theorem put_u32_bytes:
  assumes put: "put_u32 tab i v = Some tab'"
  shows "get_u32 tab' i = Some v \<and> le_bytes 4 (unat (bswap32 v)) = rev (le_bytes 4 (unat v)) \<and>
    (\<exists>tab''. inplace_bswap32 tab' i = Some tab'' \<and> get_u32 tab'' i = Some (bswap32 v))"
proof -
  note get = get_put_u32 [OF put]
  have i: "i + 4 \<le> length tab'" using get_u32_bytes [OF get] by (simp add: rd_block_def split: if_splits)
  then obtain tab'' where tab'': "put_u32 tab' i (bswap32 v) = Some tab''"
    by (simp add: put_u32_def)
  then have "inplace_bswap32 tab' i = Some tab''" using get by (simp add: inplace_bswap32_def)
  with get get_put_u32 [OF tab''] bswap32_bytes show ?thesis by blast
qed

lemma put_u32_bytes_witness:
  "\<exists>tab'. put_u32 [1, 2, 3, 4, 5] 1 0xDEADBEEF = Some tab' \<and> get_u32 tab' 1 = Some 0xDEADBEEF"
proof -
  obtain tab' where put: "put_u32 [1, 2, 3, 4, 5] 1 0xDEADBEEF = Some tab'"
    by (simp add: put_u32_def)
  from put_u32_bytes [OF put] put show ?thesis by blast
qed

end
