(* ===== verification/Unicode_Lookup.thy ===== *)
theory Unicode_Lookup
  imports Unicode_Tables
begin

text \<open>
  The lookup in the compressed sets of \<^verbatim>\<open>quickjs/libunicode.c\<close>: a table is a list
  of runs that are alternately outside and inside the set, each coded in one to three bytes;
  an index gives the code point at every 32nd byte or a little behind it.
\<close>

definition get_le24 :: "u8 list \<Rightarrow> nat \<Rightarrow> u32 option" where
  "get_le24 bs p =
     do {
       b0 \<leftarrow> rd bs p;
       b1 \<leftarrow> rd bs (p + 1);
       b2 \<leftarrow> rd bs (p + 2);
       Some ((ucast b0 OR push_bit 8 (ucast b1)) OR push_bit 16 (ucast b2))
     }"

definition UNICODE_INDEX_BLOCK_LEN :: nat where
  "UNICODE_INDEX_BLOCK_LEN = 32"

text \<open>The code point of an index entry is in its low 21 bits, the offset above them.\<close>

definition index_code :: "u32 \<Rightarrow> u32" where
  "index_code v = v AND (push_bit 21 1 - 1)"

function index_search :: "u8 list \<Rightarrow> u32 \<Rightarrow> nat \<Rightarrow> nat \<Rightarrow> nat option" where
  "index_search index_table c idx_min idx_max =
     (if idx_max - idx_min > 1 then do {
        let idx = (idx_max + idx_min) div 2;
        v \<leftarrow> get_le24 index_table (idx * 3);
        if c < index_code v then index_search index_table c idx_min idx
        else index_search index_table c idx idx_max
      }
      else Some idx_min)"
  by pat_completeness auto
termination
  by (relation "measure (\<lambda>(index_table, c, idx_min, idx_max). idx_max - idx_min)") auto

declare index_search.simps [simp del]

text \<open>The result is \<open>None\<close> for -1, else the position in the table and the code point there.\<close>

definition get_index_pos :: "u32 \<Rightarrow> u8 list \<Rightarrow> nat \<Rightarrow> (nat \<times> u32) option option" where
  "get_index_pos c index_table index_table_len =
     do {
       v \<leftarrow> get_le24 index_table 0;
       if c < index_code v then Some (Some (0, 0))
       else do {
         let idx_max = index_table_len - 1;
         code \<leftarrow> get_le24 index_table (idx_max * 3);
         if c \<ge> code then Some None
         else do {
           idx_min \<leftarrow> index_search index_table c 0 idx_max;
           v \<leftarrow> get_le24 index_table (idx_min * 3);
           Some (Some ((idx_min + 1) * UNICODE_INDEX_BLOCK_LEN + unat (drop_bit 21 v), index_code v))
         }
       }
     }"

text \<open>
  One round of the walk through the table, from the byte at \<open>p\<close>: the answer, or the position,
  the code point and the bit to go on with.
\<close>

definition table_round :: "u32 \<Rightarrow> u8 list \<Rightarrow> nat \<Rightarrow> u32 \<Rightarrow> u32 \<Rightarrow> (bool + nat \<times> u32 \<times> u32) option" where
  "table_round c table p code inside =
     do {
       b \<leftarrow> rd table p;
       let b = (ucast b :: u32);
       let p = p + 1;
       if b < 64 then do {
         let code = code + (drop_bit 3 b + 1);
         if c < code then Some (Inl (inside \<noteq> 0))
         else do {
           let inside = inside XOR 1;
           let code = code + ((b AND 7) + 1);
           if c < code then Some (Inl (inside \<noteq> 0)) else Some (Inr (p, code, inside XOR 1))
         }
       }
       else do {
         (code, p) \<leftarrow>
           (if b \<ge> 0x80 then Some (code + (b - 0x80 + 1), p)
            else if b < 0x60 then do {
              b0 \<leftarrow> rd table p;
              Some (code + ((push_bit 8 (b - 0x40) OR ucast b0) + 1), p + 1)
            }
            else do {
              b0 \<leftarrow> rd table p;
              b1 \<leftarrow> rd table (p + 1);
              Some (code + (((push_bit 16 (b - 0x60) OR push_bit 8 (ucast b0)) OR ucast b1) + 1), p + 2)
            });
         if c < code then Some (Inl (inside \<noteq> 0)) else Some (Inr (p, code, inside XOR 1))
       }
     }"

lemma table_round_progress:
  "table_round c table p code inside = Some (Inr (p', code', inside')) \<Longrightarrow> p < p' \<and> p < length table"
  by (auto simp: table_round_def rd_def bind_eq_Some_conv Let_def split: if_splits)

function table_walk :: "u32 \<Rightarrow> u8 list \<Rightarrow> nat \<Rightarrow> u32 \<Rightarrow> u32 \<Rightarrow> bool option" where
  "table_walk c table p code inside =
     do {
       r \<leftarrow> table_round c table p code inside;
       (case r of
          Inl b \<Rightarrow> Some b
        | Inr (p, code, inside) \<Rightarrow> table_walk c table p code inside)
     }"
  by pat_completeness auto
termination
  by (relation "measure (\<lambda>(c, table, p, code, inside). length table - p)")
     (auto dest!: table_round_progress)

declare table_walk.simps [simp del]

definition lre_is_in_table :: "u32 \<Rightarrow> u8 list \<Rightarrow> u8 list \<Rightarrow> nat \<Rightarrow> bool option" where
  "lre_is_in_table c table index_table index_table_len =
     do {
       pos \<leftarrow> get_index_pos c index_table index_table_len;
       (case pos of
          None \<Rightarrow> Some False
        | Some (p, code) \<Rightarrow> table_walk c table p code 0)
     }"

definition lre_is_id_start :: "u32 \<Rightarrow> bool option" where
  "lre_is_id_start c =
     lre_is_in_table c unicode_prop_ID_Start_table unicode_prop_ID_Start_index
       (length unicode_prop_ID_Start_index div 3)"

definition lre_is_id_continue :: "u32 \<Rightarrow> bool option" where
  "lre_is_id_continue c =
     do {
       s \<leftarrow> lre_is_id_start c;
       if s then Some True
       else lre_is_in_table c unicode_prop_ID_Continue1_table unicode_prop_ID_Continue1_index
              (length unicode_prop_ID_Continue1_index div 3)
     }"

definition lre_is_white_space :: "u32 \<Rightarrow> bool option" where
  "lre_is_white_space c =
     lre_is_in_table c unicode_prop_White_Space_table unicode_prop_White_Space_index
       (length unicode_prop_White_Space_index div 3)"

definition lre_is_case_ignorable :: "u32 \<Rightarrow> bool option" where
  "lre_is_case_ignorable c =
     lre_is_in_table c unicode_prop_Case_Ignorable_table unicode_prop_Case_Ignorable_index
       (length unicode_prop_Case_Ignorable_index div 3)"

end
