(* ===== verification/Unicode_Sets.thy ===== *)
theory Unicode_Sets
  imports Unicode_Lookup
begin

text \<open>
  The indexed lookup against its reference: a table decodes to a list of run lengths, and the
  set contains the code points with an odd number of run ends that do not exceed them.  An
  index is good for a table when each of its entries points at the start of a coded run
  outside the set, with the code point that the runs before it add up to.
\<close>

section \<open>The reference decoder\<close>

text \<open>The runs that are coded at the front of the byte values, and the number of bytes they take.\<close>

definition chunk :: "int list \<Rightarrow> (int list \<times> nat) option" where
  "chunk bs =
     (case bs of
        [] \<Rightarrow> None
      | b # rest \<Rightarrow>
          if b < 64 then Some ([b div 8 + 1, b mod 8 + 1], 1)
          else if b \<ge> 0x80 then Some ([b - 0x80 + 1], 1)
          else if b < 0x60 then
            (case rest of
               b0 # _ \<Rightarrow> Some ([(b - 0x40) * 256 + b0 + 1], 2)
             | _ \<Rightarrow> None)
          else
            (case rest of
               b0 # b1 # _ \<Rightarrow> Some ([(b - 0x60) * 65536 + b0 * 256 + b1 + 1], 3)
             | _ \<Rightarrow> None))"

lemma chunk_progress: "chunk bs = Some (rs, n) \<Longrightarrow> 0 < n \<and> bs \<noteq> []"
  by (auto simp: chunk_def split: list.splits if_splits)

function table_runs :: "int list \<Rightarrow> int list option" where
  "table_runs bs =
     (if bs = [] then Some []
      else case chunk bs of
        None \<Rightarrow> None
      | Some (rs, n) \<Rightarrow> (case table_runs (drop n bs) of None \<Rightarrow> None | Some rest \<Rightarrow> Some (rs @ rest)))"
  by pat_completeness auto
termination
  by (relation "measure length") (auto dest: chunk_progress)

text \<open>The positions and code points at which a run outside the set starts a byte.\<close>

function table_states :: "int \<Rightarrow> int \<Rightarrow> bool \<Rightarrow> int list \<Rightarrow> (int \<times> int) list" where
  "table_states p code inside bs =
     (if inside then [] else [(p, code)]) @
     (case chunk bs of
        None \<Rightarrow> []
      | Some (rs, n) \<Rightarrow> table_states (p + int n) (code + sum_list rs) (inside \<noteq> odd (length rs)) (drop n bs))"
  by pat_completeness auto
termination
  by (relation "measure (\<lambda>(p, code, inside, bs). length bs)") (auto dest: chunk_progress)

declare table_runs.simps [simp del] table_states.simps [simp del]

fun run_ends :: "int \<Rightarrow> int list \<Rightarrow> int list" where
  "run_ends code [] = []"
| "run_ends code (r # rs) = (code + r) # run_ends (code + r) rs"

definition ends_below :: "int \<Rightarrow> int list \<Rightarrow> int \<Rightarrow> nat" where
  "ends_below code rs c = length (filter (\<lambda>e. e \<le> c) (run_ends code rs))"

lemma ends_below_simps [simp]:
  "ends_below code [] c = 0"
  "ends_below code (r # rs) c = (if code + r \<le> c then 1 else 0) + ends_below (code + r) rs c"
  by (simp_all add: ends_below_def)

lemma ends_below_append: "ends_below code (rs @ rs') c = ends_below code rs c + ends_below (code + sum_list rs) rs' c"
  by (induction rs arbitrary: code) (simp_all add: add.assoc)

lemma ends_below_none: "\<forall>r \<in> set rs. 0 \<le> r \<Longrightarrow> c < code \<Longrightarrow> ends_below code rs c = 0"
  by (induction rs arbitrary: code) auto

lemma ends_below_all:
  "\<forall>r \<in> set rs. 0 \<le> r \<Longrightarrow> code + sum_list rs \<le> c \<Longrightarrow> ends_below code rs c = length rs"
proof (induction rs arbitrary: code)
  case (Cons r rs)
  have "0 \<le> sum_list rs" using Cons.prems(1) by (intro sum_list_nonneg) simp
  then show ?case using Cons.prems Cons.IH [of "code + r"] by (simp add: add.assoc)
qed simp

lemma byte_bounds: "0 \<le> uint (b :: u8)" "uint (b :: u8) < 256"
  using unsigned_less [where 'a = int, of b] by simp_all

text \<open>The four forms of a coded run.\<close>

lemma chunk_cases:
  assumes "chunk (map uint (bs :: u8 list)) = Some (rs, n)"
  obtains
    (short) b rest where "bs = b # rest" and "uint b < 64" and "rs = [uint b div 8 + 1, uint b mod 8 + 1]" and "n = 1"
  | (one) b rest where "bs = b # rest" and "0x80 \<le> uint b" and "rs = [uint b - 0x80 + 1]" and "n = 1"
  | (two) b b0 rest where "bs = b # b0 # rest" and "0x40 \<le> uint b" and "uint b < 0x60"
      and "rs = [(uint b - 0x40) * 256 + uint b0 + 1]" and "n = 2"
  | (three) b b0 b1 rest where "bs = b # b0 # b1 # rest" and "0x60 \<le> uint b" and "uint b < 0x80"
      and "rs = [(uint b - 0x60) * 65536 + uint b0 * 256 + uint b1 + 1]" and "n = 3"
proof (cases bs)
  case Nil
  with assms show ?thesis by (simp add: chunk_def)
next
  case (Cons b rest)
  consider "uint b < 64" | "0x80 \<le> uint b" | "0x40 \<le> uint b" "uint b < 0x60" | "0x60 \<le> uint b" "uint b < 0x80"
    by linarith
  then show ?thesis
  proof cases
    case 1
    with assms Cons show ?thesis by (intro short) (auto simp: chunk_def)
  next
    case 2
    with assms Cons show ?thesis by (intro one) (auto simp: chunk_def)
  next
    case 3
    with assms Cons obtain b0 rest' where "rest = b0 # rest'" "rs = [(uint b - 0x40) * 256 + uint b0 + 1]" "n = 2"
      by (auto simp: chunk_def split: list.splits)
    with 3 Cons show ?thesis by (intro two) simp_all
  next
    case 4
    with assms Cons obtain b0 b1 rest' where "rest = b0 # b1 # rest'" "n = 3"
      "rs = [(uint b - 0x60) * 65536 + uint b0 * 256 + uint b1 + 1]"
      by (auto simp: chunk_def split: list.splits)
    with 4 Cons show ?thesis by (intro three) simp_all
  qed
qed

lemma chunk_pos:
  assumes "chunk (map uint (bs :: u8 list)) = Some (rs, n)" and "r \<in> set rs"
  shows "0 < r"
  using assms(1)
proof (cases rule: chunk_cases)
  case (short b rest)
  have "0 \<le> uint b div 8" by (rule pos_imp_zdiv_nonneg_iff [THEN iffD2]) simp_all
  then show ?thesis using short assms(2) by auto
next
  case (one b rest)
  then show ?thesis using assms(2) by simp
next
  case (two b b0 rest)
  from this assms(2) have "r = (uint b - 0x40) * 256 + uint b0 + 1" by simp
  moreover have "0 \<le> (uint b - 0x40) * 256" using two(2) by simp
  ultimately show ?thesis using byte_bounds(1) [of b0] by linarith
next
  case (three b b0 b1 rest)
  from this assms(2) have "r = (uint b - 0x60) * 65536 + uint b0 * 256 + uint b1 + 1" by simp
  moreover have "0 \<le> (uint b - 0x60) * 65536" using three(2) by simp
  ultimately show ?thesis using byte_bounds(1) [of b0] byte_bounds(1) [of b1] by linarith
qed

lemma table_runs_pos: "table_runs (map uint (bs :: u8 list)) = Some rs \<Longrightarrow> r \<in> set rs \<Longrightarrow> 0 < r"
proof (induction "length bs" arbitrary: bs rs rule: less_induct)
  case less
  show ?case
  proof (cases "bs = []")
    case False
    with less.prems(1) obtain r1 n rest where r1: "chunk (map uint bs) = Some (r1, n)"
      and rest: "table_runs (map uint (drop n bs)) = Some rest" and rs: "rs = r1 @ rest"
      by (subst (asm) table_runs.simps) (auto simp: drop_map split: option.splits)
    have "length (drop n bs) < length bs" using chunk_progress [OF r1] False by simp
    from less.hyps [OF this rest] show ?thesis using less.prems(2) chunk_pos [OF r1] rs by auto
  qed (use less.prems in \<open>simp add: table_runs.simps\<close>)
qed

lemma table_runs_step:
  assumes "table_runs bs = Some rs" and "bs \<noteq> []"
  obtains r1 n rest where "chunk bs = Some (r1, n)" and "table_runs (drop n bs) = Some rest" and "rs = r1 @ rest"
  using assms by (subst (asm) table_runs.simps) (auto split: option.splits)

section \<open>The walk\<close>

lemma less_word_of_int: "0 \<le> k \<Longrightarrow> k < 2 ^ 32 \<Longrightarrow> (c :: u32) < word_of_int k \<longleftrightarrow> uint c < k"
  by (simp add: word_less_def uint_word_of_int_eq take_bit_int_eq_self)

lemma push_or_byte: "push_bit 8 (word_of_int k :: u32) OR ucast (b :: u8) = word_of_int (k * 256 + uint b)"
proof -
  have "unat (ucast b :: u32) < 2 ^ 8"
    using unsigned_less [where 'a = nat, of b] by (simp add: unsigned_ucast_eq take_bit_nat_eq_self)
  then have "ucast b AND push_bit 8 (word_of_int k :: u32) = 0" by (rule and_mask_field)
  then have "push_bit 8 (word_of_int k :: u32) OR ucast b = push_bit 8 (word_of_int k) + ucast b"
    by (intro or_is_add) (simp add: and.commute)
  then show ?thesis by (simp add: push_bit_eq_mult)
qed

lemma uint_ucast_byte: "uint (ucast (b :: u8) :: u32) = uint b"
  using unsigned_less [where 'a = int, of b] by (simp add: unsigned_ucast_eq take_bit_int_eq_self)

lemma high_bits: "drop_bit 3 (ucast (b :: u8) :: u32) = word_of_int (uint b div 8)"
proof -
  have "take_bit 32 (uint b) = uint b" using byte_bounds(2) [of b] by (simp add: take_bit_int_eq_self)
  then have "uint (drop_bit 3 (ucast b :: u32)) = uint b div 8"
    by (simp only: unsigned_drop_bit_eq drop_bit_eq_div [where 'a = int] uint_ucast_byte) simp
  then show ?thesis by (metis word_of_int_uint)
qed

lemma low_bits: "(ucast (b :: u8) :: u32) AND 7 = word_of_int (uint b mod 8)"
proof -
  have "uint ((ucast b :: u32) AND 7) = uint b AND 7"
    by (simp only: uint_and uint_ucast_byte) simp
  also have "\<dots> = uint b mod 8" using take_bit_eq_mask [of 3 "uint b"] by (simp add: take_bit_eq_mod mask_eq_exp_minus_1)
  finally show ?thesis by (metis word_of_int_uint)
qed

lemma rd_drop: "rd table (p + k) = rd (drop p table) k"
  by (auto simp: rd_def)

lemma wide_bounds:
  fixes b :: u8
  shows "(ucast b :: u32) < 64 \<longleftrightarrow> uint b < 64" and "0x80 \<le> (ucast b :: u32) \<longleftrightarrow> 0x80 \<le> uint b"
    and "(ucast b :: u32) < 0x60 \<longleftrightarrow> uint b < 0x60"
  unfolding word_less_def word_le_def uint_ucast_byte by simp_all

text \<open>One round of the walk moves on by the runs that are coded at its position.\<close>

lemma table_round_chunk:
  assumes ch: "chunk (map uint (drop p table)) = Some (rs, n)" and code: "0 \<le> code" "code + sum_list rs < 2 ^ 32"
    and bit: "inside \<in> {0, 1}"
  shows "table_round c table p (word_of_int code) inside =
    Some (if uint c < code + sum_list rs
          then Inl ((inside \<noteq> 0) \<noteq> odd (ends_below code rs (uint c)))
          else Inr (p + n, word_of_int (code + sum_list rs), if odd (length rs) then inside XOR 1 else inside))"
proof -
  have pos: "0 < r" if "r \<in> set rs" for r using chunk_pos [OF ch that] .
  have less: "c < word_of_int k \<longleftrightarrow> uint c < k" if "0 \<le> k" "k < 2 ^ 32" for k
    using that by (rule less_word_of_int)
  have single: ?thesis
    if rs: "rs = [r]" and round: "table_round c table p (word_of_int code) inside =
      (if c < word_of_int (code + r) then Some (Inl (inside \<noteq> 0)) else Some (Inr (p + n, word_of_int (code + r), inside XOR 1)))"
    for r
    using rs code pos [of r] less [of "code + r"] unfolding round by (auto simp del: of_int_add)
  show ?thesis
    using ch
  proof (cases rule: chunk_cases)
    case (short b rest)
    define r1 r2 where "r1 = uint b div 8 + 1" and "r2 = uint b mod 8 + 1"
    have rs: "rs = [r1, r2]" using short(3) by (simp add: r1_def r2_def)
    have r: "0 < r1" "0 < r2" using pos rs by simp_all
    have w1: "word_of_int code + (drop_bit 3 (ucast b) + 1) = (word_of_int (code + r1) :: u32)"
      by (simp only: high_bits r1_def) simp
    have w2: "word_of_int (code + r1) + ((ucast b AND 7) + 1) = (word_of_int (code + r1 + r2) :: u32)"
      by (simp only: low_bits r2_def) simp
    have rd0: "rd table p = Some b" using rd_drop [of table p 0] short(1) by simp
    have "table_round c table p (word_of_int code) inside =
        (if c < word_of_int (code + r1) then Some (Inl (inside \<noteq> 0))
         else if c < word_of_int (code + r1 + r2) then Some (Inl (inside XOR 1 \<noteq> 0))
         else Some (Inr (p + 1, word_of_int (code + r1 + r2), (inside XOR 1) XOR 1)))"
      unfolding table_round_def rd0 bind.bind_lunit Let_def wide_bounds w1 w2 using short(2) by simp
    moreover have "uint c < code + r1 \<Longrightarrow> uint c < code + r1 + r2" using r by simp
    moreover have "(inside XOR 1 \<noteq> 0) = (\<not> inside \<noteq> 0)" "(inside XOR 1) XOR 1 = inside" using bit by auto
    ultimately show ?thesis
      using code r rs short(4) less [of "code + r1"] less [of "code + r1 + r2"] by (auto simp: add.assoc)
  next
    case (one b rest)
    have rd0: "rd table p = Some b" using rd_drop [of table p 0] one(1) by simp
    have w: "word_of_int code + (ucast b - 0x80 + 1) = (word_of_int (code + (uint b - 0x80 + 1)) :: u32)"
      by (simp add: algebra_simps)
    show ?thesis
      by (rule single [OF one(3)])
        (unfold table_round_def rd0 bind.bind_lunit Let_def wide_bounds, use one(2,4) w in simp)
  next
    case (two b b0 rest)
    have rd0: "rd table p = Some b" "rd table (p + 1) = Some b0"
      using rd_drop [of table p 0] rd_drop [of table p 1] two(1) by simp_all
    have "ucast b - 0x40 = (word_of_int (uint b - 0x40) :: u32)" by simp
    then have w: "word_of_int code + ((push_bit 8 (ucast b - 0x40) OR ucast b0) + 1) =
        (word_of_int (code + ((uint b - 0x40) * 256 + uint b0 + 1)) :: u32)"
      by (simp only: push_or_byte) (simp add: algebra_simps)
    have round: "table_round c table p (word_of_int code) inside =
        (if c < word_of_int code + ((push_bit 8 (ucast b - 0x40) OR ucast b0) + 1) then Some (Inl (inside \<noteq> 0))
         else Some (Inr (p + n, word_of_int code + ((push_bit 8 (ucast b - 0x40) OR ucast b0) + 1), inside XOR 1)))"
      unfolding table_round_def rd0 bind.bind_lunit Let_def wide_bounds
      using two(2,3,5) by (simp add: rd0(2) [simplified])
    show ?thesis by (rule single [OF two(4)]) (simp only: round w)
  next
    case (three b b0 b1 rest)
    have rd0: "rd table p = Some b" "rd table (p + 1) = Some b0" "rd table (p + 1 + 1) = Some b1"
      using rd_drop [of table p 0] rd_drop [of table p 1] rd_drop [of table p 2] three(1)
      by (simp_all add: numeral_2_eq_2)
    have "push_bit 16 (ucast b - 0x60) OR push_bit 8 (ucast b0) =
        (push_bit 8 (push_bit 8 (word_of_int (uint b - 0x60)) OR ucast b0) :: u32)"
      by (simp add: push_bit_or push_bit_push_bit)
    then have w: "word_of_int code + (((push_bit 16 (ucast b - 0x60) OR push_bit 8 (ucast b0)) OR ucast b1) + 1) =
        (word_of_int (code + ((uint b - 0x60) * 65536 + uint b0 * 256 + uint b1 + 1)) :: u32)"
      by (simp only: push_or_byte) (simp add: algebra_simps)
    have round: "table_round c table p (word_of_int code) inside =
        (if c < word_of_int code + (((push_bit 16 (ucast b - 0x60) OR push_bit 8 (ucast b0)) OR ucast b1) + 1) then Some (Inl (inside \<noteq> 0))
         else Some (Inr (p + n, word_of_int code + (((push_bit 16 (ucast b - 0x60) OR push_bit 8 (ucast b0)) OR ucast b1) + 1), inside XOR 1)))"
      unfolding table_round_def rd0 bind.bind_lunit Let_def wide_bounds
      using three(2,3,5) by (simp add: rd0(2,3) [simplified])
    show ?thesis by (rule single [OF three(4)]) (simp only: round w)
  qed
qed

lemma table_walk_runs:
  assumes "table_runs (map uint (drop p table)) = Some rs" and "0 \<le> code" and "code + sum_list rs < 2 ^ 32"
    and "code \<le> uint c" and "uint c < code + sum_list rs" and "inside \<in> {0, 1}"
  shows "table_walk c table p (word_of_int code) inside = Some ((inside \<noteq> 0) \<noteq> odd (ends_below code rs (uint c)))"
  using assms
proof (induction "length table - p" arbitrary: p rs code inside rule: less_induct)
  case less
  have "map uint (drop p table) \<noteq> []"
    using less.prems(1,4,5) by (auto simp: table_runs.simps)
  with less.prems(1) obtain r1 n rest where r1: "chunk (map uint (drop p table)) = Some (r1, n)"
    and rest': "table_runs (drop n (map uint (drop p table))) = Some rest" and rs: "rs = r1 @ rest"
    by (rule table_runs_step)
  have rest: "table_runs (map uint (drop n (drop p table))) = Some rest" using rest' by (simp only: drop_map)
  have pos1: "\<forall>r \<in> set r1. 0 \<le> r" using chunk_pos [OF r1] by (auto intro: less_imp_le)
  have pos: "\<forall>r \<in> set rest. 0 \<le> r" using table_runs_pos [OF rest] by (auto intro: less_imp_le)
  have sums: "0 \<le> sum_list r1" "0 \<le> sum_list rest"
    using pos1 pos by (auto intro!: sum_list_nonneg)
  have "code + sum_list r1 < 2 ^ 32" using less.prems(3) rs sums(2) by simp
  note round = table_round_chunk [OF r1 less.prems(2) this less.prems(6)]
  show ?case
  proof (cases "uint c < code + sum_list r1")
    case True
    then show ?thesis
      using ends_below_none [OF pos True] by (subst table_walk.simps) (simp add: round rs ends_below_append)
  next
    case False
    let ?code = "code + sum_list r1" and ?in = "if odd (length r1) then inside XOR 1 else inside"
    have "table_walk c table p (word_of_int code) inside = table_walk c table (p + n) (word_of_int ?code) ?in"
      using False by (subst table_walk.simps) (simp add: round del: of_int_add)
    also have "\<dots> = Some ((?in \<noteq> 0) \<noteq> odd (ends_below ?code rest (uint c)))"
    proof (rule less.hyps)
      show "length table - (p + n) < length table - p"
        using chunk_progress [OF r1] by auto
      show "table_runs (map uint (drop (p + n) table)) = Some rest" using rest by (simp add: add.commute)
    qed (use less.prems sums rs False in auto)
    also have "(?in \<noteq> 0) = ((inside \<noteq> 0) \<noteq> odd (length r1))" using less.prems(6) by auto
    also have "length r1 = ends_below code r1 (uint c)" using ends_below_all [OF pos1] False by simp
    finally show ?thesis by (auto simp: rs ends_below_append)
  qed
qed

section \<open>The index\<close>

text \<open>The states of the table are the prefixes with an even number of runs.\<close>

lemma table_states_prefix:
  assumes "(q, k) \<in> set (table_states p code inside bs)" and "table_runs bs = Some rs"
  shows "\<exists>rs1 rs2 n. rs = rs1 @ rs2 \<and> q = p + int n \<and> k = code + sum_list rs1 \<and>
    inside = odd (length rs1) \<and> table_runs (drop n bs) = Some rs2"
  using assms
proof (induction p code inside bs arbitrary: rs rule: table_states.induct)
  case (1 p code inside bs)
  show ?case
  proof (cases "\<not> inside \<and> (q, k) = (p, code)")
    case True
    then show ?thesis using "1.prems"(2)
      by (intro exI [of _ "[]"] exI [of _ rs] exI [of _ 0]) simp
  next
    case False
    with "1.prems"(1) [unfolded table_states.simps [of p code inside bs]] obtain r1 n where r1: "chunk bs = Some (r1, n)"
      and mem: "(q, k) \<in> set (table_states (p + int n) (code + sum_list r1) (inside \<noteq> odd (length r1)) (drop n bs))"
      by (cases "chunk bs") (auto split: if_splits)
    have "bs \<noteq> []" using chunk_progress [OF r1] by simp
    from table_runs_step [OF "1.prems"(2) this] r1 obtain rest
      where rest: "table_runs (drop n bs) = Some rest" and rs: "rs = r1 @ rest"
      by (metis option.inject prod.inject)
    from "1.IH" [OF r1 refl mem rest] obtain rs1 rs2 m where
      "rest = rs1 @ rs2" "q = p + int n + int m" "k = code + sum_list r1 + sum_list rs1"
      "(inside \<noteq> odd (length r1)) = odd (length rs1)" "table_runs (drop m (drop n bs)) = Some rs2" by blast
    then show ?thesis using rs
      by (intro exI [of _ "r1 @ rs1"] exI [of _ rs2] exI [of _ "n + m"]) (auto simp: add.commute)
  qed
qed

text \<open>The entries of an index, three bytes each.\<close>

fun index_entries :: "int \<Rightarrow> int list \<Rightarrow> (int \<times> int) list" where
  "index_entries k (b0 # b1 # b2 # bs) =
     ((k + 1) * 32 + b2 div 32, b0 + b1 * 256 + b2 mod 32 * 65536) # index_entries (k + 1) bs"
| "index_entries k _ = []"

lemma nth_index_entries:
  assumes "3 * i + 2 < length bs"
  shows "index_entries k bs ! i =
    ((k + int i + 1) * 32 + bs ! (3 * i + 2) div 32,
     bs ! (3 * i) + bs ! (3 * i + 1) * 256 + bs ! (3 * i + 2) mod 32 * 65536)"
  using assms
proof (induction k bs arbitrary: i rule: index_entries.induct)
  case (1 k b0 b1 b2 bs)
  show ?case
  proof (cases i)
    case (Suc j)
    then have "3 * j + 2 < length bs" using 1(2) by simp
    from 1(1) [OF this] Suc show ?thesis by (simp add: algebra_simps)
  qed simp
qed simp_all

lemma length_index_entries: "length (index_entries k bs) = length bs div 3"
  by (induction k bs rule: index_entries.induct) simp_all

text \<open>The bytes of an entry as a word.\<close>

lemma get_le24_uint:
  assumes "p + 2 < length bs"
  shows "get_le24 bs p = Some (word_of_int (uint (bs ! p) + uint (bs ! (p + 1)) * 256 + uint (bs ! (p + 2)) * 65536))"
proof -
  have "(ucast (bs ! p) OR push_bit 8 (ucast (bs ! (p + 1)))) OR push_bit 16 (ucast (bs ! (p + 2))) =
      (push_bit 8 (push_bit 8 (word_of_int (uint (bs ! (p + 2)))) OR ucast (bs ! (p + 1))) OR ucast (bs ! p) :: u32)"
    by (simp add: push_bit_or push_bit_push_bit ac_simps)
  then show ?thesis
    using assms unfolding get_le24_def by (simp only: push_or_byte) (simp add: algebra_simps)
qed

lemma index_code_uint: "uint (index_code v) = uint v mod 2097152"
proof -
  have "index_code v = take_bit 21 v"
    by (simp add: index_code_def take_bit_eq_mask mask_eq_exp_minus_1)
  then show ?thesis by (simp only: unsigned_take_bit_eq take_bit_eq_mod [where 'a = int]) simp
qed

lemma drop_bit_21_uint: "uint (drop_bit 21 (v :: u32)) = uint v div 2097152"
proof -
  have "take_bit 32 (uint v) = uint v" by (rule take_bit_int_eq_self) (use unsigned_less [where 'a = int, of v] in simp_all)
  then show ?thesis by (simp only: unsigned_drop_bit_eq drop_bit_eq_div [where 'a = int]) simp
qed

lemma entry_value: "a + b * 256 + d * 65536 = (d div 32) * 2097152 + (a + b * 256 + d mod 32 * 65536)" for a b d :: int
  using div_mult_mod_eq [of d 32] by linarith

lemma entry_parts:
  fixes a b d :: int
  assumes "0 \<le> a" "a < 256" "0 \<le> b" "b < 256" "0 \<le> d" "d < 256"
    and v: "v = (word_of_int (a + b * 256 + d * 65536) :: u32)"
  shows "uint (index_code v) = a + b * 256 + d mod 32 * 65536" and "uint (drop_bit 21 v) = d div 32"
    and "uint v = a + b * 256 + d * 65536"
proof -
  have bounds: "0 \<le> a + b * 256 + d * 65536" "a + b * 256 + d * 65536 < 2 ^ 32" using assms(1-6) by simp_all
  show u: "uint v = a + b * 256 + d * 65536"
    unfolding v uint_word_of_int_eq using bounds by (intro take_bit_int_eq_self) simp_all
  have "0 \<le> d mod 32" "d mod 32 < 32" by simp_all
  then have low: "0 \<le> a + b * 256 + d mod 32 * 65536" "a + b * 256 + d mod 32 * 65536 < 2097152"
    using assms(1-6) by linarith+
  show "uint (index_code v) = a + b * 256 + d mod 32 * 65536"
    unfolding index_code_uint u entry_value [of a b d] using low by (simp only: mod_mult_self3 mod_pos_pos_trivial)
  show "uint (drop_bit 21 v) = d div 32"
    unfolding drop_bit_21_uint u entry_value [of a b d] using low by simp
qed

lemma get_entry:
  assumes "i < length bs div 3"
  obtains v where "get_le24 bs (i * 3) = Some v" and "uint (index_code v) = snd (index_entries 0 (map uint bs) ! i)"
    and "(int i + 1) * 32 + uint (drop_bit 21 v) = fst (index_entries 0 (map uint bs) ! i)"
    and "uint (drop_bit 21 v) = 0 \<longrightarrow> uint v = uint (index_code v)"
proof -
  have i: "3 * i + 2 < length bs" using assms by simp
  let ?a = "uint (bs ! (3 * i))" and ?b = "uint (bs ! (3 * i + 1))" and ?d = "uint (bs ! (3 * i + 2))"
  define v :: u32 where "v = word_of_int (?a + ?b * 256 + ?d * 65536)"
  note parts = entry_parts [OF byte_bounds byte_bounds byte_bounds v_def]
  show thesis
  proof (rule that [of v])
    show "get_le24 bs (i * 3) = Some v"
      using get_le24_uint [of "3 * i" bs] i by (simp add: v_def mult.commute)
    show "uint (drop_bit 21 v) = 0 \<longrightarrow> uint v = uint (index_code v)"
    proof
      assume that: "uint (drop_bit 21 v) = 0"
      have "?d mod 32 = ?d" using that parts(2) div_mult_mod_eq [of ?d 32] by simp
      then show "uint v = uint (index_code v)" unfolding parts(1,3) by simp
    qed
  qed (use i in \<open>simp_all add: nth_index_entries parts\<close>)
qed

lemma index_search_le:
  assumes "hi < length bs div 3" and "lo < hi" and "snd (index_entries 0 (map uint bs) ! lo) \<le> uint c"
  shows "\<exists>k. index_search bs c lo hi = Some k \<and> k < hi \<and> snd (index_entries 0 (map uint bs) ! k) \<le> uint c"
  using assms
proof (induction bs c lo hi rule: index_search.induct)
  case (1 bs c lo hi)
  show ?case
  proof (cases "hi - lo > 1")
    case False
    then show ?thesis using "1.prems" by (subst index_search.simps) auto
  next
    case True
    define m where "m = (hi + lo) div 2"
    have m: "lo < m" "m < hi" using True by (simp_all add: m_def)
    then have "m < length bs div 3" using "1.prems"(1) by simp
    then obtain v where v: "get_le24 bs (m * 3) = Some v" "uint (index_code v) = snd (index_entries 0 (map uint bs) ! m)"
      by (rule get_entry)
    show ?thesis
    proof (cases "c < index_code v")
      case left: True
      have "index_search bs c lo hi = index_search bs c lo m"
        using True left v(1) by (subst index_search.simps) (simp add: m_def [symmetric] Let_def)
      then show ?thesis
        using "1.IH"(1) [OF True m_def v(1) left] "1.prems" m by fastforce
    next
      case False
      then have "snd (index_entries 0 (map uint bs) ! m) \<le> uint c" by (simp add: v(2) [symmetric] word_less_def)
      moreover have "index_search bs c lo hi = index_search bs c m hi"
        using True False v(1) by (subst index_search.simps) (simp add: m_def [symmetric] Let_def)
      ultimately show ?thesis
        using "1.IH"(2) [OF True m_def v(1) False] "1.prems" m by fastforce
    qed
  qed
qed

section \<open>The lookup\<close>

definition index_limit :: "u8 list \<Rightarrow> int" where
  "index_limit index = snd (last (index_entries 0 (map uint index)))"

definition index_good :: "u8 list \<Rightarrow> u8 list \<Rightarrow> bool" where
  "index_good table index \<longleftrightarrow>
     (case table_runs (map uint table) of
        None \<Rightarrow> False
      | Some rs \<Rightarrow>
          let es = index_entries 0 (map uint index) in
          es \<noteq> [] \<and> sum_list rs < 4294967296 \<and>
          set (butlast es) \<subseteq> set (table_states 0 0 False (map uint table)) \<and>
          fst (last es) = int (length es) * 32 \<and> snd (last es) \<le> sum_list rs \<and> snd (hd es) \<le> snd (last es))"

text \<open>
  What the index tells of a code point: it is in front of the first entry, behind the last one, or
  the walk starts at an entry that does not exceed it.
\<close>

lemma get_index_pos_cases:
  fixes c :: u32 and index :: "u8 list"
  assumes es: "index_entries 0 (map uint index) = es" "es \<noteq> []"
    and last: "fst (last es) = int (length es) * 32" "snd (hd es) \<le> snd (last es)"
  obtains
    (front) "get_index_pos c index (length index div 3) = Some (Some (0, 0))" and "uint c < index_limit index"
  | (behind) "get_index_pos c index (length index div 3) = Some None" and "index_limit index \<le> uint c"
  | (entry) m code where "get_index_pos c index (length index div 3) = Some (Some (m, word_of_int code))"
      and "(int m, code) \<in> set (butlast es)" and "code \<le> uint c" and "uint c < index_limit index"
proof -
  let ?n = "length index div 3"
  have n: "length es = ?n" by (simp flip: es(1) add: length_index_entries)
  then have n0: "0 < ?n" using es(2) by (metis length_greater_0_conv)
  have get: "\<exists>v. get_le24 index (i * 3) = Some v \<and> uint (index_code v) = snd (es ! i) \<and>
      (int i + 1) * 32 + uint (drop_bit 21 v) = fst (es ! i) \<and> (uint (drop_bit 21 v) = 0 \<longrightarrow> uint v = uint (index_code v))"
    if "i < ?n" for i
    using get_entry [OF that] unfolding es(1) by metis
  from get [OF n0] obtain v0 where v0: "get_le24 index 0 = Some v0" "uint (index_code v0) = snd (es ! 0)" by auto
  have "?n - 1 < ?n" using n0 by simp
  from get [OF this] obtain w where w: "get_le24 index ((?n - 1) * 3) = Some w" "uint (index_code w) = snd (es ! (?n - 1))"
      "(int (?n - 1) + 1) * 32 + uint (drop_bit 21 w) = fst (es ! (?n - 1))"
      "uint (drop_bit 21 w) = 0 \<longrightarrow> uint w = uint (index_code w)" by blast
  have lastn: "last es = es ! (?n - 1)" using es(2) n by (simp add: last_conv_nth)
  have limit: "index_limit index = snd (last es)" by (simp add: index_limit_def es(1))
  have w_limit: "uint w = index_limit index"
    using w(2,3,4) last(1) n0 n unfolding lastn limit by (simp add: of_nat_diff)
  have first: "snd (es ! 0) \<le> index_limit index"
    using last(2) es(2) by (simp add: limit hd_conv_nth)
  show thesis
  proof (cases "c < index_code v0")
    case True
    then have "uint c < index_limit index" using v0(2) first by (simp add: word_less_def)
    then show thesis using True v0(1) by (intro front) (simp_all add: get_index_pos_def)
  next
    case False
    then have ge: "snd (es ! 0) \<le> uint c" using v0(2) by (simp add: word_less_def)
    show thesis
    proof (cases "c \<ge> w")
      case True
      then have "index_limit index \<le> uint c" using w_limit by (simp add: word_le_def)
      then show thesis using False True v0(1) w(1) by (intro behind) (simp_all add: get_index_pos_def Let_def)
    next
      case below: False
      then have lim: "uint c < index_limit index" using w_limit by (simp add: word_le_def)
      have "0 < ?n - 1"
      proof (rule ccontr)
        assume "\<not> 0 < ?n - 1"
        then have "es ! 0 = last es" using lastn by simp
        then show False using ge lim limit by simp
      qed
      with index_search_le [OF \<open>?n - 1 < ?n\<close> _ ge [folded es(1)]] obtain k where
        k: "index_search index c 0 (?n - 1) = Some k" "k < ?n - 1" "snd (es ! k) \<le> uint c" unfolding es(1) by blast
      have "k < ?n" using k(2) by simp
      from get [OF this] obtain v where v: "get_le24 index (k * 3) = Some v" "uint (index_code v) = snd (es ! k)"
        "(int k + 1) * 32 + uint (drop_bit 21 v) = fst (es ! k)" by blast
      have "es ! k = butlast es ! k" using k(2) n by (simp add: nth_butlast)
      then have mem: "es ! k \<in> set (butlast es)" using k(2) n by simp
      let ?m = "(k + 1) * UNICODE_INDEX_BLOCK_LEN + unat (drop_bit 21 v)"
      have at: "int ?m = fst (es ! k)"
        using v(3) by (simp add: UNICODE_INDEX_BLOCK_LEN_def algebra_simps)
      have code: "index_code v = word_of_int (snd (es ! k))"
        using v(2) by (metis word_of_int_uint)
      have "get_index_pos c index ?n = Some (Some (?m, word_of_int (snd (es ! k))))"
        using False below v0(1) w(1) k(1) v(1) by (simp add: get_index_pos_def Let_def code)
      then show thesis using at mem k(3) lim by (intro entry [of ?m "snd (es ! k)"]) simp_all
    qed
  qed
qed

theorem lre_is_in_table_runs:
  assumes good: "index_good table index" and runs: "table_runs (map uint table) = Some rs"
  shows "lre_is_in_table c table index (length index div 3) =
    Some (uint c < index_limit index \<and> odd (ends_below 0 rs (uint c)))"
proof -
  let ?es = "index_entries 0 (map uint index)"
  have es: "?es \<noteq> []" and total: "sum_list rs < 4294967296"
    and listed: "set (butlast ?es) \<subseteq> set (table_states 0 0 False (map uint table))"
    and last: "fst (last ?es) = int (length ?es) * 32" "index_limit index \<le> sum_list rs" "snd (hd ?es) \<le> snd (last ?es)"
    using good runs by (auto simp: index_good_def index_limit_def Let_def)
  show ?thesis
  proof (cases rule: get_index_pos_cases [OF refl es last(1,3), of c, case_names front behind entry])
    case front
    then have "table_walk c table 0 (word_of_int 0) 0 = Some ((0 \<noteq> (0 :: u32)) \<noteq> odd (ends_below 0 rs (uint c)))"
      using runs total last(2) by (intro table_walk_runs) simp_all
    then show ?thesis using front by (simp add: lre_is_in_table_def)
  next
    case behind
    then show ?thesis by (simp add: lre_is_in_table_def)
  next
    case (entry m code)
    then have "(int m, code) \<in> set (table_states 0 0 False (map uint table))" using listed by blast
    from table_states_prefix [OF this runs] obtain rs1 rs2 where rs: "rs = rs1 @ rs2" and code: "code = sum_list rs1"
        "even (length rs1)" "table_runs (map uint (drop m table)) = Some rs2"
      by (auto simp: drop_map)
    have nonneg: "\<forall>r \<in> set rs1. 0 \<le> r" using table_runs_pos [OF runs] rs by (auto intro: less_imp_le)
    then have "0 \<le> sum_list rs1" by (intro sum_list_nonneg) simp
    then have "table_walk c table m (word_of_int code) 0 = Some ((0 \<noteq> (0 :: u32)) \<noteq> odd (ends_below code rs2 (uint c)))"
      by (intro table_walk_runs code(3)) (use entry(3,4) last(2) total rs code(1) in simp_all)
    moreover have "ends_below 0 rs1 (uint c) = length rs1"
      using ends_below_all [OF nonneg, of 0 "uint c"] entry(3) code(1) by simp
    ultimately show ?thesis
      using entry(1,4) code(1,2) by (simp add: lre_is_in_table_def rs ends_below_append)
  qed
qed

section \<open>Checking an index block by block\<close>

text \<open>
  A large table is checked in the blocks between the positions of its index: every block but
  the last decodes on its own to an even number of runs, which add up to the next code point.
\<close>

fun blocks_good :: "int \<Rightarrow> int \<Rightarrow> int list list \<Rightarrow> (int \<times> int) list \<Rightarrow> bool" where
  "blocks_good p code (b # bs) ((q, k) # es) \<longleftrightarrow>
     (case table_runs b of
        None \<Rightarrow> False
      | Some rs \<Rightarrow>
          code \<le> k \<and>
          (if es = [] then k \<le> code + sum_list rs \<and> code + sum_list rs < 4294967296
           else even (length rs) \<and> q = p + int (length b) \<and> k = code + sum_list rs)) \<and>
     (if es = [] then bs = [] else blocks_good q k bs es)"
| "blocks_good p code _ _ \<longleftrightarrow> False"

lemma chunk_append: "chunk b = Some (rs, n) \<Longrightarrow> chunk (b @ c) = Some (rs, n) \<and> n \<le> length b"
  by (auto simp: chunk_def split: list.splits if_splits)

lemma table_runs_append:
  "table_runs b = Some rs \<Longrightarrow> table_runs (b @ c) = map_option ((@) rs) (table_runs c)"
proof (induction b arbitrary: rs rule: table_runs.induct)
  case (1 b)
  show ?case
  proof (cases "b = []")
    case True
    then show ?thesis using "1.prems" by (simp add: table_runs.simps option.map_ident)
  next
    case False
    with "1.prems" obtain r1 n rest where r1: "chunk b = Some (r1, n)"
      and rest: "table_runs (drop n b) = Some rest" and rs: "rs = r1 @ rest"
      by (rule table_runs_step)
    have n: "chunk (b @ c) = Some (r1, n)" "n \<le> length b" using chunk_append [OF r1] by simp_all
    have "table_runs (b @ c) = map_option ((@) r1) (table_runs (drop n b @ c))"
      using False n by (subst table_runs.simps) (simp split: option.split)
    then show ?thesis
      using "1.IH" [OF False r1 refl rest] rs by (simp add: option.map_comp comp_def)
  qed
qed

lemma table_states_append:
  assumes "table_runs b = Some rs"
  shows "set (table_states (p + int (length b)) (code + sum_list rs) (inside \<noteq> odd (length rs)) c)
    \<subseteq> set (table_states p code inside (b @ c))"
  using assms
proof (induction b arbitrary: rs p code inside rule: table_runs.induct)
  case (1 b)
  show ?case
  proof (cases "b = []")
    case True
    then show ?thesis using "1.prems" by (simp add: table_runs.simps)
  next
    case False
    with "1.prems" obtain r1 n rest where r1: "chunk b = Some (r1, n)"
      and rest: "table_runs (drop n b) = Some rest" and rs: "rs = r1 @ rest"
      by (rule table_runs_step)
    have n: "chunk (b @ c) = Some (r1, n)" "n \<le> length b" using chunk_append [OF r1] by simp_all
    let ?in = "inside \<noteq> odd (length r1)"
    have "set (table_states (p + int n) (code + sum_list r1) ?in (drop n b @ c)) \<subseteq> set (table_states p code inside (b @ c))"
      using n by (subst (2) table_states.simps) simp
    moreover have "p + int n + int (length (drop n b)) = p + int (length b)" using n(2) by simp
    moreover have "(?in \<noteq> odd (length rest)) = (inside \<noteq> odd (length rs))" using rs by auto
    moreover have "code + sum_list r1 + sum_list rest = code + sum_list rs" using rs by simp
    moreover note "1.IH" [OF False r1 refl rest, of "p + int n" "code + sum_list r1" ?in]
    ultimately show ?thesis by (simp only:)
  qed
qed

lemma table_states_self: "(p, code) \<in> set (table_states p code False bs)"
  by (subst table_states.simps) simp

lemma blocks_good_table:
  assumes "blocks_good p code bs es"
  shows "\<exists>rs. table_runs (concat bs) = Some rs \<and> set (butlast es) \<subseteq> set (table_states p code False (concat bs)) \<and>
    snd (last es) \<le> code + sum_list rs \<and> code + sum_list rs < 4294967296 \<and>
    code \<le> snd (hd es) \<and> snd (hd es) \<le> snd (last es)"
  using assms
proof (induction p code bs es rule: blocks_good.induct)
  case (1 p code b bs q k es)
  then obtain rs where rs: "table_runs b = Some rs" and k: "code \<le> k" by (auto split: option.splits)
  show ?case
  proof (cases "es = []")
    case True
    then show ?thesis using "1.prems" rs k by simp
  next
    case False
    then have good: "blocks_good q k bs es" and even: "even (length rs)"
      and q: "q = p + int (length b)" "k = code + sum_list rs"
      using "1.prems" rs by auto
    from "1.IH" [OF False good] obtain rs' where rs': "table_runs (concat bs) = Some rs'"
      and states: "set (butlast es) \<subseteq> set (table_states q k False (concat bs))"
      and ends: "snd (last es) \<le> k + sum_list rs'" "k + sum_list rs' < 4294967296"
        "k \<le> snd (hd es)" "snd (hd es) \<le> snd (last es)"
      by blast
    have "set (table_states q k False (concat bs)) \<subseteq> set (table_states p code False (b @ concat bs))"
      using table_states_append [OF rs, of p code False "concat bs"] even q by simp
    with states table_states_self [of q k "concat bs"]
    have "set (butlast ((q, k) # es)) \<subseteq> set (table_states p code False (concat (b # bs)))"
      using False by auto
    then show ?thesis
      using ends k q False by (simp add: table_runs_append [OF rs] rs')
  qed
qed simp_all

theorem index_good_blocks:
  assumes "map uint table = concat bs" and "blocks_good 0 0 bs (index_entries 0 (map uint index))"
    and "fst (last (index_entries 0 (map uint index))) = int (length (index_entries 0 (map uint index))) * 32"
  shows "index_good table index"
proof -
  have "index_entries 0 (map uint index) \<noteq> []" using assms(2) by auto
  moreover obtain rs where "table_runs (concat bs) = Some rs"
    and "set (butlast (index_entries 0 (map uint index))) \<subseteq> set (table_states 0 0 False (concat bs))"
    and "snd (last (index_entries 0 (map uint index))) \<le> sum_list rs" "sum_list rs < 4294967296"
    and "snd (hd (index_entries 0 (map uint index))) \<le> snd (last (index_entries 0 (map uint index)))"
    using blocks_good_table [OF assms(2)] by auto
  ultimately show ?thesis using assms(1,3) by (simp add: index_good_def Let_def)
qed

end
