(* ===== verification/Case_Conv.thy ===== *)
theory Case_Conv
  imports Unicode_Lookup
begin

text \<open>
  Case conversion of \<^verbatim>\<open>quickjs/libunicode.c\<close>.  The array of results and the
  returned length are one list; the table entries are read with bounds checks, and the
  conversion type is 0 for upper case, 1 for lower case and 2 for case folding.
\<close>

section \<open>Finding the entry\<close>

definition entry_code :: "u32 \<Rightarrow> u32" where
  "entry_code v = drop_bit (32 - 17) v"

definition entry_len :: "u32 \<Rightarrow> u32" where
  "entry_len v = drop_bit (32 - 17 - 7) v AND 0x7f"

text \<open>The binary search of all four functions: the index and the value of the entry with \<open>c\<close>.\<close>

function case_search :: "u32 list \<Rightarrow> u32 \<Rightarrow> int \<Rightarrow> int \<Rightarrow> (nat \<times> u32) option option" where
  "case_search table c idx_min idx_max =
     (if idx_min \<le> idx_max then do {
        let idx = (idx_max + idx_min) div 2;
        v \<leftarrow> rd table (nat idx);
        let code = entry_code v;
        let len = entry_len v;
        if c < code then case_search table c idx_min (idx - 1)
        else if c \<ge> code + len then case_search table c (idx + 1) idx_max
        else Some (Some (nat idx, v))
      }
      else Some None)"
  by pat_completeness auto
termination
  by (relation "measure (\<lambda>(table, c, idx_min, idx_max). nat (idx_max - idx_min + 1))") auto

declare case_search.simps [simp del]

definition find_case_entry :: "u32 \<Rightarrow> (nat \<times> u32) option option" where
  "find_case_entry c = case_search case_conv_table1 c 0 (int (length case_conv_table1) - 1)"

section \<open>Converting with an entry\<close>

definition RUN_TYPE_U :: u32 where "RUN_TYPE_U = 0"
definition RUN_TYPE_L :: u32 where "RUN_TYPE_L = 1"
definition RUN_TYPE_UF :: u32 where "RUN_TYPE_UF = 2"
definition RUN_TYPE_LF :: u32 where "RUN_TYPE_LF = 3"
definition RUN_TYPE_UL :: u32 where "RUN_TYPE_UL = 4"
definition RUN_TYPE_LSU :: u32 where "RUN_TYPE_LSU = 5"
definition RUN_TYPE_U2L_399_EXT2 :: u32 where "RUN_TYPE_U2L_399_EXT2 = 6"
definition RUN_TYPE_UF_D20 :: u32 where "RUN_TYPE_UF_D20 = 7"
definition RUN_TYPE_UF_D1_EXT :: u32 where "RUN_TYPE_UF_D1_EXT = 8"
definition RUN_TYPE_U_EXT :: u32 where "RUN_TYPE_U_EXT = 9"
definition RUN_TYPE_LF_EXT :: u32 where "RUN_TYPE_LF_EXT = 10"
definition RUN_TYPE_UF_EXT2 :: u32 where "RUN_TYPE_UF_EXT2 = 11"
definition RUN_TYPE_LF_EXT2 :: u32 where "RUN_TYPE_LF_EXT2 = 12"
definition RUN_TYPE_UF_EXT3 :: u32 where "RUN_TYPE_UF_EXT3 = 13"

lemmas run_types = RUN_TYPE_U_def RUN_TYPE_L_def RUN_TYPE_UF_def RUN_TYPE_LF_def RUN_TYPE_UL_def
  RUN_TYPE_LSU_def RUN_TYPE_U2L_399_EXT2_def RUN_TYPE_UF_D20_def RUN_TYPE_UF_D1_EXT_def
  RUN_TYPE_U_EXT_def RUN_TYPE_LF_EXT_def RUN_TYPE_UF_EXT2_def RUN_TYPE_LF_EXT2_def RUN_TYPE_UF_EXT3_def

definition case_ext :: "u32 \<Rightarrow> u32 option" where
  "case_ext i = do { x \<leftarrow> rd case_conv_ext (unat i); Some (ucast x) }"

text \<open>
  The conversion of \<open>c\<close> with the entry \<open>v\<close> at \<open>idx\<close>.  The parameter \<open>conv1\<close> is the
  conversion of one character to lower case that case folding applies to its results.
\<close>

definition case_conv_entry ::
    "(u32 \<Rightarrow> u32 option) \<Rightarrow> u32 \<Rightarrow> u32 \<Rightarrow> nat \<Rightarrow> u32 \<Rightarrow> u32 list option" where
  "case_conv_entry conv1 c conv_type idx v =
     do {
       let is_lower = (if conv_type \<noteq> 0 then 1 else 0 :: u32);
       let ty = drop_bit (32 - 17 - 7 - 4) v AND 0xf;
       d \<leftarrow> rd case_conv_table2 idx;
       let data = (push_bit 8 (v AND 0xf) OR ucast d);
       let code = entry_code v;
       if ty = RUN_TYPE_U \<or> ty = RUN_TYPE_L \<or> ty = RUN_TYPE_UF \<or> ty = RUN_TYPE_LF then
         if conv_type = ty AND 1 \<or> ty \<ge> RUN_TYPE_UF \<and> conv_type = 2 then do {
           x \<leftarrow> rd case_conv_table1 (unat data);
           Some [c - code + drop_bit (32 - 17) x]
         }
         else Some [c]
       else if ty = RUN_TYPE_UL then
         let a = c - code in
         if (a AND 1) \<noteq> 1 - is_lower then Some [c] else Some [(a XOR 1) + code]
       else if ty = RUN_TYPE_LSU then
         let a = c - code in
         if a = 1 then Some [c + (2 * is_lower - 1)]
         else if a = (1 - is_lower) * 2 then Some [c + (2 * is_lower - 1) * 2]
         else Some [c]
       else if ty = RUN_TYPE_U2L_399_EXT2 then
         if is_lower = 0 then do {
           x \<leftarrow> case_ext (drop_bit 6 data);
           Some [c - code + x, 0x399]
         }
         else do { x \<leftarrow> case_ext (data AND 0x3f); Some [c - code + x] }
       else if ty = RUN_TYPE_UF_D20 then
         if conv_type = 1 then Some [c]
         else Some [data + (if conv_type = 2 then 1 else 0) * 0x20]
       else if ty = RUN_TYPE_UF_D1_EXT then
         if conv_type = 1 then Some [c]
         else do { x \<leftarrow> case_ext data; Some [x + (if conv_type = 2 then 1 else 0)] }
       else if ty = RUN_TYPE_U_EXT \<or> ty = RUN_TYPE_LF_EXT then
         if is_lower \<noteq> ty - RUN_TYPE_U_EXT then Some [c]
         else do { x \<leftarrow> case_ext data; Some [x] }
       else if ty = RUN_TYPE_LF_EXT2 then
         if is_lower = 0 then Some [c]
         else do {
           x \<leftarrow> case_ext (drop_bit 6 data);
           y \<leftarrow> case_ext (data AND 0x3f);
           Some [c - code + x, y]
         }
       else if ty = RUN_TYPE_UF_EXT2 then
         if conv_type = 1 then Some [c]
         else do {
           x \<leftarrow> case_ext (drop_bit 6 data);
           y \<leftarrow> case_ext (data AND 0x3f);
           if conv_type = 2 then do {
             x \<leftarrow> conv1 (c - code + x);
             y \<leftarrow> conv1 y;
             Some [x, y]
           }
           else Some [c - code + x, y]
         }
       else
         if conv_type = 1 then Some [c]
         else do {
           x \<leftarrow> case_ext (drop_bit 8 data);
           y \<leftarrow> case_ext (drop_bit 4 data AND 0xf);
           z \<leftarrow> case_ext (data AND 0xf);
           if conv_type = 2 then do {
             x \<leftarrow> conv1 x;
             y \<leftarrow> conv1 y;
             z \<leftarrow> conv1 z;
             Some [x, y, z]
           }
           else Some [x, y, z]
         }
     }"

definition is_upper_letter :: "u32 \<Rightarrow> bool" where
  "is_upper_letter c \<longleftrightarrow> c \<ge> 0x41 \<and> c \<le> 0x5A"

definition is_lower_letter :: "u32 \<Rightarrow> bool" where
  "is_lower_letter c \<longleftrightarrow> c \<ge> 0x61 \<and> c \<le> 0x7A"

text \<open>The body of \<^verbatim>\<open>lre_case_conv\<close>, over the conversion that it may call again.\<close>

definition case_conv_with :: "(u32 \<Rightarrow> u32 option) \<Rightarrow> u32 \<Rightarrow> u32 \<Rightarrow> u32 list option" where
  "case_conv_with conv1 c conv_type =
     (if c < 128 then
        if conv_type \<noteq> 0 then Some [if is_upper_letter c then c - 0x41 + 0x61 else c]
        else Some [if is_lower_letter c then c - 0x61 + 0x41 else c]
      else do {
        e \<leftarrow> find_case_entry c;
        (case e of
           Some (idx, v) \<Rightarrow> case_conv_entry conv1 c conv_type idx v
         | None \<Rightarrow> Some [c])
      })"

text \<open>
  The recursion is one level deep: only case folding calls the conversion again, with the
  conversion to lower case, which does not.
\<close>

definition lre_case_conv1 :: "u32 \<Rightarrow> u32 option" where
  "lre_case_conv1 c = do { res \<leftarrow> case_conv_with (\<lambda>_. None) c 1; rd res 0 }"

definition lre_case_conv_entry :: "u32 \<Rightarrow> u32 \<Rightarrow> nat \<Rightarrow> u32 \<Rightarrow> u32 list option" where
  "lre_case_conv_entry c conv_type idx v = case_conv_entry lre_case_conv1 c conv_type idx v"

definition lre_case_conv :: "u32 \<Rightarrow> u32 \<Rightarrow> u32 list option" where
  "lre_case_conv c conv_type = case_conv_with lre_case_conv1 c conv_type"

section \<open>Case folding of regular expressions\<close>

definition lre_case_folding_entry :: "u32 \<Rightarrow> nat \<Rightarrow> u32 \<Rightarrow> bool \<Rightarrow> u32 option" where
  "lre_case_folding_entry c idx v is_unicode =
     (if is_unicode then do {
        res \<leftarrow> lre_case_conv_entry c 2 idx v;
        (case res of
           [x] \<Rightarrow> Some x
         | _ \<Rightarrow>
             Some (if c = 0xfb06 then 0xfb05
                   else if c = 0x01fd3 then 0x390
                   else if c = 0x01fe3 then 0x3b0
                   else c))
      }
      else if c < 128 then Some (if is_lower_letter c then c - 0x61 + 0x41 else c)
      else do {
        res \<leftarrow> lre_case_conv_entry c 0 idx v;
        (case res of
           [x] \<Rightarrow> Some (if x \<ge> 128 then x else c)
         | _ \<Rightarrow> Some c)
      })"

definition lre_canonicalize :: "u32 \<Rightarrow> bool \<Rightarrow> u32 option" where
  "lre_canonicalize c is_unicode =
     (if c < 128 then
        if is_unicode then Some (if is_upper_letter c then c - 0x41 + 0x61 else c)
        else Some (if is_lower_letter c then c - 0x61 + 0x41 else c)
      else do {
        e \<leftarrow> find_case_entry c;
        (case e of
           Some (idx, v) \<Rightarrow> lre_case_folding_entry c idx v is_unicode
         | None \<Rightarrow> Some c)
      })"

definition lre_is_cased :: "u32 \<Rightarrow> bool option" where
  "lre_is_cased c =
     do {
       e \<leftarrow> find_case_entry c;
       (case e of
          Some _ \<Rightarrow> Some True
        | None \<Rightarrow>
            lre_is_in_table c unicode_prop_Cased1_table unicode_prop_Cased1_index
              (length unicode_prop_Cased1_index div 3))
     }"

end
