(* ===== verification/Case_Conv_Total.thy ===== *)
theory Case_Conv_Total
  imports Case_Conv_Props
begin

text \<open>
  The tables of the repository satisfy the conditions of the search and of the conversion, so
  every conversion of every character is defined.
\<close>

text \<open>The table of the repository is sorted.\<close>

lemma case_conv_table1_sorted: "entries_sorted case_conv_table1"
  by code_simp

lemma find_case_entry_cases:
  obtains
    (found) i where "i < 378" and "find_case_entry c = Some (Some (i, case_conv_table1 ! i))"
      and "covers (case_conv_table1 ! i) c"
  | (missing) "find_case_entry c = Some None" and "\<And>i. i < 378 \<Longrightarrow> \<not> covers (case_conv_table1 ! i) c"
  using case_search_Some [OF case_conv_table1_sorted, of 0 "int (length case_conv_table1) - 1" c]
  unfolding find_case_entry_def length_case_conv_tables by force

lemma entries_ok: "list_all2 entry_ok case_conv_table1 case_conv_table2"
  by code_simp

lemma entry_okD: "i < 378 \<Longrightarrow> entry_ok (case_conv_table1 ! i) (case_conv_table2 ! i)"
  using entries_ok by (simp add: list_all2_conv_all_nth length_case_conv_tables)

text \<open>The conversion to lower case does not call itself again.\<close>

lemma case_conv_entry_lower: "case_conv_entry f c 1 idx v = case_conv_entry g c 1 idx v"
  by (simp add: case_conv_entry_def Let_def cong: if_cong)

lemma case_conv_with_lower: "case_conv_with f c 1 = case_conv_with g c 1"
proof -
  have "case_conv_entry f c 1 = case_conv_entry g c 1"
    by (intro ext) (rule case_conv_entry_lower)
  then show ?thesis by (simp only: case_conv_with_def)
qed

text \<open>The recursive equation of the code.\<close>

lemma lre_case_conv1_eq: "lre_case_conv1 c = do { res \<leftarrow> lre_case_conv c 1; rd res 0 }"
  unfolding lre_case_conv1_def lre_case_conv_def by (subst case_conv_with_lower) (rule refl)

lemma case_conv_with_total:
  assumes conv1: "conv_type = 2 \<Longrightarrow> \<forall>x. \<exists>y. conv1 x = Some y"
  shows "\<exists>res. case_conv_with conv1 c conv_type = Some res \<and> length res \<in> {1, 2, 3}"
proof (cases "c < 128")
  case True
  then show ?thesis by (simp add: case_conv_with_def)
next
  case False
  show ?thesis
  proof (cases rule: find_case_entry_cases [of c])
    case (found i)
    then show ?thesis using False case_conv_entry_total [OF entry_okD [OF found(1)] found(1) conv1]
      by (simp add: case_conv_with_def)
  qed (use False in \<open>simp add: case_conv_with_def\<close>)
qed

lemma lre_case_conv1_total: "\<exists>y. lre_case_conv1 x = Some y"
proof -
  obtain res where "case_conv_with (\<lambda>_. None) x 1 = Some res" "length res \<in> {1, 2, 3}"
    using case_conv_with_total [of 1] by fastforce
  then show ?thesis by (auto simp: lre_case_conv1_def rd_def)
qed

lemma lre_case_conv_total: "\<exists>res. lre_case_conv c conv_type = Some res \<and> length res \<in> {1, 2, 3}"
  unfolding lre_case_conv_def using case_conv_with_total lre_case_conv1_total by blast

lemma lre_canonicalize_total: "\<exists>r. lre_canonicalize c is_unicode = Some r"
proof (cases "c < 128")
  case False
  show ?thesis
  proof (cases rule: find_case_entry_cases [of c])
    case (found i)
    have "\<exists>res. lre_case_conv_entry c t i (case_conv_table1 ! i) = Some res" for t
      unfolding lre_case_conv_entry_def
      using case_conv_entry_total [OF entry_okD [OF found(1)] found(1)] lre_case_conv1_total by blast
    then obtain r2 r0 where "lre_case_conv_entry c 2 i (case_conv_table1 ! i) = Some r2"
      "lre_case_conv_entry c 0 i (case_conv_table1 ! i) = Some r0" by blast
    then have "\<exists>r. lre_case_folding_entry c i (case_conv_table1 ! i) is_unicode = Some r"
      by (simp add: lre_case_folding_entry_def split: list.split)
    then show ?thesis using False found(2) by (simp add: lre_canonicalize_def)
  qed (use False in \<open>simp add: lre_canonicalize_def\<close>)
qed (simp add: lre_canonicalize_def)

end
