(* ===== verification/Unicode_Claims.thy ===== *)
theory Unicode_Claims
  imports Char_Range_Sort Unicode_Props
begin

text \<open>
  The main theorems on the character sets and case tables of
  \<^verbatim>\<open>quickjs/libunicode.c\<close>, with concrete instances of their hypotheses.
\<close>

section \<open>Character ranges\<close>

definition range_realloc :: "unit cr_realloc_func" where
  "range_realloc h p n = (Some (take n (p @ replicate n 0)), h)"

lemma cr_keeps_example: "cr_keeps range_realloc"
  by (auto simp: cr_keeps_def range_realloc_def)

definition example_range :: "u32 list \<Rightarrow> unit CharRange" where
  "example_range pts =
     \<lparr>cr_len = length pts, cr_size = length pts, cr_points = pts, cr_mem = (), cr_alloc = range_realloc\<rparr>"

lemma example_range [simp]:
  "cr_wf (example_range pts)" "cr_used (example_range pts) = pts" "cr_len (example_range pts) = length pts"
  by (simp_all add: example_range_def cr_wf_def cr_used_def cr_keeps_example)

text \<open>C30: On an empty destination, \<^verbatim>\<open>cr_op\<close> of two sorted ranges either fails for
  want of memory or leaves a strictly increasing range that contains exactly the union,
  intersection or symmetric difference of the two sets.\<close>

theorem cr_op_is_set_operation:
  assumes "cr_wf cr" and "cr_len cr = 0" and "al \<le> length a" and "bl \<le> length b"
    and "range_points (take al a)" and "range_points (take bl b)" and "al + bl \<le> 2 ^ 29"
  shows "(\<exists>cr'. cr_op cr a al b bl op = Some (0, cr') \<and> cr_wf cr' \<and> strict_range (cr_used cr') \<and>
      (\<forall>c. cr_member (cr_used cr') c \<longleftrightarrow> op_bool op (cr_member (take al a) c) (cr_member (take bl b) c))) \<or>
    (\<exists>cr'. cr_op cr a al b bl op = Some (- 1, cr') \<and> cr_wf cr')"
  using cr_op_sets [OF assms] .

lemma cr_op_is_set_operation_witness:
  "\<exists>r cr'. cr_op (example_range []) [1, 5] 2 [3, 9] 2 CR_OP_XOR = Some (r, cr') \<and> cr_wf cr'"
proof -
  have "range_points (take 2 [1, 5])" "range_points (take 2 [3, 9])" by (simp_all add: range_points_def)
  with cr_op_is_set_operation [of "example_range []" 2 "[1, 5]" 2 "[3, 9]" CR_OP_XOR]
  show ?thesis by fastforce
qed

text \<open>C31: \<^verbatim>\<open>cr_invert\<close> either fails for want of memory and leaves the range as it was,
  or replaces it by a strictly increasing range of its complement below
  \<open>0xFFFFFFFF\<close>.\<close>

theorem cr_invert_is_complement:
  assumes "cr_wf cr" and "range_points (cr_used cr)" and "cr_len cr + 2 \<le> 2 ^ 29"
  shows "(\<exists>cr'. cr_invert cr = Some (0, cr') \<and> cr_wf cr' \<and> strict_range (cr_used cr') \<and>
      (\<forall>c < 0xFFFFFFFF. cr_member (cr_used cr') c \<longleftrightarrow> \<not> cr_member (cr_used cr) c)) \<or>
    (\<exists>cr'. cr_invert cr = Some (- 1, cr') \<and> cr_used cr' = cr_used cr)"
  using cr_invert_set [OF assms] .

lemma cr_invert_is_complement_witness:
  "\<exists>r cr'. cr_invert (example_range [0, 65, 91, 97]) = Some (r, cr')"
  using cr_invert_is_complement [of "example_range [0, 65, 91, 97]"]
  by (fastforce simp: range_points_def)

text \<open>C32: \<^verbatim>\<open>cr_sort_and_remove_overlap\<close> takes intervals in any order, overlapping or
  not: it ends without a read or write outside the array, leaves intervals that are separate
  and increasing, and keeps the union of the intervals.\<close>

theorem cr_sort_keeps_union:
  assumes "cr_wf cr" and "even (cr_len cr)"
  shows "\<exists>cr'. cr_sort_and_remove_overlap cr = Some cr' \<and> cr_wf cr' \<and> intervals_apart (pairs_of (cr_used cr')) \<and>
    (\<forall>c. in_intervals (pairs_of (cr_used cr')) c \<longleftrightarrow> in_intervals (pairs_of (cr_used cr)) c)"
  using cr_sort_merges [OF assms] .

lemma cr_sort_keeps_union_witness:
  "\<exists>cr'. cr_sort_and_remove_overlap (example_range [7, 9, 1, 4, 3, 5]) = Some cr' \<and>
     in_intervals (pairs_of (cr_used cr')) 4 \<and> \<not> in_intervals (pairs_of (cr_used cr')) 6"
  using cr_sort_keeps_union [of "example_range [7, 9, 1, 4, 3, 5]"] by auto

section \<open>Tables\<close>

text \<open>C33: The indexed lookup of \<^verbatim>\<open>lre_is_in_table\<close>, a binary search of the index and a
  walk over at most one block of the table, has the same answer as decoding the whole table
  from its start, for every table whose index is good.\<close>

theorem indexed_lookup_equals_decoding:
  assumes "index_good table index" and "table_runs (map uint table) = Some rs"
  shows "lre_is_in_table c table index (length index div 3) =
    Some (uint c < index_limit index \<and> odd (ends_below 0 rs (uint c)))"
  using lre_is_in_table_runs [OF assms] .

lemma indexed_lookup_equals_decoding_witness:
  "lre_is_in_table 0x2003 unicode_prop_White_Space_table unicode_prop_White_Space_index 1 = Some True"
proof -
  have "length unicode_prop_White_Space_index div 3 = 1" by (simp add: unicode_prop_White_Space_index_def)
  moreover have "odd (ends_below 0 [9, 5, 18, 1, 100, 1, 26, 1, 5599, 1, 2431, 11, 29, 2, 5, 1, 47, 1, 4000, 1] 8195)"
    by code_simp
  ultimately show ?thesis
    using indexed_lookup_equals_decoding [OF white_space_good white_space_runs, of "0x2003"]
    by (simp add: white_space_limit)
qed

text \<open>C34: \<^verbatim>\<open>lre_is_white_space\<close> holds for exactly the white space characters of
  Unicode, and is defined for every value.\<close>

theorem white_space_exact: "lre_is_white_space c = Some (white_space_char c)"
  by (rule lre_is_white_space_char)

text \<open>For ASCII, the compressed tables say what the fast paths of the code say: an
  identifier starts with a letter and goes on with letters, digits and underscores.\<close>

theorem ascii_identifiers:
  assumes "c < 128"
  shows "lre_is_id_start c = Some (ascii_letter c) \<and>
    lre_is_id_continue c = Some (ascii_letter c \<or> ascii_digit c \<or> c = 0x5F)"
  using lre_is_id_start_ascii [OF assms] lre_is_id_continue_ascii [OF assms] by blast

lemma ascii_identifiers_witness: "lre_is_id_start 0x5F = Some False \<and> lre_is_id_continue 0x5F = Some True"
  using ascii_identifiers [of "0x5F"] by (simp add: ascii_letter_def)

section \<open>Case conversion\<close>

text \<open>C35: Case conversion is defined for every value and every type of conversion: it reads
  no table outside its bounds and makes one, two or three characters.\<close>

theorem case_conversion_total:
  "(\<exists>res. lre_case_conv c conv_type = Some res \<and> length res \<in> {1, 2, 3}) \<and>
   (\<exists>r. lre_canonicalize c is_unicode = Some r)"
  using lre_case_conv_total lre_canonicalize_total by blast

text \<open>C36: The binary search of the case table finds the entry whose characters include the
  given one, and finds none only when no entry does.\<close>

theorem case_entry_found:
  "(\<exists>i < length case_conv_table1. find_case_entry c = Some (Some (i, case_conv_table1 ! i)) \<and>
      covers (case_conv_table1 ! i) c) \<or>
   find_case_entry c = Some None \<and> (\<forall>i < length case_conv_table1. \<not> covers (case_conv_table1 ! i) c)"
  unfolding length_case_conv_tables by (cases rule: find_case_entry_cases [of c]) blast+

lemma case_entry_found_witness:
  "\<exists>i < 378. find_case_entry 0xB5 = Some (Some (i, case_conv_table1 ! i)) \<and> covers (case_conv_table1 ! i) 0xB5"
proof -
  have "covers (case_conv_table1 ! 2) 0xB5" by code_simp
  then show ?thesis using case_entry_found [of "0xB5"] unfolding length_case_conv_tables
    by (metis numeral_less_iff less_num_simps)
qed

end
