(* ===== verification/Unicode_Norm.thy ===== *)
theory Unicode_Norm
  imports Unicode_Norm_Tables Unicode_Lookup Dyn_Buf
begin

text \<open>
  Normalisation of \<^verbatim>\<open>quickjs/libunicode.c\<close>: combining classes, decomposition, canonical
  ordering and composition.  Pointers into the tables are positions; a position behind the end of
  a table, and a recursion that does not end, are \<open>None\<close>.
\<close>

section \<open>Combining classes\<close>

text \<open>
  One round of the walk through \<open>unicode_cc_table\<close> from the byte at \<open>p\<close>: the class, or
  the position and the code point to go on with.  The class \<open>p[-1]\<close> is read when it is needed.
\<close>

definition cc_round :: "u32 \<Rightarrow> nat \<Rightarrow> u32 \<Rightarrow> (u32 + nat \<times> u32) option" where
  "cc_round c p code =
     do {
       b \<leftarrow> rd unicode_cc_table p;
       let type = drop_bit 6 (ucast b :: u32);
       let n = (ucast b :: u32) AND 0x3f;
       let p = p + 1;
       (n, p) \<leftarrow>
         (if n < 48 then Some (n, p)
          else if n < 56 then do {
            b0 \<leftarrow> rd unicode_cc_table p;
            Some ((push_bit 8 (n - 48) OR ucast b0) + 48, p + 1)
          }
          else do {
            b0 \<leftarrow> rd unicode_cc_table p;
            b1 \<leftarrow> rd unicode_cc_table (p + 1);
            Some (((push_bit 8 (n - 56) OR push_bit 8 (ucast b0)) OR ucast b1) + (48 + push_bit 11 1), p + 2)
          });
       let p = (if type \<le> 1 then p + 1 else p);
       let c1 = code + n + 1;
       if c < c1 then
         (if type = 0 then do { k \<leftarrow> rd unicode_cc_table (p - 1); Some (Inl (ucast k)) }
          else if type = 1 then do { k \<leftarrow> rd unicode_cc_table (p - 1); Some (Inl (ucast k + c - code)) }
          else if type = 2 then Some (Inl 0)
          else Some (Inl 230))
       else Some (Inr (p, c1))
     }"

lemma cc_round_progress:
  "cc_round c p code = Some (Inr (p', code')) \<Longrightarrow> p < p' \<and> p < length unicode_cc_table"
  by (auto simp: cc_round_def rd_def bind_eq_Some_conv Let_def split: if_splits)

function cc_walk :: "u32 \<Rightarrow> nat \<Rightarrow> u32 \<Rightarrow> u32 option" where
  "cc_walk c p code =
     do {
       r \<leftarrow> cc_round c p code;
       (case r of
          Inl cc \<Rightarrow> Some cc
        | Inr (p, code) \<Rightarrow> cc_walk c p code)
     }"
  by pat_completeness auto
termination
  by (relation "measure (\<lambda>(c, p, code). length unicode_cc_table - p)") (auto dest!: cc_round_progress)

declare cc_walk.simps [simp del]

text \<open>The result is an \<^verbatim>\<open>int\<close>.\<close>

definition unicode_get_cc :: "u32 \<Rightarrow> int option" where
  "unicode_get_cc c =
     do {
       pos \<leftarrow> get_index_pos c unicode_cc_index (length unicode_cc_index div 3);
       (case pos of
          None \<Rightarrow> Some 0
        | Some (p, code) \<Rightarrow> do { cc \<leftarrow> cc_walk c p code; Some (sint cc) })
     }"

section \<open>Decomposition\<close>

definition UNICODE_DECOMP_LEN_MAX :: nat where
  "UNICODE_DECOMP_LEN_MAX = 18"

text \<open>The constants of \<open>DecompTypeEnum\<close> that delimit the cases of the code.\<close>

definition DECOMP_TYPE_C1 :: nat where "DECOMP_TYPE_C1 = 0"
definition DECOMP_TYPE_L1 :: nat where "DECOMP_TYPE_L1 = 1"
definition DECOMP_TYPE_L7 :: nat where "DECOMP_TYPE_L7 = 7"
definition DECOMP_TYPE_LL1 :: nat where "DECOMP_TYPE_LL1 = 8"
definition DECOMP_TYPE_LL2 :: nat where "DECOMP_TYPE_LL2 = 9"
definition DECOMP_TYPE_S1 :: nat where "DECOMP_TYPE_S1 = 10"
definition DECOMP_TYPE_S5 :: nat where "DECOMP_TYPE_S5 = 14"
definition DECOMP_TYPE_I1 :: nat where "DECOMP_TYPE_I1 = 15"
definition DECOMP_TYPE_I2_0 :: nat where "DECOMP_TYPE_I2_0 = 16"
definition DECOMP_TYPE_I4_2 :: nat where "DECOMP_TYPE_I4_2 = 21"
definition DECOMP_TYPE_B1 :: nat where "DECOMP_TYPE_B1 = 22"
definition DECOMP_TYPE_B8 :: nat where "DECOMP_TYPE_B8 = 29"
definition DECOMP_TYPE_B18 :: nat where "DECOMP_TYPE_B18 = 30"
definition DECOMP_TYPE_LS2 :: nat where "DECOMP_TYPE_LS2 = 31"
definition DECOMP_TYPE_PAT3 :: nat where "DECOMP_TYPE_PAT3 = 32"
definition DECOMP_TYPE_S2_UL :: nat where "DECOMP_TYPE_S2_UL = 33"
definition DECOMP_TYPE_LS2_UL :: nat where "DECOMP_TYPE_LS2_UL = 34"

lemmas decomp_types = DECOMP_TYPE_C1_def DECOMP_TYPE_L1_def DECOMP_TYPE_L7_def DECOMP_TYPE_LL1_def
  DECOMP_TYPE_LL2_def DECOMP_TYPE_S1_def DECOMP_TYPE_S5_def DECOMP_TYPE_I1_def DECOMP_TYPE_I2_0_def
  DECOMP_TYPE_I4_2_def DECOMP_TYPE_B1_def DECOMP_TYPE_B8_def DECOMP_TYPE_B18_def DECOMP_TYPE_LS2_def
  DECOMP_TYPE_PAT3_def DECOMP_TYPE_S2_UL_def DECOMP_TYPE_LS2_UL_def

definition unicode_get_short_code :: "u32 \<Rightarrow> u32 option" where
  "unicode_get_short_code c =
     (if c < 0x80 then Some c
      else if c < 0x80 + 0x50 then Some (c - 0x80 + 0x300)
      else rd [0x2044, 0x2215] (unat (c - 0x80 - 0x50)))"

definition unicode_get_lower_simple :: "u32 \<Rightarrow> u32" where
  "unicode_get_lower_simple c = (if c < 0x100 \<or> c \<ge> 0x410 \<and> c \<le> 0x42f then c + 0x20 else c + 1)"

definition unicode_get16 :: "u8 list \<Rightarrow> nat \<Rightarrow> u32 option" where
  "unicode_get16 bs p = do { b0 \<leftarrow> rd bs p; b1 \<leftarrow> rd bs (p + 1); Some (ucast b0 OR push_bit 8 (ucast b1)) }"

text \<open>
  The loops that fill the results.  The first kind returns 0 at a result that is 0, which it has
  stored (\<open>stored\<close>) or not; the value is what was stored and what the function returns.
\<close>

primrec fill_nonzero :: "bool \<Rightarrow> (nat \<Rightarrow> u32 option) \<Rightarrow> nat list \<Rightarrow> u32 list \<Rightarrow> (u32 list \<times> nat) option" where
  "fill_nonzero stored f [] res = Some (res, length res)"
| "fill_nonzero stored f (i # is) res =
     do {
       c1 \<leftarrow> f i;
       if c1 = 0 then Some (if stored then res @ [c1] else res, 0)
       else fill_nonzero stored f is (res @ [c1])
     }"

primrec fill_all :: "(nat \<Rightarrow> u32 option) \<Rightarrow> nat list \<Rightarrow> u32 list \<Rightarrow> (u32 list \<times> nat) option" where
  "fill_all f [] res = Some (res, length res)"
| "fill_all f (i # is) res = do { c1 \<leftarrow> f i; fill_all f is (res @ [c1]) }"

text \<open>One group of cases each: \<open>d\<close> is the position in the data, \<open>k = c - code\<close>.\<close>

definition decomp_L :: "nat \<Rightarrow> nat \<Rightarrow> nat \<Rightarrow> (u32 list \<times> nat) option" where
  "decomp_L d k l =
     (let d = d + k * l * 2 in
      fill_nonzero True (\<lambda>i. unicode_get16 unicode_decomp_data (d + 2 * i)) [0..<l] [])"

definition decomp_LL :: "nat \<Rightarrow> nat \<Rightarrow> nat \<Rightarrow> nat \<Rightarrow> (u32 list \<times> nat) option" where
  "decomp_LL d k len l =
     (let k = k * l; p = len * l * 2 in
      fill_nonzero False (\<lambda>i. do {
        lo \<leftarrow> unicode_get16 unicode_decomp_data (d + 2 * (k + i));
        hi \<leftarrow> rd unicode_decomp_data (d + (p + (k + i) div 4));
        Some (lo OR push_bit 16 (drop_bit ((k + i) mod 4 * 2) (ucast hi) AND 3))
      }) [0..<l] [])"

definition decomp_S :: "nat \<Rightarrow> nat \<Rightarrow> nat \<Rightarrow> (u32 list \<times> nat) option" where
  "decomp_S d k l =
     (let d = d + k * l in
      fill_nonzero True (\<lambda>i. do { b \<leftarrow> rd unicode_decomp_data (d + i); unicode_get_short_code (ucast b) }) [0..<l] [])"

definition decomp_I :: "nat \<Rightarrow> nat \<Rightarrow> nat \<Rightarrow> nat \<Rightarrow> (u32 list \<times> nat) option" where
  "decomp_I d k l p =
     fill_all (\<lambda>i. do {
       c1 \<leftarrow> unicode_get16 unicode_decomp_data (d + 2 * i);
       Some (if i = p then c1 + of_nat k else c1)
     }) [0..<l] []"

definition decomp_B :: "nat \<Rightarrow> nat \<Rightarrow> nat \<Rightarrow> (u32 list \<times> nat) option" where
  "decomp_B d k l =
     do {
       c_min \<leftarrow> unicode_get16 unicode_decomp_data d;
       let d = d + (2 + k * l);
       fill_all (\<lambda>i. do {
         b \<leftarrow> rd unicode_decomp_data (d + i);
         Some (if b = 0xff then 0x20 else ucast b + c_min)
       }) [0..<l] []
     }"

definition decomp_LS2 :: "nat \<Rightarrow> nat \<Rightarrow> (u32 list \<times> nat) option" where
  "decomp_LS2 d k =
     do {
       let d = d + k * 3;
       c0 \<leftarrow> unicode_get16 unicode_decomp_data d;
       if c0 = 0 then Some ([c0], 0)
       else do {
         b \<leftarrow> rd unicode_decomp_data (d + 2);
         c1 \<leftarrow> unicode_get_short_code (ucast b);
         Some ([c0, c1], 2)
       }
     }"

definition decomp_PAT3 :: "nat \<Rightarrow> nat \<Rightarrow> (u32 list \<times> nat) option" where
  "decomp_PAT3 d k =
     do {
       c0 \<leftarrow> unicode_get16 unicode_decomp_data d;
       c2 \<leftarrow> unicode_get16 unicode_decomp_data (d + 2);
       c1 \<leftarrow> unicode_get16 unicode_decomp_data (d + (4 + k * 2));
       Some ([c0, c1, c2], 3)
     }"

definition decomp_UL :: "nat \<Rightarrow> nat \<Rightarrow> bool \<Rightarrow> (u32 list \<times> nat) option" where
  "decomp_UL d k short =
     do {
       (c, d) \<leftarrow>
         (if short then do {
            let d = d + k div 2 * 2;
            b \<leftarrow> rd unicode_decomp_data d;
            c \<leftarrow> unicode_get_short_code (ucast b);
            Some (c, d + 1)
          }
          else do {
            let d = d + k div 2 * 3;
            c \<leftarrow> unicode_get16 unicode_decomp_data d;
            Some (c, d + 2)
          });
       let c = (if odd k then unicode_get_lower_simple c else c);
       b \<leftarrow> rd unicode_decomp_data d;
       c1 \<leftarrow> unicode_get_short_code (ucast b);
       Some ([c, c1], 2)
     }"

definition unicode_decomp_entry :: "u32 \<Rightarrow> nat \<Rightarrow> u32 \<Rightarrow> nat \<Rightarrow> nat \<Rightarrow> (u32 list \<times> nat) option" where
  "unicode_decomp_entry c idx code len type =
     do {
       v \<leftarrow> rd unicode_decomp_table2 idx;
       if type = DECOMP_TYPE_C1 then Some ([ucast v], 1)
       else
         let d = unat v; k = unat (c - code) in
         if DECOMP_TYPE_L1 \<le> type \<and> type \<le> DECOMP_TYPE_L7 then decomp_L d k (type - DECOMP_TYPE_L1 + 1)
         else if DECOMP_TYPE_LL1 \<le> type \<and> type \<le> DECOMP_TYPE_LL2 then decomp_LL d k len (type - DECOMP_TYPE_LL1 + 1)
         else if DECOMP_TYPE_S1 \<le> type \<and> type \<le> DECOMP_TYPE_S5 then decomp_S d k (type - DECOMP_TYPE_S1 + 1)
         else if type = DECOMP_TYPE_I1 then decomp_I d k 1 0
         else if DECOMP_TYPE_I2_0 \<le> type \<and> type \<le> DECOMP_TYPE_I4_2 then
           (let l = 2 + (type - DECOMP_TYPE_I2_0) div 2 in
            decomp_I d k l ((type - DECOMP_TYPE_I2_0) mod 2 + (if l > 2 then 1 else 0)))
         else if type = DECOMP_TYPE_B18 then decomp_B d k 18
         else if DECOMP_TYPE_B1 \<le> type \<and> type \<le> DECOMP_TYPE_B8 then decomp_B d k (type - DECOMP_TYPE_B1 + 1)
         else if type = DECOMP_TYPE_LS2 then decomp_LS2 d k
         else if type = DECOMP_TYPE_PAT3 then decomp_PAT3 d k
         else if type = DECOMP_TYPE_S2_UL \<or> type = DECOMP_TYPE_LS2_UL then decomp_UL d k (type = DECOMP_TYPE_S2_UL)
         else Some ([], 0)
     }"

text \<open>The fields of an entry of \<open>unicode_decomp_table1\<close>.\<close>

definition decomp_code :: "u32 \<Rightarrow> u32" where
  "decomp_code v = drop_bit 14 v"

definition decomp_len :: "u32 \<Rightarrow> u32" where
  "decomp_len v = drop_bit 7 v AND 0x7f"

definition decomp_type :: "u32 \<Rightarrow> nat" where
  "decomp_type v = unat (drop_bit 1 v AND 0x3f)"

text \<open>The binary search for the entry with \<open>c\<close>, its index and its value.\<close>

function decomp_search :: "u32 \<Rightarrow> int \<Rightarrow> int \<Rightarrow> (nat \<times> u32) option option" where
  "decomp_search c idx_min idx_max =
     (if idx_min \<le> idx_max then do {
        let idx = (idx_max + idx_min) div 2;
        v \<leftarrow> rd unicode_decomp_table1 (nat idx);
        if c < decomp_code v then decomp_search c idx_min (idx - 1)
        else if c \<ge> decomp_code v + decomp_len v then decomp_search c (idx + 1) idx_max
        else Some (Some (nat idx, v))
      }
      else Some None)"
  by pat_completeness auto
termination
  by (relation "measure (\<lambda>(c, idx_min, idx_max). nat (idx_max - idx_min + 1))") auto

declare decomp_search.simps [simp del]

definition unicode_decomp_char :: "u32 \<Rightarrow> bool \<Rightarrow> (u32 list \<times> nat) option" where
  "unicode_decomp_char c is_compat1 =
     do {
       found \<leftarrow> decomp_search c 0 (int (length unicode_decomp_table1) - 1);
       (case found of
          None \<Rightarrow> Some ([], 0)
        | Some (idx, v) \<Rightarrow>
            if \<not> is_compat1 \<and> v AND 1 = 1 then Some ([], 0)
            else unicode_decomp_entry c idx (decomp_code v) (unat (decomp_len v)) (decomp_type v))
     }"

section \<open>Composition\<close>

text \<open>\<open>pair\<close> has room for two results; fewer than two would leave it uninitialised.\<close>

function compose_search :: "u32 \<Rightarrow> u32 \<Rightarrow> int \<Rightarrow> int \<Rightarrow> u32 option" where
  "compose_search c0 c1 idx_min idx_max =
     (if idx_min \<le> idx_max then do {
        let idx = (idx_max + idx_min) div 2;
        idx1 \<leftarrow> rd unicode_comp_table (nat idx);
        let d_idx = unat (drop_bit 6 idx1);
        let d_offset = ucast idx1 AND 0x3f;
        v \<leftarrow> rd unicode_decomp_table1 d_idx;
        let ch = decomp_code v + d_offset;
        (pair, l) \<leftarrow> unicode_decomp_entry ch d_idx (decomp_code v) (unat (decomp_len v)) (decomp_type v);
        if length pair \<noteq> 2 then None
        else
          let d0 = sint (c0 - pair ! 0);
              d = (if d0 = 0 then sint (c1 - pair ! 1) else d0) in
          if d < 0 then compose_search c0 c1 idx_min (idx - 1)
          else if d > 0 then compose_search c0 c1 (idx + 1) idx_max
          else Some ch
      }
      else Some 0)"
  by pat_completeness auto
termination
  by (relation "measure (\<lambda>(c0, c1, idx_min, idx_max). nat (idx_max - idx_min + 1))") auto

declare compose_search.simps [simp del]

definition unicode_compose_pair :: "u32 \<Rightarrow> u32 \<Rightarrow> u32 option" where
  "unicode_compose_pair c0 c1 = compose_search c0 c1 0 (int (length unicode_comp_table) - 1)"

definition compose_pair :: "u32 \<Rightarrow> u32 \<Rightarrow> u32 option" where
  "compose_pair c0 c1 =
     (if c0 \<ge> 0x1100 \<and> c0 < 0x1100 + 19 \<and> c1 \<ge> 0x1161 \<and> c1 < 0x1161 + 21 then
        Some (0xac00 + (c0 - 0x1100) * 588 + (c1 - 0x1161) * 28)
      else if c0 \<ge> 0xac00 \<and> c0 < 0xac00 + 11172 \<and> (c0 - 0xac00) mod 28 = 0 \<and> c1 \<ge> 0x11a7 \<and> c1 < 0x11a7 + 28 then
        Some (c0 + c1 - 0x11a7)
      else unicode_compose_pair c0 c1)"

section \<open>Canonical ordering\<close>

text \<open>The innermost loop: move what has a higher class than \<open>cc1\<close> one place up.\<close>

function shift_cc :: "u32 list \<Rightarrow> int \<Rightarrow> int \<Rightarrow> int \<Rightarrow> (u32 list \<times> int) option" where
  "shift_cc buf start cc1 k =
     (if k \<ge> start then do {
        ch \<leftarrow> rd buf (nat k);
        cc \<leftarrow> unicode_get_cc ch;
        if cc \<le> cc1 then Some (buf, k)
        else do {
          buf \<leftarrow> wr buf (nat (k + 1)) ch;
          shift_cc buf start cc1 (k - 1)
        }
      }
      else Some (buf, k))"
  by pat_completeness auto
termination
  by (relation "measure (\<lambda>(buf, start, cc1, k). nat (k - start + 1))") auto

declare shift_cc.simps [simp del]

text \<open>The loop over a run of characters that are not starters.\<close>

function sort_cc_run :: "u32 list \<Rightarrow> nat \<Rightarrow> nat \<Rightarrow> nat \<Rightarrow> (u32 list \<times> nat) option" where
  "sort_cc_run buf len start j =
     (if j < len then do {
        ch1 \<leftarrow> rd buf j;
        cc1 \<leftarrow> unicode_get_cc ch1;
        if cc1 = 0 then Some (buf, j)
        else do {
          (buf, k) \<leftarrow> shift_cc buf (int start) cc1 (int j - 1);
          buf \<leftarrow> wr buf (nat (k + 1)) ch1;
          sort_cc_run buf len start (j + 1)
        }
      }
      else Some (buf, j))"
  by pat_completeness auto
termination
  by (relation "measure (\<lambda>(buf, len, start, j). len - j)") auto

declare sort_cc_run.simps [simp del]

lemma sort_cc_run_forward: "sort_cc_run buf len start j = Some (buf', j') \<Longrightarrow> j \<le> j'"
proof (induction buf len start j rule: sort_cc_run.induct)
  case (1 buf len start j)
  from "1.prems" show ?case
    by (subst (asm) sort_cc_run.simps) (auto simp: bind_eq_Some_conv split: if_splits dest!: "1.IH")
qed

text \<open>After a run the loop goes on behind the character that ended it.\<close>

function sort_cc_from :: "u32 list \<Rightarrow> nat \<Rightarrow> nat \<Rightarrow> u32 list option" where
  "sort_cc_from buf len i =
     (if i < len then do {
        c \<leftarrow> rd buf i;
        cc \<leftarrow> unicode_get_cc c;
        (buf, i) \<leftarrow> (if cc \<noteq> 0 then sort_cc_run buf len i (i + 1) else Some (buf, i));
        sort_cc_from buf len (i + 1)
      }
      else Some buf)"
  by pat_completeness auto
termination
  by (relation "measure (\<lambda>(buf, len, i). len - i)")
     (auto simp: bind_eq_Some_conv split: if_splits dest: sort_cc_run_forward)

declare sort_cc_from.simps [simp del]

definition sort_cc :: "u32 list \<Rightarrow> u32 list option" where
  "sort_cc buf = sort_cc_from buf (length buf) 0"

section \<open>Normalisation\<close>

definition hangul_parts :: "u32 \<Rightarrow> u32 list" where
  "hangul_parts c =
     (let c = c - 0xac00; v = c mod 28 in
      [0x1100 + c div 588, 0x1161 + c mod 588 div 28] @ (if v \<noteq> 0 then [0x11a7 + v] else []))"

primrec dbuf_put_all :: "'o DynBuf \<Rightarrow> u32 list \<Rightarrow> 'o DynBuf option" where
  "dbuf_put_all s [] = Some s"
| "dbuf_put_all s (c # cs) = do { (r, s) \<leftarrow> dbuf_put_u32 s c; dbuf_put_all s cs }"

partial_function (option) to_nfd_rec :: "bool \<Rightarrow> 'o DynBuf \<Rightarrow> u32 list \<Rightarrow> 'o DynBuf option" where
  [code]: "to_nfd_rec is_compat s src =
     (case src of
        [] \<Rightarrow> Some s
      | c # rest \<Rightarrow> do {
          s \<leftarrow> (if c \<ge> 0xac00 \<and> c < 0xd7a4 then dbuf_put_all s (hangul_parts c)
               else do {
                 (res, l) \<leftarrow> unicode_decomp_char c is_compat;
                 if l \<noteq> 0 then to_nfd_rec is_compat s (take l res)
                 else dbuf_put_all s [c]
               });
          to_nfd_rec is_compat s rest
        })"

datatype UnicodeNormalizationEnum = UNICODE_NFC | UNICODE_NFD | UNICODE_NFKC | UNICODE_NFKD

text \<open>The loop that looks for the starter: \<open>None\<close> is the jump to \<^verbatim>\<open>next\<close>.\<close>

function find_starter :: "u32 list \<Rightarrow> int \<Rightarrow> int \<Rightarrow> int option option" where
  "find_starter buf last_cc starter_pos =
     (if starter_pos \<ge> 0 then do {
        ch \<leftarrow> rd buf (nat starter_pos);
        cc \<leftarrow> unicode_get_cc ch;
        if cc = 0 then Some (Some starter_pos)
        else if cc \<ge> last_cc then Some None
        else find_starter buf 256 (starter_pos - 1)
      }
      else Some (Some starter_pos))"
  by pat_completeness auto
termination
  by (relation "measure (\<lambda>(buf, last_cc, starter_pos). nat (starter_pos + 1))") auto

declare find_starter.simps [simp del]

definition compose_round :: "u32 list \<Rightarrow> nat \<Rightarrow> nat \<Rightarrow> (u32 list \<times> nat) option" where
  "compose_round buf i out_len =
     do {
       ch \<leftarrow> rd buf i;
       last_cc \<leftarrow> unicode_get_cc ch;
       starter \<leftarrow> find_starter buf last_cc (int out_len - 1);
       composed \<leftarrow> (case starter of
           None \<Rightarrow> Some None
         | Some pos \<Rightarrow>
             if pos \<ge> 0 then do {
               s \<leftarrow> rd buf (nat pos);
               p \<leftarrow> compose_pair s ch;
               Some (if p \<noteq> 0 then Some (nat pos, p) else None)
             }
             else Some None);
       (case composed of
          Some (pos, p) \<Rightarrow> do { buf \<leftarrow> wr buf pos p; Some (buf, out_len) }
        | None \<Rightarrow> do { buf \<leftarrow> wr buf out_len ch; Some (buf, out_len + 1) })
     }"

function compose_loop :: "u32 list \<Rightarrow> nat \<Rightarrow> nat \<Rightarrow> nat \<Rightarrow> (u32 list \<times> nat) option" where
  "compose_loop buf buf_len i out_len =
     (if i < buf_len then do {
        (buf, out_len) \<leftarrow> compose_round buf i out_len;
        compose_loop buf buf_len (i + 1) out_len
      }
      else Some (buf, out_len))"
  by pat_completeness auto
termination
  by (relation "measure (\<lambda>(buf, buf_len, i, out_len). buf_len - i)") auto

declare compose_loop.simps [simp del]

text \<open>The bytes of a buffer as an array of 32-bit values.\<close>

definition u32s_of_bytes :: "u8 list \<Rightarrow> u32 list option" where
  "u32s_of_bytes bs = those (map (\<lambda>i. get_u32 bs (4 * i)) [0..<length bs div 4])"

text \<open>A size as the \<^verbatim>\<open>int\<close> it is assigned to.\<close>

definition int_of_size :: "nat \<Rightarrow> int" where
  "int_of_size n = sint (word_of_nat n :: 32 word)"

text \<open>
  The result is the buffer that \<^verbatim>\<open>*pdst\<close> is set to (\<open>None\<close> for \<^verbatim>\<open>NULL\<close>) and the returned
  \<^verbatim>\<open>int\<close>, which says how much of the buffer is the text.  \<open>src\<close> is the array behind the pointer,
  \<open>src_len\<close> the \<^verbatim>\<open>int\<close> that is passed with it.
\<close>

definition unicode_normalize ::
  "'o realloc \<Rightarrow> 'o realloc option \<Rightarrow> 'o \<Rightarrow> u32 list \<Rightarrow> int \<Rightarrow> UnicodeNormalizationEnum \<Rightarrow>
   (u32 list option \<times> int) option" where
  "unicode_normalize libc_realloc realloc_func h src src_len n_type =
     (let is_compat = (n_type = UNICODE_NFKC \<or> n_type = UNICODE_NFKD); n = nat src_len in
      do {
        (r, dbuf) \<leftarrow> dbuf_realloc (dbuf_init2 libc_realloc h realloc_func) (nat (4 * src_len mod 2 ^ 64));
        if r \<noteq> 0 then Some (None, - 1)
        else if length src < n then None
        else if n_type = UNICODE_NFC \<and> list_all (\<lambda>c. c < 0x100) (take n src) then
          (if src_len < 0 then None else Some (Some (take n src), src_len))
        else do {
          dbuf \<leftarrow> to_nfd_rec is_compat dbuf (take n src);
          if dbuf_error dbuf then Some (None, - 1)
          else do {
            buf \<leftarrow> u32s_of_bytes (db_contents dbuf);
            let buf_len = int_of_size (db_size dbuf div 4);
            sorted \<leftarrow> sort_cc (take (nat buf_len) buf);
            let buf = sorted @ drop (nat buf_len) buf;
            if buf_len \<le> 1 \<or> n_type = UNICODE_NFD \<or> n_type = UNICODE_NFKD then Some (Some buf, buf_len)
            else do {
              (buf, out_len) \<leftarrow> compose_loop buf (nat buf_len) 1 1;
              Some (Some buf, int out_len)
            }
          }
        }
      })"

end
