(* ===== verification/Unicode_Classes.thy ===== *)
theory Unicode_Classes
  imports Unicode_Norm Unicode_Sets
begin

text \<open>
  Combining classes: the indexed walk through the table agrees with decoding the whole table from
  its start, so the class of every character is defined.
\<close>

section \<open>The reference decoder\<close>

text \<open>A coded run: its length, the kind of its classes and its byte.  Runs of more than 2 ^ 16
  characters, which the table does not have, are not decoded.\<close>

type_synonym cc_run = "int \<times> int \<times> int"

definition cc_length :: "int \<Rightarrow> int list \<Rightarrow> (int \<times> int list) option" where
  "cc_length m rest =
     (if m < 48 then Some (m, rest)
      else if m < 56 then (case rest of b0 # r \<Rightarrow> Some ((m - 48) * 256 + b0 + 48, r) | _ \<Rightarrow> None)
      else if m = 56 then (case rest of b0 # b1 # r \<Rightarrow> Some (b0 * 256 + b1 + 2096, r) | _ \<Rightarrow> None)
      else None)"

definition cc_chunk :: "int list \<Rightarrow> (cc_run \<times> int list) option" where
  "cc_chunk bs =
     (case bs of
        [] \<Rightarrow> None
      | b # rest \<Rightarrow>
          (case cc_length (b mod 64) rest of
             None \<Rightarrow> None
           | Some (n, r) \<Rightarrow>
               if b div 64 \<le> 1 then (case r of v # r' \<Rightarrow> Some ((n + 1, b div 64, v), r') | [] \<Rightarrow> None)
               else Some ((n + 1, b div 64, 0), r)))"

lemma cc_length_rest: "cc_length m bs = Some (n, r) \<Longrightarrow> \<exists>k. r = drop k bs"
  by (auto simp: cc_length_def split: if_splits list.splits intro: exI [of _ 0] exI [of _ 1] exI [of _ 2])

lemma cc_chunk_rest: "cc_chunk bs = Some (x, r) \<Longrightarrow> length r < length bs"
  by (auto simp: cc_chunk_def split: list.splits option.splits if_splits dest!: cc_length_rest)
     (metis length_Cons length_drop less_Suc_eq_le diff_le_self Suc_leD less_imp_le_nat)+

function cc_runs :: "int list \<Rightarrow> cc_run list option" where
  "cc_runs bs =
     (if bs = [] then Some []
      else case cc_chunk bs of
        None \<Rightarrow> None
      | Some (x, r) \<Rightarrow> (case cc_runs r of None \<Rightarrow> None | Some xs \<Rightarrow> Some (x # xs)))"
  by pat_completeness auto
termination
  by (relation "measure length") (auto dest: cc_chunk_rest)

declare cc_runs.simps [simp del]

definition run_lengths :: "cc_run list \<Rightarrow> int" where
  "run_lengths rs = sum_list (map fst rs)"

lemma run_lengths_simps [simp]:
  "run_lengths [] = 0" "run_lengths (r # rs) = fst r + run_lengths rs" "run_lengths (rs @ rs') = run_lengths rs + run_lengths rs'"
  by (simp_all add: run_lengths_def)

definition cc_value :: "int \<Rightarrow> int \<Rightarrow> int \<Rightarrow> int" where
  "cc_value t v i = (if t = 0 then v else if t = 1 then v + i else if t = 2 then 0 else 230)"

primrec cc_at :: "cc_run list \<Rightarrow> int \<Rightarrow> int \<Rightarrow> int" where
  "cc_at [] code c = 0"
| "cc_at (r # rs) code c =
     (case r of (n, t, v) \<Rightarrow> if c < code + n then cc_value t v (c - code) else cc_at rs (code + n) c)"

text \<open>A run is not empty, and its classes are bytes.\<close>

definition cc_run_ok :: "cc_run \<Rightarrow> bool" where
  "cc_run_ok r = (case r of (n, t, v) \<Rightarrow> 0 < n \<and> 0 \<le> v \<and> v \<le> 255 \<and> (if t = 1 then v + n \<le> 256 else True))"

lemma cc_run_ok_pos: "cc_run_ok r \<Longrightarrow> 0 < fst r"
  by (auto simp: cc_run_ok_def)

lemma cc_at_bounds:
  "\<forall>r \<in> set rs. cc_run_ok r \<Longrightarrow> code \<le> c \<Longrightarrow> 0 \<le> cc_at rs code c \<and> cc_at rs code c \<le> 255"
proof (induction rs arbitrary: code)
  case (Cons r rs)
  obtain n t v where r: "r = (n, t, v)" by (cases r) auto
  show ?case
  proof (cases "c < code + n")
    case True
    then show ?thesis using Cons.prems r by (auto simp: cc_run_ok_def cc_value_def split: if_splits)
  next
    case False
    then show ?thesis using Cons.IH [of "code + n"] Cons.prems(1) r by simp
  qed
qed simp

lemma cc_at_skip:
  "\<forall>r \<in> set rs. 0 < fst r \<Longrightarrow> code + run_lengths rs \<le> c \<Longrightarrow> cc_at (rs @ rs') code c = cc_at rs' (code + run_lengths rs) c"
proof (induction rs arbitrary: code)
  case (Cons r rs)
  have "0 \<le> run_lengths rs"
    unfolding run_lengths_def using Cons.prems(1) by (intro sum_list_nonneg) (auto intro: less_imp_le)
  then show ?case using Cons.prems Cons.IH [of "code + fst r"] by (cases r) (simp add: add.assoc)
qed simp

section \<open>One round\<close>

lemma six_bits:
  fixes b :: u8
  shows "drop_bit 6 (ucast b :: u32) = word_of_int (uint b div 64)" and "(ucast b :: u32) AND 0x3f = word_of_int (uint b mod 64)"
proof -
  have "take_bit 32 (uint b) = uint b" using byte_bounds(2) [of b] by (simp add: take_bit_int_eq_self)
  then have "uint (drop_bit 6 (ucast b :: u32)) = uint b div 64"
    by (simp only: unsigned_drop_bit_eq drop_bit_eq_div [where 'a = int] uint_ucast_byte) simp
  then show "drop_bit 6 (ucast b :: u32) = word_of_int (uint b div 64)" by (metis word_of_int_uint)
  have "uint ((ucast b :: u32) AND 0x3f) = uint b AND 0x3f"
    by (simp only: uint_and uint_ucast_byte) simp
  also have "\<dots> = uint b mod 64" using take_bit_eq_mask [of 6 "uint b"] by (simp add: take_bit_eq_mod mask_eq_exp_minus_1)
  finally show "(ucast b :: u32) AND 0x3f = word_of_int (uint b mod 64)" by (metis word_of_int_uint)
qed

definition cc_length_bytes :: "u32 \<Rightarrow> nat \<Rightarrow> (u32 \<times> nat) option" where
  "cc_length_bytes n p =
     (if n < 48 then Some (n, p)
      else if n < 56 then do {
        b0 \<leftarrow> rd unicode_cc_table p;
        Some ((push_bit 8 (n - 48) OR ucast b0) + 48, p + 1)
      }
      else do {
        b0 \<leftarrow> rd unicode_cc_table p;
        b1 \<leftarrow> rd unicode_cc_table (p + 1);
        Some (((push_bit 8 (n - 56) OR push_bit 8 (ucast b0)) OR ucast b1) + (48 + push_bit 11 1), p + 2)
      })"

lemma map_drop_Cons:
  assumes "map uint (drop p (t :: u8 list)) = x # r"
  obtains b where "rd t p = Some b" and "x = uint b" and "r = map uint (drop (p + 1) t)"
proof -
  have "p < length t" using assms by (cases "p < length t") simp_all
  then show thesis using that [of "t ! p"] assms by (simp add: Cons_nth_drop_Suc [symmetric])
qed

lemma cc_length_bytes_run:
  assumes len: "cc_length m (map uint (drop p unicode_cc_table)) = Some (n, r)" and m: "0 \<le> m" "m < 64"
  shows "\<exists>k. r = map uint (drop (p + k) unicode_cc_table) \<and>
     cc_length_bytes (word_of_int m) p = Some (word_of_int n, p + k) \<and> 0 \<le> n \<and> n < 1048576"
proof -
  let ?T = unicode_cc_table
  have u: "uint (word_of_int m :: u32) = m" using m by (simp add: uint_word_of_int_eq take_bit_int_eq_self)
  have cmp: "(word_of_int m :: u32) < 48 \<longleftrightarrow> m < 48" "(word_of_int m :: u32) < 56 \<longleftrightarrow> m < 56"
    unfolding word_less_def u by simp_all
  consider "m < 48" | "48 \<le> m" "m < 56" | "m = 56" | "56 < m" by linarith
  then show ?thesis
  proof cases
    case 1
    then show ?thesis using len m cmp by (intro exI [of _ 0]) (auto simp: cc_length_def cc_length_bytes_def)
  next
    case 2
    with len obtain b0 where n: "n = (m - 48) * 256 + b0 + 48" and D: "map uint (drop p ?T) = b0 # r"
      by (auto simp: cc_length_def split: list.splits)
    from D obtain b where b: "rd ?T p = Some b" "b0 = uint b" "r = map uint (drop (p + 1) ?T)"
      by (rule map_drop_Cons)
    have "word_of_int m - 48 = (word_of_int (m - 48) :: u32)" by simp
    then have "(push_bit 8 (word_of_int m - 48) OR ucast b) + 48 = (word_of_int n :: u32)"
      by (simp only: push_or_byte n b(2)) simp
    moreover have "0 \<le> (m - 48) * 256" "(m - 48) * 256 \<le> 2048" using 2 by simp_all
    then have "0 \<le> n" "n < 1048576" using b(2) byte_bounds [of b] by (simp_all only: n)
    ultimately show ?thesis using 2 cmp b by (intro exI [of _ 1]) (simp add: cc_length_bytes_def)
  next
    case 3
    with len obtain b0 b1 where n: "n = b0 * 256 + b1 + 2096" and D: "map uint (drop p ?T) = b0 # b1 # r"
      by (auto simp: cc_length_def split: list.splits)
    from D obtain x where x: "rd ?T p = Some x" "b0 = uint x" and D': "b1 # r = map uint (drop (p + 1) ?T)"
      by (rule map_drop_Cons)
    from D' [symmetric] obtain y where y: "rd ?T (p + 1) = Some y" "b1 = uint y" "r = map uint (drop (p + 1 + 1) ?T)"
      by (rule map_drop_Cons)
    have "(push_bit 8 (word_of_int m - 56) OR push_bit 8 (ucast x)) OR ucast y = (push_bit 8 (word_of_int (uint x)) OR ucast y :: u32)"
      using 3 by simp
    then have "((push_bit 8 (word_of_int m - 56) OR push_bit 8 (ucast x)) OR ucast y) + (48 + push_bit 11 1) = (word_of_int n :: u32)"
      by (simp only: push_or_byte n x(2) y(2)) (simp add: push_bit_eq_mult)
    moreover have "0 \<le> n" unfolding n using x(2) y(2) byte_bounds [of x] byte_bounds [of y] by linarith
    moreover have "n < 1048576" unfolding n using x(2) y(2) byte_bounds [of x] byte_bounds [of y] by linarith
    ultimately show ?thesis using 3 cmp x y by (intro exI [of _ 2]) (simp add: cc_length_bytes_def)
  next
    case 4
    then show ?thesis using len by (simp add: cc_length_def)
  qed
qed

lemma cc_round_parts:
  "cc_round c p code =
     do {
       b \<leftarrow> rd unicode_cc_table p;
       let type = drop_bit 6 (ucast b :: u32);
       (n, p) \<leftarrow> cc_length_bytes ((ucast b :: u32) AND 0x3f) (p + 1);
       let p = (if type \<le> 1 then p + 1 else p);
       let c1 = code + n + 1;
       if c < c1 then
         (if type = 0 then do { k \<leftarrow> rd unicode_cc_table (p - 1); Some (Inl (ucast k)) }
          else if type = 1 then do { k \<leftarrow> rd unicode_cc_table (p - 1); Some (Inl (ucast k + c - code)) }
          else if type = 2 then Some (Inl 0)
          else Some (Inl 230))
       else Some (Inr (p, c1))
     }"
  unfolding cc_round_def cc_length_bytes_def Let_def by (rule refl)

text \<open>A round of the walk decodes one run.\<close>

lemma cc_round_run:
  assumes ch: "cc_chunk (map uint (drop p unicode_cc_table)) = Some ((len, t, v), r)"
    and code: "0 \<le> code" "code + len < 2 ^ 31" "code \<le> uint c"
  shows "\<exists>k. r = map uint (drop (p + k) unicode_cc_table) \<and> 0 < len \<and>
    cc_round c p (word_of_int code) = Some (if uint c < code + len
       then Inl (word_of_int (cc_value t v (uint c - code))) else Inr (p + k, word_of_int (code + len))) \<and>
    0 \<le> cc_value t v (uint c - code) \<and> (uint c < code + len \<longrightarrow> cc_value t v (uint c - code) < 2 ^ 31)"
proof -
  let ?T = unicode_cc_table
  from ch obtain b0 rest n r0 where D: "map uint (drop p ?T) = b0 # rest"
    and n: "cc_length (b0 mod 64) rest = Some (n, r0)" and len: "len = n + 1" and t: "t = b0 div 64"
    and v: "if t \<le> 1 then r0 = v # r else r0 = r \<and> v = 0"
    by (auto simp: cc_chunk_def split: list.splits option.splits if_splits)
  from D obtain b where b: "rd ?T p = Some b" "b0 = uint b" "rest = map uint (drop (p + 1) ?T)" by (rule map_drop_Cons)
  have "0 \<le> b0 mod 64" "b0 mod 64 < 64" by simp_all
  from cc_length_bytes_run [OF n [unfolded b(3)] this] obtain k where
    r0: "r0 = map uint (drop (p + 1 + k) ?T)" and nb: "cc_length_bytes (word_of_int (b0 mod 64)) (p + 1) = Some (word_of_int n, p + 1 + k)"
    and n0: "0 \<le> n" "n < 1048576" by blast
  have t4: "0 \<le> t" "t < 4"
    using b(2) byte_bounds [of b] unfolding t by (simp_all add: pos_imp_zdiv_nonneg_iff)
  have ut: "uint (drop_bit 6 (ucast b :: u32)) = t" unfolding six_bits(1) b(2) [symmetric] t [symmetric]
    using t4 by (simp add: uint_word_of_int_eq take_bit_int_eq_self)
  have type: "drop_bit 6 (ucast b :: u32) \<le> 1 \<longleftrightarrow> t \<le> 1" "drop_bit 6 (ucast b :: u32) = 0 \<longleftrightarrow> t = 0"
    "drop_bit 6 (ucast b :: u32) = 1 \<longleftrightarrow> t = 1" "drop_bit 6 (ucast b :: u32) = 2 \<longleftrightarrow> t = 2"
    unfolding word_le_def word_uint_eq_iff ut by simp_all
  have c1: "word_of_int code + word_of_int n + 1 = (word_of_int (code + len) :: u32)" by (simp add: len)
  have less: "c < word_of_int (code + len) \<longleftrightarrow> uint c < code + len"
    by (rule less_word_of_int) (use code len n0 in simp_all)
  have sub: "word_of_int (uint x) + c - word_of_int code = (word_of_int (uint x + (uint c - code)) :: u32)" for x :: u8
    by simp
  note round = cc_round_parts [of c p "word_of_int code", unfolded b(1) bind.bind_lunit Let_def six_bits(2) b(2) [symmetric] nb
      prod.case type c1 less]
  show ?thesis
  proof (cases "t \<le> 1")
    case True
    then have "map uint (drop (p + 1 + k) ?T) = v # r" using v r0 by simp
    then obtain x where x: "rd ?T (p + 1 + k) = Some x" "v = uint x"
        "r = map uint (drop (p + 1 + k + 1) ?T)" by (rule map_drop_Cons)
    show ?thesis
      using True x(1) t4 n0 len code byte_bounds [of x]
      by (intro exI [of _ "k + 2"]) (auto simp: round x(2,3) sub cc_value_def uint_ucast_byte simp flip: word_of_int_uint)
  next
    case False
    then show ?thesis
      using v r0 t4 n0 len by (intro exI [of _ "k + 1"]) (auto simp: round cc_value_def)
  qed
qed

section \<open>The walk\<close>

lemma cc_runs_step:
  assumes "cc_runs bs = Some (x # rs)"
  obtains r where "cc_chunk bs = Some (x, r)" and "cc_runs r = Some rs"
  using assms by (subst (asm) cc_runs.simps) (auto split: if_splits option.splits)

lemma cc_walk_runs:
  assumes "cc_runs (map uint (drop p unicode_cc_table)) = Some rs" and "0 \<le> code" and "code + run_lengths rs < 2 ^ 31"
    and "code \<le> uint c" and "uint c < code + run_lengths rs" and "\<forall>r \<in> set rs. 0 < fst r"
  shows "\<exists>w. cc_walk c p (word_of_int code) = Some w \<and> sint w = cc_at rs code (uint c)"
  using assms
proof (induction rs arbitrary: p code)
  case (Cons x rs)
  obtain len t v where x: "x = (len, t, v)" by (cases x) auto
  from Cons.prems(1) obtain r where ch: "cc_chunk (map uint (drop p unicode_cc_table)) = Some ((len, t, v), r)"
    and rs: "cc_runs r = Some rs" unfolding x by (rule cc_runs_step)
  have nonneg: "0 \<le> run_lengths rs"
    unfolding run_lengths_def using Cons.prems(6) by (intro sum_list_nonneg) (auto intro: less_imp_le)
  have "code + len < 2 ^ 31" using Cons.prems(3) nonneg x by simp
  from cc_round_run [OF ch Cons.prems(2) this Cons.prems(4)] obtain k where
    r: "r = map uint (drop (p + k) unicode_cc_table)" and len: "0 < len"
    and round: "cc_round c p (word_of_int code) = Some (if uint c < code + len
       then Inl (word_of_int (cc_value t v (uint c - code))) else Inr (p + k, word_of_int (code + len)))"
    and range: "0 \<le> cc_value t v (uint c - code)" "uint c < code + len \<longrightarrow> cc_value t v (uint c - code) < 2 ^ 31"
    by blast
  show ?case
  proof (cases "uint c < code + len")
    case True
    then have "sint (word_of_int (cc_value t v (uint c - code)) :: u32) = cc_value t v (uint c - code)"
      using range by (simp add: int_word_sint)
    then show ?thesis using True by (subst cc_walk.simps) (simp add: round x)
  next
    case False
    have "\<exists>w. cc_walk c (p + k) (word_of_int (code + len)) = Some w \<and> sint w = cc_at rs (code + len) (uint c)"
      by (rule Cons.IH) (use Cons.prems rs r len x False in auto)
    then show ?thesis using False by (subst cc_walk.simps) (simp add: round x)
  qed
qed simp

section \<open>The index\<close>

text \<open>The table in the blocks between the positions of its index.\<close>

fun cc_blocks_good :: "int \<Rightarrow> int \<Rightarrow> int list list \<Rightarrow> (int \<times> int) list \<Rightarrow> bool" where
  "cc_blocks_good p code (b # bs) ((q, k) # es) \<longleftrightarrow>
     (case cc_runs b of
        None \<Rightarrow> False
      | Some rs \<Rightarrow>
          list_all cc_run_ok rs \<and> code \<le> k \<and> k = code + run_lengths rs \<and>
          (if es = [] then bs = [] else q = p + int (length b) \<and> cc_blocks_good q k bs es))"
| "cc_blocks_good p code _ _ \<longleftrightarrow> False"

lemma cc_length_append: "cc_length m b = Some (n, r) \<Longrightarrow> cc_length m (b @ c) = Some (n, r @ c)"
  unfolding cc_length_def by (cases b rule: remdups_adj.cases) (simp_all split: if_splits)

lemma cc_chunk_append:
  assumes "cc_chunk b = Some (x, r)"
  shows "cc_chunk (b @ c) = Some (x, r @ c)"
proof -
  from assms obtain b0 rest n r0 where b: "b = b0 # rest" and n: "cc_length (b0 mod 64) rest = Some (n, r0)"
    by (auto simp: cc_chunk_def split: list.splits option.splits)
  with assms show ?thesis
    using cc_length_append [OF n, of c] by (cases r0) (simp_all add: cc_chunk_def split: if_splits)
qed

lemma cc_runs_append: "cc_runs b = Some rs \<Longrightarrow> cc_runs (b @ c) = map_option ((@) rs) (cc_runs c)"
proof (induction rs arbitrary: b)
  case Nil
  then have "b = []" by (subst (asm) cc_runs.simps) (auto split: if_splits option.splits)
  then show ?case by (simp add: option.map_ident)
next
  case (Cons x rs)
  from Cons.prems obtain r where r: "cc_chunk b = Some (x, r)" "cc_runs r = Some rs" by (rule cc_runs_step)
  have "b \<noteq> []" using r(1) by (auto simp: cc_chunk_def)
  then have "cc_runs (b @ c) = map_option ((#) x) (cc_runs (r @ c))"
    by (subst cc_runs.simps) (simp add: cc_chunk_append [OF r(1)] split: option.split)
  then show ?case using Cons.IH [OF r(2)] by (simp add: option.map_comp comp_def)
qed

lemma cc_blocks_good_table:
  assumes "cc_blocks_good p code bs es"
  shows "\<exists>rs. cc_runs (concat bs) = Some rs \<and> (\<forall>r \<in> set rs. cc_run_ok r) \<and> snd (last es) = code + run_lengths rs \<and>
    code \<le> snd (hd es) \<and> snd (hd es) \<le> snd (last es) \<and>
    (\<forall>e \<in> set (butlast es). \<exists>rs1 rs2 n. rs = rs1 @ rs2 \<and> fst e = p + int n \<and> snd e = code + run_lengths rs1 \<and>
       cc_runs (drop n (concat bs)) = Some rs2)"
  using assms
proof (induction p code bs es rule: cc_blocks_good.induct)
  case (1 p code b bs q k es)
  then obtain rs where rs: "cc_runs b = Some rs" and pos: "\<forall>r \<in> set rs. cc_run_ok r" and k: "code \<le> k" "k = code + run_lengths rs"
    by (auto simp: list_all_iff split: option.splits)
  show ?case
  proof (cases "es = []")
    case True
    then show ?thesis using "1.prems" rs pos k by (auto split: option.splits)
  next
    case False
    then have good: "cc_blocks_good q k bs es" and q: "q = p + int (length b)"
      using "1.prems" rs by auto
    from "1.IH" [OF rs False good] obtain rs' where rs': "cc_runs (concat bs) = Some rs'" "\<forall>r \<in> set rs'. cc_run_ok r"
        "snd (last es) = k + run_lengths rs'" "k \<le> snd (hd es)" "snd (hd es) \<le> snd (last es)"
      and entries: "\<forall>e \<in> set (butlast es). \<exists>rs1 rs2 n. rs' = rs1 @ rs2 \<and> fst e = q + int n \<and> snd e = k + run_lengths rs1 \<and>
       cc_runs (drop n (concat bs)) = Some rs2"
      by blast
    have all: "cc_runs (b @ concat bs) = Some (rs @ rs')" using cc_runs_append [OF rs] rs'(1) by simp
    have "\<exists>rs1 rs2 n. rs @ rs' = rs1 @ rs2 \<and> fst e = p + int n \<and> snd e = code + run_lengths rs1 \<and>
       cc_runs (drop n (b @ concat bs)) = Some rs2" if "e \<in> set (butlast ((q, k) # es))" for e
    proof (cases "e = (q, k)")
      case True
      then show ?thesis using q k rs'(1) by (intro exI [of _ rs] exI [of _ rs'] exI [of _ "length b"]) simp
    next
      case other: False
      then have "e \<in> set (butlast es)" using that False by auto
      with entries obtain rs1 rs2 n where "rs' = rs1 @ rs2" "fst e = q + int n" "snd e = k + run_lengths rs1"
        "cc_runs (drop n (concat bs)) = Some rs2" by blast
      then show ?thesis using q k
        by (intro exI [of _ "rs @ rs1"] exI [of _ rs2] exI [of _ "length b + n"]) auto
    qed
    moreover have "\<forall>r \<in> set (rs @ rs'). cc_run_ok r" using pos rs'(2) by auto
    moreover have "snd (last ((q, k) # es)) = code + run_lengths (rs @ rs')" using rs'(3) k False by simp
    moreover have "k \<le> snd (last ((q, k) # es))" using rs'(4,5) False by simp
    ultimately show ?thesis using all k(1) unfolding concat.simps list.sel snd_conv by blast
  qed
qed simp_all

section \<open>The table of the repository\<close>

definition cc_block_list :: "int list list" where
  "cc_block_list =
    [
     [178, 207, 212, 0, 232, 3, 220, 0, 232, 0, 216, 4, 220, 1, 202, 3, 220, 1, 202, 10,
      220, 4, 1, 3, 220, 199, 0, 240, 192, 2, 220, 194],
     [1, 220, 128, 194, 3, 220, 192, 0, 232, 1, 220, 192, 65, 233, 0, 234, 65, 233, 0, 234,
      0, 233, 204, 176, 226, 196, 176, 216, 0, 220, 195, 0, 220],
     [194, 0, 222, 0, 220, 197, 5, 220, 193, 0, 220, 193, 0, 222, 0, 228, 192, 73, 10, 67,
      19, 128, 0, 23, 128, 65, 24, 128, 192, 0, 220],
     [128, 0, 18, 176, 23, 199, 66, 30, 175, 71, 27, 193, 1, 220, 196, 0, 220, 193, 0, 220,
      143, 0, 35, 176, 52, 198, 129, 195, 0, 220, 192, 129],
     [193, 128, 0, 220, 193, 0, 220, 162, 0, 36, 157, 192, 0, 220, 193, 0, 220, 193, 2, 220,
      192, 1, 220, 192, 0, 220, 194, 0, 220, 192, 0, 220],
     [192, 0, 220, 192, 0, 220, 193, 176, 111, 198, 0, 220, 192, 136, 0, 220, 151, 195, 128, 200,
      128, 194, 128, 196, 170, 2, 220, 176, 10, 193, 2, 220],
     [195, 169, 196, 4, 220, 205, 128, 0, 220, 193, 0, 220, 193, 0, 220, 194, 2, 220, 66, 27,
      194, 0, 220, 193, 1, 220, 196, 176, 11, 0, 7, 143],
     [0, 9, 130, 192, 0, 220, 193, 176, 54, 0, 7, 143, 0, 9, 175, 192, 176, 12, 0, 7,
      143, 0, 9, 176, 61, 0, 7, 143, 0, 9, 176, 61],
     [0, 7, 143, 0, 9, 176, 78, 0, 9, 176, 61, 0, 7, 143, 0, 9, 134, 0, 84, 0,
      91, 176, 52, 0, 7, 143, 0, 9, 176, 60, 1, 9],
     [143, 0, 9, 176, 75, 0, 9, 176, 60, 1, 103, 0, 9, 140, 3, 107, 176, 59, 1, 118,
      0, 9, 140, 3, 122, 176, 27, 1, 220, 154, 0, 220],
     [128, 0, 220, 128, 0, 216, 176, 6, 65, 129, 128, 0, 132, 132, 3, 130, 129, 0, 130, 128,
      193, 0, 9, 128, 193, 176, 13, 0, 220, 176, 63, 0, 7],
     [128, 1, 9, 176, 33, 0, 220, 178, 158, 194, 179, 131, 1, 9, 157, 0, 9, 176, 108, 0,
      9, 137, 192, 176, 154, 0, 228, 176, 94, 0, 222],
     [192, 0, 220, 176, 170, 192, 0, 220, 176, 22, 0, 9, 147, 199, 129, 0, 220, 175, 196, 5,
      220, 193, 0, 220, 128, 1, 220, 193, 1, 220, 196, 0, 220],
     [195, 176, 52, 0, 7, 142, 0, 9, 165, 192, 0, 220, 198, 176, 5, 1, 9, 176, 9, 0,
      7, 138, 1, 9, 176, 18, 0, 7, 176, 103, 194],
     [65, 0, 4, 220, 193, 3, 220, 192, 65, 0, 5, 1, 131, 0, 220, 133, 192, 130, 193, 176,
      149, 193, 0, 220, 198, 0, 220, 193, 0, 234, 0, 214],
     [0, 220, 0, 202, 228, 0, 232, 1, 228, 0, 220, 0, 218, 192, 0, 233, 0, 220, 192, 0,
      220, 178, 159, 193, 1, 1, 195, 2, 1, 193, 131, 192],
     [130, 1, 1, 192, 0, 220, 192, 1, 1, 3, 220, 192, 184, 3, 205, 194, 176, 92, 0, 9,
      176, 47, 223, 177, 249, 0, 218, 0, 228, 0, 232, 0, 222],
     [1, 224, 176, 56, 1, 8, 184, 109, 163, 192, 131, 201, 159, 193, 176, 31, 193, 176, 227, 0,
      9, 164, 0, 9, 176, 102, 0, 9, 154, 209, 176, 8],
     [2, 220, 164, 0, 9, 176, 46, 0, 7, 139, 0, 9, 176, 190, 192, 128, 193, 0, 220, 129,
      193, 132, 193, 128, 192, 176, 3, 0, 9, 176, 197],
     [0, 9, 184, 70, 255, 0, 26, 178, 208, 198, 6, 220, 193, 179, 156, 0, 220, 176, 177, 0,
      220, 176, 100, 196, 182, 97, 0, 220, 128, 192, 167, 192],
     [0, 1, 0, 220, 131, 0, 9, 176, 116, 192, 0, 220, 178, 12, 195, 176, 16, 196, 177, 12,
      193, 176, 31, 2, 220, 176, 21, 1, 220, 194, 0, 220],
     [192, 3, 220, 176, 0, 192, 0, 220, 192, 0, 220, 176, 143, 0, 9, 168, 0, 9, 141, 0,
      9, 176, 8, 0, 9, 0, 7, 176, 20, 194, 175, 1, 9],
     [176, 13, 0, 7, 176, 27, 0, 9, 136, 0, 7, 176, 57, 0, 9, 0, 7, 176, 129, 0,
      7, 0, 9, 176, 31, 1, 7, 143, 0, 9, 151],
     [198, 130, 196, 176, 40, 2, 9, 176, 64, 0, 9, 130, 0, 7, 150, 192, 176, 50, 0, 9,
      0, 7, 176, 202, 0, 9, 0, 7, 176, 77, 0, 9],
     [176, 69, 0, 9, 0, 7, 176, 66, 0, 9, 176, 220, 0, 9, 0, 7, 176, 209, 1, 9,
      131, 0, 7, 176, 107, 0, 9, 176, 34, 0, 9, 145],
     [0, 9, 176, 32, 0, 9, 177, 116, 0, 9, 176, 209, 0, 7, 128, 1, 9, 176, 32, 0,
      9, 177, 120, 1, 9, 184, 57, 187, 0, 9, 184, 1, 143],
     [4, 1, 176, 10, 198, 180, 136, 1, 6, 184, 68, 123, 0, 1, 184, 12, 149, 1, 216, 2,
      1, 130, 0, 226, 4, 216, 135, 7, 220, 129, 196],
     [1, 220, 157, 195, 176, 99, 194, 184, 5, 138, 198, 128, 208, 129, 198, 128, 193, 128, 196, 176,
      51, 192, 176, 111, 198, 177, 70, 192, 176, 12, 195, 177, 203],
     [1, 232, 0, 220, 192, 176, 205, 192, 0, 220, 178, 175, 6, 220, 176, 60, 197, 0, 7]
    ]"

lemma cc_blocks: "map uint unicode_cc_table = concat cc_block_list"
  by (simp add: unicode_cc_table_def cc_block_list_def)

definition cc_index :: "(int \<times> int) list" where
  "cc_index = index_entries 0 (map uint unicode_cc_index)"

lemma cc_index_shape: "cc_index \<noteq> []" "fst (last cc_index) = int (length cc_index) * 32" "index_limit unicode_cc_index = 125259"
  by (code_simp, code_simp, code_simp)

lemma cc_table_good: "cc_blocks_good 0 0 cc_block_list cc_index"
  by code_simp

text \<open>The runs of the whole table.\<close>

definition cc_table_runs :: "cc_run list" where
  "cc_table_runs = the (cc_runs (map uint unicode_cc_table))"

definition canonical_class :: "u32 \<Rightarrow> int" where
  "canonical_class c = (if uint c < 125259 then cc_at cc_table_runs 0 (uint c) else 0)"

lemma unicode_get_cc_class: "unicode_get_cc c = Some (canonical_class c)"
proof -
  from cc_blocks_good_table [OF cc_table_good, folded cc_blocks]
  obtain rs where runs: "cc_runs (map uint unicode_cc_table) = Some rs" and ok: "\<forall>r \<in> set rs. cc_run_ok r"
    and total: "snd (last cc_index) = run_lengths rs" and hd: "snd (hd cc_index) \<le> snd (last cc_index)"
    and entries: "\<forall>e \<in> set (butlast cc_index). \<exists>rs1 rs2 n. rs = rs1 @ rs2 \<and> fst e = int n \<and> snd e = run_lengths rs1 \<and>
       cc_runs (drop n (map uint unicode_cc_table)) = Some rs2"
    by auto
  have pos: "\<forall>r \<in> set rs. 0 < fst r" using ok cc_run_ok_pos by blast
  have rs: "cc_table_runs = rs" by (simp add: cc_table_runs_def runs)
  have limit: "index_limit unicode_cc_index = run_lengths rs"
    using total by (simp add: index_limit_def cc_index_def)
  then have small: "run_lengths rs = 125259" using cc_index_shape(3) by simp
  show ?thesis
  proof (cases rule: get_index_pos_cases [OF cc_index_def [symmetric] cc_index_shape(1,2) hd, of c, case_names front behind entry])
    case front
    then have "\<exists>w. cc_walk c 0 (word_of_int 0) = Some w \<and> sint w = cc_at rs 0 (uint c)"
      using runs pos limit small by (intro cc_walk_runs) simp_all
    then show ?thesis using front limit small by (auto simp: unicode_get_cc_def canonical_class_def rs)
  next
    case behind
    then show ?thesis using limit small by (simp add: unicode_get_cc_def canonical_class_def)
  next
    case (entry m code)
    then obtain rs1 rs2 where parts: "rs = rs1 @ rs2" "code = run_lengths rs1" "cc_runs (map uint (drop m unicode_cc_table)) = Some rs2"
      using entries by (auto simp: drop_map)
    have "0 \<le> run_lengths rs1"
      unfolding run_lengths_def using pos parts(1) by (intro sum_list_nonneg) (auto intro: less_imp_le)
    then have "\<exists>w. cc_walk c m (word_of_int code) = Some w \<and> sint w = cc_at rs2 code (uint c)"
      using entry(3,4) parts limit small pos by (intro cc_walk_runs) auto
    moreover have "cc_at rs 0 (uint c) = cc_at rs2 code (uint c)"
      using cc_at_skip [of rs1 0 "uint c" rs2] pos parts(1,2) entry(3) by simp
    ultimately show ?thesis
      using entry(1,4) limit small by (auto simp: unicode_get_cc_def canonical_class_def rs)
  qed
qed


lemma canonical_class_bounds: "0 \<le> canonical_class c \<and> canonical_class c \<le> 255"
proof -
  from cc_blocks_good_table [OF cc_table_good, folded cc_blocks]
  obtain rs where "cc_runs (map uint unicode_cc_table) = Some rs" and "\<forall>r \<in> set rs. cc_run_ok r" by blast
  then show ?thesis using cc_at_bounds [of rs 0 "uint c"] by (simp add: canonical_class_def cc_table_runs_def)
qed

end
