(* ===== verification/Unicode_Order.thy ===== *)
theory Unicode_Order
  imports Unicode_Classes
begin

text \<open>
  Canonical ordering: \<^verbatim>\<open>sort_cc\<close> sorts every run of characters that are not starters by
  combining class, keeping the order of characters of the same class.
\<close>

section \<open>The specification\<close>

abbreviation starter :: "u32 \<Rightarrow> bool" where
  "starter c \<equiv> canonical_class c = 0"

function canonical_order :: "u32 list \<Rightarrow> u32 list" where
  "canonical_order [] = []"
| "canonical_order (c # cs) =
     (if starter c then c # canonical_order cs
      else sort_key canonical_class (takeWhile (\<lambda>x. \<not> starter x) (c # cs)) @
           canonical_order (dropWhile (\<lambda>x. \<not> starter x) (c # cs)))"
  by pat_completeness auto
termination
  by (relation "measure length") (auto simp: le_imp_less_Suc length_dropWhile_le)

declare canonical_order.simps(2) [simp del]

section \<open>Inserting into a sorted run\<close>

definition low :: "int \<Rightarrow> u32 list \<Rightarrow> u32 list" where
  "low k xs = rev (dropWhile (\<lambda>x. canonical_class x > k) (rev xs))"

definition high :: "int \<Rightarrow> u32 list \<Rightarrow> u32 list" where
  "high k xs = rev (takeWhile (\<lambda>x. canonical_class x > k) (rev xs))"

lemma low_high: "low k xs @ high k xs = xs"
  by (metis low_def high_def rev_append rev_rev_ident takeWhile_dropWhile_id)

lemma low_high_snoc [simp]:
  "low k [] = []" "high k [] = []"
  "low k (xs @ [x]) = (if canonical_class x > k then low k xs else xs @ [x])"
  "high k (xs @ [x]) = (if canonical_class x > k then high k xs @ [x] else [])"
  by (simp_all add: low_def high_def)

lemma high_above: "x \<in> set (high k xs) \<Longrightarrow> k < canonical_class x"
  unfolding high_def by (auto dest: set_takeWhileD)

lemma low_below:
  assumes "sorted (map canonical_class xs)" and "x \<in> set (low k xs)"
  shows "canonical_class x \<le> k"
  using assms
proof (induction xs rule: rev_induct)
  case (snoc y ys)
  then show ?case by (auto simp: sorted_append split: if_splits)
qed simp

lemma insert_sorted:
  "sort_key canonical_class (run @ [x]) =
     low (canonical_class x) (sort_key canonical_class run) @ x # high (canonical_class x) (sort_key canonical_class run)"
  (is "_ = ?ys")
proof (rule properties_for_sort_key)
  let ?k = "canonical_class x" and ?xs = "sort_key canonical_class run"
  have sorted: "sorted (map canonical_class ?xs)" by simp
  have split: "mset (low ?k ?xs) + mset (high ?k ?xs) = mset run"
    using arg_cong [OF low_high [of ?k ?xs], of mset] by simp
  then show "mset ?ys = mset (run @ [x])" by (simp add: ac_simps)
  show "filter (\<lambda>y. canonical_class k = canonical_class y) ?ys = filter (\<lambda>y. canonical_class k = canonical_class y) (run @ [x])" for k
  proof -
    have "filter (\<lambda>y. canonical_class k = canonical_class y) run = filter (\<lambda>y. canonical_class k = canonical_class y) ?xs"
      by (simp add: sort_key_stable eq_commute)
    also have "\<dots> = filter (\<lambda>y. canonical_class k = canonical_class y) (low ?k ?xs) @
        filter (\<lambda>y. canonical_class k = canonical_class y) (high ?k ?xs)"
      by (simp only: low_high flip: filter_append)
    finally have all: "filter (\<lambda>y. canonical_class k = canonical_class y) run = \<dots>" .
    have "filter (\<lambda>y. canonical_class k = canonical_class y) (high ?k ?xs) = []" if "canonical_class k = ?k"
      using that high_above [of _ ?k ?xs] by (fastforce simp: filter_empty_conv)
    then show ?thesis using all by simp
  qed
  have "sorted (map canonical_class (low ?k ?xs @ high ?k ?xs))" using sorted by (simp only: low_high)
  then show "sorted (map canonical_class ?ys)"
    using low_below [OF sorted] high_above by (auto simp: sorted_append less_imp_le)
qed

section \<open>The loops\<close>

lemma shift_cc_run:
  "\<exists>z. shift_cc (pre @ xs @ y # rest) (int (length pre)) k (int (length pre + length xs) - 1) =
     Some (pre @ low k xs @ z # high k xs @ rest, int (length pre + length (low k xs)) - 1)"
proof (induction xs arbitrary: y rest rule: rev_induct)
  case Nil
  show ?case by (intro exI [of _ y]) (simp add: shift_cc.simps)
next
  case (snoc x xs)
  let ?buf = "pre @ (xs @ [x]) @ y # rest"
  have pos: "nat (int (length pre + length (xs @ [x])) - 1) = length pre + length xs" by simp
  have at: "rd ?buf (length pre + length xs) = Some x" by (simp add: nth_append)
  show ?case
  proof (cases "canonical_class x \<le> k")
    case True
    then show ?thesis
      using at pos by (intro exI [of _ y]) (subst shift_cc.simps, simp add: unicode_get_cc_class nth_append)
  next
    case False
    have "wr ?buf (length pre + length xs + 1) x = Some (pre @ xs @ x # x # rest)"
      by (simp add: wr_def list_update_append)
    moreover have "nat (int (length pre + length (xs @ [x])) - 1 + 1) = length pre + length xs + 1" by simp
    moreover obtain z where "shift_cc (pre @ xs @ x # x # rest) (int (length pre)) k (int (length pre + length xs) - 1) =
        Some (pre @ low k xs @ z # high k xs @ x # rest, int (length pre + length (low k xs)) - 1)"
      using snoc.IH by blast
    ultimately show ?thesis
      using at pos False by (intro exI [of _ z]) (subst shift_cc.simps, simp add: unicode_get_cc_class nth_append)
  qed
qed

lemma sort_cc_run_sorts:
  "sort_cc_run (pre @ sort_key canonical_class run @ todo) (length pre + length run + length todo) (length pre) (length pre + length run) =
     Some (pre @ sort_key canonical_class (run @ takeWhile (\<lambda>x. \<not> starter x) todo) @ dropWhile (\<lambda>x. \<not> starter x) todo,
           length pre + length run + length (takeWhile (\<lambda>x. \<not> starter x) todo))"
proof (induction todo arbitrary: run)
  case Nil
  show ?case by (subst sort_cc_run.simps) simp
next
  case (Cons x todo)
  let ?xs = "sort_key canonical_class run" and ?k = "canonical_class x"
  let ?buf = "pre @ ?xs @ x # todo"
  have at: "rd ?buf (length pre + length run) = Some x" by (simp add: nth_append)
  show ?case
  proof (cases "starter x")
    case True
    then show ?thesis using at by (subst sort_cc_run.simps) (simp add: unicode_get_cc_class)
  next
    case False
    obtain z where shift: "shift_cc ?buf (int (length pre)) ?k (int (length pre + length run) - 1) =
        Some (pre @ low ?k ?xs @ z # high ?k ?xs @ todo, int (length pre + length (low ?k ?xs)) - 1)"
      using shift_cc_run [of pre ?xs x todo ?k] by auto
    have slot: "nat (int (length pre + length (low ?k ?xs)) - 1 + 1) = length pre + length (low ?k ?xs)" by simp
    have "wr (pre @ low ?k ?xs @ z # high ?k ?xs @ todo) (length pre + length (low ?k ?xs)) x =
        Some (pre @ (low ?k ?xs @ x # high ?k ?xs) @ todo)"
      by (simp add: wr_def list_update_append)
    then have "sort_cc_run ?buf (length pre + length run + length (x # todo)) (length pre) (length pre + length run) =
        sort_cc_run (pre @ sort_key canonical_class (run @ [x]) @ todo) (length pre + length (run @ [x]) + length todo)
          (length pre) (length pre + length (run @ [x]))"
      using False at shift slot
      by (subst sort_cc_run.simps) (simp add: unicode_get_cc_class insert_sorted)
    also note Cons.IH [of "run @ [x]"]
    finally show ?thesis using False by simp
  qed
qed

lemma sort_cc_from_order:
  "sort_cc_from (pre @ todo) (length pre + length todo) (length pre) = Some (pre @ canonical_order todo)"
proof (induction todo arbitrary: pre rule: canonical_order.induct)
  case 1
  show ?case by (subst sort_cc_from.simps) simp
next
  case (2 c cs)
  have at: "rd (pre @ c # cs) (length pre) = Some c" by (simp add: nth_append)
  show ?case
  proof (cases "starter c")
    case True
    with "2.IH"(1) [OF True, of "pre @ [c]"] at show ?thesis
      by (subst sort_cc_from.simps) (simp add: unicode_get_cc_class canonical_order.simps(2))
  next
    case False
    let ?run = "takeWhile (\<lambda>x. \<not> starter x) (c # cs)" and ?rest = "dropWhile (\<lambda>x. \<not> starter x) (c # cs)"
    let ?pre = "pre @ sort_key canonical_class ?run"
    have len: "length (takeWhile (\<lambda>x. \<not> starter x) cs) + length (dropWhile (\<lambda>x. \<not> starter x) cs) = length cs"
      by (simp flip: length_append)
    have run: "sort_cc_run (pre @ c # cs) (length pre + length (c # cs)) (length pre) (length pre + 1) =
        Some (?pre @ ?rest, length ?pre)"
      using sort_cc_run_sorts [of pre "[c]" cs] False by simp
    have "sort_cc_from (pre @ c # cs) (length pre + length (c # cs)) (length pre) =
        sort_cc_from (?pre @ ?rest) (length ?pre + length ?rest) (length ?pre + 1)"
      using False at run by (subst sort_cc_from.simps) (simp add: unicode_get_cc_class len add.assoc)
    also have "\<dots> = sort_cc_from (?pre @ ?rest) (length ?pre + length ?rest) (length ?pre)"
    proof (cases ?rest)
      case Nil
      then show ?thesis by (simp add: sort_cc_from.simps)
    next
      case (Cons d ds)
      then have "starter d" using hd_dropWhile [of "\<lambda>x. \<not> starter x" "c # cs"] by simp
      moreover have "rd (?pre @ d # ds) (length ?pre) = Some d" by (simp add: nth_append)
      ultimately show ?thesis
        unfolding Cons by (subst (2) sort_cc_from.simps) (simp add: unicode_get_cc_class)
    qed
    also note "2.IH"(2) [OF False, of ?pre]
    finally show ?thesis using False by (simp add: canonical_order.simps(2))
  qed
qed

lemma sort_cc_canonical: "sort_cc buf = Some (canonical_order buf)"
  using sort_cc_from_order [of "[]" buf] by (simp add: sort_cc_def)

section \<open>What the order is\<close>

definition canonically_ordered :: "u32 list \<Rightarrow> bool" where
  "canonically_ordered xs \<longleftrightarrow> successively (\<lambda>x y. starter y \<or> canonical_class x \<le> canonical_class y) xs"

lemma sorted_ordered: "sorted (map canonical_class xs) \<Longrightarrow> canonically_ordered xs"
proof -
  assume "sorted (map canonical_class xs)"
  then have "sorted_wrt (\<lambda>x y. canonical_class x \<le> canonical_class y) xs" by (simp add: sorted_wrt_map)
  then have "successively (\<lambda>x y. canonical_class x \<le> canonical_class y) xs" by (rule successively_if_sorted_wrt)
  then show ?thesis unfolding canonically_ordered_def by (rule successively_mono) simp
qed

lemma canonically_ordered_append:
  "canonically_ordered xs \<Longrightarrow> canonically_ordered ys \<Longrightarrow> (ys \<noteq> [] \<Longrightarrow> starter (hd ys)) \<Longrightarrow> canonically_ordered (xs @ ys)"
  unfolding canonically_ordered_def by (auto simp: successively_append_iff)

lemma hd_canonical_order: "ys \<noteq> [] \<Longrightarrow> starter (hd ys) \<Longrightarrow> hd (canonical_order ys) = hd ys"
  by (cases ys) (simp_all add: canonical_order.simps(2))

lemma canonical_order_ordered: "canonically_ordered (canonical_order xs)"
proof (induction xs rule: canonical_order.induct)
  case 1
  show ?case by (simp add: canonically_ordered_def)
next
  case (2 c cs)
  show ?case
  proof (cases "starter c")
    case True
    then have "canonically_ordered (c # canonical_order cs)"
      using "2.IH"(1) canonical_class_bounds by (cases "canonical_order cs") (auto simp: canonically_ordered_def)
    then show ?thesis using True by (simp add: canonical_order.simps(2))
  next
    case False
    let ?rest = "dropWhile (\<lambda>x. \<not> starter x) (c # cs)"
    have "starter (hd (canonical_order ?rest))" if "canonical_order ?rest \<noteq> []"
    proof -
      have rest: "?rest \<noteq> []" using that by (metis canonical_order.simps(1))
      have "starter (hd ?rest)" using hd_dropWhile [OF rest] by (simp only: not_not)
      with hd_canonical_order [OF rest this] show ?thesis by (simp only:)
    qed
    then have "canonically_ordered (sort_key canonical_class (takeWhile (\<lambda>x. \<not> starter x) (c # cs)) @ canonical_order ?rest)"
      by (intro canonically_ordered_append sorted_ordered "2.IH"(2) [OF False]) simp_all
    then show ?thesis using False by (simp add: canonical_order.simps(2))
  qed
qed

lemma canonical_order_mset: "mset (canonical_order xs) = mset xs"
proof (induction xs rule: canonical_order.induct)
  case (2 c cs)
  let ?P = "\<lambda>x. \<not> starter x"
  have "mset (takeWhile ?P (c # cs)) + mset (dropWhile ?P (c # cs)) = mset (c # cs)"
    by (simp only: takeWhile_dropWhile_id flip: mset_append)
  then show ?case using "2.IH" by (cases "starter c") (simp_all add: canonical_order.simps(2))
qed simp

end
