(* ===== verification/Unicode_Hangul.thy ===== *)
theory Unicode_Hangul
  imports Unicode_Order
begin

text \<open>
  Hangul syllables are decomposed and composed by arithmetic.
\<close>

definition hangul :: "u32 \<Rightarrow> bool" where
  "hangul c \<longleftrightarrow> c \<ge> 0xac00 \<and> c < 0xd7a4"

lemma hangul_number:
  assumes "hangul c"
  obtains n where "n < 11172" and "c = of_nat (44032 + n)"
proof (rule that [of "unat (c - 0xac00)"])
  have c: "44032 \<le> unat c" "unat c < 55204" using assms by (simp_all add: hangul_def word_le_nat_alt word_less_nat_alt)
  then have "unat (c - 0xac00) = unat c - 44032" by (simp add: unat_sub word_le_nat_alt)
  with c show "unat (c - 0xac00) < 11172" "c = of_nat (44032 + unat (c - 0xac00))" by simp_all
qed

lemma word_div_mod:
  assumes "n < 2 ^ 32" and "0 < d" "d < 2 ^ 32"
  shows "(of_nat n :: u32) div of_nat d = of_nat (n div d)" and "(of_nat n :: u32) mod of_nat d = of_nat (n mod d)"
  using assms by (simp_all add: word_unat_eq_iff unat_div unat_mod unat_of_nat div_le_dividend [THEN le_less_trans]
      mod_le_divisor [THEN le_less_trans])

text \<open>The parts of the syllable with number \<open>n\<close>.\<close>

lemma hangul_parts_number:
  assumes "n < 11172"
  shows "hangul_parts (of_nat (44032 + n)) =
    [of_nat (4352 + n div 588), of_nat (4449 + n mod 588 div 28)] @ (if n mod 28 = 0 then [] else [of_nat (4519 + n mod 28)])"
proof -
  have sub: "of_nat (44032 + n) - 0xac00 = (of_nat n :: u32)" by simp
  have dm: "(of_nat n :: u32) div 588 = of_nat (n div 588)" "(of_nat n :: u32) mod 588 = of_nat (n mod 588)"
    "(of_nat n :: u32) mod 28 = of_nat (n mod 28)" "(of_nat (n mod 588) :: u32) div 28 = of_nat (n mod 588 div 28)"
    using assms word_div_mod [of n 588] word_div_mod [of n 28] word_div_mod [of "n mod 588" 28] by simp_all
  have "(of_nat (n mod 28) :: u32) = 0 \<longleftrightarrow> n mod 28 = 0" by (simp add: word_unat_eq_iff unat_of_nat)
  then show ?thesis unfolding hangul_parts_def Let_def sub dm by simp
qed

lemma unat_small: "k < 2 ^ 32 \<Longrightarrow> unat (of_nat k :: u32) = k"
  by (simp add: unat_of_nat)

lemma compose_leading:
  assumes "l < 19" and "v < 21"
  shows "compose_pair (of_nat (4352 + l)) (of_nat (4449 + v)) = Some (of_nat (44032 + (l * 588 + v * 28)))"
proof -
  have "unat (of_nat (4352 + l) :: u32) = 4352 + l" "unat (of_nat (4449 + v) :: u32) = 4449 + v"
    by (rule unat_small, use assms in simp)+
  then show ?thesis
    using assms unfolding compose_pair_def by (simp add: word_le_nat_alt word_less_nat_alt del: of_nat_add) simp
qed

lemma compose_trailing:
  assumes "n < 11172" and "28 dvd n" and "t < 28"
  shows "compose_pair (of_nat (44032 + n)) (of_nat (4519 + t)) = Some (of_nat (44032 + (n + t)))"
proof -
  have u: "unat (of_nat (44032 + n) :: u32) = 44032 + n" "unat (of_nat (4519 + t) :: u32) = 4519 + t"
    by (rule unat_small, use assms in simp)+
  have "of_nat (44032 + n) - 0xac00 = (of_nat n :: u32)" by simp
  moreover have "(of_nat n :: u32) mod 28 = 0" using word_div_mod(2) [of n 28] assms by simp
  ultimately show ?thesis
    using assms u unfolding compose_pair_def by (simp add: word_le_nat_alt word_less_nat_alt del: of_nat_add) simp
qed


text \<open>Composing the parts again.\<close>

lemma hangul_recompose:
  assumes "hangul c"
  shows "case hangul_parts c of
      [l, v] \<Rightarrow> compose_pair l v = Some c
    | [l, v, t] \<Rightarrow> Option.bind (compose_pair l v) (\<lambda>s. compose_pair s t) = Some c
    | _ \<Rightarrow> False"
proof -
  from assms obtain n where n: "n < 11172" and c: "c = of_nat (44032 + n)" by (rule hangul_number)
  define lv where "lv = n div 588 * 588 + n mod 588 div 28 * 28"
  have parts: "lv + n mod 28 = n" "28 dvd lv"
    unfolding lv_def
  proof -
    have "n mod 588 div 28 * 28 + n mod 588 mod 28 = n mod 588" by (rule div_mult_mod_eq)
    moreover have "n mod 588 mod 28 = n mod 28" by (rule mod_mod_cancel) simp
    moreover have "n div 588 * 588 + n mod 588 = n" by (rule div_mult_mod_eq)
    ultimately show "n div 588 * 588 + n mod 588 div 28 * 28 + n mod 28 = n" by linarith
    have "28 dvd n div 588 * (588 :: nat)" by (rule dvd_mult) simp
    then show "28 dvd n div 588 * 588 + n mod 588 div 28 * 28" by simp
  qed
  have lead: "compose_pair (of_nat (4352 + n div 588)) (of_nat (4449 + n mod 588 div 28)) = Some (of_nat (44032 + lv))"
    unfolding lv_def by (rule compose_leading) (use n in simp_all)
  have trail: "compose_pair (of_nat (44032 + lv)) (of_nat (4519 + n mod 28)) = Some (of_nat (44032 + (lv + n mod 28)))"
    by (rule compose_trailing) (use n parts in linarith, rule parts(2), simp)
  show ?thesis
    using lead trail parts(1) unfolding c hangul_parts_number [OF n]
    by (cases "n mod 28 = 0") (simp_all del: of_nat_add)
qed

text \<open>
  The trailing consonants begin at 0x11a8; the code takes 0x11a7, a vowel, for one of them, and
  swallows it.
\<close>

lemma hangul_vowel_swallowed:
  assumes "hangul c" and "(c - 0xac00) mod 28 = 0"
  shows "compose_pair c 0x11a7 = Some c"
proof -
  from assms(1) obtain n where n: "n < 11172" and c: "c = of_nat (44032 + n)" by (rule hangul_number)
  have "c - 0xac00 = of_nat n" using c by simp
  then have "(of_nat (n mod 28) :: u32) = 0" using assms(2) word_div_mod(2) [of n 28] n by simp
  then have "28 dvd n" by (simp add: word_unat_eq_iff unat_of_nat mod_eq_0_iff_dvd)
  from compose_trailing [OF n this, of 0] show ?thesis by (simp add: c)
qed

end
