(* ===== verification/Unicode_Normal.thy ===== *)
theory Unicode_Normal
  imports Unicode_Hangul
begin

text \<open>
  Normalisation as a whole: with memory available, the canonical decomposition of characters that
  the table does not decompose further is their canonical order.
\<close>

section \<open>Buffers that can grow\<close>

text \<open>A buffer without an error whose reallocation function always has memory.\<close>

definition growing :: "'o DynBuf \<Rightarrow> bool" where
  "growing s \<longleftrightarrow> dbuf_wf s \<and> \<not> db_error s \<and> (\<exists>f. db_realloc s = Some f \<and> (\<forall>h p n. fst (f h p n) \<noteq> None))"

lemma growing_realloc:
  assumes s: "growing s" and n: "n < 2 ^ 64"
  obtains s' where "dbuf_realloc s n = Some (0, s')" and "growing s'" and "n \<le> db_allocated s'"
    and "db_contents s' = db_contents s" and "db_size s' = db_size s"
proof -
  from s obtain f where wf: "dbuf_wf s" and err: "\<not> db_error s" and f: "db_realloc s = Some f" "\<forall>h p n. fst (f h p n) \<noteq> None"
    by (auto simp: growing_def)
  have "\<not> (\<exists>s'. dbuf_realloc s n = Some (- 1, s'))"
  proof
    assume "\<exists>s'. dbuf_realloc s n = Some (- 1, s')"
    moreover have "f h p k \<noteq> (None, h')" for h p k h' using f(2) by (metis fst_conv)
    ultimately show False using err f(1)
      by (auto simp: dbuf_realloc_def Let_def split: if_splits option.splits prod.splits)
  qed
  with wf n show thesis
  proof (cases rule: dbuf_realloc_cases)
    case (grown s')
    then show thesis using err f by (intro that [of s']) (auto simp: growing_def)
  qed blast
qed

lemma growing_put:
  assumes s: "growing s" and n: "db_size s + length bs < 2 ^ 64"
  obtains s' where "dbuf_put s bs = Some (0, s')" and "growing s'"
    and "db_contents s' = db_contents s @ bs" and "db_size s' = db_size s + length bs"
proof -
  have wf: "dbuf_wf s" using s by (simp add: growing_def)
  from growing_realloc [OF s n] obtain s1 where s1: "dbuf_realloc s (db_size s + length bs) = Some (0, s1)" "growing s1"
      "db_size s + length bs \<le> db_allocated s1" "db_contents s1 = db_contents s" "db_size s1 = db_size s" .
  have res: "dbuf_reserve s (length bs) = Some (0, s1)" using dbuf_reserve_realloc [OF wf n] s1(1) by simp
  show thesis
  proof (cases "bs = []")
    case True
    then show thesis using res s1 by (intro that [of s1]) (simp_all add: dbuf_put_def)
  next
    case False
    have wf1: "dbuf_wf s1" using s1(2) by (simp add: growing_def)
    have fits: "db_size s1 + length bs \<le> db_allocated s1" using s1(3,5) by simp
    from dbuf_copy_end [OF wf1 fits] obtain t where t: "dbuf_copy s1 (db_size s1) bs = Some t"
      "dbuf_wf (t\<lparr>db_size := db_size s1 + length bs\<rparr>)"
      "db_contents (t\<lparr>db_size := db_size s1 + length bs\<rparr>) = db_contents s1 @ bs"
      "db_error t = db_error s1" "db_size t = db_size s1"
      by (metis order_refl take_all)
    have "db_realloc t = db_realloc s1"
      using t(1) by (auto simp: dbuf_copy_def split: option.splits if_splits)
    then have "growing (t\<lparr>db_size := db_size s1 + length bs\<rparr>)" using t(2,4) s1(2) by (auto simp: growing_def)
    moreover have "dbuf_put s bs = Some (0, t\<lparr>db_size := db_size s1 + length bs\<rparr>)"
      using False res t(1) n s1(5) by (simp add: dbuf_put_def size_sum_exact t(5))
    ultimately show thesis using t(3) s1(4,5) by (intro that [of "t\<lparr>db_size := db_size s1 + length bs\<rparr>"]) simp_all
  qed
qed

text \<open>The bytes of 32-bit values.\<close>

definition u32_bytes :: "u32 list \<Rightarrow> u8 list" where
  "u32_bytes cs = concat (map (\<lambda>c. le_bytes 4 (unat c)) cs)"

lemma u32_bytes_simps [simp]: "u32_bytes [] = []" "u32_bytes (c # cs) = le_bytes 4 (unat c) @ u32_bytes cs"
  "u32_bytes (cs @ ds) = u32_bytes cs @ u32_bytes ds"
  by (simp_all add: u32_bytes_def)

lemma length_u32_bytes: "length (u32_bytes cs) = 4 * length cs"
  by (induction cs) simp_all

lemma growing_put_all:
  assumes "growing s" and "db_size s + 4 * length cs < 2 ^ 64"
  shows "\<exists>s'. dbuf_put_all s cs = Some s' \<and> growing s' \<and> db_contents s' = db_contents s @ u32_bytes cs \<and>
     db_size s' = db_size s + 4 * length cs"
  using assms
proof (induction cs arbitrary: s)
  case (Cons c cs)
  have "db_size s + length (le_bytes 4 (unat c)) < 2 ^ 64" using Cons.prems(2) by simp
  from growing_put [OF Cons.prems(1) this] obtain s1 where s1: "dbuf_put s (le_bytes 4 (unat c)) = Some (0, s1)" "growing s1"
    "db_contents s1 = db_contents s @ le_bytes 4 (unat c)" "db_size s1 = db_size s + length (le_bytes 4 (unat c))" .
  then have "db_size s1 + 4 * length cs < 2 ^ 64" using Cons.prems(2) by simp
  from Cons.IH [OF s1(2) this] s1 show ?case by (auto simp: dbuf_put_u32_def)
qed simp

lemma get_u32_bytes_nth:
  assumes "i < length cs"
  shows "get_u32 (u32_bytes cs) (4 * i) = Some (cs ! i)"
  using assms
proof (induction cs arbitrary: i)
  case (Cons c cs)
  show ?case
  proof (cases i)
    case 0
    have "(of_nat (le_nat (le_bytes 4 (unat c))) :: u32) = c"
      using unsigned_less [where 'a = nat, of c] by (simp add: le_nat_le_bytes)
    then show ?thesis using 0 by (simp add: get_u32_def rd_block_def)
  next
    case (Suc j)
    then have "get_u32 (u32_bytes cs) (4 * j) = Some (cs ! j)" using Cons by simp
    then show ?thesis using Suc by (auto simp: get_u32_def rd_block_def split: if_splits)
  qed
qed simp

lemma u32s_of_u32_bytes: "u32s_of_bytes (u32_bytes cs) = Some cs"
proof -
  have "map (\<lambda>i. get_u32 (u32_bytes cs) (4 * i)) [0..<length cs] = map Some (map (nth cs) [0..<length cs])"
    by (simp add: get_u32_bytes_nth)
  moreover have "those (map Some xs) = Some xs" for xs :: "u32 list" by (induction xs) simp_all
  ultimately show ?thesis by (simp add: u32s_of_bytes_def length_u32_bytes map_nth)
qed

section \<open>Decomposition\<close>

text \<open>Characters that are not decomposed by the table, and what becomes of them.\<close>

definition plain :: "bool \<Rightarrow> u32 \<Rightarrow> bool" where
  "plain is_compat c \<longleftrightarrow> hangul c \<or> (\<exists>res. unicode_decomp_char c is_compat = Some (res, 0))"

definition nfd_parts :: "u32 \<Rightarrow> u32 list" where
  "nfd_parts c = (if hangul c then hangul_parts c else [c])"

lemma to_nfd_plain:
  assumes "\<forall>c \<in> set src. plain k c" and "growing s" and "db_size s + 4 * length (concat (map nfd_parts src)) < 2 ^ 64"
  shows "\<exists>s'. to_nfd_rec k s src = Some s' \<and> growing s' \<and> db_contents s' = db_contents s @ u32_bytes (concat (map nfd_parts src)) \<and>
     db_size s' = db_size s + 4 * length (concat (map nfd_parts src))"
  using assms
proof (induction src arbitrary: s)
  case Nil
  then show ?case by (simp add: to_nfd_rec.simps)
next
  case (Cons c src)
  have step: "to_nfd_rec k s (c # src) = do { s \<leftarrow> dbuf_put_all s (nfd_parts c); to_nfd_rec k s src }"
    using Cons.prems(1) by (subst to_nfd_rec.simps) (auto simp: plain_def nfd_parts_def hangul_def)
  have "db_size s + 4 * length (nfd_parts c) < 2 ^ 64" using Cons.prems(3) by simp
  from growing_put_all [OF Cons.prems(2) this] obtain s1 where s1: "dbuf_put_all s (nfd_parts c) = Some s1" "growing s1"
    "db_contents s1 = db_contents s @ u32_bytes (nfd_parts c)" "db_size s1 = db_size s + 4 * length (nfd_parts c)" by blast
  then have "db_size s1 + 4 * length (concat (map nfd_parts src)) < 2 ^ 64" using Cons.prems(3) by simp
  from Cons.IH [OF _ s1(2) this] Cons.prems(1) s1(1,3,4) show ?case by (simp add: step add.assoc)
qed

lemma int_of_size_small:
  assumes "n < 2 ^ 31"
  shows "int_of_size n = int n"
proof -
  have "take_bit 31 (int n) = int n" using assms by (intro take_bit_int_eq_self) simp_all
  then show ?thesis
    using assms by (simp add: int_of_size_def signed_of_nat signed_take_bit_int_eq_self_iff)
qed

lemma length_nfd_parts: "1 \<le> length (nfd_parts c)"
  by (simp add: nfd_parts_def hangul_parts_def Let_def)

lemma normalize_nfd_plain:
  assumes src: "\<forall>c \<in> set src. plain False c" and len: "length (concat (map nfd_parts src)) < 2 ^ 31"
    and f: "keeps_bytes f" "\<And>h p n. fst (f h p n) \<noteq> None"
  shows "unicode_normalize libc (Some f) h src (int (length src)) UNICODE_NFD =
    Some (Some (canonical_order (concat (map nfd_parts src))), int (length (concat (map nfd_parts src))))"
proof -
  let ?s = "dbuf_init2 libc h (Some f)" and ?out = "concat (map nfd_parts src)"
  have s: "growing ?s" "db_contents ?s = []" "db_size ?s = 0"
    using f by (auto simp: growing_def dbuf_wf_def dbuf_init2_def db_contents_def)
  have "length src \<le> length ?out"
  proof (induction src)
    case (Cons c src)
    then show ?case using add_mono [OF length_nfd_parts [of c] Cons] by simp
  qed simp
  then have small: "4 * length src < 2 ^ 64" using len by simp
  have "4 * int (length src) mod 2 ^ 64 = int (4 * length src)" using small by simp
  then have size: "nat (4 * int (length src) mod 2 ^ 64) = 4 * length src" by (simp only: nat_int)
  from growing_realloc [OF s(1) small] obtain s1 where s1: "dbuf_realloc ?s (4 * length src) = Some (0, s1)" "growing s1"
    "db_contents s1 = []" "db_size s1 = 0" using s(2,3) by metis
  have "db_size s1 + 4 * length ?out < 2 ^ 64" using len s1(4) by simp
  from to_nfd_plain [OF src s1(2) this] s1(3,4) obtain s2 where s2: "to_nfd_rec False s1 src = Some s2" "growing s2"
    "db_contents s2 = u32_bytes ?out" "db_size s2 = 4 * length ?out" by auto
  have noerr: "\<not> dbuf_error s2" using s2(2) by (simp add: growing_def dbuf_error_def)
  have buf_len: "int_of_size (db_size s2 div 4) = int (length ?out)"
    using int_of_size_small [OF len] s2(4) by (simp only: nonzero_mult_div_cancel_left)
  show ?thesis
    by (simp only: unicode_normalize_def Let_def size s1(1) s2(1,3) buf_len u32s_of_u32_bytes sort_cc_canonical
        nat_int take_all drop_all le_refl append_Nil2 bind.bind_lunit prod.case if_True if_False noerr
        less_irrefl simp_thms UnicodeNormalizationEnum.simps not_True_eq_False not_False_eq_True)
qed

text \<open>The first entry of the table is for the no-break space: characters below it are plain.\<close>

lemma decomp_codes: "list_all (\<lambda>v. 0xa0 \<le> decomp_code v) unicode_decomp_table1"
  by code_simp

lemma decomp_search_below:
  assumes "c < 0xa0" and "0 \<le> lo" and "hi < int (length unicode_decomp_table1)"
  shows "decomp_search c lo hi = Some None"
  using assms
proof (induction c lo hi rule: decomp_search.induct)
  case (1 c lo hi)
  show ?case
  proof (cases "lo \<le> hi")
    case True
    let ?i = "nat ((hi + lo) div 2)"
    have i: "?i < length unicode_decomp_table1" using True "1.prems"(2,3) by (simp add: nat_less_iff)
    then have "0xa0 \<le> decomp_code (unicode_decomp_table1 ! ?i)" using decomp_codes by (simp add: list_all_length)
    then have less: "c < decomp_code (unicode_decomp_table1 ! ?i)" using "1.prems"(1) by (rule less_le_trans [rotated])
    have "decomp_search c lo ((hi + lo) div 2 - 1) = Some None"
      using "1.IH"(1) [OF True refl _ less] i "1.prems" True by simp
    then show ?thesis using True i less by (subst decomp_search.simps) (simp add: Let_def)
  qed (subst decomp_search.simps, simp)
qed

lemma plain_below: "c < 0xa0 \<Longrightarrow> plain k c"
  using decomp_search_below [of c 0 "int (length unicode_decomp_table1) - 1"]
  by (simp add: plain_def unicode_decomp_char_def)

end
