(* ===== verification/Norm_Claims.thy ===== *)
theory Norm_Claims
  imports Unicode_Normal
begin

text \<open>
  The properties of the normalisation of \<^verbatim>\<open>quickjs/libunicode.c\<close>.
\<close>

section \<open>Combining classes and their order\<close>

text \<open>C37: The combining class of every character is defined, a byte, and what decoding the
  whole table from its start gives: the index only shortens the walk.\<close>

theorem get_cc_equals_decoding:
  "unicode_get_cc c = Some (canonical_class c) \<and> canonical_class c \<in> {0..255}"
  using unicode_get_cc_class canonical_class_bounds by simp

text \<open>C38: \<^verbatim>\<open>sort_cc\<close> stays inside its buffer, ends, and brings it into canonical order:
  every run between starters is sorted by combining class, stably, and nothing else moves.\<close>

theorem sort_cc_orders:
  "\<exists>out. sort_cc buf = Some out \<and> out = canonical_order buf \<and> canonically_ordered out \<and> mset out = mset buf"
  using sort_cc_canonical canonical_order_ordered canonical_order_mset by blast

section \<open>Hangul\<close>

text \<open>C39: The two or three parts that a Hangul syllable is decomposed into are composed to the
  syllable again.\<close>

theorem hangul_round_trip:
  assumes "0xac00 \<le> c" and "c < 0xd7a4"
  shows "case hangul_parts c of
      [l, v] \<Rightarrow> compose_pair l v = Some c
    | [l, v, t] \<Rightarrow> Option.bind (compose_pair l v) (\<lambda>s. compose_pair s t) = Some c
    | _ \<Rightarrow> False"
  by (rule hangul_recompose) (simp add: hangul_def assms)

lemma hangul_round_trip_witness:
  "hangul_parts 0xac01 = [0x1100, 0x1161, 0x11a8] \<and>
   Option.bind (compose_pair 0x1100 0x1161) (\<lambda>s. compose_pair s 0x11a8) = Some 0xac01"
proof -
  have parts: "hangul_parts 0xac01 = [0x1100, 0x1161, 0x11a8]" by (simp add: hangul_parts_def)
  have "0xac00 \<le> (0xac01 :: u32)" "(0xac01 :: u32) < 0xd7a4" by simp_all
  from hangul_round_trip [OF this] parts show ?thesis by simp
qed

section \<open>Normal form D\<close>

text \<open>C40: When there is memory, the canonical decomposition of a text of Hangul syllables and of
  characters that the table does not decompose is the canonical order of its parts, and its length
  is returned, as long as that is an \<^verbatim>\<open>int\<close> value.\<close>

theorem nfd_of_plain_text:
  assumes "\<forall>c \<in> set src. plain False c" and "length (concat (map nfd_parts src)) < 2 ^ 31"
    and "keeps_bytes f" and "\<And>h p n. fst (f h p n) \<noteq> None"
  shows "unicode_normalize libc (Some f) h src (int (length src)) UNICODE_NFD =
    Some (Some (canonical_order (concat (map nfd_parts src))), int (length (concat (map nfd_parts src))))"
  using assms by (rule normalize_nfd_plain)

definition example_realloc :: "unit realloc" where
  "example_realloc h p n = (Some (take n (case p of None \<Rightarrow> [] | Some b \<Rightarrow> b) @ replicate (n - length (case p of None \<Rightarrow> [] | Some b \<Rightarrow> b)) 0), h)"

lemma example_realloc_ok: "keeps_bytes example_realloc" "fst (example_realloc h p n) \<noteq> None"
  by (auto simp: keeps_bytes_def example_realloc_def)

lemma nfd_of_plain_text_witness:
  "unicode_normalize example_realloc (Some example_realloc) () [0x61, 0xac01] 2 UNICODE_NFD =
     Some (Some (canonical_order [0x61, 0x1100, 0x1161, 0x11a8]), 4)"
proof -
  have "plain False 0x61" "plain False 0xac01"
    by (rule plain_below, simp) (simp add: plain_def hangul_def)
  then have plain: "\<forall>c \<in> set [0x61, 0xac01]. plain False c" by simp
  have parts: "concat (map nfd_parts [0x61, 0xac01]) = [0x61, 0x1100, 0x1161, 0x11a8]"
    by (simp add: nfd_parts_def hangul_def hangul_parts_def)
  have short: "length (concat (map nfd_parts [0x61, 0xac01])) < 2 ^ 31" unfolding parts by simp
  have "int (length [0x61, 0xac01 :: u32]) = 2" and "int (length [0x61, 0x1100, 0x1161, 0x11a8 :: u32]) = 4" by simp_all
  then show ?thesis
    using nfd_of_plain_text [OF plain short example_realloc_ok, of example_realloc "()"] unfolding parts by (simp only:)
qed

end
