(* ===== verification/Spec2Isabelle.thy ===== *)
theory Spec2Isabelle
  imports
    Parser_Claims Codegen_Claims Library_Claims Lexer_Claims
    Utf8_Claims Cutils_Claims Unicode_Claims Norm_Claims
begin

text \<open>
  The macro processor of the moe toolchain, a command line program in C, and the parts of the
  vendored QuickJS support libraries that are plain algorithms.

  \<^bold>\<open>The program.\<close>  \<^verbatim>\<open>src/moe/proc_macro/proc_macro.c\<close> reads a C header with
  \<^verbatim>\<open>stb_c_lexer.h\<close>.  Wherever it finds \<^verbatim>\<open>MOE_PROC_MACRO_DERIVES\<close> it parses a derived
  struct: its name, its derive items and the tokens of its body.  It hands the tokens to JavaScript
  handlers in QuickJS and appends what the last of them returned to an output file.  Strings, lists
  and a counting allocator come from \<^verbatim>\<open>src/moe/common\<close>; at the end the allocator's leak check
  must find every block freed.

  \<^bold>\<open>How C is modelled\<close> (\<open>C_Prelude\<close>, \<open>C_Memory\<close>).  A function with effects is
  a state transformer that returns an error or a result with the new state; the errors are failed
  assertions, uses of null, invalid accesses and frees, signed overflow and loops that do not end.
  A loop is \<open>cloop\<close>, whose value is the error \<open>Nontermination\<close> when it does not end, so a
  theorem that a function returns includes that its loops end.  A block of memory has a number
  that is never used again (\<open>Moe_Alloc\<close>), so a use after a free is an invalid access.
  Machine integers are words, or integers with their range written out.  The functions of the
  vendored libraries that work on arrays of their callers are over lists with checked accesses.

  \<^bold>\<open>Theories, in the order of the code.\<close>
  \<^item> \<open>Moe_List\<close>: \<^verbatim>\<open>moe_list.c\<close>, the circular lists of nodes inside other objects, over a
    heap of nodes; interface \<open>node_sequence\<close>, a sequence of nodes.
  \<^item> \<open>Moe_Alloc\<close>, \<open>Ownership\<close>: \<^verbatim>\<open>moe_alloc.c\<close>; the interfaces \<open>owned\<close> and
    \<open>destructible\<close> say which blocks a value owns and that its destructor frees them.
    \<open>Heap_Steps\<close> is the step relation of its histories, with the memories they reach.
  \<^item> \<open>Moe_Types\<close>, \<open>Moe_String\<close>: the structs, and \<^verbatim>\<open>moe_string.c\<close>.
  \<^item> \<open>Stb_Lexer\<close>, \<open>Lexer_Props\<close>: the lexer; interface \<open>token_source\<close>, a reader whose
    every token consumes input.
  \<^item> \<open>Token_Stream\<close>, \<open>Token_Rep\<close>, \<open>Derived_Build\<close>: tokens, derive items and structs
    (\<^verbatim>\<open>proc_macro.c\<close>, 17 to 274), and what they represent.
  \<^item> \<open>Derive_Parser\<close>, \<open>Parser_Spec\<close>, \<open>Parser_Refine\<close>, \<open>Parser_Safety\<close>: the parser
    (276 to 440), its specification \<open>spec_parse\<close> without memory, the refinement and the errors.
  \<^item> \<open>Codegen\<close>: code generation, files and \<^verbatim>\<open>main\<close> (442 to 742).  \<open>Codegen_Spec\<close> and
    \<open>Codegen_Program\<close> specify it on the lexer, the engine and the files; \<open>Codegen_Refine\<close>,
    \<open>Codegen_Struct\<close>, \<open>Codegen_Emit\<close>, \<open>Codegen_Main\<close>, \<open>Codegen_Run\<close> and
    \<open>Codegen_Program\<close> prove the refinement from one token up to \<^verbatim>\<open>main\<close>;
    \<open>Codegen_Errors\<close> bounds the errors.
  \<^item> \<open>Refinement\<close>: \<open>refines P f g Q\<close>, the simulation that these proofs compose.
  \<^item> \<open>Cutils_Bits\<close>, \<open>Dyn_Buf\<close>, \<open>Utf8\<close>, \<open>Cutils_Sort\<close>, \<open>Cutils_String\<close>:
    \<^verbatim>\<open>quickjs/cutils.c\<close> and \<^verbatim>\<open>cutils.h\<close>; their proofs are in the \<open>Utf8_\<close> and
    \<open>Sort_\<close> theories, with the interface \<open>comparator\<close> between the sorts and their callers.
  \<^item> \<open>Char_Range\<close>, \<open>Unicode_Tables\<close>, \<open>Unicode_Lookup\<close>, \<open>Case_Conv\<close>:
    \<^verbatim>\<open>quickjs/libunicode.c\<close> and the tables it reads; the proofs are in \<open>Char_Range_Sets\<close>,
    \<open>Char_Range_Ops\<close>, \<open>Char_Range_Sort\<close>, \<open>Unicode_Sets\<close>, \<open>Unicode_Props\<close>,
    \<open>Case_Conv_Props\<close> and \<open>Case_Conv_Total\<close>.
  \<^item> \<open>Unicode_Norm_Tables\<close>, \<open>Unicode_Norm\<close>: normalisation (\<^verbatim>\<open>libunicode.c\<close>, 553 to
    1022).  \<open>Unicode_Classes\<close> decodes the combining classes, \<open>Unicode_Order\<close> specifies the
    canonical order, \<open>Unicode_Hangul\<close> the syllables, and \<open>Unicode_Normal\<close> composes them with
    the buffers of \<open>Dyn_Buf\<close>.
  \<^item> The theories whose names end in \<open>Claims\<close> state the properties, each with an instance.

  \<^bold>\<open>What is shown.\<close>
  \<^item> \<open>Parser_Claims\<close>: the parser refines \<open>spec_parse\<close>; it always ends, and only by a failed
    assertion or a read behind the input; what it built is destroyed without a trace; the array of
    derive items is never exceeded.
  \<^item> \<open>Codegen_Claims\<close>: \<^verbatim>\<open>main\<close> refines \<open>spec_main\<close>; each struct leaks exactly the
    codes that later handlers overwrite; the possible errors of the whole program, and what the
    engine or the files must do for each; what is live at the leak check.
  \<^item> \<open>Library_Claims\<close>: lists as sequences, traversals, strings, the allocator's balance.
  \<^item> \<open>Lexer_Claims\<close>: progress, termination, and reading back what was written.
  \<^item> \<open>Utf8_Claims\<close>, \<open>Cutils_Claims\<close>, \<open>Unicode_Claims\<close>: round trips of encodings,
    sorting with a bounded stack, buffers, ranges as sets, table lookups against plain decoding,
    case conversion inside its tables.
  \<^item> \<open>Norm_Claims\<close>: combining classes, canonical ordering as a stable sort, the round trip of
    Hangul syllables, and normal form D.

  \<^bold>\<open>Bounds.\<close>  The recursion of a \<open>fun\<close> is on the data or has a measure; the measure of the
  parser's loops and of the main loop is the input the lexer has left.  The loops over whole buffers
  in \<open>Utf8\<close> take the number of bytes or units as fuel, which is enough because every round
  consumes one: the theorems of \<open>Utf8_Claims\<close> on them say that they return.  Nothing else has
  fuel.  The recursion of the decomposition, whose end depends on the data of its tables, is a
  \<open>partial_function\<close>; the theorem on it says that it ends for the texts it is about.  Theorems
  on \<^verbatim>\<open>main\<close> assume that file sizes and the engine's strings fit in an \<^verbatim>\<open>int\<close>, as the
  program does, and that the output file is neither the input nor the script.

  \<^bold>\<open>Parameters.\<close>  The JavaScript engine is a record of the functions of its interface that the
  program calls, from \<^verbatim>\<open>JS_NewRuntime\<close> to \<^verbatim>\<open>JS_FreeRuntime\<close>, whose assertion may fail; the
  functions that run code of a script may not return, and a string may be null.  Theorems quantify
  over it.  \<^verbatim>\<open>malloc\<close> always succeeds.  Files are a map from paths to contents, and a file opens
  for writing or does not.  The reallocation function of the buffers and the comparison functions of
  the sorts are parameters, as in the code.

  \<^bold>\<open>Not modelled.\<close>  The QuickJS engine itself and its regular expressions and number
  formatting: third-party code behind the interface above.  In \<^verbatim>\<open>cutils\<close>: clocks, threads, the
  executable's path, and the conversion of half floats, which need the operating system or floating
  point.  In \<^verbatim>\<open>libunicode\<close>: scripts, general categories, case folding of whole ranges and
  the properties whose tables are further generated data.  In the lexer: the self test, and the number parsing that
  the configuration replaces by the C library's.  The macros for client code, the scripts and the
  tools: they have no part in the processor's behaviour.
\<close>

end
